(* ===== verification/Cayu_Prelude.thy ===== *)
theory Cayu_Prelude
  imports
    Complex_Main
    "HOL-Library.AList"
    "HOL-Library.Char_ord"
    "HOL-Library.Finite_Map"
    "HOL-Library.List_Lexorder"
    "HOL-Library.Product_Lexorder"
begin

text \<open>
  Shared vocabulary of the development: the exceptions the modelled Python code raises, results and
  state transformers that may raise, insertion-ordered dictionaries, JSON values, text checks,
  UTC instants and the \<open>bisect\<close> helpers.  Generic lemmas are collected in the named theorem
  lists \<open>res_simps\<close> (inversion of results) and \<open>dict_simps\<close> (dictionaries).
\<close>

named_theorems res_simps \<open>inversion of results that may carry an exception\<close>
named_theorems dict_simps \<open>insertion-ordered dictionaries\<close>

section \<open>Exceptions and results\<close>

text \<open>
  One constructor per exception class raised by the modelled code.  Messages are not modelled; the
  class is what callers can catch.
\<close>

datatype err =
    ValueError
  | TypeError
  | KeyError
  | LookupError
  | RuntimeError
  | OverflowError
  | AssertionError
  | BudgetReservationIdentityConflict
  | BudgetBindingRegistrationConflict
  | BudgetBindingAllowanceExhausted
  | TaskClaimLost
  | TaskScheduleConflict
  | TaskTerminalizationConflict
  | TaskGraphConflict
  | TaskGraphUnavailable
  | TaskGroupConflict
  | TaskGroupUnavailable
  | TaskGroupResultResolutionPending
  | TaskInterruptedHandoffConflict
  | TaskCompletionDecisionRequired
  | WorkAttemptExecutionClaimLost
  | WorkCompletionConflict
  | WorkContractConflict
  | TaskTopologyInconsistent
  | TaskCreationConflict
  | TaskCreationResultDeleted
  | TaskRetryBudgetExhausted
  | TaskEventAlreadyCompleted
  | TaskRestartLimitReached | UsageCounterOverflow

type_synonym 'a result = "err + 'a"

definition bind_res :: "'a result \<Rightarrow> ('a \<Rightarrow> 'b result) \<Rightarrow> 'b result" where
  "bind_res r f = (case r of Inl e \<Rightarrow> Inl e | Inr x \<Rightarrow> f x)"

lemma bind_res_simps [simp]:
  "bind_res (Inl e) f = Inl e"
  "bind_res (Inr x) f = f x"
  by (simp_all add: bind_res_def)

lemma bind_res_eq_Inr [res_simps]: "bind_res r f = Inr y \<longleftrightarrow> (\<exists>x. r = Inr x \<and> f x = Inr y)"
  by (cases r) auto

lemma bind_res_eq_Inl [res_simps]:
  "bind_res r f = Inl e \<longleftrightarrow> r = Inl e \<or> (\<exists>x. r = Inr x \<and> f x = Inl e)"
  by (cases r) auto

definition raise_if :: "bool \<Rightarrow> err \<Rightarrow> unit result" where
  "raise_if b e = (if b then Inl e else Inr ())"

lemma raise_if_eq [res_simps]:
  "raise_if b e = Inr u \<longleftrightarrow> \<not> b"
  "raise_if b e = Inl e' \<longleftrightarrow> b \<and> e' = e"
  by (auto simp: raise_if_def)

lemma raise_if_simps [simp]:
  "raise_if True e = Inl e"
  "raise_if False e = Inr ()"
  by (simp_all add: raise_if_def)

text \<open>A comprehension whose element expression may raise: the first exception wins.\<close>

fun traverse_res :: "('a \<Rightarrow> 'b result) \<Rightarrow> 'a list \<Rightarrow> 'b list result" where
  "traverse_res f [] = Inr []"
| "traverse_res f (x # xs) = bind_res (f x) (\<lambda>y. bind_res (traverse_res f xs) (\<lambda>ys. Inr (y # ys)))"

lemma traverse_res_Inr:
  "traverse_res f xs = Inr ys \<longleftrightarrow> list_all2 (\<lambda>x y. f x = Inr y) xs ys"
  by (induction xs arbitrary: ys)
    (auto simp: res_simps list_all2_Cons1)

lemma traverse_res_length: "traverse_res f xs = Inr ys \<Longrightarrow> length ys = length xs"
  by (auto simp: traverse_res_Inr dest: list_all2_lengthD)

text \<open>
  A method that mutates its object and may raise: the outcome and the object afterwards.  An
  exception raised half way keeps the mutations made so far, as in the source.
\<close>

type_synonym ('s, 'a) action = "'s \<Rightarrow> 'a result \<times> 's"

definition bind_act :: "('s, 'a) action \<Rightarrow> ('a \<Rightarrow> ('s, 'b) action) \<Rightarrow> ('s, 'b) action" where
  "bind_act m f s = (case m s of (Inl e, s') \<Rightarrow> (Inl e, s') | (Inr x, s') \<Rightarrow> f x s')"

definition return_act :: "'a \<Rightarrow> ('s, 'a) action" where
  "return_act x s = (Inr x, s)"

definition lift_res :: "'a result \<Rightarrow> ('s, 'a) action" where
  "lift_res r s = (r, s)"

lemma bind_act_eq_Inr [res_simps]:
  "bind_act m f s = (Inr y, t) \<longleftrightarrow> (\<exists>x u. m s = (Inr x, u) \<and> f x u = (Inr y, t))"
  by (auto simp: bind_act_def split: prod.splits sum.splits)

lemma return_act_eq [res_simps]: "return_act x s = (r, t) \<longleftrightarrow> r = Inr x \<and> t = s"
  by (auto simp: return_act_def)

lemma lift_res_eq [res_simps]: "lift_res q s = (r, t) \<longleftrightarrow> r = q \<and> t = s"
  by (auto simp: lift_res_def)

definition modify_act :: "('s \<Rightarrow> 's) \<Rightarrow> ('s, unit) action" where
  "modify_act f s = (Inr (), f s)"

text \<open>A computation that reads the object without changing it.\<close>

definition query_act :: "('s \<Rightarrow> 'a result) \<Rightarrow> ('s, 'a) action" where
  "query_act f s = (f s, s)"

fun each_act :: "('a \<Rightarrow> ('s, unit) action) \<Rightarrow> 'a list \<Rightarrow> ('s, unit) action" where
  "each_act f [] = return_act ()"
| "each_act f (x # xs) = bind_act (f x) (\<lambda>_. each_act f xs)"

lemma modify_act_eq [res_simps]: "modify_act f s = (r, t) \<longleftrightarrow> r = Inr () \<and> t = f s"
  by (auto simp: modify_act_def)

lemma query_act_eq [res_simps]: "query_act f s = (r, t) \<longleftrightarrow> r = f s \<and> t = s"
  by (auto simp: query_act_def)

text \<open>
  What an action may do to its object, whether it returns or raises: \<open>moves R m s\<close> says that \<open>m\<close>, started
  on \<open>s\<close>, only makes a sequence of \<open>R\<close> steps.  The rules follow the structure of an action.
\<close>

definition moves :: "('s \<Rightarrow> 's \<Rightarrow> bool) \<Rightarrow> ('s, 'a) action \<Rightarrow> 's \<Rightarrow> bool" where
  "moves R m s \<longleftrightarrow> R\<^sup>*\<^sup>* s (snd (m s))"

lemma movesD: "moves R m s \<Longrightarrow> m s = (r, t) \<Longrightarrow> R\<^sup>*\<^sup>* s t"
  by (simp add: moves_def)

lemma moves_bind:
  assumes "moves R m s" "\<And>x t. m s = (Inr x, t) \<Longrightarrow> moves R (f x) t"
  shows "moves R (bind_act m f) s"
proof (cases "m s")
  case (Pair r t)
  show ?thesis
  proof (cases r)
    case (Inl e)
    with Pair assms(1) show ?thesis by (simp add: moves_def bind_act_def)
  next
    case (Inr x)
    with Pair assms(1) assms(2) [of x t] show ?thesis by (auto simp: moves_def bind_act_def)
  qed
qed

lemma moves_pure [simp, intro]:
  "moves R (return_act x) s" "moves R (lift_res r) s" "moves R (query_act f) s"
  by (simp_all add: moves_def return_act_def lift_res_def query_act_def)

lemma moves_one: "R s (snd (m s)) \<Longrightarrow> moves R m s"
  by (auto simp: moves_def)

lemma moves_modify: "R s (f s) \<Longrightarrow> moves R (modify_act f) s"
  by (auto simp: moves_def modify_act_def)

lemma moves_each: "(\<And>x s. x \<in> set xs \<Longrightarrow> moves R (f x) s) \<Longrightarrow> moves R (each_act f xs) s"
  by (induction xs arbitrary: s) (auto intro: moves_bind)

section \<open>Dictionaries\<close>

text \<open>
  A Python dictionary keeps insertion order and overwrites in place: an association list with the
  library's \<open>AList.update\<close>.
\<close>

type_synonym ('k, 'v) dict = "('k \<times> 'v) list"

abbreviation dict_get :: "('k, 'v) dict \<Rightarrow> 'k \<Rightarrow> 'v option" where
  "dict_get \<equiv> map_of"

abbreviation dict_del :: "'k \<Rightarrow> ('k, 'v) dict \<Rightarrow> ('k, 'v) dict" where
  "dict_del \<equiv> AList.delete"

abbreviation dict_put :: "'k \<Rightarrow> 'v \<Rightarrow> ('k, 'v) dict \<Rightarrow> ('k, 'v) dict" where
  "dict_put \<equiv> AList.update"

definition dict_ok :: "('k, 'v) dict \<Rightarrow> bool" where
  "dict_ok d \<longleftrightarrow> distinct (map fst d)"

definition dict_values :: "('k, 'v) dict \<Rightarrow> 'v list" where
  "dict_values d = map snd d"

text \<open>\<open>{**a, **b}\<close>: later keys overwrite earlier ones in place, new keys are appended.\<close>

definition dict_merge :: "('k, 'v) dict \<Rightarrow> ('k, 'v) dict \<Rightarrow> ('k, 'v) dict" where
  "dict_merge a b = fold (\<lambda>(k, v) d. dict_put k v d) b a"

lemma dict_get_put [dict_simps]:
  "dict_get (dict_put k v d) k' = (if k' = k then Some v else dict_get d k')"
  by (simp add: update_conv')

lemma dict_ok_put [dict_simps, intro]: "dict_ok d \<Longrightarrow> dict_ok (dict_put k v d)"
  by (simp add: dict_ok_def distinct_update)

lemma dict_ok_Nil [dict_simps, simp]: "dict_ok []"
  by (simp add: dict_ok_def)

lemma dict_put_new: "k \<notin> fst ` set d \<Longrightarrow> dict_put k v d = d @ [(k, v)]"
  by (induction d) auto

lemma dict_put_absent: "dict_get d k = None \<Longrightarrow> dict_put k v d = d @ [(k, v)]"
  by (simp add: dict_put_new map_of_eq_None_iff)

lemma dict_in_set: "dict_ok d \<Longrightarrow> (k, v) \<in> set d \<longleftrightarrow> dict_get d k = Some v"
  by (simp add: dict_ok_def)

lemma dict_put_present:
  assumes "dict_ok d" "dict_get d k = Some v"
  obtains xs ys where "d = xs @ (k, v) # ys" "k \<notin> fst ` set xs" "k \<notin> fst ` set ys"
    "\<And>w. dict_put k w d = xs @ (k, w) # ys"
proof -
  from assms have "(k, v) \<in> set d" by (simp add: dict_in_set)
  then obtain xs ys where d: "d = xs @ (k, v) # ys" by (auto simp: in_set_conv_decomp)
  with assms(1) have notin: "k \<notin> fst ` set xs" "k \<notin> fst ` set ys"
    by (auto simp: dict_ok_def)
  have "dict_put k w (xs @ (k, v) # ys) = xs @ (k, w) # ys" for w
    using notin(1) by (induction xs) auto
  with d notin that show thesis by auto
qed

lemma dict_keys_put:
  "map fst (dict_put k v d) = (if k \<in> fst ` set d then map fst d else map fst d @ [k])"
  by (induction d) auto

text \<open>The interface a keyed collection offers its clients, in the style of an abstract map.\<close>

locale keyed_collection =
  fixes none :: "'m"
    and get :: "'m \<Rightarrow> 'k \<Rightarrow> 'v option"
    and put :: "'k \<Rightarrow> 'v \<Rightarrow> 'm \<Rightarrow> 'm"
    and ok :: "'m \<Rightarrow> bool"
  assumes get_none: "get none k = None"
    and get_put: "get (put k v m) k' = (if k' = k then Some v else get m k')"
    and ok_none: "ok none"
    and ok_put: "ok m \<Longrightarrow> ok (put k v m)"
begin

fun put_all :: "('k \<times> 'v) list \<Rightarrow> 'm \<Rightarrow> 'm" where
  "put_all [] m = m"
| "put_all ((k, v) # xs) m = put_all xs (put k v m)"

lemma ok_put_all: "ok m \<Longrightarrow> ok (put_all xs m)"
  by (induction xs m rule: put_all.induct) (auto intro: ok_put)

lemma get_put_all_other: "k \<notin> fst ` set xs \<Longrightarrow> get (put_all xs m) k = get m k"
  by (induction xs m rule: put_all.induct) (auto simp: get_put)

lemma get_put_all:
  "distinct (map fst xs) \<Longrightarrow> (k, v) \<in> set xs \<Longrightarrow> get (put_all xs m) k = Some v"
proof (induction xs m rule: put_all.induct)
  case (2 k' v' xs m)
  then show ?case
  proof (cases "k' = k")
    case True
    with "2.prems" have "k \<notin> fst ` set xs" and "v' = v"
      by (auto simp: rev_image_eqI)
    with True show ?thesis by (simp add: get_put_all_other get_put)
  next
    case False
    with 2 show ?thesis by auto
  qed
qed simp

end

interpretation dict: keyed_collection "[]" dict_get dict_put dict_ok
  by unfold_locales (auto simp: dict_simps)

lemma dict_put_all_fold: "dict.put_all xs d = fold (\<lambda>(k, v) d. dict_put k v d) xs d"
  by (induction xs d rule: dict.put_all.induct) auto

lemma dict_merge_put_all: "dict_merge a b = dict.put_all b a"
  by (simp add: dict_merge_def dict_put_all_fold)

section \<open>JSON values and text\<close>

text \<open>
  Durable JSON.  An object is a finite map, because two Python dictionaries are equal when they
  hold the same items in any order.  A decimal is written to JSON as its text; \<open>JDec\<close> stands
  for that text, and \<open>JNum\<close> for a floating point number.
\<close>

datatype json =
    JNull
  | JBool bool
  | JInt int
  | JDec rat
  | JNum rat
  | JStr string
  | JList "json list"
  | JObj "(string, json) fmap"

type_synonym json_object = "(string, json) fmap"

definition json_opt :: "('a \<Rightarrow> json) \<Rightarrow> 'a option \<Rightarrow> json" where
  "json_opt f x = (case x of None \<Rightarrow> JNull | Some y \<Rightarrow> f y)"

text \<open>
  Characters are code points below 256; \<open>py_space\<close> lists those \<open>str.strip\<close> removes.
\<close>

definition py_space :: "char \<Rightarrow> bool" where
  "py_space c \<longleftrightarrow> of_char c \<in> {9, 10, 11, 12, 13, 28, 29, 30, 31, 32, 133, 160 :: nat}"

definition py_strip :: "string \<Rightarrow> string" where
  "py_strip s = rev (dropWhile py_space (rev (dropWhile py_space s)))"

definition require_clean_nonblank :: "string \<Rightarrow> string result" where
  "require_clean_nonblank s =
     (if py_strip s = [] then Inl ValueError
      else if s \<noteq> py_strip s then Inl ValueError
      else Inr s)"

definition require_clean_nonblank_opt :: "string option \<Rightarrow> string option result" where
  "require_clean_nonblank_opt v =
     (case v of None \<Rightarrow> Inr None
      | Some s \<Rightarrow> bind_res (require_clean_nonblank s) (\<lambda>s. Inr (Some s)))"

text \<open>\<open>require_durable_clean_nonblank\<close> also refuses the NUL character.\<close>

definition require_durable_clean_nonblank :: "string \<Rightarrow> string result" where
  "require_durable_clean_nonblank s =
     (if CHR 0x00 \<in> set s then Inl ValueError else require_clean_nonblank s)"

definition durable_clean :: "string \<Rightarrow> bool" where
  "durable_clean s \<longleftrightarrow> require_durable_clean_nonblank s = Inr s"

text \<open>\<open>require_durable_nonblank\<close> accepts surrounding white space.\<close>

definition durable_nonblank :: "string \<Rightarrow> bool" where
  "durable_nonblank s \<longleftrightarrow> CHR 0x00 \<notin> set s \<and> py_strip s \<noteq> []"

definition opt_holds :: "('a \<Rightarrow> bool) \<Rightarrow> 'a option \<Rightarrow> bool" where
  "opt_holds P x = (case x of None \<Rightarrow> True | Some y \<Rightarrow> P y)"

lemma opt_holds_simps [simp]: "opt_holds P None" "opt_holds P (Some x) = P x"
  by (simp_all add: opt_holds_def)

text \<open>The length of text in UTF-8; code points below 256 take one or two bytes.\<close>

definition utf8_bytes :: "string \<Rightarrow> nat" where
  "utf8_bytes s = sum_list (map (\<lambda>c. if of_char c < (128 :: nat) then 1 else 2) s)"

definition hex_char :: "char \<Rightarrow> bool" where
  "hex_char c \<longleftrightarrow> c \<in> set ''0123456789abcdef''"

definition is_sha256_text :: "string \<Rightarrow> bool" where
  "is_sha256_text s \<longleftrightarrow> length s = 64 \<and> list_all hex_char s"

text \<open>
  \<open>str.lower\<close> and \<open>str.upper\<close>.  The upper case of a code point below 256 may lie outside that range
  or be two characters long, so upper-cased text is a list of code points.
\<close>

definition py_lower_char :: "char \<Rightarrow> char" where
  "py_lower_char c = (let n = of_char c :: nat in
     if 65 \<le> n \<and> n \<le> 90 \<or> 192 \<le> n \<and> n \<le> 222 \<and> n \<noteq> 215 then char_of (n + 32) else c)"

definition py_lower :: "string \<Rightarrow> string" where
  "py_lower s = map py_lower_char s"

definition py_upper_char :: "char \<Rightarrow> nat list" where
  "py_upper_char c = (let n = of_char c :: nat in
     if 97 \<le> n \<and> n \<le> 122 \<or> 224 \<le> n \<and> n \<le> 254 \<and> n \<noteq> 247 then [n - 32]
     else if n = 181 then [924]
     else if n = 223 then [83, 83]
     else if n = 255 then [376]
     else [n])"

definition py_upper :: "string \<Rightarrow> nat list" where
  "py_upper s = concat (map py_upper_char s)"

lemma require_clean_nonblank_Inr [res_simps]:
  "require_clean_nonblank s = Inr t \<longleftrightarrow> t = s \<and> s \<noteq> [] \<and> py_strip s = s"
  by (auto simp: require_clean_nonblank_def)

lemma require_clean_nonblank_Inl [res_simps]:
  "require_clean_nonblank s = Inl e \<longleftrightarrow> e = ValueError \<and> \<not> (s \<noteq> [] \<and> py_strip s = s)"
  by (cases "py_strip s = []") (auto simp: require_clean_nonblank_def)

section \<open>Instants\<close>

text \<open>
  An aware \<open>datetime\<close>, normalised to UTC, is the number of microseconds since the Unix epoch;
  the supported range is year 1 to year 9999.
\<close>

type_synonym datetime = int

definition dt_min :: datetime where
  "dt_min = -62135596800000000"

definition dt_max :: datetime where
  "dt_max = 253402300799999999"

definition seconds :: "int \<Rightarrow> int" where
  "seconds n = n * 1000000"

definition in_dt_range :: "int \<Rightarrow> bool" where
  "in_dt_range t \<longleftrightarrow> dt_min \<le> t \<and> t \<le> dt_max"

definition utc_duration_cutoff :: "datetime \<Rightarrow> int \<Rightarrow> datetime option result" where
  "utc_duration_cutoff now duration_seconds =
     (if duration_seconds < 0 then Inl ValueError
      else if now - seconds duration_seconds < dt_min then Inr None
      else Inr (Some (now - seconds duration_seconds)))"

section \<open>Sorted lists: bisect\<close>

text \<open>On a sorted list: the insertion point after every element that is not larger.\<close>

definition bisect_right :: "'a::linorder list \<Rightarrow> 'a \<Rightarrow> nat" where
  "bisect_right xs x = length (takeWhile (\<lambda>y. y \<le> x) xs)"

text \<open>And before every element that is not smaller.\<close>

definition bisect_left :: "'a::linorder list \<Rightarrow> 'a \<Rightarrow> nat" where
  "bisect_left xs x = length (takeWhile (\<lambda>y. y < x) xs)"

definition py_insort :: "'a::linorder \<Rightarrow> 'a list \<Rightarrow> 'a list" where
  "py_insort x xs = take (bisect_right xs x) xs @ x # drop (bisect_right xs x) xs"

lemma py_insort_split: "py_insort x xs = takeWhile (\<lambda>y. y \<le> x) xs @ x # dropWhile (\<lambda>y. y \<le> x) xs"
  by (simp add: py_insort_def bisect_right_def takeWhile_eq_take [symmetric]
      dropWhile_eq_drop [symmetric])

lemma set_py_insort [simp]: "set (py_insort x xs) = insert x (set xs)"
proof -
  have "set xs = set (takeWhile (\<lambda>y. y \<le> x) xs) \<union> set (dropWhile (\<lambda>y. y \<le> x) xs)"
    by (metis set_append takeWhile_dropWhile_id)
  then show ?thesis by (auto simp: py_insort_split)
qed

lemma sorted_dropWhile_gt:
  "sorted xs \<Longrightarrow> y \<in> set (dropWhile (\<lambda>y. y \<le> x) xs) \<Longrightarrow> x < y"
proof (induction xs)
  case (Cons a xs)
  then show ?case by (cases "a \<le> x") auto
qed simp

lemma sorted_py_insort [intro]:
  assumes "sorted xs"
  shows "sorted (py_insort x xs)"
proof -
  have low: "y \<le> x" if "y \<in> set (takeWhile (\<lambda>y. y \<le> x) xs)" for y
    using that by (auto dest: set_takeWhileD)
  have high: "x < y" if "y \<in> set (dropWhile (\<lambda>y. y \<le> x) xs)" for y
    using assms that by (rule sorted_dropWhile_gt)
  have "sorted (takeWhile (\<lambda>y. y \<le> x) xs)" "sorted (dropWhile (\<lambda>y. y \<le> x) xs)"
    using assms by (simp_all add: sorted_takeWhile sorted_dropWhile)
  with low high show ?thesis
    unfolding py_insort_split sorted_append by (fastforce dest: low high)
qed

lemma distinct_insert_middle: "distinct (as @ x # bs) \<longleftrightarrow> distinct (as @ bs) \<and> x \<notin> set (as @ bs)"
  by auto

lemma distinct_py_insort: "distinct (py_insort x xs) \<longleftrightarrow> distinct xs \<and> x \<notin> set xs"
  unfolding py_insort_split distinct_insert_middle takeWhile_dropWhile_id ..

section \<open>Transition systems\<close>

text \<open>
  A component whose public operations are atomic steps.  An invariant kept by every step holds in
  every state a run can reach.
\<close>

locale invariant_system =
  fixes step :: "'s \<Rightarrow> 's \<Rightarrow> bool"
    and inv :: "'s \<Rightarrow> bool"
  assumes inv_step: "step s t \<Longrightarrow> inv s \<Longrightarrow> inv t"
begin

lemma inv_run: "step\<^sup>*\<^sup>* s t \<Longrightarrow> inv s \<Longrightarrow> inv t"
  by (induction rule: rtranclp_induct) (auto intro: inv_step)

end

text \<open>A property of one key that no step can undo once the invariant holds.\<close>

locale stable_system = invariant_system +
  fixes stable :: "'s \<Rightarrow> bool"
  assumes stable_step: "step s t \<Longrightarrow> inv s \<Longrightarrow> stable s \<Longrightarrow> stable t"
begin

lemma stable_run:
  assumes "step\<^sup>*\<^sup>* s t" "inv s" "stable s"
  shows "stable t"
  using assms(1)
proof (induction rule: rtranclp_induct)
  case base
  show ?case by fact
next
  case (step t u)
  with assms(2) have "inv t" by (auto intro: inv_run)
  with step show ?case by (auto intro: stable_step)
qed

end

end
