(* ===== verification/Billing.thy ===== *)
theory Billing
  imports Cayu_Prelude
begin

text \<open>
  Commercial identities of a provider dispatch (\<open>src/cayu/budgets/billing.py\<close>): the pricing contexts
  established before dispatch, the identity that carries them, and the check that a completion neither
  rewrites the request evidence nor widens the set of pricing outcomes.
\<close>

type_synonym pricing_context = "(string, string) fmap"

record billing_identity =
  bi_provider_name :: string
  bi_resource_id :: string
  bi_request_evidence :: json_object
  bi_completion_evidence :: json_object
  bi_pricing_contexts :: "pricing_context list"

definition pricing_context_storage_key :: "pricing_context \<Rightarrow> (string \<times> string) list" where
  "pricing_context_storage_key c = sorted_list_of_fmap c"

definition pricing_context_valid :: "pricing_context \<Rightarrow> bool" where
  "pricing_context_valid c \<longleftrightarrow> c \<noteq> fmempty \<and>
     fmpred (\<lambda>k v. require_durable_clean_nonblank k = Inr k \<and> require_durable_clean_nonblank v = Inr v) c"

definition billing_identity_valid :: "billing_identity \<Rightarrow> bool" where
  "billing_identity_valid b \<longleftrightarrow>
     require_durable_clean_nonblank (bi_provider_name b) = Inr (bi_provider_name b) \<and>
     require_durable_clean_nonblank (bi_resource_id b) = Inr (bi_resource_id b) \<and>
     list_all pricing_context_valid (bi_pricing_contexts b) \<and>
     distinct (map pricing_context_storage_key (bi_pricing_contexts b))"

text \<open>Copying an identity validates it again.\<close>

definition copy_billing_identity :: "billing_identity option \<Rightarrow> billing_identity option result" where
  "copy_billing_identity b = (case b of
       None \<Rightarrow> Inr None
     | Some b \<Rightarrow> if billing_identity_valid b then Inr (Some b) else Inl ValueError)"

definition completed_billing_identity ::
    "billing_identity option \<Rightarrow> billing_identity option \<Rightarrow> billing_identity option result" where
  "completed_billing_identity requested completed = (case requested of
       None \<Rightarrow> if completed \<noteq> None then Inl ValueError else Inr None
     | Some r \<Rightarrow>
         bind_res (copy_billing_identity (Some r)) (\<lambda>_.
           case completed of
             None \<Rightarrow> Inl ValueError
           | Some c \<Rightarrow>
               bind_res (copy_billing_identity (Some c)) (\<lambda>_.
                 if bi_provider_name r \<noteq> bi_provider_name c \<or> bi_resource_id r \<noteq> bi_resource_id c
                    \<or> bi_request_evidence r \<noteq> bi_request_evidence c
                 then Inl ValueError
                 else
                   (let requested_contexts = set (map pricing_context_storage_key (bi_pricing_contexts r));
                        completed_contexts = set (map pricing_context_storage_key (bi_pricing_contexts c))
                    in if requested_contexts \<noteq> {} \<and> completed_contexts = {} then Inl ValueError
                       else if \<not> completed_contexts \<subseteq> requested_contexts then Inl ValueError
                       else Inr (Some c)))))"

definition reconciled_billing_identity ::
    "billing_identity option \<Rightarrow> billing_identity option \<Rightarrow> billing_identity option result" where
  "reconciled_billing_identity requested completed = (case completed of
       None \<Rightarrow> Inr requested
     | Some c \<Rightarrow> completed_billing_identity requested (Some c))"

section \<open>Completion narrows\<close>

lemma pricing_context_storage_key_inj:
  "pricing_context_storage_key a = pricing_context_storage_key b \<longleftrightarrow> a = b"
  by (metis fmap_ext map_of_sorted_list pricing_context_storage_key_def)

lemma storage_key_image_subset:
  "set (map pricing_context_storage_key xs) \<subseteq> set (map pricing_context_storage_key ys)
    \<longleftrightarrow> set xs \<subseteq> set ys"
  by (auto simp: pricing_context_storage_key_inj image_iff subset_iff)

lemma copy_billing_identity_Inr [res_simps]:
  "copy_billing_identity b = Inr c \<longleftrightarrow> c = b \<and> (case b of None \<Rightarrow> True | Some i \<Rightarrow> billing_identity_valid i)"
  by (auto simp: copy_billing_identity_def split: option.splits)

lemma completed_billing_identity_Inr:
  "completed_billing_identity (Some r) (Some c) = Inr x \<longleftrightarrow>
     x = Some c \<and> billing_identity_valid r \<and> billing_identity_valid c \<and>
     bi_provider_name c = bi_provider_name r \<and> bi_resource_id c = bi_resource_id r \<and>
     bi_request_evidence c = bi_request_evidence r \<and>
     set (bi_pricing_contexts c) \<subseteq> set (bi_pricing_contexts r) \<and>
     (bi_pricing_contexts r \<noteq> [] \<longrightarrow> bi_pricing_contexts c \<noteq> [])"
  using storage_key_image_subset [of "bi_pricing_contexts c" "bi_pricing_contexts r"]
  by (auto simp: completed_billing_identity_def res_simps Let_def split: if_splits)

lemma reconciled_billing_identity_cases:
  assumes "reconciled_billing_identity requested completed = Inr x"
  shows "(completed = None \<and> x = requested) \<or>
    (\<exists>r c. requested = Some r \<and> completed = Some c \<and> x = Some c
       \<and> completed_billing_identity (Some r) (Some c) = Inr (Some c))"
proof (cases completed)
  case None
  with assms show ?thesis by (simp add: reconciled_billing_identity_def)
next
  case (Some c)
  with assms have res: "completed_billing_identity requested (Some c) = Inr x"
    by (simp add: reconciled_billing_identity_def)
  then obtain r where "requested = Some r"
    by (cases requested) (auto simp: completed_billing_identity_def)
  with res Some show ?thesis by (auto simp: completed_billing_identity_Inr)
qed

text \<open>Replaying a completion against the identity it produced changes nothing.\<close>

lemma reconciled_billing_identity_replay:
  assumes "reconciled_billing_identity requested completed = Inr x"
  shows "reconciled_billing_identity x completed = Inr x"
  using reconciled_billing_identity_cases [OF assms]
  by (auto simp: reconciled_billing_identity_def completed_billing_identity_Inr)

text \<open>
  C34. A completion that is accepted keeps provider, resource and request evidence of the request and
  can only narrow the pricing contexts agreed before dispatch; and the check composes: a completion
  accepted against a completion was already acceptable against the original request.
\<close>
theorem completion_narrows:
  assumes first: "completed_billing_identity (Some r) (Some c) = Inr x"
    and second: "completed_billing_identity (Some c) (Some d) = Inr y"
  shows "set (bi_pricing_contexts d) \<subseteq> set (bi_pricing_contexts r)
    \<and> bi_request_evidence d = bi_request_evidence r
    \<and> completed_billing_identity (Some r) (Some d) = Inr (Some d)"
  using first second by (auto simp: completed_billing_identity_Inr)

theorem completion_narrows_witness:
  "\<exists>r d. set (bi_pricing_contexts d) \<subset> set (bi_pricing_contexts r)
    \<and> completed_billing_identity (Some r) (Some d) = Inr (Some d)"
proof -
  define ctx where "ctx v = fmap_of_list [(''tier'', v)]" for v :: string
  define ident where "ident cs = \<lparr>bi_provider_name = ''bedrock'', bi_resource_id = ''m'',
    bi_request_evidence = fmempty, bi_completion_evidence = fmempty, bi_pricing_contexts = cs\<rparr>" for cs
  have ctx_eq: "ctx v = ctx w \<longleftrightarrow> v = w" for v w
    by (metis ctx_def fmlookup_of_list map_of_Cons_code(2) option.inject)
  have ctx_ok: "pricing_context_valid (ctx v)" if "v \<in> {''a'', ''b''}" for v
    using that
    by (auto simp: pricing_context_valid_def ctx_def fmpred_iff fmlookup_of_list
        require_durable_clean_nonblank_def require_clean_nonblank_def py_strip_def py_space_def
        dest: arg_cong [where f = "\<lambda>m. fmlookup m ''tier''"] split: if_splits)
  have ok: "billing_identity_valid (ident cs)" if "set cs \<subseteq> {ctx ''a'', ctx ''b''}" "distinct cs" for cs
    using that ctx_ok
    by (auto simp: billing_identity_valid_def ident_def list_all_iff distinct_map inj_on_def
        pricing_context_storage_key_inj require_durable_clean_nonblank_def require_clean_nonblank_def
        py_strip_def py_space_def)
  have step: "completed_billing_identity (Some (ident [ctx ''a'', ctx ''b''])) (Some (ident [ctx ''a''])) = Inr (Some (ident [ctx ''a'']))"
    "completed_billing_identity (Some (ident [ctx ''a''])) (Some (ident [ctx ''a''])) = Inr (Some (ident [ctx ''a'']))"
    using ok [of "[ctx ''a'', ctx ''b'']"] ok [of "[ctx ''a'']"]
    by (auto simp: completed_billing_identity_Inr ident_def ctx_eq)
  have "set (bi_pricing_contexts (ident [ctx ''a''])) \<subset> set (bi_pricing_contexts (ident [ctx ''a'', ctx ''b'']))"
    by (auto simp: ident_def ctx_eq)
  then show ?thesis using completion_narrows [OF step] by blast
qed

end
