(* ===== verification/Price_Book.thy ===== *)
theory Price_Book
  imports Billing
begin

text \<open>
  Price books (\<open>src/cayu/budgets/pricing.py\<close>): tiers, effective schedules, model prices and their
  match rules, the validated book, the resolution of one dispatch to a schedule and a tier, and the
  cost of one normalised model step.  Rates and costs are exact rationals; a calendar date is its
  proleptic Gregorian ordinal.
\<close>

section \<open>Rates\<close>

record provenance =
  pv_source :: string
  pv_url :: string
  pv_as_of :: string

record price_tier =
  pt_max_input_tokens :: "int option"
  pt_input_per_million :: rat
  pt_output_per_million :: rat
  pt_cache_read_input_per_million :: "rat option"
  pt_cache_write_input_per_million :: "rat option"

record tiered_pricing =
  tp_currency :: string
  tp_standard :: "price_tier list"
  tp_batch :: "price_tier option"
  tp_cache_write_5m_per_million :: "rat option"
  tp_cache_write_1h_per_million :: "rat option"
  tp_web_search_per_thousand :: "rat option"

record price_schedule =
  ps_effective_from :: "int option"
  ps_effective_through :: "int option"
  ps_pricing :: tiered_pricing
  ps_provenance :: provenance

definition opt_nonneg :: "rat option \<Rightarrow> bool" where
  "opt_nonneg r = (case r of None \<Rightarrow> True | Some x \<Rightarrow> 0 \<le> x)"

definition provenance_valid :: "provenance \<Rightarrow> bool" where
  "provenance_valid v \<longleftrightarrow> require_clean_nonblank (pv_source v) = Inr (pv_source v) \<and>
     require_clean_nonblank (pv_url v) = Inr (pv_url v) \<and> require_clean_nonblank (pv_as_of v) = Inr (pv_as_of v)"

definition price_tier_valid :: "price_tier \<Rightarrow> bool" where
  "price_tier_valid t \<longleftrightarrow>
     (case pt_max_input_tokens t of None \<Rightarrow> True | Some m \<Rightarrow> 0 < m) \<and>
     0 \<le> pt_input_per_million t \<and> 0 \<le> pt_output_per_million t \<and>
     opt_nonneg (pt_cache_read_input_per_million t) \<and> opt_nonneg (pt_cache_write_input_per_million t)"

definition bounded_tiers :: "price_tier list \<Rightarrow> int list" where
  "bounded_tiers ts = concat (map (\<lambda>t. case pt_max_input_tokens t of None \<Rightarrow> [] | Some m \<Rightarrow> [m]) ts)"

definition open_ended_tiers :: "price_tier list \<Rightarrow> nat list" where
  "open_ended_tiers ts = filter (\<lambda>i. pt_max_input_tokens (ts ! i) = None) [0..<length ts]"

definition validate_tier_order :: "tiered_pricing \<Rightarrow> unit result" where
  "validate_tier_order p =
     (let ts = tp_standard p; bounded = bounded_tiers ts; open_ended = open_ended_tiers ts in
      if bounded \<noteq> sort bounded then Inl ValueError
      else if length bounded \<noteq> card (set bounded) then Inl ValueError
      else if length open_ended > 1 then Inl ValueError
      else if open_ended \<noteq> [] \<and> open_ended ! 0 \<noteq> length ts - 1 then Inl ValueError
      else Inr ())"

definition tiered_pricing_valid :: "tiered_pricing \<Rightarrow> bool" where
  "tiered_pricing_valid p \<longleftrightarrow> tp_standard p \<noteq> [] \<and> list_all price_tier_valid (tp_standard p) \<and>
     (case tp_batch p of None \<Rightarrow> True | Some t \<Rightarrow> price_tier_valid t) \<and>
     require_clean_nonblank (tp_currency p) = Inr (tp_currency p) \<and>
     opt_nonneg (tp_cache_write_5m_per_million p) \<and> opt_nonneg (tp_cache_write_1h_per_million p) \<and>
     opt_nonneg (tp_web_search_per_thousand p) \<and> validate_tier_order p = Inr ()"

definition tier_for :: "tiered_pricing \<Rightarrow> int \<Rightarrow> price_tier" where
  "tier_for p input_tokens =
     (case filter (\<lambda>t. case pt_max_input_tokens t of None \<Rightarrow> True | Some m \<Rightarrow> input_tokens \<le> m) (tp_standard p) of
        t # _ \<Rightarrow> t
      | [] \<Rightarrow> last (tp_standard p))"

definition price_schedule_valid :: "price_schedule \<Rightarrow> bool" where
  "price_schedule_valid s \<longleftrightarrow> tiered_pricing_valid (ps_pricing s) \<and> provenance_valid (ps_provenance s) \<and>
     (case (ps_effective_from s, ps_effective_through s) of (Some a, Some b) \<Rightarrow> \<not> a > b | _ \<Rightarrow> True)"

definition applies_on :: "price_schedule \<Rightarrow> int \<Rightarrow> bool" where
  "applies_on s d \<longleftrightarrow>
     (case ps_effective_from s of None \<Rightarrow> True | Some a \<Rightarrow> d \<ge> a) \<and>
     (case ps_effective_through s of None \<Rightarrow> True | Some b \<Rightarrow> d \<le> b)"

section \<open>Model prices\<close>

datatype match_rule = Exact | Prefix
datatype price_match = MatchExact | MatchPrefix | MatchResourceMapping
datatype cache_ttl = FiveMinutes | OneHour

type_synonym context_selector = "(string, string list) fmap"

record model_price =
  mp_provider_name :: string
  mp_model :: string
  mp_aliases :: "string list"
  mp_match :: match_rule
  mp_match_prefixes :: "string list"
  mp_pricing_context :: "context_selector option"
  mp_cache_write_ttls :: "cache_ttl list"
  mp_schedules :: "price_schedule list"

definition selector_valid :: "context_selector \<Rightarrow> bool" where
  "selector_valid s \<longleftrightarrow> s \<noteq> fmempty \<and>
     fmpred (\<lambda>k vs. require_clean_nonblank k = Inr k \<and> vs \<noteq> [] \<and>
        list_all (\<lambda>v. require_clean_nonblank v = Inr v) vs \<and> distinct vs) s"

definition selector_storage_key :: "context_selector \<Rightarrow> (string \<times> string list) list" where
  "selector_storage_key s = map (\<lambda>(k, vs). (k, sort vs)) (sorted_list_of_fmap s)"

definition selector_matches :: "context_selector \<Rightarrow> pricing_context \<Rightarrow> bool" where
  "selector_matches s c \<longleftrightarrow> fmdom s = fmdom c \<and>
     fmpred (\<lambda>k vs. case fmlookup c k of None \<Rightarrow> False | Some v \<Rightarrow> v \<in> set vs) s"

definition pricing_context_selectors_overlap :: "context_selector \<Rightarrow> context_selector \<Rightarrow> bool" where
  "pricing_context_selectors_overlap l r \<longleftrightarrow> fmdom l = fmdom r \<and>
     fmpred (\<lambda>k vs. case fmlookup r k of None \<Rightarrow> False | Some ws \<Rightarrow> set vs \<inter> set ws \<noteq> {}) l"

definition schedule_start :: "price_schedule \<Rightarrow> int" where
  "schedule_start s = (case ps_effective_from s of None \<Rightarrow> 1 | Some d \<Rightarrow> d)"

fun schedules_overlap :: "price_schedule list \<Rightarrow> bool" where
  "schedules_overlap (previous # current # rest) =
     ((case (ps_effective_through previous, ps_effective_from current) of
         (Some b, Some a) \<Rightarrow> a \<le> b
       | _ \<Rightarrow> True) \<or> schedules_overlap (current # rest))"
| "schedules_overlap _ = False"

definition validate_schedules :: "model_price \<Rightarrow> unit result" where
  "validate_schedules p =
     (if mp_pricing_context p \<noteq> None \<and> (mp_match p \<noteq> Exact \<or> mp_aliases p \<noteq> [] \<or> mp_match_prefixes p \<noteq> [])
      then Inl ValueError
      else if mp_cache_write_ttls p \<noteq> [] \<and> mp_pricing_context p = None then Inl ValueError
      else if length (mp_cache_write_ttls p) \<noteq> card (set (mp_cache_write_ttls p)) then Inl ValueError
      else if mp_schedules p \<noteq> sort_key schedule_start (mp_schedules p) then Inl ValueError
      else if schedules_overlap (mp_schedules p) then Inl ValueError
      else if list_ex (\<lambda>s. FiveMinutes \<in> set (mp_cache_write_ttls p)
             \<and> tp_cache_write_5m_per_million (ps_pricing s) = None
             \<and> list_ex (\<lambda>t. pt_cache_write_input_per_million t = None) (tp_standard (ps_pricing s))
           \<or> OneHour \<in> set (mp_cache_write_ttls p)
             \<and> tp_cache_write_1h_per_million (ps_pricing s) = None) (mp_schedules p)
      then Inl ValueError
      else Inr ())"

definition model_price_valid :: "model_price \<Rightarrow> bool" where
  "model_price_valid p \<longleftrightarrow>
     require_clean_nonblank (mp_provider_name p) = Inr (mp_provider_name p) \<and>
     require_clean_nonblank (mp_model p) = Inr (mp_model p) \<and>
     list_all (\<lambda>s. require_clean_nonblank s = Inr s) (mp_aliases p @ mp_match_prefixes p) \<and>
     (case mp_pricing_context p of None \<Rightarrow> True | Some s \<Rightarrow> selector_valid s) \<and>
     mp_schedules p \<noteq> [] \<and> list_all price_schedule_valid (mp_schedules p) \<and>
     validate_schedules p = Inr ()"

definition match_rules :: "model_price \<Rightarrow> (string \<times> match_rule) list" where
  "match_rules p = (mp_model p, mp_match p) # map (\<lambda>a. (a, Exact)) (mp_aliases p)
     @ map (\<lambda>a. (a, Prefix)) (mp_match_prefixes p)"

definition schedule_on :: "model_price \<Rightarrow> int \<Rightarrow> price_schedule option" where
  "schedule_on p d = find (\<lambda>s. applies_on s d) (mp_schedules p)"

definition fixed_price :: "string \<Rightarrow> string \<Rightarrow> rat \<Rightarrow> rat \<Rightarrow> match_rule \<Rightarrow> model_price" where
  "fixed_price provider model input output rule =
     \<lparr>mp_provider_name = provider, mp_model = model, mp_aliases = [], mp_match = rule,
      mp_match_prefixes = [], mp_pricing_context = None, mp_cache_write_ttls = [],
      mp_schedules = [\<lparr>ps_effective_from = None, ps_effective_through = None,
        ps_pricing = \<lparr>tp_currency = ''USD'',
          tp_standard = [\<lparr>pt_max_input_tokens = None, pt_input_per_million = input,
             pt_output_per_million = output, pt_cache_read_input_per_million = None,
             pt_cache_write_input_per_million = None\<rparr>],
          tp_batch = None, tp_cache_write_5m_per_million = None, tp_cache_write_1h_per_million = None,
          tp_web_search_per_thousand = None\<rparr>,
        ps_provenance = \<lparr>pv_source = ''application'', pv_url = ''application://price-book'',
          pv_as_of = ''unspecified''\<rparr>\<rparr>]\<rparr>"

definition external_tool_dispatch_price :: model_price where
  "external_tool_dispatch_price = fixed_price ''cayu-tool-dispatch'' ''tool-dispatch'' 0 0 Exact"

section \<open>The book\<close>

record pricing_requirement =
  pq_provider_name :: string
  pq_dimensions :: "string list"
  pq_requires_cache_write_ttls :: bool

record resource_mapping =
  rm_provider_name :: string
  rm_resource_id :: string
  rm_pricing_model :: string

record price_book =
  pb_version :: string
  pb_generated_at :: string
  pb_prices :: "model_price list"
  pb_requirements :: "pricing_requirement list"
  pb_resource_mappings :: "resource_mapping list"

definition builtin_requirements :: "pricing_requirement list" where
  "builtin_requirements = [\<lparr>pq_provider_name = ''bedrock'',
     pq_dimensions = [''source_region'', ''service_tier''], pq_requires_cache_write_ttls = True\<rparr>]"

definition normalize_provider :: "string \<Rightarrow> string" where
  "normalize_provider s = py_lower (py_strip s)"

definition match_key :: "string \<Rightarrow> string \<Rightarrow> match_rule \<Rightarrow> string \<times> string \<times> match_rule" where
  "match_key provider model rule = (normalize_provider provider, py_strip model, rule)"

type_synonym seen_key = "(string \<times> string \<times> match_rule) \<times> (string \<times> string list) list option"

record book_scan =
  bs_seen :: "seen_key list"
  bs_selectors :: "(string \<times> string \<times> match_rule, context_selector list) dict"

definition scan_rule :: "model_price \<Rightarrow> string \<times> match_rule \<Rightarrow> book_scan \<Rightarrow> book_scan result" where
  "scan_rule p rule st =
     (let mk = match_key (mp_provider_name p) (fst rule) (snd rule);
          key = (mk, map_option selector_storage_key (mp_pricing_context p))
      in if key \<in> set (bs_seen st) then Inl ValueError
         else
           (let st = st\<lparr>bs_seen := key # bs_seen st\<rparr> in
            case mp_pricing_context p of
              None \<Rightarrow> Inr st
            | Some sel \<Rightarrow>
                (let existing = (case dict_get (bs_selectors st) mk of None \<Rightarrow> [] | Some xs \<Rightarrow> xs)
                 in if list_ex (pricing_context_selectors_overlap sel) existing then Inl ValueError
                    else Inr (st\<lparr>bs_selectors := dict_put mk (existing @ [sel]) (bs_selectors st)\<rparr>))))"

fun scan_rules :: "model_price \<Rightarrow> (string \<times> match_rule) list \<Rightarrow> book_scan \<Rightarrow> book_scan result" where
  "scan_rules p [] st = Inr st"
| "scan_rules p (r # rs) st = bind_res (scan_rule p r st) (scan_rules p rs)"

definition price_meets_requirement :: "pricing_requirement list \<Rightarrow> model_price \<Rightarrow> bool" where
  "price_meets_requirement reqs p =
     (case find (\<lambda>q. normalize_provider (pq_provider_name q) = normalize_provider (mp_provider_name p)) (rev reqs) of
        None \<Rightarrow> True
      | Some q \<Rightarrow> (case mp_pricing_context p of None \<Rightarrow> False
          | Some sel \<Rightarrow> fset (fmdom sel) = set (pq_dimensions q)))"

fun scan_prices :: "pricing_requirement list \<Rightarrow> model_price list \<Rightarrow> book_scan \<Rightarrow> book_scan result" where
  "scan_prices reqs [] st = Inr st"
| "scan_prices reqs (p # ps) st =
     (if \<not> price_meets_requirement reqs p then Inl ValueError
      else bind_res (scan_rules p (match_rules p) st) (scan_prices reqs ps))"

definition validate_unique_matches :: "price_book \<Rightarrow> unit result" where
  "validate_unique_matches b =
     (let reqs = builtin_requirements @ pb_requirements b;
          names = map (\<lambda>q. normalize_provider (pq_provider_name q)) reqs;
          mapping_keys = map (\<lambda>m. (normalize_provider (rm_provider_name m), rm_resource_id m)) (pb_resource_mappings b)
      in if card (set names) \<noteq> length reqs then Inl ValueError
         else bind_res (scan_prices reqs (pb_prices b) \<lparr>bs_seen = [], bs_selectors = []\<rparr>) (\<lambda>_.
           if length mapping_keys \<noteq> card (set mapping_keys) then Inl ValueError else Inr ()))"

definition pricing_requirement_valid :: "pricing_requirement \<Rightarrow> bool" where
  "pricing_requirement_valid q \<longleftrightarrow>
     require_clean_nonblank (pq_provider_name q) = Inr (pq_provider_name q) \<and>
     list_all (\<lambda>d. require_clean_nonblank d = Inr d) (pq_dimensions q) \<and>
     pq_dimensions q \<noteq> [] \<and> distinct (pq_dimensions q)"

definition resource_mapping_valid :: "resource_mapping \<Rightarrow> bool" where
  "resource_mapping_valid m \<longleftrightarrow>
     require_clean_nonblank (rm_provider_name m) = Inr (rm_provider_name m) \<and>
     require_clean_nonblank (rm_resource_id m) = Inr (rm_resource_id m) \<and>
     require_clean_nonblank (rm_pricing_model m) = Inr (rm_pricing_model m)"

definition price_book_valid :: "price_book \<Rightarrow> bool" where
  "price_book_valid b \<longleftrightarrow>
     require_clean_nonblank (pb_version b) = Inr (pb_version b) \<and>
     require_clean_nonblank (pb_generated_at b) = Inr (pb_generated_at b) \<and>
     pb_prices b \<noteq> [] \<and> list_all model_price_valid (pb_prices b) \<and>
     list_all pricing_requirement_valid (pb_requirements b) \<and>
     list_all resource_mapping_valid (pb_resource_mappings b) \<and>
     validate_unique_matches b = Inr ()"

definition price_identity :: "model_price \<Rightarrow> string \<times> string \<times> (string \<times> string list) list option" where
  "price_identity p = (normalize_provider (mp_provider_name p), mp_model p,
     map_option selector_storage_key (mp_pricing_context p))"

definition with_prices :: "price_book \<Rightarrow> model_price list \<Rightarrow> string option \<Rightarrow> price_book result" where
  "with_prices b prices version =
     (let overrides = set (map price_identity prices) in
      if card overrides \<noteq> length prices then Inl ValueError
      else
        (let book = \<lparr>pb_version = (case version of None \<Rightarrow> pb_version b @ ''+application'' | Some v \<Rightarrow> v),
                pb_generated_at = pb_generated_at b,
                pb_prices = filter (\<lambda>p. price_identity p \<notin> overrides) (pb_prices b) @ prices,
                pb_requirements = pb_requirements b, pb_resource_mappings = pb_resource_mappings b\<rparr>
         in if price_book_valid book then Inr book else Inl ValueError))"

definition requires_cache_write_ttls :: "price_book \<Rightarrow> string \<Rightarrow> bool" where
  "requires_cache_write_ttls b provider =
     (case find (\<lambda>q. normalize_provider (pq_provider_name q) = normalize_provider provider)
             (builtin_requirements @ pb_requirements b) of
        None \<Rightarrow> False
      | Some q \<Rightarrow> pq_requires_cache_write_ttls q)"

section \<open>Resolution\<close>

record book_match =
  bm_price :: model_price
  bm_model :: string
  bm_match :: match_rule
  bm_resource_mapping :: bool

definition text_starts_with :: "string \<Rightarrow> string \<Rightarrow> bool" where
  "text_starts_with s p \<longleftrightarrow> take (length p) s = p"

definition match_score :: "book_match \<Rightarrow> nat \<times> nat" where
  "match_score m = (if bm_match m = Exact then 1 else 0, length (bm_model m))"

definition candidate_matches :: "string \<Rightarrow> string \<Rightarrow> book_match \<Rightarrow> bool" where
  "candidate_matches provider model_name m \<longleftrightarrow>
     normalize_provider (mp_provider_name (bm_price m)) = provider \<and>
     (bm_match m = Exact \<and> model_name = py_strip (bm_model m) \<or>
      bm_match m = Prefix \<and> text_starts_with model_name (py_strip (bm_model m)))"

fun best_match_loop :: "string \<Rightarrow> string \<Rightarrow> book_match option \<Rightarrow> book_match list \<Rightarrow> book_match option" where
  "best_match_loop provider model_name best [] = best"
| "best_match_loop provider model_name best (m # ms) =
     (if candidate_matches provider model_name m
         \<and> (case best of None \<Rightarrow> True | Some b \<Rightarrow> match_score m > match_score b)
      then best_match_loop provider model_name (Some m) ms
      else best_match_loop provider model_name best ms)"

definition best_match_record :: "book_match list \<Rightarrow> string option \<Rightarrow> string option \<Rightarrow> book_match option" where
  "best_match_record records provider model =
     (case (provider, model) of
        (Some p, Some m) \<Rightarrow> best_match_loop (normalize_provider p) (py_strip m) None records
      | _ \<Rightarrow> None)"

definition price_context_matches :: "model_price \<Rightarrow> pricing_context option \<Rightarrow> bool" where
  "price_context_matches p ctx = (case ctx of
       None \<Rightarrow> mp_pricing_context p = None
     | Some c \<Rightarrow> (case mp_pricing_context p of None \<Rightarrow> False | Some sel \<Rightarrow> selector_matches sel c))"

definition book_candidates :: "price_book \<Rightarrow> bool \<Rightarrow> pricing_context option \<Rightarrow> book_match list" where
  "book_candidates b mapped ctx =
     concat (map (\<lambda>p. if price_context_matches p ctx
       then map (\<lambda>(m, r). \<lparr>bm_price = p, bm_model = m, bm_match = r, bm_resource_mapping = mapped\<rparr>) (match_rules p)
       else []) (pb_prices b))"

definition find_mapping :: "price_book \<Rightarrow> billing_identity \<Rightarrow> resource_mapping option" where
  "find_mapping b i = find (\<lambda>m. normalize_provider (rm_provider_name m) = normalize_provider (bi_provider_name i)
       \<and> rm_resource_id m = bi_resource_id i) (pb_resource_mappings b)"

definition resolve_match :: "price_book \<Rightarrow> string option \<Rightarrow> string option \<Rightarrow> billing_identity option
    \<Rightarrow> pricing_context option \<Rightarrow> book_match option" where
  "resolve_match b provider model identity ctx =
     (let pricing_provider = (case identity of None \<Rightarrow> provider | Some i \<Rightarrow> Some (bi_provider_name i));
          pricing_model = (case identity of None \<Rightarrow> model | Some i \<Rightarrow> Some (bi_resource_id i))
      in if pricing_provider = Some ''cayu-tool-dispatch'' \<and> pricing_model = Some ''tool-dispatch''
         then Some \<lparr>bm_price = external_tool_dispatch_price, bm_model = ''tool-dispatch'', bm_match = Exact,
                bm_resource_mapping = False\<rparr>
         else
           (case (case identity of None \<Rightarrow> None | Some i \<Rightarrow> find_mapping b i) of
              None \<Rightarrow> best_match_record (book_candidates b False ctx) pricing_provider pricing_model
            | Some m \<Rightarrow> best_match_record (book_candidates b True ctx) pricing_provider (Some (rm_pricing_model m))))"

record resolved_price =
  rp_price :: model_price
  rp_matched_model :: string
  rp_match :: price_match
  rp_schedule :: price_schedule
  rp_tier :: price_tier
  rp_requires_cache_write_ttls :: bool

definition rp_currency :: "resolved_price \<Rightarrow> string" where
  "rp_currency r = tp_currency (ps_pricing (rp_schedule r))"

definition rp_cache_write_input_per_million :: "resolved_price \<Rightarrow> rat option" where
  "rp_cache_write_input_per_million r =
     (case pt_cache_write_input_per_million (rp_tier r) of
        Some x \<Rightarrow> Some x
      | None \<Rightarrow> tp_cache_write_5m_per_million (ps_pricing (rp_schedule r)))"

definition rp_cache_write_5m_per_million :: "resolved_price \<Rightarrow> rat option" where
  "rp_cache_write_5m_per_million r =
     (case pt_cache_write_input_per_million (rp_tier r) of
        Some x \<Rightarrow> Some x
      | None \<Rightarrow> tp_cache_write_5m_per_million (ps_pricing (rp_schedule r)))"

definition rp_cache_write_1h_per_million :: "resolved_price \<Rightarrow> rat option" where
  "rp_cache_write_1h_per_million r = tp_cache_write_1h_per_million (ps_pricing (rp_schedule r))"

definition rp_web_search_per_thousand :: "resolved_price \<Rightarrow> rat option" where
  "rp_web_search_per_thousand r = tp_web_search_per_thousand (ps_pricing (rp_schedule r))"

text \<open>A resolution is a price or the reason it is missing.\<close>

type_synonym price_resolution = "string + resolved_price"

definition chosen_context :: "billing_identity option \<Rightarrow> pricing_context option
    \<Rightarrow> string + pricing_context option" where
  "chosen_context identity ctx = (case (identity, ctx) of
       (Some i, None) \<Rightarrow>
         (case bi_pricing_contexts i of
            [] \<Rightarrow> Inr None
          | [c] \<Rightarrow> Inr (Some c)
          | _ \<Rightarrow> Inl ''billing identity has ambiguous pricing contexts'')
     | _ \<Rightarrow> Inr ctx)"

definition resolve_schedule :: "price_book \<Rightarrow> book_match \<Rightarrow> int \<Rightarrow> int \<Rightarrow> price_resolution" where
  "resolve_schedule b m input_tokens effective_on =
     (case schedule_on (bm_price m) effective_on of
        None \<Rightarrow>
          Inl (case ps_effective_through (last (mp_schedules (bm_price m))) of
                 Some l \<Rightarrow> if effective_on > l then ''pricing schedule expired''
                           else ''no applicable pricing schedule''
               | None \<Rightarrow> ''no applicable pricing schedule'')
      | Some s \<Rightarrow>
          Inr \<lparr>rp_price = bm_price m, rp_matched_model = bm_model m,
             rp_match = (if bm_resource_mapping m then MatchResourceMapping
                         else if bm_match m = Exact then MatchExact else MatchPrefix),
             rp_schedule = s, rp_tier = tier_for (ps_pricing s) input_tokens,
             rp_requires_cache_write_ttls = (mp_cache_write_ttls (bm_price m) \<noteq> []
                \<or> requires_cache_write_ttls b (mp_provider_name (bm_price m)))\<rparr>)"

definition resolve_price_book :: "price_book \<Rightarrow> string option \<Rightarrow> string option \<Rightarrow> int \<Rightarrow> int
    \<Rightarrow> billing_identity option \<Rightarrow> pricing_context option \<Rightarrow> price_resolution" where
  "resolve_price_book b provider model input_tokens effective_on identity ctx =
     (case chosen_context identity ctx of
        Inl reason \<Rightarrow> Inl reason
      | Inr ctx \<Rightarrow>
          (case resolve_match b provider model identity ctx of
             None \<Rightarrow> Inl ''no matching model pricing''
           | Some m \<Rightarrow> resolve_schedule b m input_tokens effective_on))"

section \<open>The cost of one model step\<close>

record cache_usage =
  cu_read_tokens :: int
  cu_write_tokens :: int
  cu_write_5m_tokens :: int
  cu_write_1h_tokens :: int
  cu_write_unknown_ttl_tokens :: int
  cu_uncached_input_tokens :: int

record usage_metrics =
  um_provider_name :: "string option"
  um_requested_model :: "string option"
  um_model :: "string option"
  um_billing_identity :: "billing_identity option"
  um_input_tokens :: int
  um_output_tokens :: int
  um_cache :: cache_usage
  um_web_search_calls :: int
  um_web_search_outcome_unknown :: int

definition usage_metrics_valid :: "usage_metrics \<Rightarrow> bool" where
  "usage_metrics_valid m \<longleftrightarrow> 0 \<le> um_input_tokens m \<and> 0 \<le> um_output_tokens m \<and>
     0 \<le> cu_read_tokens (um_cache m) \<and> 0 \<le> cu_write_tokens (um_cache m) \<and>
     0 \<le> cu_write_5m_tokens (um_cache m) \<and> 0 \<le> cu_write_1h_tokens (um_cache m) \<and>
     0 \<le> cu_write_unknown_ttl_tokens (um_cache m) \<and> 0 \<le> cu_uncached_input_tokens (um_cache m) \<and>
     0 \<le> um_web_search_calls m \<and> 0 \<le> um_web_search_outcome_unknown m"

definition token_cost :: "int \<Rightarrow> rat \<Rightarrow> rat" where
  "token_cost tokens per_million = of_int tokens * per_million / 1000000"

definition opt_or_zero :: "rat option \<Rightarrow> rat" where
  "opt_or_zero r = (case r of None \<Rightarrow> 0 | Some x \<Rightarrow> x)"

definition contextual_cache_write_cost :: "usage_metrics \<Rightarrow> resolved_price \<Rightarrow> string + rat" where
  "contextual_cache_write_cost m p =
     (let five = rp_cache_write_5m_per_million p;
          hour = rp_cache_write_1h_per_million p;
          supported = mp_cache_write_ttls (rp_price p);
          c = um_cache m;
          unknown_rate = (if cu_write_unknown_ttl_tokens c = 0 then None
             else if supported = [FiveMinutes] then five
             else if supported = [OneHour] then hour
             else if set supported = {FiveMinutes, OneHour} \<and> five \<noteq> None \<and> five = hour then five
             else None)
      in if cu_write_5m_tokens c \<noteq> 0 \<and> FiveMinutes \<notin> set supported
         then Inl ''pricing does not declare 5-minute cache writes''
         else if cu_write_1h_tokens c \<noteq> 0 \<and> OneHour \<notin> set supported
         then Inl ''pricing does not declare 1-hour cache writes''
         else if cu_write_5m_tokens c \<noteq> 0 \<and> five = None
         then Inl ''pricing has no 5-minute cache-write rate''
         else if cu_write_1h_tokens c \<noteq> 0 \<and> hour = None
         then Inl ''pricing has no 1-hour cache-write rate''
         else if cu_write_unknown_ttl_tokens c \<noteq> 0 \<and> unknown_rate = None
         then Inl ''cache-write TTL is unknown and applicable rates are ambiguous''
         else Inr (token_cost (cu_write_5m_tokens c) (opt_or_zero five)
           + token_cost (cu_write_1h_tokens c) (opt_or_zero hour)
           + token_cost (cu_write_unknown_ttl_tokens c) (opt_or_zero unknown_rate)))"

text \<open>
  The priced part of a line item: the five costs and their total, and the tokens charged at the plain
  input rate.
\<close>

record step_cost =
  sc_price :: resolved_price
  sc_uncached_input_tokens :: int
  sc_input_cost :: rat
  sc_output_cost :: rat
  sc_cache_read_cost :: rat
  sc_cache_write_cost :: rat
  sc_web_search_cost :: rat
  sc_total_cost :: rat

definition billed_input_tokens :: "usage_metrics \<Rightarrow> int" where
  "billed_input_tokens m =
     (if cu_uncached_input_tokens (um_cache m) = 0 \<and> um_input_tokens m > 0
         \<and> cu_read_tokens (um_cache m) = 0 \<and> cu_write_tokens (um_cache m) = 0
      then um_input_tokens m else cu_uncached_input_tokens (um_cache m))"

definition resolve_price :: "usage_metrics \<Rightarrow> price_book \<Rightarrow> int \<Rightarrow> price_resolution" where
  "resolve_price m b effective_on =
     resolve_price_book b (um_provider_name m)
       (case um_billing_identity m of
          Some i \<Rightarrow> Some (bi_resource_id i)
        | None \<Rightarrow> (case um_model m of Some x \<Rightarrow> Some x | None \<Rightarrow> um_requested_model m))
       (um_input_tokens m) effective_on (um_billing_identity m) None"

definition cost_line_item :: "usage_metrics \<Rightarrow> price_book \<Rightarrow> string \<Rightarrow> int \<Rightarrow> string + step_cost" where
  "cost_line_item m b currency effective_on =
     (case resolve_price m b effective_on of
        Inl reason \<Rightarrow> Inl reason
      | Inr p \<Rightarrow>
          if um_web_search_outcome_unknown m \<noteq> 0
          then Inl ''hosted web-search outcome and billing are unknown''
          else if um_web_search_calls m \<noteq> 0 \<and> rp_web_search_per_thousand p = None
          then Inl ''hosted web-search pricing is unavailable''
          else if py_upper (rp_currency p) \<noteq> py_upper currency
          then Inl (''pricing currency '' @ rp_currency p @ '' does not match requested '' @ currency)
          else
            (let uncached = billed_input_tokens m;
                 read_price = (case pt_cache_read_input_per_million (rp_tier p) of
                    Some x \<Rightarrow> x | None \<Rightarrow> pt_input_per_million (rp_tier p));
                 write_price = (case rp_cache_write_input_per_million p of
                    Some x \<Rightarrow> x | None \<Rightarrow> pt_input_per_million (rp_tier p));
                 input_cost = token_cost uncached (pt_input_per_million (rp_tier p));
                 output_cost = token_cost (um_output_tokens m) (pt_output_per_million (rp_tier p));
                 read_cost = token_cost (cu_read_tokens (um_cache m)) read_price;
                 write = (if \<not> rp_requires_cache_write_ttls p
                    then Inr (token_cost (cu_write_tokens (um_cache m)) write_price)
                    else contextual_cache_write_cost m p);
                 web_cost = of_int (um_web_search_calls m) * opt_or_zero (rp_web_search_per_thousand p) / 1000
             in case write of
                  Inl reason \<Rightarrow> Inl reason
                | Inr write_cost \<Rightarrow>
                    Inr \<lparr>sc_price = p, sc_uncached_input_tokens = uncached, sc_input_cost = input_cost,
                       sc_output_cost = output_cost, sc_cache_read_cost = read_cost,
                       sc_cache_write_cost = write_cost, sc_web_search_cost = web_cost,
                       sc_total_cost = input_cost + output_cost + read_cost + write_cost + web_cost\<rparr>))"

text \<open>A two-tier schedule and a dated price, used to exercise the statements below.\<close>

definition sample_tier :: "int option \<Rightarrow> rat \<Rightarrow> price_tier" where
  "sample_tier m r = \<lparr>pt_max_input_tokens = m, pt_input_per_million = r, pt_output_per_million = 2 * r,
     pt_cache_read_input_per_million = None, pt_cache_write_input_per_million = None\<rparr>"

definition sample_pricing :: tiered_pricing where
  "sample_pricing = \<lparr>tp_currency = ''USD'', tp_standard = [sample_tier (Some 200000) 3, sample_tier None 6],
     tp_batch = None, tp_cache_write_5m_per_million = None, tp_cache_write_1h_per_million = None,
     tp_web_search_per_thousand = None\<rparr>"

definition sample_schedule :: "int option \<Rightarrow> int option \<Rightarrow> price_schedule" where
  "sample_schedule a b = \<lparr>ps_effective_from = a, ps_effective_through = b, ps_pricing = sample_pricing,
     ps_provenance = \<lparr>pv_source = ''s'', pv_url = ''u'', pv_as_of = ''t''\<rparr>\<rparr>"

definition sample_price :: model_price where
  "sample_price = \<lparr>mp_provider_name = ''acme'', mp_model = ''large'', mp_aliases = [], mp_match = Prefix,
     mp_match_prefixes = [], mp_pricing_context = None, mp_cache_write_ttls = [],
     mp_schedules = [sample_schedule None (Some 100), sample_schedule (Some 101) None]\<rparr>"

section \<open>Tiers, schedules and matches are determined\<close>

lemma hd_filter_first:
  assumes "filter P xs = t # ts"
  shows "t \<in> set xs" "P t" "\<exists>ys zs. xs = ys @ t # zs \<and> (\<forall>y\<in>set ys. \<not> P y)"
  using assms by (auto simp: filter_eq_Cons_iff)

lemma bounded_tiers_append: "bounded_tiers (xs @ ys) = bounded_tiers xs @ bounded_tiers ys"
  by (simp add: bounded_tiers_def)

lemma bounded_tiers_Cons:
  "bounded_tiers (t # ts) = (case pt_max_input_tokens t of None \<Rightarrow> [] | Some m \<Rightarrow> [m]) @ bounded_tiers ts"
  by (simp add: bounded_tiers_def)

lemma bounded_tiers_mem: "t \<in> set ts \<Longrightarrow> pt_max_input_tokens t = Some m \<Longrightarrow> m \<in> set (bounded_tiers ts)"
  by (force simp: bounded_tiers_def)

lemma validate_tier_order_sorted:
  "validate_tier_order p = Inr () \<Longrightarrow> sorted (bounded_tiers (tp_standard p))"
  by (auto simp: validate_tier_order_def Let_def split: if_splits) (metis sorted_sort)+

lemma validate_tier_order_open_last:
  assumes "validate_tier_order p = Inr ()" "tp_standard p = ys @ t # zs" "pt_max_input_tokens t = None"
  shows "zs = []"
proof -
  let ?o = "open_ended_tiers (tp_standard p)"
  have mem: "length ys \<in> set ?o"
    using assms(2,3) by (auto simp: open_ended_tiers_def nth_append)
  from assms(1) have len: "length ?o \<le> 1" and first: "?o \<noteq> [] \<longrightarrow> ?o ! 0 = length (tp_standard p) - 1"
    by (auto simp: validate_tier_order_def Let_def split: if_splits)
  from mem len have "?o = [length ys]"
    by (cases ?o) (auto simp: le_Suc_eq)
  with first have "length ys = length (tp_standard p) - 1" by simp
  with assms(2) show ?thesis by simp
qed

lemma sample_pricing_valid: "tiered_pricing_valid sample_pricing"
  by code_simp

lemma sample_price_valid: "model_price_valid sample_price"
  by code_simp

text \<open>
  In validated tiered pricing the chosen tier is the narrowest band that holds the token count:
  whenever some bounded tier can hold the count, the chosen tier is bounded, holds it, and no tier
  that holds it has a smaller bound.
\<close>
theorem tier_for_least_band:
  assumes valid: "tiered_pricing_valid p"
  shows "tier_for p n \<in> set (tp_standard p)
    \<and> (\<forall>t\<in>set (tp_standard p). \<forall>m. pt_max_input_tokens t = Some m \<and> n \<le> m \<longrightarrow>
         (\<exists>k. pt_max_input_tokens (tier_for p n) = Some k \<and> n \<le> k \<and> k \<le> m))"
proof (cases "filter (\<lambda>t. case pt_max_input_tokens t of None \<Rightarrow> True | Some m \<Rightarrow> n \<le> m) (tp_standard p)")
  case Nil
  then have "\<forall>t\<in>set (tp_standard p). \<forall>m. pt_max_input_tokens t = Some m \<longrightarrow> \<not> n \<le> m"
    by (fastforce simp: filter_empty_conv)
  with Nil valid show ?thesis by (auto simp: tier_for_def tiered_pricing_valid_def)
next
  case (Cons t ts)
  then have tier: "tier_for p n = t" by (simp add: tier_for_def)
  have order: "validate_tier_order p = Inr ()" using valid by (simp add: tiered_pricing_valid_def)
  from hd_filter_first [OF Cons] obtain ys zs where split: "tp_standard p = ys @ t # zs"
    and before: "\<forall>y\<in>set ys. \<not> (case pt_max_input_tokens y of None \<Rightarrow> True | Some m \<Rightarrow> n \<le> m)"
    and here: "case pt_max_input_tokens t of None \<Rightarrow> True | Some m \<Rightarrow> n \<le> m" by auto
  have "\<exists>k. pt_max_input_tokens t = Some k \<and> n \<le> k \<and> k \<le> m"
    if u: "u \<in> set (tp_standard p)" "pt_max_input_tokens u = Some m" "n \<le> m" for u m
  proof -
    from u before have uin: "u = t \<or> u \<in> set zs" by (auto simp: split)
    with u obtain k where k: "pt_max_input_tokens t = Some k"
      using validate_tier_order_open_last [OF order split] by (cases "pt_max_input_tokens t") auto
    have "sorted (k # bounded_tiers zs)"
      using validate_tier_order_sorted [OF order]
      by (simp add: split bounded_tiers_append bounded_tiers_Cons k sorted_append)
    with uin u k here show ?thesis by (auto dest: bounded_tiers_mem)
  qed
  with tier split show ?thesis by auto
qed

theorem tier_for_least_band_witness:
  "tier_for sample_pricing 150000 = sample_tier (Some 200000) 3
   \<and> (\<exists>k. pt_max_input_tokens (tier_for sample_pricing 150000) = Some k \<and> 150000 \<le> k \<and> k \<le> 200000)"
proof -
  have "sample_tier (Some 200000) 3 \<in> set (tp_standard sample_pricing)"
    by (simp add: sample_pricing_def)
  then have "\<exists>k. pt_max_input_tokens (tier_for sample_pricing 150000) = Some k \<and> 150000 \<le> k \<and> k \<le> 200000"
    using tier_for_least_band [OF sample_pricing_valid, of 150000] by (auto simp: sample_tier_def)
  moreover have "tier_for sample_pricing 150000 = sample_tier (Some 200000) 3"
    by (simp add: tier_for_def sample_pricing_def sample_tier_def)
  ultimately show ?thesis by simp
qed

lemma schedules_overlap_Cons:
  "\<not> schedules_overlap (s # t # rest) \<Longrightarrow>
     \<exists>b a. ps_effective_through s = Some b \<and> ps_effective_from t = Some a \<and> b < a \<and> \<not> schedules_overlap (t # rest)"
  by (auto split: option.splits)

lemma later_schedule_starts_after:
  assumes "\<not> schedules_overlap (s # rest)" "list_all price_schedule_valid rest" "u \<in> set rest"
  shows "\<exists>b a. ps_effective_through s = Some b \<and> ps_effective_from u = Some a \<and> b < a"
  using assms
proof (induction rest arbitrary: s)
  case (Cons t rest)
  obtain b a where st: "ps_effective_through s = Some b" "ps_effective_from t = Some a" "b < a"
    and rest: "\<not> schedules_overlap (t # rest)"
    using schedules_overlap_Cons [OF Cons.prems(1)] by blast
  show ?case
  proof (cases "u = t")
    case True
    with st show ?thesis by simp
  next
    case False
    with Cons.prems obtain b' a' where tu: "ps_effective_through t = Some b'" "ps_effective_from u = Some a'" "b' < a'"
      using Cons.IH [OF rest] by auto
    moreover have "a \<le> b'"
      using Cons.prems(2) st(2) tu(1) by (auto simp: price_schedule_valid_def)
    ultimately show ?thesis using st by auto
  qed
qed simp

lemma find_unique:
  assumes "\<not> schedules_overlap ss" "list_all price_schedule_valid ss" "s \<in> set ss" "applies_on s d"
  shows "find (\<lambda>s. applies_on s d) ss = Some s"
  using assms
proof (induction ss)
  case (Cons x xs)
  show ?case
  proof (cases "x = s")
    case True
    with Cons.prems show ?thesis by simp
  next
    case False
    with Cons.prems have s: "s \<in> set xs" by simp
    obtain b a where "ps_effective_through x = Some b" "ps_effective_from s = Some a" "b < a"
      using later_schedule_starts_after [OF Cons.prems(1) _ s] Cons.prems(2) by auto
    then have "\<not> applies_on x d" using Cons.prems(4) by (auto simp: applies_on_def)
    moreover have "\<not> schedules_overlap xs" using Cons.prems(1) by (cases xs) auto
    ultimately show ?thesis using Cons s by simp
  qed
qed simp

text \<open>
  C35. A validated model price never has two schedules in force on one date: the schedule found for a
  date is exactly the one that applies then.
\<close>
theorem schedule_on_unique:
  assumes "model_price_valid p" "s \<in> set (mp_schedules p)"
  shows "schedule_on p d = Some s \<longleftrightarrow> applies_on s d"
proof
  assume "schedule_on p d = Some s"
  then show "applies_on s d" by (auto simp: schedule_on_def find_Some_iff)
next
  assume "applies_on s d"
  moreover from assms(1) have "\<not> schedules_overlap (mp_schedules p)" "list_all price_schedule_valid (mp_schedules p)"
    by (auto simp: model_price_valid_def validate_schedules_def split: if_splits)
  ultimately show "schedule_on p d = Some s"
    using find_unique assms(2) by (simp add: schedule_on_def)
qed

theorem schedule_on_unique_witness:
  "schedule_on sample_price 100 = Some (sample_schedule None (Some 100))
   \<and> schedule_on sample_price 101 \<noteq> Some (sample_schedule None (Some 100))"
proof -
  have mem: "sample_schedule None (Some 100) \<in> set (mp_schedules sample_price)"
    by (simp add: sample_price_def)
  show ?thesis
    using schedule_on_unique [OF sample_price_valid mem, of 100] schedule_on_unique [OF sample_price_valid mem, of 101]
    by (simp add: applies_on_def sample_schedule_def)
qed

lemma best_match_loop_spec:
  assumes "\<And>b. best = Some b \<Longrightarrow> candidate_matches p n b"
  shows "case best_match_loop p n best ms of
      None \<Rightarrow> best = None \<and> (\<forall>m\<in>set ms. \<not> candidate_matches p n m)
    | Some r \<Rightarrow> (r \<in> set ms \<or> best = Some r) \<and> candidate_matches p n r
        \<and> (\<forall>m\<in>set ms. candidate_matches p n m \<longrightarrow> match_score m \<le> match_score r)
        \<and> (\<forall>b. best = Some b \<longrightarrow> match_score b \<le> match_score r)"
  using assms
proof (induction ms arbitrary: best)
  case Nil
  then show ?case by (auto split: option.splits)
next
  case (Cons m ms)
  show ?case
  proof (cases "candidate_matches p n m \<and> (case best of None \<Rightarrow> True | Some b \<Rightarrow> match_score m > match_score b)")
    case True
    then have step: "best_match_loop p n best (m # ms) = best_match_loop p n (Some m) ms" by simp
    have "case best_match_loop p n (Some m) ms of
        None \<Rightarrow> False
      | Some r \<Rightarrow> (r \<in> set ms \<or> m = r) \<and> candidate_matches p n r
          \<and> (\<forall>m\<in>set ms. candidate_matches p n m \<longrightarrow> match_score m \<le> match_score r)
          \<and> match_score m \<le> match_score r"
      using Cons.IH [of "Some m"] True by (auto split: option.splits)
    with step True show ?thesis
      by (auto split: option.splits dest: order_trans [OF less_imp_le])
  next
    case False
    then have step: "best_match_loop p n best (m # ms) = best_match_loop p n best ms" by auto
    have "candidate_matches p n m \<Longrightarrow> \<exists>b. best = Some b \<and> match_score m \<le> match_score b"
      using False by (auto simp: not_less split: option.splits)
    with step Cons.IH [of best] Cons.prems show ?thesis
      by (auto split: option.splits dest: order_trans)
  qed
qed

text \<open>
  Two records of a book conflict when they have the same provider, model and match kind and some pricing
  context selects both.  A validated book holds no two conflicting records.
\<close>

type_synonym book_rule = "model_price \<times> string \<times> match_rule"

definition book_rules :: "model_price list \<Rightarrow> book_rule list" where
  "book_rules ps = concat (map (\<lambda>p. map (Pair p) (match_rules p)) ps)"

definition rule_key :: "book_rule \<Rightarrow> string \<times> string \<times> match_rule" where
  "rule_key x = match_key (mp_provider_name (fst x)) (fst (snd x)) (snd (snd x))"

definition rules_conflict :: "book_rule \<Rightarrow> book_rule \<Rightarrow> bool" where
  "rules_conflict x y \<longleftrightarrow> rule_key x = rule_key y \<and>
     (case (mp_pricing_context (fst x), mp_pricing_context (fst y)) of
        (None, None) \<Rightarrow> True
      | (Some a, Some b) \<Rightarrow> pricing_context_selectors_overlap a b
      | _ \<Rightarrow> False)"

text \<open>What the scan has recorded of the records \<open>passed\<close> it has passed.\<close>

definition scanned :: "book_rule set \<Rightarrow> book_scan \<Rightarrow> bool" where
  "scanned passed st \<longleftrightarrow> (\<forall>x\<in>passed. case mp_pricing_context (fst x) of
     None \<Rightarrow> (rule_key x, None) \<in> set (bs_seen st)
   | Some sel \<Rightarrow> (\<exists>sels. dict_get (bs_selectors st) (rule_key x) = Some sels \<and> sel \<in> set sels))"

lemma selectors_overlap_iff:
  "pricing_context_selectors_overlap a b \<longleftrightarrow> fmdom a = fmdom b \<and>
     (\<forall>k vs ws. fmlookup a k = Some vs \<longrightarrow> fmlookup b k = Some ws \<longrightarrow> set vs \<inter> set ws \<noteq> {})"
proof (cases "fmdom a = fmdom b")
  case True
  have other: "\<exists>ws. fmlookup b k = Some ws" if "fmlookup a k = Some vs" for k vs
    using fmdomI [OF that] True by auto
  show ?thesis unfolding pricing_context_selectors_overlap_def fmpred_iff
  proof (intro iffI conjI allI impI)
    fix k vs
    assume h: "fmdom a = fmdom b \<and> (\<forall>k vs ws. fmlookup a k = Some vs \<longrightarrow> fmlookup b k = Some ws \<longrightarrow> set vs \<inter> set ws \<noteq> {})"
      and k: "fmlookup a k = Some vs"
    from other [OF k] obtain ws where "fmlookup b k = Some ws" ..
    with h k show "case fmlookup b k of None \<Rightarrow> False | Some ws \<Rightarrow> set vs \<inter> set ws \<noteq> {}" by simp
  qed (use True in fastforce)+
qed (simp add: pricing_context_selectors_overlap_def)

lemma selectors_overlap_sym: "pricing_context_selectors_overlap a b \<Longrightarrow> pricing_context_selectors_overlap b a"
  unfolding selectors_overlap_iff by (metis Int_commute)

lemma rules_conflict_sym: "rules_conflict x y \<Longrightarrow> rules_conflict y x"
  by (auto simp: rules_conflict_def split: option.splits intro: selectors_overlap_sym)

lemma selectors_of_context_overlap:
  assumes "selector_matches a c" "selector_matches b c"
  shows "pricing_context_selectors_overlap a b"
  unfolding selectors_overlap_iff
proof (intro conjI allI impI)
  show "fmdom a = fmdom b" using assms by (simp add: selector_matches_def)
  fix k vs ws
  assume k: "fmlookup a k = Some vs" "fmlookup b k = Some ws"
  have "case fmlookup c k of None \<Rightarrow> False | Some v \<Rightarrow> v \<in> set vs" "case fmlookup c k of None \<Rightarrow> False | Some v \<Rightarrow> v \<in> set ws"
    using assms k by (simp_all add: selector_matches_def fmpred_iff)
  then show "set vs \<inter> set ws \<noteq> {}" by (cases "fmlookup c k") auto
qed

lemma scan_rule_step:
  assumes run: "scan_rule p rule st = Inr st'" and prev: "scanned passed st"
  shows "scanned (insert (p, rule) passed) st' \<and> (\<forall>x\<in>passed. \<not> rules_conflict x (p, rule))"
proof -
  have key: "match_key (mp_provider_name p) (fst rule) (snd rule) = rule_key (p, rule)" by (simp add: rule_key_def)
  show ?thesis
  proof (cases "mp_pricing_context p")
    case None
    then have st': "st' = st\<lparr>bs_seen := (rule_key (p, rule), None) # bs_seen st\<rparr>"
      and new: "(rule_key (p, rule), None) \<notin> set (bs_seen st)"
      using run by (auto simp: scan_rule_def Let_def key split: if_splits)
    have "scanned (insert (p, rule) passed) st'"
      using prev None by (auto simp: scanned_def st' split: option.splits)
    moreover have "\<not> rules_conflict x (p, rule)" if "x \<in> passed" for x
      using prev that new None by (auto simp: scanned_def rules_conflict_def split: option.splits)
    ultimately show ?thesis by blast
  next
    case (Some sel)
    define old where "old = (case dict_get (bs_selectors st) (rule_key (p, rule)) of None \<Rightarrow> [] | Some xs \<Rightarrow> xs)"
    have apart: "\<not> list_ex (pricing_context_selectors_overlap sel) old"
      and sels: "bs_selectors st' = dict_put (rule_key (p, rule)) (old @ [sel]) (bs_selectors st)"
      and seen: "set (bs_seen st) \<subseteq> set (bs_seen st')"
      using run Some by (auto simp: scan_rule_def Let_def key old_def split: if_splits)
    have "scanned (insert (p, rule) passed) st'"
      unfolding scanned_def
    proof (intro ballI)
      fix x assume x: "x \<in> insert (p, rule) passed"
      show "case mp_pricing_context (fst x) of None \<Rightarrow> (rule_key x, None) \<in> set (bs_seen st')
        | Some sel \<Rightarrow> \<exists>sels. dict_get (bs_selectors st') (rule_key x) = Some sels \<and> sel \<in> set sels"
      proof (cases "mp_pricing_context (fst x)")
        case None
        with x Some have "x \<in> passed" by auto
        from bspec [OF prev [unfolded scanned_def] this] None seen show ?thesis by auto
      next
        case (Some sel')
        show ?thesis
        proof (cases "x = (p, rule)")
          case True
          with Some \<open>mp_pricing_context p = Some sel\<close> show ?thesis by (simp add: sels dict_simps)
        next
          case False
          with x have "x \<in> passed" by simp
          from bspec [OF prev [unfolded scanned_def] this] Some obtain ss
            where "dict_get (bs_selectors st) (rule_key x) = Some ss" "sel' \<in> set ss" by auto
          then show ?thesis using Some
            by (cases "rule_key x = rule_key (p, rule)") (auto simp: sels old_def dict_simps)
        qed
      qed
    qed
    moreover have "\<not> rules_conflict x (p, rule)" if x: "x \<in> passed" for x
    proof
      assume c: "rules_conflict x (p, rule)"
      with Some obtain sel' where sel': "mp_pricing_context (fst x) = Some sel'" "rule_key x = rule_key (p, rule)"
        "pricing_context_selectors_overlap sel' sel" by (auto simp: rules_conflict_def split: option.splits)
      from bspec [OF prev [unfolded scanned_def] x] sel'(1,2) have "sel' \<in> set old" by (auto simp: old_def)
      with apart selectors_overlap_sym [OF sel'(3)] show False by (auto simp: list_ex_iff)
    qed
    ultimately show ?thesis by blast
  qed
qed

lemma scan_rules_apart:
  assumes "scan_rules p rs st = Inr st'" "scanned (set passed) st" "sorted_wrt (\<lambda>x y. \<not> rules_conflict x y) passed"
  shows "scanned (set (passed @ map (Pair p) rs)) st' \<and> sorted_wrt (\<lambda>x y. \<not> rules_conflict x y) (passed @ map (Pair p) rs)"
  using assms
proof (induction rs arbitrary: st passed)
  case (Cons r rs)
  from Cons.prems(1) obtain u where u: "scan_rule p r st = Inr u" "scan_rules p rs u = Inr st'" by (auto simp: res_simps)
  have "scanned (set (passed @ [(p, r)])) u" "sorted_wrt (\<lambda>x y. \<not> rules_conflict x y) (passed @ [(p, r)])"
    using scan_rule_step [OF u(1) Cons.prems(2)] Cons.prems(3) by (simp_all add: sorted_wrt_append)
  from Cons.IH [OF u(2) this] show ?case by simp
qed simp

lemma scan_prices_apart:
  assumes "scan_prices reqs ps st = Inr st'" "scanned (set passed) st" "sorted_wrt (\<lambda>x y. \<not> rules_conflict x y) passed"
  shows "sorted_wrt (\<lambda>x y. \<not> rules_conflict x y) (passed @ book_rules ps)"
  using assms
proof (induction ps arbitrary: st passed)
  case (Cons p ps)
  from Cons.prems(1) obtain u where u: "scan_rules p (match_rules p) st = Inr u" "scan_prices reqs ps u = Inr st'"
    by (auto simp: res_simps split: if_splits)
  note apart = scan_rules_apart [OF u(1) Cons.prems(2,3)]
  from Cons.IH [OF u(2) apart [THEN conjunct1] apart [THEN conjunct2]] show ?case by (simp add: book_rules_def)
qed (simp add: book_rules_def)

lemma sorted_wrt_set_cases:
  "sorted_wrt R xs \<Longrightarrow> x \<in> set xs \<Longrightarrow> y \<in> set xs \<Longrightarrow> x = y \<or> R x y \<or> R y x"
  by (induction xs) auto

lemma valid_book_unique_rules:
  assumes "price_book_valid b" "x \<in> set (book_rules (pb_prices b))" "y \<in> set (book_rules (pb_prices b))" "rules_conflict x y"
  shows "x = y"
proof -
  from assms(1) obtain st where "scan_prices (builtin_requirements @ pb_requirements b) (pb_prices b)
      \<lparr>bs_seen = [], bs_selectors = []\<rparr> = Inr st"
    by (auto simp: price_book_valid_def validate_unique_matches_def Let_def res_simps split: if_splits)
  from scan_prices_apart [OF this, of "[]"]
  have "sorted_wrt (\<lambda>x y. \<not> rules_conflict x y) (book_rules (pb_prices b))" by (simp add: scanned_def)
  from sorted_wrt_set_cases [OF this assms(2,3)] assms(4) rules_conflict_sym show ?thesis by blast
qed

lemma valid_book_rule_clean:
  assumes "price_book_valid b" "(q, m, r) \<in> set (book_rules (pb_prices b))"
  shows "py_strip m = m"
proof -
  from assms have "model_price_valid q" "(m, r) \<in> set (match_rules q)"
    by (auto simp: book_rules_def price_book_valid_def list_all_iff)
  then show ?thesis by (auto simp: model_price_valid_def match_rules_def list_all_iff res_simps)
qed

text \<open>
  Which records of a book apply to a provider and a model, said without the search: the record's selector
  accepts the pricing context, its provider is the same up to case and outer blanks, and its configured
  model is the model (exact) or a prefix of it.
\<close>

definition record_applies :: "price_book \<Rightarrow> pricing_context option \<Rightarrow> string \<Rightarrow> string \<Rightarrow> model_price \<Rightarrow> string \<Rightarrow> match_rule \<Rightarrow> bool" where
  "record_applies b ctx p n q m r \<longleftrightarrow> q \<in> set (pb_prices b) \<and> (m, r) \<in> set (match_rules q) \<and>
     price_context_matches q ctx \<and> normalize_provider (mp_provider_name q) = normalize_provider p \<and>
     (case r of Exact \<Rightarrow> py_strip n = m | Prefix \<Rightarrow> (\<exists>rest. py_strip n = m @ rest))"

lemma text_starts_with_iff: "text_starts_with s t \<longleftrightarrow> (\<exists>rest. s = t @ rest)"
proof
  assume "text_starts_with s t"
  then have "s = t @ drop (length t) s" by (metis append_take_drop_id text_starts_with_def)
  then show "\<exists>rest. s = t @ rest" ..
qed (auto simp: text_starts_with_def)

lemma book_candidates_iff:
  "c \<in> set (book_candidates b mapped ctx) \<longleftrightarrow> bm_price c \<in> set (pb_prices b) \<and> price_context_matches (bm_price c) ctx \<and>
     (bm_model c, bm_match c) \<in> set (match_rules (bm_price c)) \<and> bm_resource_mapping c = mapped"
proof
  assume "bm_price c \<in> set (pb_prices b) \<and> price_context_matches (bm_price c) ctx \<and>
     (bm_model c, bm_match c) \<in> set (match_rules (bm_price c)) \<and> bm_resource_mapping c = mapped"
  moreover have "c = \<lparr>bm_price = bm_price c, bm_model = bm_model c, bm_match = bm_match c, bm_resource_mapping = bm_resource_mapping c\<rparr>"
    by simp
  ultimately show "c \<in> set (book_candidates b mapped ctx)" unfolding book_candidates_def by force
qed (auto simp: book_candidates_def split: if_splits)

lemma applies_candidate:
  assumes "price_book_valid b"
  shows "record_applies b ctx p n q m r \<longleftrightarrow>
    (\<exists>c\<in>set (book_candidates b mapped ctx). candidate_matches (normalize_provider p) (py_strip n) c \<and>
       bm_price c = q \<and> bm_model c = m \<and> bm_match c = r)"
proof -
  let ?c = "\<lparr>bm_price = q, bm_model = m, bm_match = r, bm_resource_mapping = mapped\<rparr>"
  have strip: "py_strip m = m" if "q \<in> set (pb_prices b)" "(m, r) \<in> set (match_rules q)"
    using that valid_book_rule_clean [OF assms, of q m r] by (force simp: book_rules_def)
  have "record_applies b ctx p n q m r \<longleftrightarrow>
      ?c \<in> set (book_candidates b mapped ctx) \<and> candidate_matches (normalize_provider p) (py_strip n) ?c"
    using strip by (cases r) (auto simp: record_applies_def book_candidates_iff candidate_matches_def text_starts_with_iff)
  moreover have "?c \<in> set (book_candidates b mapped ctx) \<and> candidate_matches (normalize_provider p) (py_strip n) ?c \<longleftrightarrow>
      (\<exists>c\<in>set (book_candidates b mapped ctx). candidate_matches (normalize_provider p) (py_strip n) c \<and>
       bm_price c = q \<and> bm_model c = m \<and> bm_match c = r)"
  proof (intro iffI)
    assume "\<exists>c\<in>set (book_candidates b mapped ctx). candidate_matches (normalize_provider p) (py_strip n) c \<and>
       bm_price c = q \<and> bm_model c = m \<and> bm_match c = r"
    then obtain c where c: "c \<in> set (book_candidates b mapped ctx)" "candidate_matches (normalize_provider p) (py_strip n) c"
      "bm_price c = q" "bm_model c = m" "bm_match c = r" by blast
    then have "c = ?c" by (simp add: book_candidates_iff)
    with c(1,2) show "?c \<in> set (book_candidates b mapped ctx) \<and> candidate_matches (normalize_provider p) (py_strip n) ?c" by metis
  qed force
  ultimately show ?thesis by (rule trans)
qed

lemma applying_records_conflict:
  assumes "price_book_valid b" "record_applies b ctx p n q m r" "record_applies b ctx p n q' m r"
  shows "q' = q"
proof -
  have "rules_conflict (q, m, r) (q', m, r)"
    using assms(2,3) unfolding record_applies_def rules_conflict_def rule_key_def match_key_def price_context_matches_def
    by (auto split: option.splits intro: selectors_of_context_overlap)
  moreover have "(q, m, r) \<in> set (book_rules (pb_prices b))" "(q', m, r) \<in> set (book_rules (pb_prices b))"
    using assms(2,3) by (force simp: record_applies_def book_rules_def)+
  ultimately show ?thesis using valid_book_unique_rules [OF assms(1)] by blast
qed

lemma applying_same_length:
  assumes "record_applies b ctx p n q m r" "record_applies b ctx p n q' m' r" "length m' = length m"
  shows "m' = m"
  using assms by (cases r) (auto simp: record_applies_def)

text \<open>
  C36. In a validated price book the price of a provider and model (outside billing identities and the
  reserved tool-dispatch pair) does not depend on the order of the book.  No price is found exactly when
  no record applies; otherwise the one found applies, and it beats every other record that applies:
  that record is a prefix rule, and the price found is exact or has a strictly longer configured model.
  In particular two exact records, or two prefixes of the same length, never apply together.
\<close>
theorem best_match_most_specific:
  assumes "price_book_valid b" "(p, n) \<noteq> (''cayu-tool-dispatch'', ''tool-dispatch'')"
  shows "case resolve_match b (Some p) (Some n) None ctx of
     None \<Rightarrow> \<forall>q m r. \<not> record_applies b ctx p n q m r
   | Some w \<Rightarrow> record_applies b ctx p n (bm_price w) (bm_model w) (bm_match w) \<and>
       (\<forall>q m r. record_applies b ctx p n q m r \<and> (q, m, r) \<noteq> (bm_price w, bm_model w, bm_match w) \<longrightarrow>
          r = Prefix \<and> (bm_match w = Exact \<or> length m < length (bm_model w)))"
proof -
  let ?cs = "book_candidates b False ctx" and ?ok = "candidate_matches (normalize_provider p) (py_strip n)"
  note spec = best_match_loop_spec [of None "normalize_provider p" "py_strip n" ?cs]
  have run: "resolve_match b (Some p) (Some n) None ctx = best_match_loop (normalize_provider p) (py_strip n) None ?cs"
    using assms(2) unfolding resolve_match_def Let_def by (auto simp: best_match_record_def)
  note applies = applies_candidate [OF assms(1), of ctx p n _ _ _ False]
  show ?thesis
  proof (cases "best_match_loop (normalize_provider p) (py_strip n) None ?cs")
    case None
    with spec applies show ?thesis by (simp add: run)
  next
    case (Some w)
    with spec have w: "w \<in> set ?cs" "?ok w" "\<And>c. c \<in> set ?cs \<Longrightarrow> ?ok c \<Longrightarrow> match_score c \<le> match_score w" by auto
    have best: "record_applies b ctx p n (bm_price w) (bm_model w) (bm_match w)" using w(1,2) applies by blast
    have "r = Prefix \<and> (bm_match w = Exact \<or> length m < length (bm_model w))"
      if other: "record_applies b ctx p n q m r" "(q, m, r) \<noteq> (bm_price w, bm_model w, bm_match w)" for q m r
    proof -
      from other(1) applies obtain c where c: "c \<in> set ?cs" "?ok c" "bm_price c = q" "bm_model c = m" "bm_match c = r" by blast
      have le: "match_score c \<le> match_score w" using w(3) c(1,2) .
      have "length m \<noteq> length (bm_model w)" if "r = bm_match w"
      proof
        assume len: "length m = length (bm_model w)"
        have "m = bm_model w" using applying_same_length [OF best other(1) [unfolded that] len] .
        with other(1) that have "record_applies b ctx p n q (bm_model w) (bm_match w)" by simp
        from applying_records_conflict [OF assms(1) best this] other(2) \<open>m = bm_model w\<close> that show False by simp
      qed
      moreover have "m = bm_model w" if "r = Exact" "bm_match w = Exact"
        using other(1) best that by (auto simp: record_applies_def)
      ultimately show ?thesis using le c(4,5)
        by (cases r; cases "bm_match w") (auto simp: match_score_def)
    qed
    with best show ?thesis unfolding run Some option.case by blast
  qed
qed

theorem best_match_most_specific_witness:
  "let b = \<lparr>pb_version = ''1'', pb_generated_at = ''now'',
       pb_prices = [sample_price\<lparr>mp_model := ''l'', mp_match := Prefix\<rparr>, sample_price\<lparr>mp_model := ''large'', mp_match := Prefix\<rparr>],
       pb_requirements = [], pb_resource_mappings = []\<rparr>
   in case resolve_match b (Some ''ACME'') (Some ''large-1'') None None of
        None \<Rightarrow> False | Some w \<Rightarrow> bm_model w = ''large''"
proof -
  let ?l = "sample_price\<lparr>mp_model := ''l'', mp_match := Prefix\<rparr>"
  let ?large = "sample_price\<lparr>mp_model := ''large'', mp_match := Prefix\<rparr>"
  let ?b = "\<lparr>pb_version = ''1'', pb_generated_at = ''now'', pb_prices = [?l, ?large],
       pb_requirements = [], pb_resource_mappings = []\<rparr>"
  have valid: "price_book_valid ?b" by code_simp
  have facts: "mp_provider_name sample_price = ''acme''" "mp_pricing_context sample_price = None" by code_simp+
  have strip: "py_strip ''large-1'' = ''large'' @ ''-1''" "normalize_provider ''ACME'' = normalize_provider ''acme''" by code_simp+
  have prefix: "\<exists>rest. py_strip ''large-1'' = ''large'' @ rest" unfolding strip(1) by blast
  have large: "record_applies ?b None ''ACME'' ''large-1'' ?large ''large'' Prefix"
    unfolding record_applies_def match_rule.case using prefix
    by (simp only: match_rules_def price_context_matches_def) (simp add: facts strip(2))
  have "(case resolve_match ?b (Some ''ACME'') (Some ''large-1'') None None of None \<Rightarrow> False
      | Some w \<Rightarrow> bm_match w = Prefix \<and> length (bm_model w) \<le> 5)" by code_simp
  then obtain w where w: "resolve_match ?b (Some ''ACME'') (Some ''large-1'') None None = Some w"
    "bm_match w = Prefix" "length (bm_model w) \<le> 5" by (auto split: option.splits)
  have pair: "(''ACME'', ''large-1'') \<noteq> (''cayu-tool-dispatch'', ''tool-dispatch'')" by simp
  note best = best_match_most_specific [OF valid pair, of None, unfolded w(1) option.case, THEN conjunct2,
      THEN spec, THEN spec, THEN spec, of ?large "''large''" Prefix]
  have "bm_model w = ''large''"
  proof (rule ccontr)
    assume "bm_model w \<noteq> ''large''"
    then have "(?large, ''large'', Prefix) \<noteq> (bm_price w, bm_model w, bm_match w)" by auto
    with best large have "bm_match w = Exact \<or> length ''large'' < length (bm_model w)" by blast
    with w(2,3) show False by simp
  qed
  then show ?thesis by (simp only: Let_def w(1) option.case)
qed

end
