(* ===== verification/Budget_Window.thy ===== *)
theory Budget_Window
  imports Cayu_Prelude
begin

text \<open>
  Budget windows (\<open>BudgetWindow\<close> of \<open>src/cayu/budgets/base.py\<close>): the validated window record, its
  textual storage key and the parser of that key, and the half-open accounting interval a window
  selects at an instant.  Calendar windows need the rules of a time zone, which the code takes from
  the IANA database through \<open>ZoneInfo\<close>; those rules are the argument \<open>zones\<close>.
\<close>

section \<open>The window record\<close>

datatype budget_window_kind = AllTime | Rolling | Calendar

datatype calendar_period = Day | Week | Month

record budget_window =
  bw_kind :: budget_window_kind
  bw_duration_seconds :: "int option"
  bw_period :: "calendar_period option"
  bw_timezone :: "string option"

text \<open>
  Time-zone rules: which names exist, the wall clock (microseconds, with the fold flag) of an
  instant, and the instant of a wall clock.
\<close>

record zone_db =
  zdb_known :: "string \<Rightarrow> bool"
  zdb_local :: "string \<Rightarrow> datetime \<Rightarrow> int \<times> bool"
  zdb_utc :: "string \<Rightarrow> int \<Rightarrow> bool \<Rightarrow> datetime"

definition max_durable_json_integer :: int where
  "max_durable_json_integer = 2 ^ 63 - 1"

definition min_durable_json_integer :: int where
  "min_durable_json_integer = - (2 ^ 63)"

definition validate_timezone :: "zone_db \<Rightarrow> string option \<Rightarrow> string option result" where
  "validate_timezone zones value =
     (case value of None \<Rightarrow> Inr None
      | Some tz \<Rightarrow> bind_res (require_clean_nonblank tz)
          (\<lambda>tz. if zdb_known zones tz then Inr (Some tz) else Inl ValueError))"

definition validate_window_fields :: "zone_db \<Rightarrow> budget_window \<Rightarrow> budget_window result" where
  "validate_window_fields zones w =
     bind_res (raise_if (case bw_duration_seconds w of None \<Rightarrow> False
         | Some d \<Rightarrow> d < 1 \<or> max_durable_json_integer < d) ValueError) (\<lambda>_.
     bind_res (validate_timezone zones (bw_timezone w)) (\<lambda>_.
       case bw_kind w of
         AllTime \<Rightarrow>
           (if bw_duration_seconds w \<noteq> None \<or> bw_period w \<noteq> None \<or> bw_timezone w \<noteq> None
            then Inl ValueError else Inr w)
       | Rolling \<Rightarrow>
           (if bw_duration_seconds w = None then Inl ValueError
            else if bw_period w \<noteq> None \<or> bw_timezone w \<noteq> None then Inl ValueError
            else Inr w)
       | Calendar \<Rightarrow>
           (if bw_duration_seconds w \<noteq> None then Inl ValueError
            else if bw_period w = None then Inl ValueError
            else if bw_timezone w = None then Inl ValueError
            else Inr w)))"

definition all_time_window :: budget_window where
  "all_time_window = \<lparr>bw_kind = AllTime, bw_duration_seconds = None, bw_period = None,
     bw_timezone = None\<rparr>"

definition rolling_window :: "zone_db \<Rightarrow> int \<Rightarrow> budget_window result" where
  "rolling_window zones s = validate_window_fields zones
     \<lparr>bw_kind = Rolling, bw_duration_seconds = Some s, bw_period = None, bw_timezone = None\<rparr>"

definition calendar_window :: "zone_db \<Rightarrow> calendar_period \<Rightarrow> string \<Rightarrow> budget_window result" where
  "calendar_window zones p tz = validate_window_fields zones
     \<lparr>bw_kind = Calendar, bw_duration_seconds = None, bw_period = Some p, bw_timezone = Some tz\<rparr>"

definition window_valid :: "zone_db \<Rightarrow> budget_window \<Rightarrow> bool" where
  "window_valid zones w \<longleftrightarrow> validate_window_fields zones w = Inr w"

section \<open>Storage keys\<close>

text \<open>\<open>str\<close> of a non-negative integer and \<open>int\<close> of a text, as Python defines them.\<close>

definition digit_char :: "nat \<Rightarrow> char" where
  "digit_char d = char_of (48 + d)"

fun digits_of :: "nat \<Rightarrow> string" where
  "digits_of n = (if n < 10 then [digit_char n] else digits_of (n div 10) @ [digit_char (n mod 10)])"

declare digits_of.simps [simp del]

definition str_int :: "int \<Rightarrow> string" where
  "str_int i = (if i < 0 then CHR ''-'' # digits_of (nat (- i)) else digits_of (nat i))"

definition is_digit :: "char \<Rightarrow> bool" where
  "is_digit c \<longleftrightarrow> (48 :: nat) \<le> of_char c \<and> of_char c \<le> (57 :: nat)"

definition digit_val :: "char \<Rightarrow> int" where
  "digit_val c = int (of_char c) - 48"

fun scan_digits :: "int \<Rightarrow> bool \<Rightarrow> string \<Rightarrow> int option" where
  "scan_digits acc prev [] = (if prev then Some acc else None)"
| "scan_digits acc prev (c # cs) =
     (if is_digit c then scan_digits (10 * acc + digit_val c) True cs
      else if c = CHR ''_'' \<and> prev then scan_digits acc False cs
      else None)"

definition parse_int :: "string \<Rightarrow> int option" where
  "parse_int s = (case py_strip s of
       [] \<Rightarrow> None
     | c # cs \<Rightarrow>
         if c = CHR ''-'' then map_option uminus (scan_digits 0 False cs)
         else if c = CHR ''+'' then scan_digits 0 False cs
         else scan_digits 0 False (c # cs))"

fun period_text :: "calendar_period \<Rightarrow> string" where
  "period_text Day = ''day''"
| "period_text Week = ''week''"
| "period_text Month = ''month''"

definition calendar_period_of :: "string \<Rightarrow> calendar_period result" where
  "calendar_period_of s =
     (if s = ''day'' then Inr Day
      else if s = ''week'' then Inr Week
      else if s = ''month'' then Inr Month
      else Inl ValueError)"

definition opt_text :: "('a \<Rightarrow> string) \<Rightarrow> 'a option \<Rightarrow> string" where
  "opt_text f v = (case v of None \<Rightarrow> ''None'' | Some x \<Rightarrow> f x)"

definition storage_key :: "budget_window \<Rightarrow> string" where
  "storage_key w = (case bw_kind w of
       AllTime \<Rightarrow> ''all_time''
     | Rolling \<Rightarrow> ''rolling:'' @ opt_text str_int (bw_duration_seconds w) @ ''s''
     | Calendar \<Rightarrow> ''calendar:'' @ opt_text period_text (bw_period w) @ '':''
         @ opt_text id (bw_timezone w))"

definition starts_with :: "string \<Rightarrow> string \<Rightarrow> bool" where
  "starts_with p s \<longleftrightarrow> take (length p) s = p"

definition ends_with :: "string \<Rightarrow> string \<Rightarrow> bool" where
  "ends_with p s \<longleftrightarrow> starts_with (rev p) (rev s)"

text \<open>\<open>text.split(":", 2)\<close>: at most two cuts, from the left.\<close>

definition split_once :: "string \<Rightarrow> string list" where
  "split_once s = (case dropWhile (\<lambda>c. c \<noteq> CHR '':'') s of
       [] \<Rightarrow> [s]
     | _ # rest \<Rightarrow> [takeWhile (\<lambda>c. c \<noteq> CHR '':'') s, rest])"

definition split_twice :: "string \<Rightarrow> string list" where
  "split_twice s = (case split_once s of [a, rest] \<Rightarrow> a # split_once rest | parts \<Rightarrow> parts)"

definition budget_window_from_string :: "zone_db \<Rightarrow> string \<Rightarrow> budget_window result" where
  "budget_window_from_string zones value =
     bind_res (require_clean_nonblank value) (\<lambda>text.
       if text = ''all_time'' then Inr all_time_window
       else if starts_with ''rolling:'' text \<and> ends_with ''s'' text then
         (case parse_int (butlast (drop 8 text)) of
            None \<Rightarrow> Inl ValueError
          | Some s \<Rightarrow> rolling_window zones s)
       else if starts_with ''calendar:'' text then
         (case split_twice text of
            [_, p, tz] \<Rightarrow> bind_res (calendar_period_of p) (\<lambda>p. calendar_window zones p tz)
          | _ \<Rightarrow> Inl ValueError)
       else Inl ValueError)"

section \<open>Accounting intervals\<close>

text \<open>The proleptic Gregorian calendar of \<open>datetime.date\<close>: ordinals and their inverse.\<close>

definition is_leap :: "int \<Rightarrow> bool" where
  "is_leap y \<longleftrightarrow> y mod 4 = 0 \<and> (y mod 100 \<noteq> 0 \<or> y mod 400 = 0)"

definition days_before_year :: "int \<Rightarrow> int" where
  "days_before_year y = (let y = y - 1 in y * 365 + y div 4 - y div 100 + y div 400)"

fun common_days_before :: "int \<Rightarrow> int" where
  "common_days_before m =
     (if m \<le> 1 then 0 else if m = 2 then 31 else if m = 3 then 59 else if m = 4 then 90
      else if m = 5 then 120 else if m = 6 then 151 else if m = 7 then 181 else if m = 8 then 212
      else if m = 9 then 243 else if m = 10 then 273 else if m = 11 then 304 else if m = 12 then 334
      else 365)"

definition days_before_month :: "bool \<Rightarrow> int \<Rightarrow> int" where
  "days_before_month leap m = common_days_before m + (if 2 < m \<and> leap then 1 else 0)"

definition ymd2ord :: "int \<Rightarrow> int \<Rightarrow> int \<Rightarrow> int" where
  "ymd2ord y m d = days_before_year y + days_before_month (is_leap y) m + d"

definition month_of_day :: "bool \<Rightarrow> int \<Rightarrow> int" where
  "month_of_day leap n =
     (let m = (n + 50) div 32 in if days_before_month leap m > n then m - 1 else m)"

definition ord2ym :: "int \<Rightarrow> int \<times> int" where
  "ord2ym ordinal =
     (let n = ordinal - 1;
          n400 = n div 146097; n = n mod 146097;
          n100 = n div 36524; n = n mod 36524;
          n4 = n div 1461; n = n mod 1461;
          n1 = n div 365; n = n mod 365;
          year = n400 * 400 + 1 + n100 * 100 + n4 * 4 + n1
      in if n1 = 4 \<or> n100 = 4 then (year - 1, 12)
         else (year, month_of_day (n1 = 3 \<and> (n4 \<noteq> 24 \<or> n100 = 3)) n))"

definition pad_digits :: "nat \<Rightarrow> int \<Rightarrow> string" where
  "pad_digits w n = (let s = digits_of (nat n) in replicate (w - length s) (CHR ''0'') @ s)"

definition iso_date :: "int \<Rightarrow> string" where
  "iso_date ordinal = (let (y, m) = ord2ym ordinal; d = ordinal - ymd2ord y m 1 + 1
     in pad_digits 4 y @ ''-'' @ pad_digits 2 m @ ''-'' @ pad_digits 2 d)"

definition day_us :: int where
  "day_us = 86400 * 1000000"

definition epoch_ordinal :: int where
  "epoch_ordinal = 719163"

definition wall_of_date :: "int \<Rightarrow> int \<Rightarrow> int \<Rightarrow> int" where
  "wall_of_date y m d = (ymd2ord y m d - epoch_ordinal) * day_us"

definition midnight :: "int \<Rightarrow> int" where
  "midnight wall = (wall div day_us) * day_us"

text \<open>\<open>weekday()\<close>: Monday is 0; ordinal 1 is a Monday.\<close>

definition weekday :: "int \<Rightarrow> int" where
  "weekday wall = (wall div day_us + epoch_ordinal + 6) mod 7"

definition to_utc :: "zone_db \<Rightarrow> string \<Rightarrow> int \<Rightarrow> bool \<Rightarrow> datetime result" where
  "to_utc zones tz wall fld =
     (let t = zdb_utc zones tz wall fld in if in_dt_range t then Inr t else Inl OverflowError)"

definition calendar_window_bounds ::
    "zone_db \<Rightarrow> datetime \<Rightarrow> calendar_period \<Rightarrow> string \<Rightarrow> (datetime \<times> datetime) result" where
  "calendar_window_bounds zones now period tz =
     (let (local_now, fld) = zdb_local zones tz now;
          convert = (\<lambda>s sf e ef. bind_res (to_utc zones tz s sf) (\<lambda>s.
             bind_res (to_utc zones tz e ef) (\<lambda>e. Inr (s, e))))
      in case period of
        Day \<Rightarrow>
          (let local_start = midnight local_now; local_end = local_start + day_us
           in if \<not> in_dt_range local_end then Inl OverflowError
              else convert local_start fld local_end False)
      | Week \<Rightarrow>
          (let local_start = midnight local_now - weekday local_now * day_us;
               local_end = local_start + 7 * day_us
           in if \<not> in_dt_range local_start \<or> \<not> in_dt_range local_end then Inl OverflowError
              else convert local_start False local_end False)
      | Month \<Rightarrow>
          (let (y, m) = ord2ym (local_now div day_us + epoch_ordinal);
               local_start = wall_of_date y m 1
           in if m = 12 then
                (if y + 1 > 9999 then Inl ValueError
                 else convert local_start fld (wall_of_date (y + 1) 1 1) fld)
              else convert local_start fld (wall_of_date y (m + 1) 1) fld))"

definition bounds ::
    "zone_db \<Rightarrow> budget_window \<Rightarrow> datetime \<Rightarrow> (datetime option \<times> datetime option) result" where
  "bounds zones w now = (case bw_kind w of
       AllTime \<Rightarrow> Inr (None, None)
     | Rolling \<Rightarrow>
         (let since = now - seconds (case bw_duration_seconds w of None \<Rightarrow> 0 | Some d \<Rightarrow> d)
          in if since < dt_min then Inl OverflowError else Inr (Some since, Some now))
     | Calendar \<Rightarrow>
         bind_res (calendar_window_bounds zones now
             (case bw_period w of None \<Rightarrow> Day | Some p \<Rightarrow> p)
             (case bw_timezone w of None \<Rightarrow> ''UTC'' | Some tz \<Rightarrow> tz))
           (\<lambda>(s, e). Inr (Some s, Some e)))"

definition in_window :: "datetime option \<Rightarrow> datetime option \<Rightarrow> datetime \<Rightarrow> bool" where
  "in_window since until t \<longleftrightarrow>
     (case since of None \<Rightarrow> True | Some s \<Rightarrow> \<not> t < s) \<and>
     (case until of None \<Rightarrow> True | Some u \<Rightarrow> \<not> t \<ge> u)"

text \<open>The first day of the month after \<open>(y, m)\<close>, and zones whose offset never changes.\<close>

definition next_month :: "int \<Rightarrow> int \<Rightarrow> int" where
  "next_month y m = (if m = 12 then ymd2ord (y + 1) 1 1 else ymd2ord y (m + 1) 1)"

definition fixed_offset :: "zone_db \<Rightarrow> string \<Rightarrow> int \<Rightarrow> bool" where
  "fixed_offset zones tz off \<longleftrightarrow>
     (\<forall>t. zdb_local zones tz t = (t + off, False)) \<and> (\<forall>w f. zdb_utc zones tz w f = w - off)"

definition utc_zones :: zone_db where
  "utc_zones = \<lparr>zdb_known = (\<lambda>tz. tz = ''UTC''), zdb_local = (\<lambda>_ t. (t, False)), zdb_utc = (\<lambda>_ w _. w)\<rparr>"

section \<open>The key of a window names that window\<close>

lemma dropWhile_hd: "xs \<noteq> [] \<Longrightarrow> \<not> P (hd xs) \<Longrightarrow> dropWhile P xs = xs"
  by (cases xs) auto

lemma py_strip_trimmed:
  "s \<noteq> [] \<Longrightarrow> \<not> py_space (hd s) \<Longrightarrow> \<not> py_space (last s) \<Longrightarrow> py_strip s = s"
  by (simp add: py_strip_def dropWhile_hd hd_rev)

lemma py_strip_last:
  assumes "py_strip s = s" "s \<noteq> []"
  shows "\<not> py_space (last s)"
proof -
  define r where "r = dropWhile py_space (rev (dropWhile py_space s))"
  from assms(1) have s: "s = rev r" by (simp add: py_strip_def r_def)
  with assms(2) have "r \<noteq> []" by auto
  then have "\<not> py_space (hd r)" unfolding r_def by (rule hd_dropWhile)
  then show ?thesis using s by (simp add: last_rev)
qed

lemma is_digit_digit_char: "d < 10 \<Longrightarrow> is_digit (digit_char d)"
  by (simp add: is_digit_def digit_char_def of_char_of)

lemma digit_val_digit_char: "d < 10 \<Longrightarrow> digit_val (digit_char d) = int d"
proof -
  assume "d < 10"
  then have "of_char (digit_char d) = 48 + d"
    by (simp add: digit_char_def of_char_of)
  then have "int (of_char (digit_char d)) = 48 + int d" by simp
  then show ?thesis by (simp add: digit_val_def)
qed

lemma digits_of_digit: "c \<in> set (digits_of n) \<Longrightarrow> is_digit c"
proof (induction n rule: digits_of.induct)
  case (1 n)
  then show ?case
    by (cases "n < 10") (auto simp: digits_of.simps [of n] intro: is_digit_digit_char)
qed

lemma digits_of_not_Nil: "digits_of n \<noteq> []"
  by (subst digits_of.simps) simp

lemma is_digit_not_space: "is_digit c \<Longrightarrow> \<not> py_space c"
  by (auto simp: is_digit_def py_space_def)

lemma scan_digits_digits_of:
  "scan_digits acc prev (digits_of n @ cs) = scan_digits (acc * 10 ^ length (digits_of n) + int n) True cs"
proof (induction n arbitrary: acc prev cs rule: digits_of.induct)
  case (1 n)
  show ?case
  proof (cases "n < 10")
    case True
    then show ?thesis
      by (simp add: digits_of.simps [of n] is_digit_digit_char digit_val_digit_char algebra_simps)
  next
    case False
    have d: "n mod 10 < 10" by simp
    have n: "int n = 10 * int (n div 10) + int (n mod 10)" by presburger
    from False have split: "digits_of n = digits_of (n div 10) @ [digit_char (n mod 10)]"
      by (simp add: digits_of.simps [of n])
    show ?thesis
      unfolding split using 1 [OF False]
      by (simp add: is_digit_digit_char [OF d] digit_val_digit_char [OF d] n algebra_simps)
  qed
qed

lemma parse_int_digits_of: "parse_int (digits_of n) = Some (int n)"
proof -
  obtain c cs where eq: "digits_of n = c # cs"
    using digits_of_not_Nil by (cases "digits_of n") auto
  then have "is_digit c" using digits_of_digit [of c n] by simp
  then have c: "c \<noteq> CHR ''-''" "c \<noteq> CHR ''+''" by (auto simp: is_digit_def)
  have "py_strip (digits_of n) = digits_of n"
    by (intro py_strip_trimmed digits_of_not_Nil is_digit_not_space digits_of_digit [of _ n])
      (simp_all add: digits_of_not_Nil)
  moreover have "scan_digits 0 False (digits_of n) = Some (int n)"
    using scan_digits_digits_of [of 0 False n "[]"] by simp
  ultimately show ?thesis using c eq by (simp add: parse_int_def)
qed

lemma split_once_colon: "CHR '':'' \<notin> set a \<Longrightarrow> split_once (a @ CHR '':'' # b) = [a, b]"
proof -
  assume "CHR '':'' \<notin> set a"
  then have "dropWhile (\<lambda>c. c \<noteq> CHR '':'') (a @ CHR '':'' # b) = CHR '':'' # b"
    and "takeWhile (\<lambda>c. c \<noteq> CHR '':'') (a @ CHR '':'' # b) = a"
    by (induction a) auto
  then show ?thesis by (simp add: split_once_def)
qed

lemma split_twice_calendar: "split_twice (''calendar:'' @ period_text p @ '':'' @ tz) = [''calendar'', period_text p, tz]"
proof -
  have "CHR '':'' \<notin> set (period_text p)" by (cases p) auto
  then have "split_once (period_text p @ CHR '':'' # tz) = [period_text p, tz]"
    by (rule split_once_colon)
  moreover have "split_once (''calendar'' @ CHR '':'' # period_text p @ CHR '':'' # tz)
     = [''calendar'', period_text p @ CHR '':'' # tz]"
    by (rule split_once_colon) simp
  ultimately show ?thesis by (simp add: split_twice_def)
qed

lemma storage_key_rolling:
  assumes "window_valid zones w" "bw_kind w = Rolling"
  obtains d where "0 < d" "w = \<lparr>bw_kind = Rolling, bw_duration_seconds = Some d, bw_period = None, bw_timezone = None\<rparr>"
    "storage_key w = ''rolling:'' @ digits_of (nat d) @ ''s''"
  using assms that
  by (cases w) (auto simp: window_valid_def validate_window_fields_def res_simps storage_key_def opt_text_def str_int_def split: option.splits if_splits)

lemma storage_key_calendar:
  assumes "window_valid zones w" "bw_kind w = Calendar"
  obtains p tz where "tz \<noteq> []" "py_strip tz = tz"
    "w = \<lparr>bw_kind = Calendar, bw_duration_seconds = None, bw_period = Some p, bw_timezone = Some tz\<rparr>"
    "storage_key w = ''calendar:'' @ period_text p @ '':'' @ tz"
  using assms that
  by (cases w) (auto simp: window_valid_def validate_window_fields_def validate_timezone_def res_simps storage_key_def opt_text_def split: option.splits if_splits)

text \<open>
  C32. The storage key of every window that passes validation parses back to that very window, for
  every time-zone database: all-time, rolling and calendar windows alike.  Two valid windows with
  the same key are therefore the same window.
\<close>
theorem window_key_roundtrip:
  assumes valid: "window_valid zones w"
  shows "budget_window_from_string zones (storage_key w) = Inr w"
proof (cases "bw_kind w")
  case AllTime
  with valid have "w = all_time_window"
    by (cases w) (auto simp: window_valid_def validate_window_fields_def all_time_window_def res_simps split: if_splits)
  then show ?thesis
    by (simp add: storage_key_def all_time_window_def budget_window_from_string_def require_clean_nonblank_def py_strip_def py_space_def)
next
  case Rolling
  with valid obtain d where d: "0 < d" "w = \<lparr>bw_kind = Rolling, bw_duration_seconds = Some d, bw_period = None, bw_timezone = None\<rparr>"
    and key: "storage_key w = ''rolling:'' @ digits_of (nat d) @ ''s''"
    by (rule storage_key_rolling)
  have "py_strip (storage_key w) = storage_key w"
    unfolding key by (rule py_strip_trimmed) (simp_all add: py_space_def)
  then have clean: "require_clean_nonblank (storage_key w) = Inr (storage_key w)"
    using key by (simp add: res_simps)
  have "parse_int (butlast (drop 8 (storage_key w))) = Some d"
    unfolding key using d(1) by (simp add: butlast_append parse_int_digits_of)
  moreover have "starts_with ''rolling:'' (storage_key w)" "ends_with ''s'' (storage_key w)" "storage_key w \<noteq> ''all_time''"
    unfolding key by (simp_all add: starts_with_def ends_with_def)
  ultimately show ?thesis
    using clean valid d(2) by (simp add: budget_window_from_string_def rolling_window_def window_valid_def)
next
  case Calendar
  with valid obtain p tz where tz: "tz \<noteq> []" "py_strip tz = tz"
    and w: "w = \<lparr>bw_kind = Calendar, bw_duration_seconds = None, bw_period = Some p, bw_timezone = Some tz\<rparr>"
    and key: "storage_key w = ''calendar:'' @ period_text p @ '':'' @ tz"
    by (rule storage_key_calendar)
  have "py_strip (storage_key w) = storage_key w"
    unfolding key using tz py_strip_last [OF tz(2,1)] by (intro py_strip_trimmed) (simp_all add: py_space_def)
  then have clean: "require_clean_nonblank (storage_key w) = Inr (storage_key w)"
    using key by (simp add: res_simps)
  have "starts_with ''calendar:'' (storage_key w)" "\<not> starts_with ''rolling:'' (storage_key w)" "storage_key w \<noteq> ''all_time''"
    unfolding key by (simp_all add: starts_with_def)
  moreover have "split_twice (storage_key w) = [''calendar'', period_text p, tz]"
    unfolding key by (rule split_twice_calendar)
  moreover have "calendar_period_of (period_text p) = Inr p"
    by (cases p) (simp_all add: calendar_period_of_def)
  ultimately show ?thesis
    using clean valid w by (simp add: budget_window_from_string_def calendar_window_def window_valid_def)
qed

theorem window_key_roundtrip_witness:
  "budget_window_from_string utc_zones
     (storage_key \<lparr>bw_kind = Calendar, bw_duration_seconds = None, bw_period = Some Week,
        bw_timezone = Some ''UTC''\<rparr>)
   = Inr \<lparr>bw_kind = Calendar, bw_duration_seconds = None, bw_period = Some Week,
        bw_timezone = Some ''UTC''\<rparr>"
  by (rule window_key_roundtrip)
    (simp add: window_valid_def validate_window_fields_def validate_timezone_def utc_zones_def
      require_clean_nonblank_def py_strip_def py_space_def)

section \<open>The interval of a window contains the instant it was asked for\<close>

lemma midnight_le: "midnight w \<le> w" "w < midnight w + day_us"
proof -
  have "midnight w = w - w mod day_us" by (simp add: midnight_def minus_mod_eq_div_mult)
  moreover have "0 \<le> w mod day_us" "w mod day_us < day_us" by (simp_all add: day_us_def)
  ultimately show "midnight w \<le> w" "w < midnight w + day_us" by simp_all
qed

lemma week_start_le:
  "midnight w - weekday w * day_us \<le> w" "w < midnight w - weekday w * day_us + 7 * day_us"
proof -
  have wd: "0 \<le> weekday w" "weekday w \<le> 6" by (simp_all add: weekday_def)
  have "0 < day_us" by (simp add: day_us_def)
  then have "0 \<le> weekday w * day_us" "weekday w * day_us \<le> 6 * day_us"
    using wd by simp_all
  then show "midnight w - weekday w * day_us \<le> w" "w < midnight w - weekday w * day_us + 7 * day_us"
    using midnight_le [of w] by linarith+
qed

lemma month_of_day_spec:
  fixes n :: int and leap :: bool
  assumes "0 \<le> n" "n < 365"
  defines "m \<equiv> month_of_day leap n"
  shows "1 \<le> m \<and> m \<le> 12 \<and> days_before_month leap m \<le> n \<and> n < days_before_month leap (m + 1)"
proof -
  define k where "k = (n + 50) div 32"
  have k: "32 * k \<le> n + 50" "n + 50 < 32 * k + 32" "1 \<le> k" "k \<le> 12"
    using assms by (auto simp: k_def)
  then have "k \<in> {1 .. 12}" by simp
  also have "{1 .. 12 :: int} = set [1 .. 12]" by simp
  also have "[1 .. 12 :: int] = [1, 2, 3, 4, 5, 6, 7, 8, 9, 10, 11, 12]" by code_simp
  finally show ?thesis
    using k(1,2) assms(1,2) unfolding m_def month_of_day_def k_def [symmetric]
    by (auto simp: days_before_month_def)
qed

lemma days_before_year_split:
  assumes "0 \<le> b" "b \<le> 3" "0 \<le> c" "c \<le> 24" "0 \<le> d" "d \<le> 3"
  shows "days_before_year (a * 400 + 1 + b * 100 + c * 4 + d)
    = 146097 * a + 36524 * b + 1461 * c + 365 * d"
proof -
  have "(a * 400 + b * 100 + c * 4 + d) div 4 = a * 100 + b * 25 + c"
    "(a * 400 + b * 100 + c * 4 + d) div 100 = a * 4 + b"
    "(a * 400 + b * 100 + c * 4 + d) div 400 = a"
    using assms
    by (auto intro: int_div_pos_eq [where r = d] int_div_pos_eq [where r = "c * 4 + d"]
        int_div_pos_eq [where r = "b * 100 + c * 4 + d"])
  then show ?thesis by (simp add: days_before_year_def Let_def algebra_simps)
qed

lemma is_leap_split:
  fixes a b c d :: int
  assumes "0 \<le> b" "b \<le> 3" "0 \<le> c" "c \<le> 24" "0 \<le> d" "d \<le> 3"
  shows "is_leap (a * 400 + 1 + b * 100 + c * 4 + d) \<longleftrightarrow> d = 3 \<and> (c \<noteq> 24 \<or> b = 3)"
proof -
  let ?y = "a * 400 + 1 + b * 100 + c * 4 + d"
  have multiple: "k dvd ?y \<longleftrightarrow> k dvd ?y - q * k" for k q :: int
    by (metis dvd_diff_commute dvd_triv_right minus_diff_eq zdvd_zdiffD dvd_diff)
  have "4 dvd ?y \<longleftrightarrow> 4 dvd d + 1"
    using multiple [of 4 "a * 100 + b * 25 + c"] by (simp add: algebra_simps)
  also have "\<dots> \<longleftrightarrow> d = 3" using assms(5,6) by presburger
  finally have 4: "4 dvd ?y \<longleftrightarrow> d = 3" .
  have "100 dvd ?y \<longleftrightarrow> 100 dvd c * 4 + d + 1"
    using multiple [of 100 "a * 4 + b"] by (simp add: algebra_simps)
  also have "\<dots> \<longleftrightarrow> c * 4 + d + 1 = 100"
    using assms zdvd_imp_le [of 100 "c * 4 + d + 1"] by auto
  finally have 100: "100 dvd ?y \<longleftrightarrow> d = 3 \<and> c = 24" using assms by (smt (verit))
  have "400 dvd ?y \<longleftrightarrow> 400 dvd b * 100 + c * 4 + d + 1"
    using multiple [of 400 a] by (simp add: algebra_simps)
  also have "\<dots> \<longleftrightarrow> b * 100 + c * 4 + d + 1 = 400"
    using assms zdvd_imp_le [of 400 "b * 100 + c * 4 + d + 1"] by (smt (verit) dvd_refl)
  finally have 400: "400 dvd ?y \<longleftrightarrow> d = 3 \<and> c = 24 \<and> b = 3" using assms by (smt (verit))
  show ?thesis using 4 100 400 by (auto simp: is_leap_def dvd_eq_mod_eq_0)
qed

lemma next_year_days: "days_before_year (y + 1) = days_before_year y + 365 + (if is_leap y then 1 else 0)"
proof -
  have pred: "y div k = (y - 1) div k + (if k dvd y then 1 else 0)" if "0 < k" for k :: int
  proof (cases "k dvd y")
    case True
    then obtain q where q: "y = k * q" ..
    then have "(y - 1) div k = q - 1"
      using that by (intro int_div_pos_eq [where r = "k - 1"]) (auto simp: algebra_simps)
    with True q that show ?thesis by simp
  next
    case False
    have y: "y = k * (y div k) + y mod k" by simp
    have "0 \<le> y mod k" "y mod k < k" "y mod k \<noteq> 0"
      using False that by (simp_all add: dvd_eq_mod_eq_0)
    then have "(y - 1) div k = y div k"
      using y by (intro int_div_pos_eq [where r = "y mod k - 1"]) auto
    with False show ?thesis by simp
  qed
  have dvds: "400 dvd y \<Longrightarrow> 100 dvd y" "100 dvd y \<Longrightarrow> 4 dvd y"
    by (auto elim: dvd_trans [rotated])
  have leap: "is_leap y \<longleftrightarrow> 4 dvd y \<and> (\<not> 100 dvd y \<or> 400 dvd y)"
    by (simp only: is_leap_def dvd_eq_mod_eq_0)
  have combine: "a - b + c = a' - b' + c' + (if l then 1 else 0)"
    if "a = a' + (if p then 1 else 0)" "b = b' + (if q then 1 else 0)" "c = c' + (if r then 1 else 0)"
      "r \<Longrightarrow> q" "q \<Longrightarrow> p" "l \<longleftrightarrow> p \<and> (\<not> q \<or> r)"
    for a b c a' b' c' :: int and p q r l
    using that by (cases p; cases q; cases r) simp_all
  have "y div 4 - y div 100 + y div 400
    = (y - 1) div 4 - (y - 1) div 100 + (y - 1) div 400 + (if is_leap y then 1 else 0)"
    by (rule combine [OF pred pred pred dvds leap]) simp_all
  then show ?thesis by (cases "is_leap y") (simp_all only: days_before_year_def Let_def if_True if_False add_diff_cancel_right', simp_all add: algebra_simps)
qed

lemma ord2ym_spec:
  assumes "ord2ym ordinal = (y, m)"
  shows "1 \<le> m \<and> m \<le> 12 \<and> ymd2ord y m 1 \<le> ordinal \<and> ordinal < next_month y m"
proof -
  define a where "a = (ordinal - 1) div 146097"
  define r1 where "r1 = (ordinal - 1) mod 146097"
  define b where "b = r1 div 36524"
  define r2 where "r2 = r1 mod 36524"
  define c where "c = r2 div 1461"
  define r3 where "r3 = r2 mod 1461"
  define d where "d = r3 div 365"
  define r where "r = r3 mod 365"
  have ord: "ordinal = 1 + 146097 * a + 36524 * b + 1461 * c + 365 * d + r"
  proof -
    have "ordinal - 1 = 146097 * a + r1" "r1 = 36524 * b + r2" "r2 = 1461 * c + r3" "r3 = 365 * d + r"
      by (simp_all add: a_def r1_def b_def r2_def c_def r3_def d_def r_def)
    then show ?thesis by simp
  qed
  have r1: "0 \<le> r1" "r1 < 146097" by (simp_all add: r1_def)
  have r2: "0 \<le> r2" "r2 < 36524" by (simp_all add: r2_def)
  have r3: "0 \<le> r3" "r3 < 1461" by (simp_all add: r3_def)
  have r: "0 \<le> r" "r < 365" by (simp_all add: r_def)
  have b: "0 \<le> b" "b \<le> 4" using r1 by (simp_all add: b_def)
  have c: "0 \<le> c" "c \<le> 24" using r2 by (simp_all add: c_def)
  have d: "0 \<le> d" "d \<le> 4" using r3 by (simp_all add: d_def)
  have b4: "r2 = 0" if "b = 4"
  proof -
    have "r1 = 36524 * b + r2" by (simp add: b_def r2_def)
    with that r1 r2 show ?thesis by simp
  qed
  have d4: "r = 0" if "d = 4"
  proof -
    have "r3 = 365 * d + r" by (simp add: d_def r_def)
    with that r3 r show ?thesis by simp
  qed
  define Y where "Y = a * 400 + 1 + b * 100 + c * 4 + d"
  have step: "ord2ym ordinal = (if d = 4 \<or> b = 4 then (Y - 1, 12)
      else (Y, month_of_day (d = 3 \<and> (c \<noteq> 24 \<or> b = 3)) r))"
    unfolding ord2ym_def Let_def Y_def a_def b_def c_def d_def r_def r3_def r2_def r1_def by simp
  show ?thesis
  proof (cases "d = 4 \<or> b = 4")
    case False
    then have bd: "b \<le> 3" "d \<le> 3" using b d by auto
    note days = days_before_year_split [OF b(1) bd(1) c d(1) bd(2), of a]
    note leap = is_leap_split [OF b(1) bd(1) c d(1) bd(2), of a]
    from False step assms have y: "y = Y" and m: "m = month_of_day (is_leap Y) r"
      using leap by (auto simp: Y_def)
    from month_of_day_spec [OF r, of "is_leap Y"]
    have spec: "1 \<le> m" "m \<le> 12" "days_before_month (is_leap Y) m \<le> r" "r < days_before_month (is_leap Y) (m + 1)"
      by (simp_all add: m)
    have "days_before_month (is_leap Y) 13 = 365 + (if is_leap Y then 1 else 0)"
      by (simp add: days_before_month_def)
    moreover have "days_before_month (is_leap (Y + 1)) 1 = 0"
      by (simp add: days_before_month_def)
    ultimately have "ymd2ord y m 1 \<le> ordinal \<and> ordinal < next_month y m"
      using spec days ord next_year_days [of Y]
      by (auto simp: ymd2ord_def y next_month_def Y_def [symmetric])
    with spec show ?thesis by simp
  next
    case True
    with step assms have y: "y = Y - 1" and m: "m = 12" by auto
    have "ordinal = days_before_year Y \<and> is_leap (Y - 1)"
    proof (cases "b = 4")
      case True
      with b4 have "r2 = 0" by simp
      then have z: "c = 0" "d = 0" "r = 0" by (simp_all add: c_def d_def r_def r3_def)
      have "Y = (a + 1) * 400 + 1" using True z by (simp add: Y_def)
      moreover have "days_before_year ((a + 1) * 400 + 1) = 146097 * (a + 1)"
        using days_before_year_split [of 0 0 0 "a + 1"] by simp
      moreover have "is_leap (400 + a * 400)" by (simp add: is_leap_def)
      ultimately show ?thesis using ord True z by simp
    next
      case False
      with True have d: "d = 4" and b3: "b \<le> 3" using b by auto
      with d4 have "r = 0" by simp
      have c23: "c \<le> 23"
      proof (rule ccontr)
        assume "\<not> c \<le> 23"
        with c have "c = 24" by simp
        moreover have "r2 = 1461 * c + r3" "r3 = 365 * d + r"
          by (simp_all add: c_def r3_def d_def r_def)
        ultimately show False using d r2 r by simp
      qed
      have leap: "is_leap (Y - 1)"
        using is_leap_split [OF b(1) b3 c, of 3 a] c23 d by (simp add: Y_def)
      have "days_before_year (Y - 1) = 146097 * a + 36524 * b + 1461 * c + 365 * 3"
        using days_before_year_split [OF b(1) b3 c, of 3 a] d by (simp add: Y_def)
      then show ?thesis
        using next_year_days [of "Y - 1"] leap ord d \<open>r = 0\<close> by simp
    qed
    then show ?thesis
      using next_year_days [of "Y - 1"] y m
      by (auto simp: ymd2ord_def next_month_def days_before_month_def)
  qed
qed

lemma wall_day:
  assumes "o1 \<le> w div day_us + epoch_ordinal" "w div day_us + epoch_ordinal < o2"
  shows "(o1 - epoch_ordinal) * day_us \<le> w" "w < (o2 - epoch_ordinal) * day_us"
proof -
  have d: "0 < day_us" by (simp add: day_us_def)
  have m: "midnight w \<le> w" "w < (w div day_us + 1) * day_us"
    using midnight_le [of w] by (simp_all add: midnight_def algebra_simps)
  have "(o1 - epoch_ordinal) * day_us \<le> (w div day_us) * day_us"
    using assms(1) d by (intro mult_right_mono) auto
  with m(1) show "(o1 - epoch_ordinal) * day_us \<le> w" by (simp add: midnight_def)
  have "(w div day_us + 1) * day_us \<le> (o2 - epoch_ordinal) * day_us"
    using assms(2) d by (intro mult_right_mono) auto
  with m(2) show "w < (o2 - epoch_ordinal) * day_us" by simp
qed

text \<open>
  The periods of the calendar on the local wall clock, stated apart from the computation: a day runs from
  midnight to the next midnight, a week from the midnight of a Monday (day 1 of the proleptic calendar is
  a Monday) for seven days, a month from its first midnight to that of the following month.
\<close>

fun is_period :: "calendar_period \<Rightarrow> int \<Rightarrow> int \<Rightarrow> bool" where
  "is_period Day s e \<longleftrightarrow> day_us dvd s \<and> e = s + day_us"
| "is_period Week s e \<longleftrightarrow> day_us dvd s \<and> (s div day_us + epoch_ordinal) mod 7 = 1 \<and> e = s + 7 * day_us"
| "is_period Month s e \<longleftrightarrow> (\<exists>y m. 1 \<le> m \<and> m \<le> 12 \<and> s = wall_of_date y m 1 \<and>
     e = (if m = 12 then wall_of_date (y + 1) 1 1 else wall_of_date y (m + 1) 1))"

lemma midnight_days: "midnight w - k * day_us = (w div day_us - k) * day_us"
  by (simp add: midnight_def left_diff_distrib)

lemma monday_ordinal: "(a - (a + n + 6) mod 7 + n) mod 7 = (1 :: int)"
  by presburger

lemma week_start_monday:
  "day_us dvd midnight w - weekday w * day_us"
  "((midnight w - weekday w * day_us) div day_us + epoch_ordinal) mod 7 = 1"
proof -
  have "(midnight w - weekday w * day_us) div day_us = w div day_us - weekday w"
    unfolding midnight_days by (simp add: day_us_def)
  then show "((midnight w - weekday w * day_us) div day_us + epoch_ordinal) mod 7 = 1"
    by (simp only: weekday_def monday_ordinal)
qed (simp add: midnight_days)

text \<open>
  C33. In a zone with a constant offset, the interval computed at an instant contains that instant, and
  on the zone's wall clock it is a whole calendar period: one day from midnight to midnight, seven days
  from a Monday's midnight, or one month of the proleptic Gregorian calendar from its first midnight to
  the next month's, leap days and century years included.
\<close>
theorem calendar_bounds_contain_now:
  assumes zone: "fixed_offset zones tz off"
    and res: "calendar_window_bounds zones now p tz = Inr (s, e)"
  shows "s \<le> now \<and> now < e \<and> is_period p (s + off) (e + off)"
proof -
  have l: "zdb_local zones tz now = (now + off, False)" and u: "\<And>w f. zdb_utc zones tz w f = w - off"
    using zone by (auto simp: fixed_offset_def)
  show ?thesis
  proof (cases p)
    case Day
    with res show ?thesis
      using midnight_le [of "now + off"]
      by (auto simp: calendar_window_bounds_def l u to_utc_def Let_def res_simps midnight_def split: if_splits)
  next
    case Week
    with res have "s = midnight (now + off) - weekday (now + off) * day_us - off"
      "e = midnight (now + off) - weekday (now + off) * day_us + 7 * day_us - off"
      by (auto simp: calendar_window_bounds_def l u to_utc_def Let_def res_simps split: if_splits)
    with Week show ?thesis using week_start_le [of "now + off"] week_start_monday [of "now + off"] by simp
  next
    case Month
    obtain y m where ym: "ord2ym ((now + off) div day_us + epoch_ordinal) = (y, m)" by fastforce
    note spec = ord2ym_spec [OF ym]
    from spec have "wall_of_date y m 1 \<le> now + off" "now + off < (next_month y m - epoch_ordinal) * day_us"
      using wall_day [of "ymd2ord y m 1" "now + off" "next_month y m"] by (simp_all add: wall_of_date_def)
    moreover from Month res have "s + off = wall_of_date y m 1"
      "e + off = (if m = 12 then wall_of_date (y + 1) 1 1 else wall_of_date y (m + 1) 1)"
      by (auto simp: calendar_window_bounds_def l u ym to_utc_def Let_def res_simps split: if_splits)
    moreover from this have "e + off = (next_month y m - epoch_ordinal) * day_us"
      by (simp add: wall_of_date_def next_month_def)
    ultimately show ?thesis using Month spec by auto
  qed
qed

theorem calendar_bounds_contain_now_witness:
  "calendar_window_bounds utc_zones 1709210096000000 Month ''UTC'' = Inr (1706745600000000, 1709251200000000)
   \<and> (1706745600000000 :: int) \<le> 1709210096000000 \<and> (1709210096000000 :: int) < 1709251200000000
   \<and> is_period Month 1706745600000000 1709251200000000"
proof -
  have zone: "fixed_offset utc_zones ''UTC'' 0"
    by (simp add: fixed_offset_def utc_zones_def)
  have res: "calendar_window_bounds utc_zones 1709210096000000 Month ''UTC''
      = Inr (1706745600000000, 1709251200000000)"
    by code_simp
  show ?thesis using calendar_bounds_contain_now [OF zone res] res by simp
qed

lemma bounds_rolling:
  assumes "bw_kind w = Rolling" "bw_duration_seconds w = Some d" "bounds zones w now = Inr (s, u)"
  shows "s = Some (now - seconds d) \<and> u = Some now"
  using assms by (auto simp: bounds_def Let_def split: if_splits)

lemma bounds_all_time: "bw_kind w = AllTime \<Longrightarrow> bounds zones w now = Inr (None, None)"
  by (simp add: bounds_def)

end
