(* ===== verification/Budget_Limits.thy ===== *)
theory Budget_Limits
  imports Price_Book Budget_Window
begin

text \<open>
  Budget limits and reservation policies (\<open>BudgetReservation\<close>, \<open>BudgetLimit\<close> and
  \<open>_EffectiveBudgetLimit\<close> of \<open>src/cayu/budgets/base.py\<close>) and the amount a reservation asks for:
  the worst case over every pricing context established before the provider is called.
\<close>

datatype budget_scope = ScopeApp | ScopeAgent | ScopeCausal | ScopeSession | ScopeRun

datatype budget_action = ActionInterrupt | ActionNotify

record budget_reservation =
  br_max_input_tokens :: int
  br_max_output_tokens :: int
  br_max_cache_read_input_tokens :: int
  br_max_cache_write_input_tokens :: int

text \<open>
  A limit together with the identity the runtime assigned to it.  The digest material behind the
  identity (\<open>identity_namespace\<close> and friends) is excluded from durable data and not modelled.
\<close>

record budget_limit =
  bl_scope :: budget_scope
  bl_max_estimated_cost :: rat
  bl_pricing :: price_book
  bl_currency :: string
  bl_window :: budget_window
  bl_key :: "string option"
  bl_allow_unpriced :: bool
  bl_reservation :: "budget_reservation option"
  bl_action :: budget_action
  bl_budget_limit_id :: string

definition budget_reservation_valid :: "budget_reservation \<Rightarrow> bool" where
  "budget_reservation_valid r \<longleftrightarrow>
     list_all (\<lambda>n. 0 \<le> n \<and> n \<le> max_durable_json_integer)
       [br_max_input_tokens r, br_max_output_tokens r, br_max_cache_read_input_tokens r,
        br_max_cache_write_input_tokens r] \<and>
     \<not> br_max_input_tokens r + br_max_output_tokens r + br_max_cache_read_input_tokens r
        + br_max_cache_write_input_tokens r \<le> 0"

definition budget_limit_valid :: "zone_db \<Rightarrow> budget_limit \<Rightarrow> bool" where
  "budget_limit_valid zones l \<longleftrightarrow>
     0 < bl_max_estimated_cost l \<and> price_book_valid (bl_pricing l) \<and>
     require_clean_nonblank (bl_currency l) = Inr (bl_currency l) \<and>
     require_clean_nonblank_opt (bl_key l) = Inr (bl_key l) \<and>
     window_valid zones (bl_window l) \<and>
     (case bl_reservation l of None \<Rightarrow> True | Some r \<Rightarrow> budget_reservation_valid r) \<and>
     \<not> (bl_scope l \<in> {ScopeApp, ScopeSession, ScopeRun} \<and> bl_key l \<noteq> None) \<and>
     \<not> (bl_scope l \<in> {ScopeAgent, ScopeCausal} \<and> bl_key l = None) \<and>
     \<not> (bl_reservation l \<noteq> None \<and> bl_allow_unpriced l) \<and>
     \<not> (bl_reservation l \<noteq> None \<and> bl_action l \<noteq> ActionInterrupt)"

section \<open>The amount to reserve\<close>

definition budget_pricing_contexts :: "billing_identity option \<Rightarrow> pricing_context option list" where
  "budget_pricing_contexts identity = (case identity of
       None \<Rightarrow> [None]
     | Some i \<Rightarrow> if bi_pricing_contexts i = [] then [None] else map Some (bi_pricing_contexts i))"

definition utc_date :: "datetime \<Rightarrow> int" where
  "utc_date t = t div day_us + epoch_ordinal"

definition budget_price :: "budget_limit \<Rightarrow> string option \<Rightarrow> string option \<Rightarrow> int \<Rightarrow> datetime
    \<Rightarrow> billing_identity option \<Rightarrow> pricing_context option \<Rightarrow> resolved_price option" where
  "budget_price l provider model input_tokens effective_at identity ctx =
     (case resolve_price_book (bl_pricing l) provider model input_tokens (utc_date effective_at) identity ctx of
        Inl _ \<Rightarrow> None
      | Inr p \<Rightarrow> Some p)"

definition max_of :: "rat list \<Rightarrow> rat" where
  "max_of xs = fold max (tl xs) (hd xs)"

definition ttl_rate :: "resolved_price \<Rightarrow> cache_ttl \<Rightarrow> rat option" where
  "ttl_rate p t = (case t of FiveMinutes \<Rightarrow> rp_cache_write_5m_per_million p
                   | OneHour \<Rightarrow> rp_cache_write_1h_per_million p)"

definition reserved_cache_write_price :: "budget_reservation \<Rightarrow> resolved_price \<Rightarrow> rat result" where
  "reserved_cache_write_price r p =
     (if \<not> rp_requires_cache_write_ttls p
      then Inr (case rp_cache_write_input_per_million p of Some x \<Rightarrow> x | None \<Rightarrow> pt_input_per_million (rp_tier p))
      else
        (let rates = map (ttl_rate p) (mp_cache_write_ttls (rp_price p)) in
         if br_max_cache_write_input_tokens r \<noteq> 0 \<and> (rates = [] \<or> None \<in> set rates) then Inl ValueError
         else
           (let known = concat (map (\<lambda>x. case x of None \<Rightarrow> [] | Some v \<Rightarrow> [v]) rates)
            in Inr (if known = [] then 0 else max_of known))))"

definition reserved_amount_in_context :: "budget_limit \<Rightarrow> budget_reservation \<Rightarrow> string \<Rightarrow> string
    \<Rightarrow> datetime \<Rightarrow> billing_identity option \<Rightarrow> pricing_context option \<Rightarrow> rat result" where
  "reserved_amount_in_context l r provider model effective_at identity ctx =
     (case budget_price l (Some provider) (Some model)
            (br_max_input_tokens r + br_max_cache_read_input_tokens r + br_max_cache_write_input_tokens r)
            effective_at identity ctx of
        None \<Rightarrow> Inl ValueError
      | Some p \<Rightarrow>
          if py_upper (rp_currency p) \<noteq> py_upper (bl_currency l) then Inl ValueError
          else
            bind_res (reserved_cache_write_price r p) (\<lambda>write_price.
              Inr (token_cost (br_max_input_tokens r) (pt_input_per_million (rp_tier p))
                + token_cost (br_max_output_tokens r) (pt_output_per_million (rp_tier p))
                + token_cost (br_max_cache_read_input_tokens r)
                    (case pt_cache_read_input_per_million (rp_tier p) of
                       None \<Rightarrow> pt_input_per_million (rp_tier p) | Some x \<Rightarrow> x)
                + token_cost (br_max_cache_write_input_tokens r) write_price)))"

definition budget_reservation_amount :: "budget_limit \<Rightarrow> string \<Rightarrow> string \<Rightarrow> datetime
    \<Rightarrow> billing_identity option \<Rightarrow> rat result" where
  "budget_reservation_amount l provider model effective_at identity =
     (case bl_reservation l of
        None \<Rightarrow> Inl ValueError
      | Some r \<Rightarrow>
          bind_res (traverse_res (reserved_amount_in_context l r provider model effective_at identity)
              (budget_pricing_contexts identity))
            (\<lambda>amounts. Inr (max_of amounts)))"

text \<open>Rates that do not fall as the context grows: what makes a worst-case tier a worst case.\<close>

definition tier_read_price :: "price_tier \<Rightarrow> rat" where
  "tier_read_price t = (case pt_cache_read_input_per_million t of None \<Rightarrow> pt_input_per_million t | Some x \<Rightarrow> x)"

definition tier_write_rate :: "tiered_pricing \<Rightarrow> price_tier \<Rightarrow> rat option" where
  "tier_write_rate p t = (case pt_cache_write_input_per_million t of
       Some x \<Rightarrow> Some x | None \<Rightarrow> tp_cache_write_5m_per_million p)"

definition tier_le :: "tiered_pricing \<Rightarrow> price_tier \<Rightarrow> price_tier \<Rightarrow> bool" where
  "tier_le p t u \<longleftrightarrow> pt_input_per_million t \<le> pt_input_per_million u \<and>
     pt_output_per_million t \<le> pt_output_per_million u \<and> tier_read_price t \<le> tier_read_price u \<and>
     (case tier_write_rate p t of None \<Rightarrow> pt_input_per_million t | Some x \<Rightarrow> x)
       \<le> (case tier_write_rate p u of None \<Rightarrow> pt_input_per_million u | Some x \<Rightarrow> x) \<and>
     opt_or_zero (tier_write_rate p t) \<le> opt_or_zero (tier_write_rate p u)"

definition rates_ascend :: "tiered_pricing \<Rightarrow> bool" where
  "rates_ascend p \<longleftrightarrow> sorted_wrt (tier_le p) (tp_standard p)"

definition book_rates_ascend :: "price_book \<Rightarrow> bool" where
  "book_rates_ascend b \<longleftrightarrow>
     list_all (\<lambda>p. list_all (\<lambda>s. rates_ascend (ps_pricing s)) (mp_schedules p)) (pb_prices b)"

text \<open>Usage that stays inside a reservation policy and used no separately billed search.\<close>

definition usage_within :: "budget_reservation \<Rightarrow> usage_metrics \<Rightarrow> bool" where
  "usage_within r m \<longleftrightarrow> usage_metrics_valid m \<and>
     billed_input_tokens m \<le> br_max_input_tokens r \<and>
     um_output_tokens m \<le> br_max_output_tokens r \<and>
     cu_read_tokens (um_cache m) \<le> br_max_cache_read_input_tokens r \<and>
     cu_write_tokens (um_cache m) \<le> br_max_cache_write_input_tokens r \<and>
     cu_write_5m_tokens (um_cache m) + cu_write_1h_tokens (um_cache m)
       + cu_write_unknown_ttl_tokens (um_cache m) \<le> br_max_cache_write_input_tokens r \<and>
     um_input_tokens m \<le> br_max_input_tokens r + br_max_cache_read_input_tokens r
       + br_max_cache_write_input_tokens r \<and>
     um_web_search_calls m = 0"

text \<open>The step that was charged is the one that was reserved: same model or a completion of the same identity.\<close>

definition same_dispatch :: "string \<Rightarrow> string \<Rightarrow> billing_identity option \<Rightarrow> usage_metrics \<Rightarrow> bool" where
  "same_dispatch provider model requested m = (case requested of
       None \<Rightarrow> um_billing_identity m = None \<and> um_provider_name m = Some provider \<and>
         (um_model m = Some model \<or> um_model m = None \<and> um_requested_model m = Some model)
     | Some q \<Rightarrow> (case um_billing_identity m of
           None \<Rightarrow> False
         | Some c \<Rightarrow> completed_billing_identity (Some q) (Some c) = Inr (Some c)))"

abbreviation holds_tokens :: "int \<Rightarrow> price_tier \<Rightarrow> bool" where
  "holds_tokens n t \<equiv> (case pt_max_input_tokens t of None \<Rightarrow> True | Some m \<Rightarrow> n \<le> m)"

text \<open>Prices with the same model price and schedule, the second at a later tier.\<close>

definition price_le :: "resolved_price \<Rightarrow> resolved_price \<Rightarrow> bool" where
  "price_le a b \<longleftrightarrow> rp_price a = rp_price b \<and> rp_schedule a = rp_schedule b \<and>
     rp_requires_cache_write_ttls a = rp_requires_cache_write_ttls b \<and>
     tier_le (ps_pricing (rp_schedule a)) (rp_tier a) (rp_tier b)"

definition price_sane :: "resolved_price \<Rightarrow> bool" where
  "price_sane p \<longleftrightarrow> price_tier_valid (rp_tier p) \<and> opt_nonneg (tp_cache_write_5m_per_million (ps_pricing (rp_schedule p)))
     \<and> opt_nonneg (tp_cache_write_1h_per_million (ps_pricing (rp_schedule p)))"

text \<open>A small policy and one step inside it, used to exercise the statement below.\<close>

definition sample_book :: price_book where
  "sample_book = \<lparr>pb_version = ''v'', pb_generated_at = ''g'', pb_prices = [sample_price],
     pb_requirements = [], pb_resource_mappings = []\<rparr>"

definition sample_limit :: budget_limit where
  "sample_limit = \<lparr>bl_scope = ScopeApp, bl_max_estimated_cost = 1 / 100, bl_pricing = sample_book,
     bl_currency = ''USD'', bl_window = all_time_window, bl_key = None, bl_allow_unpriced = False,
     bl_reservation = Some \<lparr>br_max_input_tokens = 1000, br_max_output_tokens = 500,
       br_max_cache_read_input_tokens = 0, br_max_cache_write_input_tokens = 0\<rparr>,
     bl_action = ActionInterrupt, bl_budget_limit_id = ''blim''\<rparr>"

definition sample_usage :: usage_metrics where
  "sample_usage = \<lparr>um_provider_name = Some ''acme'', um_requested_model = Some ''large-1'', um_model = None,
     um_billing_identity = None, um_input_tokens = 800, um_output_tokens = 100,
     um_cache = \<lparr>cu_read_tokens = 0, cu_write_tokens = 0, cu_write_5m_tokens = 0, cu_write_1h_tokens = 0,
       cu_write_unknown_ttl_tokens = 0, cu_uncached_input_tokens = 0\<rparr>,
     um_web_search_calls = 0, um_web_search_outcome_unknown = 0\<rparr>"

section \<open>What is charged never exceeds what was reserved\<close>

lemma tier_le_refl: "tier_le p t t" by (simp add: tier_le_def)

lemma first_tier_mono:
  assumes "ts \<noteq> []" "sorted_wrt (tier_le p) ts" "n \<le> n'"
  shows "tier_le p (case filter (holds_tokens n) ts of t # _ \<Rightarrow> t | [] \<Rightarrow> last ts)
    (case filter (holds_tokens n') ts of t # _ \<Rightarrow> t | [] \<Rightarrow> last ts)"
  using assms(1,2)
proof (induction ts)
  case (Cons x xs)
  have mem: "(case filter (holds_tokens n') (x # xs) of t # _ \<Rightarrow> t | [] \<Rightarrow> last (x # xs)) \<in> set (x # xs)"
    by (auto split: list.splits dest: hd_filter_first(1))
  show ?case
  proof (cases "holds_tokens n x")
    case True
    with mem Cons.prems(2) show ?thesis by (auto simp: tier_le_refl)
  next
    case False
    then have "\<not> holds_tokens n' x" using assms(3) by (auto split: option.splits)
    with False Cons show ?thesis by (cases "xs = []") (auto simp: tier_le_refl split: list.splits)
  qed
qed simp

lemma tier_for_mono:
  assumes "tp_standard p \<noteq> []" "rates_ascend p" "n \<le> n'"
  shows "tier_le p (tier_for p n) (tier_for p n')"
  using first_tier_mono [of "tp_standard p" p n n'] assms
  by (simp add: tier_for_def rates_ascend_def)

lemma tier_for_mem: "tp_standard p \<noteq> [] \<Longrightarrow> tier_for p n \<in> set (tp_standard p)"
  by (auto simp: tier_for_def split: list.splits dest: hd_filter_first(1))

lemma fold_max_ge_start: "(x :: rat) \<le> fold max xs x"
  by (induction xs arbitrary: x) (auto, meson max.cobounded2 order_trans)

lemma fold_max_ge: "(y :: rat) \<in> set xs \<Longrightarrow> y \<le> fold max xs x"
proof (induction xs arbitrary: x)
  case (Cons a xs)
  then show ?case using fold_max_ge_start [of "max a x" xs] by (cases "y = a") auto
qed simp

lemma max_of_ge: "y \<in> set xs \<Longrightarrow> y \<le> max_of xs"
  by (cases xs) (auto simp: max_of_def intro: fold_max_ge fold_max_ge_start)

lemma token_cost_mono: "0 \<le> a \<Longrightarrow> a \<le> b \<Longrightarrow> 0 \<le> q \<Longrightarrow> q \<le> r \<Longrightarrow> token_cost a q \<le> token_cost b r"
  unfolding token_cost_def by (intro divide_right_mono mult_mono) auto

lemma token_cost_add: "token_cost (a + b) r = token_cost a r + token_cost b r"
  by (simp add: token_cost_def algebra_simps add_divide_distrib)

lemma rp_write_rate:
  "rp_cache_write_5m_per_million p = tier_write_rate (ps_pricing (rp_schedule p)) (rp_tier p)"
  "rp_cache_write_input_per_million p = tier_write_rate (ps_pricing (rp_schedule p)) (rp_tier p)"
  by (simp_all add: rp_cache_write_5m_per_million_def rp_cache_write_input_per_million_def tier_write_rate_def)

lemma opt_or_zero_nonneg: "opt_nonneg r \<Longrightarrow> 0 \<le> opt_or_zero r"
  by (auto simp: opt_nonneg_def opt_or_zero_def split: option.splits)

lemma tier_write_rate_nonneg: "price_sane p \<Longrightarrow> opt_nonneg (tier_write_rate (ps_pricing (rp_schedule p)) (rp_tier p))"
  by (auto simp: price_sane_def price_tier_valid_def tier_write_rate_def opt_nonneg_def split: option.splits)

lemma known_rate_le:
  assumes "reserved_cache_write_price r p = Inr w" "rp_requires_cache_write_ttls p"
    "t \<in> set (mp_cache_write_ttls (rp_price p))" "ttl_rate p t = Some x"
  shows "x \<le> w"
proof -
  let ?known = "concat (map (\<lambda>x. case x of None \<Rightarrow> [] | Some v \<Rightarrow> [v])
    (map (ttl_rate p) (mp_cache_write_ttls (rp_price p))))"
  have mem: "x \<in> set ?known" using assms(3,4) by force
  then have "?known \<noteq> []" by (metis empty_iff empty_set)
  with assms(1,2) have "w = max_of ?known"
    by (auto simp: reserved_cache_write_price_def Let_def split: if_splits)
  with max_of_ge [OF mem] show ?thesis by simp
qed

lemma supported_rate_le:
  assumes "reserved_cache_write_price r b = Inr w" "rp_requires_cache_write_ttls b"
    "br_max_cache_write_input_tokens r \<noteq> 0" "price_le a b" "t \<in> set (mp_cache_write_ttls (rp_price a))"
  shows "opt_or_zero (ttl_rate a t) \<le> w"
proof -
  from assms have t: "t \<in> set (mp_cache_write_ttls (rp_price b))" by (simp add: price_le_def)
  then obtain x where x: "ttl_rate b t = Some x"
    using assms(1-3) by (force simp: reserved_cache_write_price_def Let_def split: if_splits)
  have "opt_or_zero (ttl_rate a t) \<le> opt_or_zero (ttl_rate b t)"
    using assms(4) by (cases t) (auto simp: ttl_rate_def price_le_def tier_le_def rp_write_rate rp_cache_write_1h_per_million_def)
  also have "\<dots> \<le> w" using known_rate_le [OF assms(1,2) t x] x by (simp add: opt_or_zero_def)
  finally show ?thesis .
qed

lemma ttl_rate_nonneg: "price_sane p \<Longrightarrow> opt_nonneg (ttl_rate p t)"
  by (cases t) (auto simp: ttl_rate_def rp_write_rate rp_cache_write_1h_per_million_def tier_write_rate_nonneg price_sane_def)

lemma reserved_price_nonneg:
  assumes "reserved_cache_write_price r p = Inr w" "price_sane p"
  shows "0 \<le> w"
proof (cases "rp_requires_cache_write_ttls p")
  case False
  with assms show ?thesis
    using tier_write_rate_nonneg [OF assms(2)]
    by (auto simp: reserved_cache_write_price_def rp_write_rate opt_nonneg_def price_sane_def
        price_tier_valid_def split: option.splits)
next
  case True
  let ?known = "concat (map (\<lambda>x. case x of None \<Rightarrow> [] | Some v \<Rightarrow> [v])
    (map (ttl_rate p) (mp_cache_write_ttls (rp_price p))))"
  have nonneg: "0 \<le> x" if "x \<in> set ?known" for x
  proof -
    from that obtain t where "ttl_rate p t = Some x" by (auto split: option.splits)
    with ttl_rate_nonneg [OF assms(2), of t] show ?thesis by (simp add: opt_nonneg_def)
  qed
  show ?thesis
  proof (cases "?known = []")
    case True
    with assms(1) \<open>rp_requires_cache_write_ttls p\<close> show ?thesis
      by (auto simp: reserved_cache_write_price_def Let_def split: if_splits)
  next
    case False
    then have "0 \<le> hd ?known" "hd ?known \<le> max_of ?known"
      by (intro nonneg max_of_ge hd_in_set, assumption)+
    moreover have "w = max_of ?known"
      using assms(1) True False by (auto simp: reserved_cache_write_price_def Let_def split: if_splits)
    ultimately show ?thesis by simp
  qed
qed

lemma contextual_cost_le:
  assumes cost: "contextual_cache_write_cost m a = Inr c" and ttl: "rp_requires_cache_write_ttls b"
    and price: "reserved_cache_write_price r b = Inr w" and le: "price_le a b"
    and sane: "price_sane a" "price_sane b" and within: "usage_within r m"
  shows "c \<le> token_cost (br_max_cache_write_input_tokens r) w"
proof -
  let ?c = "um_cache m" and ?max = "br_max_cache_write_input_tokens r"
  let ?five = "rp_cache_write_5m_per_million a" and ?hour = "rp_cache_write_1h_per_million a"
  let ?ttls = "mp_cache_write_ttls (rp_price a)"
  define unk where "unk = (if cu_write_unknown_ttl_tokens ?c = 0 then None
             else if ?ttls = [FiveMinutes] then ?five
             else if ?ttls = [OneHour] then ?hour
             else if set ?ttls = {FiveMinutes, OneHour} \<and> ?five \<noteq> None \<and> ?five = ?hour then ?five
             else None)"
  have nonneg: "0 \<le> cu_write_5m_tokens ?c" "0 \<le> cu_write_1h_tokens ?c" "0 \<le> cu_write_unknown_ttl_tokens ?c"
    and total: "cu_write_5m_tokens ?c + cu_write_1h_tokens ?c + cu_write_unknown_ttl_tokens ?c \<le> ?max"
    using within by (auto simp: usage_within_def usage_metrics_valid_def)
  have c: "c = token_cost (cu_write_5m_tokens ?c) (opt_or_zero ?five)
     + token_cost (cu_write_1h_tokens ?c) (opt_or_zero ?hour) + token_cost (cu_write_unknown_ttl_tokens ?c) (opt_or_zero unk)"
    and five: "cu_write_5m_tokens ?c \<noteq> 0 \<longrightarrow> FiveMinutes \<in> set ?ttls"
    and hour: "cu_write_1h_tokens ?c \<noteq> 0 \<longrightarrow> OneHour \<in> set ?ttls"
    and unk: "cu_write_unknown_ttl_tokens ?c \<noteq> 0 \<longrightarrow> unk \<noteq> None"
    using cost unfolding contextual_cache_write_cost_def Let_def unk_def [symmetric]
    by (auto split: if_splits)
  have w0: "0 \<le> w" using reserved_price_nonneg [OF price sane(2)] .
  have part: "token_cost n (opt_or_zero (ttl_rate a t)) \<le> token_cost n w"
    if "0 \<le> n" "n \<noteq> 0 \<longrightarrow> t \<in> set ?ttls" "n \<le> ?max" for n t
  proof (cases "n = 0")
    case True
    then show ?thesis by (simp add: token_cost_def)
  next
    case False
    with that have "opt_or_zero (ttl_rate a t) \<le> w"
      by (intro supported_rate_le [OF price ttl _ le]) auto
    moreover have "0 \<le> opt_or_zero (ttl_rate a t)"
      by (intro opt_or_zero_nonneg ttl_rate_nonneg sane(1))
    ultimately show ?thesis using that by (intro token_cost_mono) auto
  qed
  have unk_part: "token_cost (cu_write_unknown_ttl_tokens ?c) (opt_or_zero unk) \<le> token_cost (cu_write_unknown_ttl_tokens ?c) w"
  proof (cases "cu_write_unknown_ttl_tokens ?c = 0")
    case True
    then show ?thesis by (simp add: token_cost_def)
  next
    case False
    have "unk = ?five \<and> FiveMinutes \<in> set ?ttls \<or> unk = ?hour \<and> OneHour \<in> set ?ttls"
    proof (cases "?ttls = [FiveMinutes] \<or> ?ttls = [OneHour]")
      case True
      with False show ?thesis by (auto simp: unk_def)
    next
      case other: False
      with False unk have "set ?ttls = {FiveMinutes, OneHour} \<and> unk = ?five"
        by (simp add: unk_def split: if_splits)
      then show ?thesis by simp
    qed
    then obtain t where "t \<in> set ?ttls" "unk = ttl_rate a t"
      by (elim disjE) (auto intro: that simp: ttl_rate_def)
    then show ?thesis using part [of "cu_write_unknown_ttl_tokens ?c" t] nonneg total by simp
  qed
  have "c \<le> token_cost (cu_write_5m_tokens ?c) w + token_cost (cu_write_1h_tokens ?c) w + token_cost (cu_write_unknown_ttl_tokens ?c) w"
    using part [of "cu_write_5m_tokens ?c" FiveMinutes] part [of "cu_write_1h_tokens ?c" OneHour] unk_part nonneg total five hour
    unfolding c by (simp add: ttl_rate_def)
  also have "\<dots> = token_cost (cu_write_5m_tokens ?c + cu_write_1h_tokens ?c + cu_write_unknown_ttl_tokens ?c) w"
    by (simp add: token_cost_add)
  also have "\<dots> \<le> token_cost ?max w" using nonneg total w0 by (intro token_cost_mono) auto
  finally show ?thesis .
qed

lemma step_cost_le:
  assumes cost: "resolve_price m b d = Inr a" "cost_line_item m b cur d = Inr sc"
    and price: "reserved_cache_write_price r p = Inr w" and le: "price_le a p"
    and sane: "price_sane a" "price_sane p" and within: "usage_within r m"
  shows "sc_total_cost sc \<le> token_cost (br_max_input_tokens r) (pt_input_per_million (rp_tier p))
      + token_cost (br_max_output_tokens r) (pt_output_per_million (rp_tier p))
      + token_cost (br_max_cache_read_input_tokens r) (tier_read_price (rp_tier p))
      + token_cost (br_max_cache_write_input_tokens r) w"
proof -
  have nonneg: "0 \<le> billed_input_tokens m" "0 \<le> um_output_tokens m" "0 \<le> cu_read_tokens (um_cache m)" "0 \<le> cu_write_tokens (um_cache m)"
    and upto: "billed_input_tokens m \<le> br_max_input_tokens r" "um_output_tokens m \<le> br_max_output_tokens r"
      "cu_read_tokens (um_cache m) \<le> br_max_cache_read_input_tokens r" "cu_write_tokens (um_cache m) \<le> br_max_cache_write_input_tokens r"
    and web: "um_web_search_calls m = 0"
    using within by (auto simp: usage_within_def usage_metrics_valid_def billed_input_tokens_def)
  have tier: "tier_le (ps_pricing (rp_schedule a)) (rp_tier a) (rp_tier p)"
    and ttls: "rp_requires_cache_write_ttls a = rp_requires_cache_write_ttls p" and sched: "rp_schedule a = rp_schedule p"
    using le by (auto simp: price_le_def)
  have rates: "0 \<le> pt_input_per_million (rp_tier a)" "0 \<le> pt_output_per_million (rp_tier a)" "0 \<le> tier_read_price (rp_tier a)"
    using sane(1) by (auto simp: price_sane_def price_tier_valid_def tier_read_price_def opt_nonneg_def split: option.splits)
  have in_le: "token_cost (billed_input_tokens m) (pt_input_per_million (rp_tier a)) \<le> token_cost (br_max_input_tokens r) (pt_input_per_million (rp_tier p))"
    and out_le: "token_cost (um_output_tokens m) (pt_output_per_million (rp_tier a)) \<le> token_cost (br_max_output_tokens r) (pt_output_per_million (rp_tier p))"
    and read_le: "token_cost (cu_read_tokens (um_cache m)) (tier_read_price (rp_tier a)) \<le> token_cost (br_max_cache_read_input_tokens r) (tier_read_price (rp_tier p))"
    using tier nonneg upto rates by (auto simp: tier_le_def intro!: token_cost_mono)
  have write_le: "wc \<le> token_cost (br_max_cache_write_input_tokens r) w"
    if "(if \<not> rp_requires_cache_write_ttls a
         then Inr (token_cost (cu_write_tokens (um_cache m)) (case rp_cache_write_input_per_million a of Some x \<Rightarrow> x | None \<Rightarrow> pt_input_per_million (rp_tier a)))
         else contextual_cache_write_cost m a) = Inr wc" for wc
  proof (cases "rp_requires_cache_write_ttls a")
    case True
    with that ttls show ?thesis by (intro contextual_cost_le [OF _ _ price le sane within]) auto
  next
    case False
    let ?q = "case tier_write_rate (ps_pricing (rp_schedule a)) (rp_tier a) of None \<Rightarrow> pt_input_per_million (rp_tier a) | Some x \<Rightarrow> x"
    from False that have wc: "wc = token_cost (cu_write_tokens (um_cache m)) ?q" by (simp add: rp_write_rate)
    from False ttls price tier sched have "?q \<le> w"
      by (auto simp: reserved_cache_write_price_def rp_write_rate tier_le_def)
    moreover have "0 \<le> ?q" using tier_write_rate_nonneg [OF sane(1)] rates by (auto simp: opt_nonneg_def split: option.splits)
    ultimately show ?thesis unfolding wc using nonneg upto by (intro token_cost_mono) auto
  qed
  obtain wc where wc: "(if \<not> rp_requires_cache_write_ttls a
         then Inr (token_cost (cu_write_tokens (um_cache m)) (case rp_cache_write_input_per_million a of Some x \<Rightarrow> x | None \<Rightarrow> pt_input_per_million (rp_tier a)))
         else contextual_cache_write_cost m a) = Inr wc"
    and tot: "sc_total_cost sc = token_cost (billed_input_tokens m) (pt_input_per_million (rp_tier a))
      + token_cost (um_output_tokens m) (pt_output_per_million (rp_tier a))
      + token_cost (cu_read_tokens (um_cache m)) (tier_read_price (rp_tier a)) + wc"
    using cost web unfolding cost_line_item_def Let_def tier_read_price_def
    by (auto split: if_splits sum.splits option.splits)
  from tot in_le out_le read_le write_le [OF wc] show ?thesis by simp
qed

lemma best_match_loop_mem:
  "best_match_loop p n best ms = Some r \<Longrightarrow> r \<in> set ms \<or> best = Some r"
  by (induction ms arbitrary: best) (auto split: if_splits)

lemma best_match_record_mem: "best_match_record ms p n = Some r \<Longrightarrow> r \<in> set ms"
  by (auto simp: best_match_record_def split: option.splits dest: best_match_loop_mem)

lemma resolve_match_mem:
  "resolve_match b provider model i c = Some r \<Longrightarrow> bm_price r \<in> set (pb_prices b) \<or> bm_price r = external_tool_dispatch_price"
  by (auto simp: resolve_match_def Let_def book_candidates_def split: if_splits option.splits dest!: best_match_record_mem)

lemma external_price_sane:
  "model_price_valid external_tool_dispatch_price"
  "list_all (\<lambda>s. rates_ascend (ps_pricing s)) (mp_schedules external_tool_dispatch_price)"
  by code_simp (simp add: external_tool_dispatch_price_def fixed_price_def rates_ascend_def)

lemma resolve_schedule_Inr:
  assumes "resolve_schedule b m n d = Inr a"
  shows "rp_price a = bm_price m" "rp_schedule a \<in> set (mp_schedules (rp_price a))"
    "rp_tier a = tier_for (ps_pricing (rp_schedule a)) n"
    "resolve_schedule b m n' d = Inr (a\<lparr>rp_tier := tier_for (ps_pricing (rp_schedule a)) n'\<rparr>)"
proof -
  obtain s where s: "schedule_on (bm_price m) d = Some s"
    using assms by (auto simp: resolve_schedule_def split: option.splits)
  then have "s \<in> set (mp_schedules (bm_price m))" by (auto simp: schedule_on_def find_Some_iff)
  with assms s show "rp_price a = bm_price m" "rp_schedule a \<in> set (mp_schedules (rp_price a))"
    "rp_tier a = tier_for (ps_pricing (rp_schedule a)) n"
    "resolve_schedule b m n' d = Inr (a\<lparr>rp_tier := tier_for (ps_pricing (rp_schedule a)) n'\<rparr>)"
    by (simp_all add: resolve_schedule_def del: disj_not1) auto
qed

lemma resolve_price_book_cases:
  "resolve_price_book b provider model n d i c = Inr a \<longleftrightarrow>
     (\<exists>ctx m. chosen_context i c = Inr ctx \<and> resolve_match b provider model i ctx = Some m \<and> resolve_schedule b m n d = Inr a)"
  by (auto simp: resolve_price_book_def split: sum.splits option.splits)

lemma resolve_price_book_Inr:
  assumes "resolve_price_book b provider model n d i c = Inr a"
  shows "rp_schedule a \<in> set (mp_schedules (rp_price a))"
    and "rp_price a \<in> set (pb_prices b) \<or> rp_price a = external_tool_dispatch_price"
    and "rp_tier a = tier_for (ps_pricing (rp_schedule a)) n"
    and "resolve_price_book b provider model n' d i c = Inr (a\<lparr>rp_tier := tier_for (ps_pricing (rp_schedule a)) n'\<rparr>)"
proof -
  from assms obtain ctx m where m: "chosen_context i c = Inr ctx" "resolve_match b provider model i ctx = Some m"
    "resolve_schedule b m n d = Inr a"
    by (auto simp: resolve_price_book_cases)
  note facts = resolve_schedule_Inr [OF m(3)]
  show "rp_schedule a \<in> set (mp_schedules (rp_price a))" "rp_tier a = tier_for (ps_pricing (rp_schedule a)) n"
    by (fact facts)+
  show "rp_price a \<in> set (pb_prices b) \<or> rp_price a = external_tool_dispatch_price"
    using resolve_match_mem [OF m(2)] facts(1) by simp
  show "resolve_price_book b provider model n' d i c = Inr (a\<lparr>rp_tier := tier_for (ps_pricing (rp_schedule a)) n'\<rparr>)"
    using m(1,2) facts(4) unfolding resolve_price_book_cases by blast
qed

lemma resolved_price_facts:
  assumes res: "resolve_price_book b provider model n d i c = Inr a"
    and valid: "price_book_valid b" and asc: "book_rates_ascend b"
  shows "tiered_pricing_valid (ps_pricing (rp_schedule a))" "rates_ascend (ps_pricing (rp_schedule a))"
proof -
  note facts = resolve_price_book_Inr [OF res]
  have "model_price_valid (rp_price a)"
    using facts(2) valid external_price_sane(1) by (auto simp: price_book_valid_def list_all_iff)
  then show "tiered_pricing_valid (ps_pricing (rp_schedule a))"
    using facts(1) by (auto simp: model_price_valid_def list_all_iff price_schedule_valid_def)
  show "rates_ascend (ps_pricing (rp_schedule a))"
    using facts(1,2) asc external_price_sane(2) by (auto simp: book_rates_ascend_def list_all_iff)
qed

lemma price_sane_resolved:
  assumes "resolve_price_book b provider model n d i c = Inr a" "price_book_valid b" "book_rates_ascend b"
  shows "price_sane a"
proof -
  let ?p = "ps_pricing (rp_schedule a)"
  have v: "tiered_pricing_valid ?p" using resolved_price_facts(1) [OF assms] .
  then have "tier_for ?p n \<in> set (tp_standard ?p)" by (intro tier_for_mem) (simp add: tiered_pricing_valid_def)
  with v resolve_price_book_Inr(3) [OF assms(1)] show ?thesis
    by (auto simp: price_sane_def tiered_pricing_valid_def list_all_iff)
qed

lemma price_le_more_tokens:
  assumes "resolve_price_book b provider model n d i c = Inr a" "price_book_valid b" "book_rates_ascend b" "n \<le> n'"
  shows "price_le a (a\<lparr>rp_tier := tier_for (ps_pricing (rp_schedule a)) n'\<rparr>)"
  using resolved_price_facts [OF assms(1-3)] resolve_price_book_Inr(3) [OF assms(1)] assms(4)
  by (auto simp: price_le_def tiered_pricing_valid_def intro: tier_for_mono)

lemma resolve_match_identity:
  assumes "bi_provider_name c = bi_provider_name q" "bi_resource_id c = bi_resource_id q"
  shows "resolve_match b pr mo (Some c) ctx = resolve_match b pr' mo' (Some q) ctx"
proof -
  have "find_mapping b c = find_mapping b q" using assms by (simp add: find_mapping_def)
  with assms show ?thesis by (simp add: resolve_match_def Let_def)
qed

lemma dispatch_context:
  assumes "same_dispatch provider model requested m" "resolve_price m b d = Inr a"
  obtains ctx where "ctx \<in> set (budget_pricing_contexts requested)"
    "resolve_price_book b (Some provider) (Some model) (um_input_tokens m) d requested ctx = Inr a"
proof (cases requested)
  case None
  with assms have "resolve_price_book b (Some provider) (Some model) (um_input_tokens m) d requested None = Inr a"
    by (auto simp: same_dispatch_def resolve_price_def)
  with None that show thesis by (auto simp: budget_pricing_contexts_def)
next
  case (Some q)
  with assms(1) obtain c where c: "um_billing_identity m = Some c"
    and narrow: "completed_billing_identity (Some q) (Some c) = Inr (Some c)"
    by (auto simp: same_dispatch_def split: option.splits)
  then have same: "bi_provider_name c = bi_provider_name q" "bi_resource_id c = bi_resource_id q"
    and sub: "set (bi_pricing_contexts c) \<subseteq> set (bi_pricing_contexts q)"
    and ne: "bi_pricing_contexts q \<noteq> [] \<longrightarrow> bi_pricing_contexts c \<noteq> []"
    by (auto simp: completed_billing_identity_Inr)
  let ?ctx = "case bi_pricing_contexts c of [] \<Rightarrow> None | x # _ \<Rightarrow> Some x"
  from assms(2) c have short: "length (bi_pricing_contexts c) \<le> 1"
    by (auto simp: resolve_price_def resolve_price_book_cases chosen_context_def split: list.splits)
  have match: "resolve_match b pr mo (Some c) ctx = resolve_match b (Some provider) (Some model) (Some q) ctx" for pr mo ctx
    by (rule resolve_match_identity [OF same])
  have "resolve_price_book b (Some provider) (Some model) (um_input_tokens m) d (Some q) ?ctx = Inr a"
  proof (cases "bi_pricing_contexts c")
    case Nil
    with ne have "bi_pricing_contexts q = []" by auto
    with assms(2) c Nil match show ?thesis
      by (simp add: resolve_price_def resolve_price_book_def chosen_context_def)
  next
    case (Cons x xs)
    with short have "bi_pricing_contexts c = [x]" by simp
    with assms(2) c match show ?thesis
      by (simp add: resolve_price_def resolve_price_book_def chosen_context_def)
  qed
  moreover have "?ctx \<in> set (budget_pricing_contexts (Some q))"
    using sub ne by (auto simp: budget_pricing_contexts_def split: list.splits)
  ultimately show thesis using that Some by blast
qed

text \<open>
  C20. A reservation covers the token charges it was made for.  Suppose the price book is valid and its
  rates do not fall as the context grows, the step stayed within every reserved token bound and made no
  hosted web search, it is the dispatch that was reserved (provider and model, or a billing identity that
  completes the reserved one), and it is priced on the date of the reservation.  Then its cost is at most
  the reserved amount, whichever of the pricing contexts agreed before dispatch turned out to apply.
  Hosted search charges, a later price date or another dispatch are not covered.
\<close>
theorem reservation_covers_cost:
  assumes amount: "budget_reservation_amount l provider model at_time requested = Inr amount"
    and policy: "bl_reservation l = Some r"
    and book: "price_book_valid (bl_pricing l)" "book_rates_ascend (bl_pricing l)"
    and within: "usage_within r m" and same: "same_dispatch provider model requested m"
    and cost: "cost_line_item m (bl_pricing l) currency (utc_date at_time) = Inr sc"
  shows "sc_total_cost sc \<le> amount"
proof -
  let ?b = "bl_pricing l" and ?d = "utc_date at_time"
  let ?n = "br_max_input_tokens r + br_max_cache_read_input_tokens r + br_max_cache_write_input_tokens r"
  obtain a where a: "resolve_price m ?b ?d = Inr a"
    using cost by (auto simp: cost_line_item_def split: sum.splits)
  obtain ctx where ctx: "ctx \<in> set (budget_pricing_contexts requested)"
    and res: "resolve_price_book ?b (Some provider) (Some model) (um_input_tokens m) ?d requested ctx = Inr a"
    using dispatch_context [OF same a] .
  define p where "p = a\<lparr>rp_tier := tier_for (ps_pricing (rp_schedule a)) ?n\<rparr>"
  have res': "resolve_price_book ?b (Some provider) (Some model) ?n ?d requested ctx = Inr p"
    unfolding p_def by (rule resolve_price_book_Inr(4) [OF res])
  have le: "price_le a p"
    unfolding p_def using within by (intro price_le_more_tokens [OF res book]) (simp add: usage_within_def)
  from amount policy obtain amounts
    where tr: "traverse_res (reserved_amount_in_context l r provider model at_time requested) (budget_pricing_contexts requested) = Inr amounts"
      and max: "amount = max_of amounts"
    by (auto simp: budget_reservation_amount_def res_simps)
  from tr ctx obtain x where x: "x \<in> set amounts" "reserved_amount_in_context l r provider model at_time requested ctx = Inr x"
    by (auto simp: traverse_res_Inr list_all2_conv_all_nth in_set_conv_nth) (metis nth_mem)
  then obtain w where w: "reserved_cache_write_price r p = Inr w"
    and xw: "x = token_cost (br_max_input_tokens r) (pt_input_per_million (rp_tier p))
      + token_cost (br_max_output_tokens r) (pt_output_per_million (rp_tier p))
      + token_cost (br_max_cache_read_input_tokens r) (tier_read_price (rp_tier p))
      + token_cost (br_max_cache_write_input_tokens r) w"
    by (auto simp: reserved_amount_in_context_def budget_price_def res' res_simps tier_read_price_def split: if_splits)
  have "sc_total_cost sc \<le> x"
    unfolding xw using step_cost_le [OF a cost w le price_sane_resolved [OF res book] price_sane_resolved [OF res' book] within] .
  also have "x \<le> amount" unfolding max using x(1) by (rule max_of_ge)
  finally show ?thesis .
qed

theorem reservation_covers_cost_witness:
  "budget_reservation_amount sample_limit ''acme'' ''large-1'' 0 None = Inr (3 / 500)
   \<and> (case cost_line_item sample_usage sample_book ''USD'' (utc_date 0) of
        Inl _ \<Rightarrow> False | Inr sc \<Rightarrow> sc_total_cost sc = 3 / 1000 \<and> sc_total_cost sc \<le> 3 / 500)"
proof -
  have amount: "budget_reservation_amount sample_limit ''acme'' ''large-1'' 0 None = Inr (3 / 500)"
    and book: "price_book_valid (bl_pricing sample_limit)"
    and same: "same_dispatch ''acme'' ''large-1'' None sample_usage"
    and within: "usage_within (the (bl_reservation sample_limit)) sample_usage"
    by code_simp+
  have asc: "book_rates_ascend (bl_pricing sample_limit)"
    by code_simp
  have policy: "bl_reservation sample_limit = Some (the (bl_reservation sample_limit))"
    by (simp add: sample_limit_def)
  have total: "case cost_line_item sample_usage sample_book ''USD'' (utc_date 0) of
      Inl _ \<Rightarrow> False | Inr sc \<Rightarrow> sc_total_cost sc = 3 / 1000"
    by code_simp
  then obtain sc where sc: "cost_line_item sample_usage (bl_pricing sample_limit) ''USD'' (utc_date 0) = Inr sc"
    by (auto simp: sample_limit_def split: sum.splits)
  from reservation_covers_cost [OF amount policy book asc within same sc] amount total sc
  show ?thesis by (simp add: sample_limit_def)
qed

end
