(* ===== verification/Budget_Records.thy ===== *)
theory Budget_Records
  imports Budget_Limits
begin

text \<open>
  The durable records of the budget ledger (\<open>src/cayu/budgets/base.py\<close>): reservations, their
  reconciliation, the settlement with its audit event, and the pure transitions between them.
  SHA-256 over canonical JSON is the argument \<open>digest\<close>; the size limits of durable JSON documents and
  the in-process provenance marks of events, which event equality ignores, are not modelled.
\<close>

section \<open>Reservations\<close>

datatype reservation_status = Active | Reconciled | Released

datatype settlement_kind = Completed | Conservative | KindReleased

record settlement_fallback =
  sf_settled_at :: datetime
  sf_reconciliation_reason :: string
  sf_release_reason :: string
  sf_expiration_reason :: "string option"

record reservation_record =
  rec_reservation_id :: string
  rec_budget_limit_id :: string
  rec_model_step_id :: string
  rec_model_attempt_id :: string
  rec_scope :: budget_scope
  rec_key :: "string option"
  rec_window :: budget_window
  rec_currency :: string
  rec_session_id :: string
  rec_agent_name :: string
  rec_environment_name :: "string option"
  rec_provider_name :: string
  rec_model :: string
  rec_billing_identity :: "billing_identity option"
  rec_settlement_event_payload :: json_object
  rec_settlement_fallback :: settlement_fallback
  rec_dispatch_id :: "string option"
  rec_dispatched_at :: "datetime option"
  rec_reserved_amount :: rat
  rec_actual_amount :: "rat option"
  rec_status :: reservation_status
  rec_reason :: "string option"
  rec_created_at :: datetime
  rec_updated_at :: datetime

record model_attempt_identity =
  ma_model_step_id :: string
  ma_model_attempt_id :: string

definition is_execution_unit_id :: "string \<Rightarrow> nat \<Rightarrow> string \<Rightarrow> bool" where
  "is_execution_unit_id prefix n s \<longleftrightarrow> take (length prefix) s = prefix \<and>
     length (drop (length prefix) s) = n \<and> list_all hex_char (drop (length prefix) s)"

definition is_budget_limit_id :: "string \<Rightarrow> bool" where
  "is_budget_limit_id s \<longleftrightarrow> is_execution_unit_id ''blim_'' 64 s"

definition model_attempt_identity_valid :: "model_attempt_identity \<Rightarrow> bool" where
  "model_attempt_identity_valid i \<longleftrightarrow> is_execution_unit_id ''mstep_'' 32 (ma_model_step_id i) \<and>
     is_execution_unit_id ''matt_'' 32 (ma_model_attempt_id i)"

definition clean :: "string \<Rightarrow> bool" where
  "clean s \<longleftrightarrow> require_clean_nonblank s = Inr s"

definition clean_opt :: "string option \<Rightarrow> bool" where
  "clean_opt s = (case s of None \<Rightarrow> True | Some x \<Rightarrow> clean x)"

definition fallback_valid :: "settlement_fallback \<Rightarrow> bool" where
  "fallback_valid f \<longleftrightarrow> clean (sf_reconciliation_reason f) \<and> clean (sf_release_reason f) \<and>
     clean_opt (sf_expiration_reason f)"

definition reservation_record_valid :: "zone_db \<Rightarrow> reservation_record \<Rightarrow> bool" where
  "reservation_record_valid zones r \<longleftrightarrow>
     clean (rec_reservation_id r) \<and> clean (rec_currency r) \<and> clean (rec_session_id r) \<and>
     clean (rec_agent_name r) \<and> clean (rec_provider_name r) \<and> clean (rec_model r) \<and>
     is_budget_limit_id (rec_budget_limit_id r) \<and>
     clean_opt (rec_key r) \<and> clean_opt (rec_reason r) \<and> clean_opt (rec_environment_name r) \<and>
     clean_opt (rec_dispatch_id r) \<and>
     window_valid zones (rec_window r) \<and>
     (case rec_billing_identity r of None \<Rightarrow> True | Some b \<Rightarrow> billing_identity_valid b) \<and>
     fallback_valid (rec_settlement_fallback r) \<and>
     0 \<le> rec_reserved_amount r \<and> opt_nonneg (rec_actual_amount r) \<and>
     model_attempt_identity_valid \<lparr>ma_model_step_id = rec_model_step_id r, ma_model_attempt_id = rec_model_attempt_id r\<rparr> \<and>
     (rec_dispatch_id r = None \<longleftrightarrow> rec_dispatched_at r = None)"

definition publication_fallback_budget_reason :: string where
  "publication_fallback_budget_reason =
     ''model completion settlement evidence was not publishable; charged reserved amount''"

definition default_release_reason :: string where
  "default_release_reason = ''reservation released before provider dispatch''"

section \<open>Reconciliations\<close>

record reconciliation_pricing =
  xp_provider_name :: string
  xp_model :: string
  xp_match :: price_match
  xp_provenance :: provenance
  xp_effective_from :: "int option"
  xp_effective_through :: "int option"
  xp_tier_max_input_tokens :: "int option"
  xp_billing_identity :: "billing_identity option"

text \<open>
  The seven optional pricing fields are validated to be all absent or to carry a complete identity,
  so they are one optional record.
\<close>

record reconciliation =
  rr_reservation_id :: string
  rr_settlement_id :: string
  rr_settlement_kind :: settlement_kind
  rr_budget_limit_id :: string
  rr_model_step_id :: string
  rr_model_attempt_id :: string
  rr_execution_profile_fingerprint :: "string option"
  rr_status :: reservation_status
  rr_reserved_amount :: rat
  rr_actual_amount :: "rat option"
  rr_released_amount :: rat
  rr_reason :: "string option"
  rr_settled_at :: datetime
  rr_billing_identity :: "billing_identity option"
  rr_pricing :: "reconciliation_pricing option"

definition budget_settlement_id :: "(json \<Rightarrow> string) \<Rightarrow> string \<Rightarrow> string" where
  "budget_settlement_id digest reservation_id = ''bset_'' @ digest (JObj (fmap_of_list
     [(''kind'', JStr ''budget-settlement''), (''reservation_id'', JStr reservation_id),
      (''schema_version'', JInt 1)]))"

definition budget_settlement_event_id :: "(json \<Rightarrow> string) \<Rightarrow> string \<Rightarrow> string" where
  "budget_settlement_event_id digest settlement_id = ''budget-settlement:'' @ digest (JObj (fmap_of_list
     [(''kind'', JStr ''budget-settlement-event''), (''settlement_id'', JStr settlement_id),
      (''schema_version'', JInt 1)]))"

definition window_reversed :: "int option \<Rightarrow> int option \<Rightarrow> bool" where
  "window_reversed a b = (case (a, b) of (Some x, Some y) \<Rightarrow> x > y | _ \<Rightarrow> False)"

definition pricing_valid :: "reconciliation_pricing \<Rightarrow> bool" where
  "pricing_valid x \<longleftrightarrow> clean (xp_provider_name x) \<and> clean (xp_model x) \<and>
     provenance_valid (xp_provenance x) \<and>
     (case xp_tier_max_input_tokens x of None \<Rightarrow> True | Some n \<Rightarrow> 0 < n \<and> n \<le> max_durable_json_integer) \<and>
     (case xp_billing_identity x of None \<Rightarrow> True | Some b \<Rightarrow> billing_identity_valid b) \<and>
     \<not> window_reversed (xp_effective_from x) (xp_effective_through x)"

definition accounting_consistent :: "reconciliation \<Rightarrow> bool" where
  "accounting_consistent q = (case rr_status q of
       Released \<Rightarrow> rr_settlement_kind q = KindReleased \<and> rr_actual_amount q = None \<and>
         rr_released_amount q = rr_reserved_amount q
     | Reconciled \<Rightarrow> rr_settlement_kind q \<noteq> KindReleased \<and>
         (case rr_actual_amount q of None \<Rightarrow> False
          | Some a \<Rightarrow> rr_released_amount q = (if a \<ge> rr_reserved_amount q then 0 else rr_reserved_amount q - a))
     | Active \<Rightarrow> False)"

definition reconciliation_valid :: "(json \<Rightarrow> string) \<Rightarrow> reconciliation \<Rightarrow> bool" where
  "reconciliation_valid digest q \<longleftrightarrow>
     clean (rr_reservation_id q) \<and> clean (rr_settlement_id q) \<and> is_budget_limit_id (rr_budget_limit_id q) \<and>
     (case rr_execution_profile_fingerprint q of None \<Rightarrow> True | Some f \<Rightarrow> is_sha256_text f) \<and>
     clean_opt (rr_reason q) \<and>
     model_attempt_identity_valid \<lparr>ma_model_step_id = rr_model_step_id q, ma_model_attempt_id = rr_model_attempt_id q\<rparr> \<and>
     rr_settlement_id q = budget_settlement_id digest (rr_reservation_id q) \<and>
     accounting_consistent q \<and>
     0 \<le> rr_reserved_amount q \<and> opt_nonneg (rr_actual_amount q) \<and> 0 \<le> rr_released_amount q \<and>
     (case rr_billing_identity q of None \<Rightarrow> True | Some b \<Rightarrow> billing_identity_valid b) \<and>
     (case rr_pricing q of None \<Rightarrow> True | Some x \<Rightarrow> pricing_valid x)"

definition check_reconciliation :: "(json \<Rightarrow> string) \<Rightarrow> reconciliation \<Rightarrow> reconciliation result" where
  "check_reconciliation digest q = (if reconciliation_valid digest q then Inr q else Inl ValueError)"

text \<open>A text field of a JSON payload: absent and null read as \<open>None\<close>, another type is refused.\<close>

definition payload_text :: "json_object \<Rightarrow> string \<Rightarrow> string option result" where
  "payload_text p k = (case fmlookup p k of
       None \<Rightarrow> Inr None
     | Some JNull \<Rightarrow> Inr None
     | Some (JStr s) \<Rightarrow> Inr (Some s)
     | Some _ \<Rightarrow> Inl ValueError)"

definition reconciliation_with_pricing_evidence ::
    "(json \<Rightarrow> string) \<Rightarrow> reconciliation \<Rightarrow> reconciliation_pricing \<Rightarrow> reconciliation result" where
  "reconciliation_with_pricing_evidence digest q x = check_reconciliation digest
     (q\<lparr>rr_pricing := Some (x\<lparr>xp_billing_identity := None\<rparr>),
        rr_billing_identity := (case xp_billing_identity x of None \<Rightarrow> rr_billing_identity q | Some b \<Rightarrow> Some b)\<rparr>)"

definition released_amount_of :: "reservation_record \<Rightarrow> rat" where
  "released_amount_of r = (case rec_status r of
       Released \<Rightarrow> rec_reserved_amount r
     | _ \<Rightarrow> (case rec_actual_amount r of
           Some a \<Rightarrow> if rec_reserved_amount r > a then rec_reserved_amount r - a else 0
         | None \<Rightarrow> 0))"

definition reconciliation_from_record :: "(json \<Rightarrow> string) \<Rightarrow> reservation_record \<Rightarrow> settlement_kind
    \<Rightarrow> reconciliation_pricing option \<Rightarrow> reconciliation result" where
  "reconciliation_from_record digest r kind pricing =
     (if rec_status r = Active then Inl ValueError
      else if kind = KindReleased \<and> rec_status r \<noteq> Released then Inl ValueError
      else if kind \<noteq> KindReleased \<and> rec_status r \<noteq> Reconciled then Inl ValueError
      else
        bind_res (payload_text (rec_settlement_event_payload r) ''execution_profile_fingerprint'') (\<lambda>fingerprint.
        bind_res (check_reconciliation digest
          \<lparr>rr_reservation_id = rec_reservation_id r,
           rr_settlement_id = budget_settlement_id digest (rec_reservation_id r),
           rr_settlement_kind = kind,
           rr_budget_limit_id = rec_budget_limit_id r,
           rr_model_step_id = rec_model_step_id r,
           rr_model_attempt_id = rec_model_attempt_id r,
           rr_execution_profile_fingerprint = fingerprint,
           rr_status = rec_status r,
           rr_reserved_amount = rec_reserved_amount r,
           rr_actual_amount = rec_actual_amount r,
           rr_released_amount = released_amount_of r,
           rr_reason = rec_reason r,
           rr_settled_at = rec_updated_at r,
           rr_billing_identity = rec_billing_identity r,
           rr_pricing = None\<rparr>) (\<lambda>q.
        case pricing of None \<Rightarrow> Inr q | Some x \<Rightarrow> reconciliation_with_pricing_evidence digest q x)))"

section \<open>Payload of the audit event\<close>

fun status_text :: "reservation_status \<Rightarrow> string" where
  "status_text Active = ''active''"
| "status_text Reconciled = ''reconciled''"
| "status_text Released = ''released''"

fun kind_text :: "settlement_kind \<Rightarrow> string" where
  "kind_text Completed = ''completed''"
| "kind_text Conservative = ''conservative''"
| "kind_text KindReleased = ''released''"

fun price_match_text :: "price_match \<Rightarrow> string" where
  "price_match_text MatchExact = ''exact''"
| "price_match_text MatchPrefix = ''prefix''"
| "price_match_text MatchResourceMapping = ''resource_mapping''"

definition billing_identity_json :: "billing_identity \<Rightarrow> json" where
  "billing_identity_json b = JObj (fmap_of_list
     [(''provider_name'', JStr (bi_provider_name b)), (''resource_id'', JStr (bi_resource_id b)),
      (''request_evidence'', JObj (bi_request_evidence b)),
      (''completion_evidence'', JObj (bi_completion_evidence b)),
      (''pricing_contexts'', JList (map (\<lambda>c. JObj (fmap_of_list [(''dimensions'', JObj (fmmap JStr c))]))
         (bi_pricing_contexts b)))])"

definition provenance_json :: "provenance \<Rightarrow> json" where
  "provenance_json v = JObj (fmap_of_list [(''source'', JStr (pv_source v)), (''url'', JStr (pv_url v)),
     (''as_of'', JStr (pv_as_of v))])"

definition pricing_json :: "reconciliation_pricing \<Rightarrow> json" where
  "pricing_json x = JObj (fmap_of_list
     [(''provider_name'', JStr (xp_provider_name x)), (''model'', JStr (xp_model x)),
      (''match'', JStr (price_match_text (xp_match x))), (''provenance'', provenance_json (xp_provenance x)),
      (''effective_from'', json_opt (\<lambda>d. JStr (iso_date d)) (xp_effective_from x)),
      (''effective_through'', json_opt (\<lambda>d. JStr (iso_date d)) (xp_effective_through x)),
      (''tier_max_input_tokens'', json_opt JInt (xp_tier_max_input_tokens x))])"

definition reconciliation_payload_items :: "reconciliation \<Rightarrow> (string \<times> json) list" where
  "reconciliation_payload_items q =
     [(''reservation_id'', JStr (rr_reservation_id q)),
      (''settlement_id'', JStr (rr_settlement_id q)),
      (''settlement_kind'', JStr (kind_text (rr_settlement_kind q))),
      (''budget_limit_id'', JStr (rr_budget_limit_id q)),
      (''model_step_id'', JStr (rr_model_step_id q)),
      (''model_attempt_id'', JStr (rr_model_attempt_id q)),
      (''status'', JStr (status_text (rr_status q))),
      (''reserved_amount'', JDec (rr_reserved_amount q)),
      (''actual_amount'', json_opt JDec (rr_actual_amount q)),
      (''released_amount'', JDec (rr_released_amount q)),
      (''reason'', json_opt JStr (rr_reason q)),
      (''settled_at_unix_us'', JInt (rr_settled_at q)),
      (''pricing'', json_opt pricing_json (rr_pricing q)),
      (''billing_identity'', json_opt billing_identity_json (rr_billing_identity q))]"

definition budget_settlement_timestamp :: "datetime \<Rightarrow> int result" where
  "budget_settlement_timestamp t =
     (if min_durable_json_integer \<le> t \<and> t \<le> max_durable_json_integer then Inr t else Inl ValueError)"

definition budget_reconciliation_payload :: "reconciliation \<Rightarrow> json_object result" where
  "budget_reconciliation_payload q =
     bind_res (budget_settlement_timestamp (rr_settled_at q)) (\<lambda>_.
       Inr (fmap_of_list (reconciliation_payload_items q)))"

section \<open>Settlements\<close>

datatype settlement_event_type = BudgetReservationReleased | BudgetReconciled

record event =
  ev_type :: settlement_event_type
  ev_id :: string
  ev_timestamp :: datetime
  ev_session_id :: string
  ev_interaction_id :: "string option"
  ev_agent_name :: string
  ev_environment_name :: "string option"
  ev_payload :: json_object

record settlement_record =
  st_settlement_id :: string
  st_reservation_id :: string
  st_settlement_kind :: settlement_kind
  st_session_id :: string
  st_agent_name :: string
  st_environment_name :: "string option"
  st_reconciliation :: reconciliation
  st_event :: event
  st_event_published :: bool

definition event_valid :: "event \<Rightarrow> bool" where
  "event_valid e \<longleftrightarrow>
     require_durable_clean_nonblank (ev_id e) = Inr (ev_id e) \<and> length (ev_id e) \<le> 512 \<and>
     require_durable_clean_nonblank (ev_session_id e) = Inr (ev_session_id e) \<and>
     list_all (\<lambda>s. require_durable_clean_nonblank s = Inr s)
       (ev_agent_name e # (case ev_environment_name e of None \<Rightarrow> [] | Some s \<Rightarrow> [s])
         @ (case ev_interaction_id e of None \<Rightarrow> [] | Some s \<Rightarrow> [s]))"

text \<open>Attesting payload fields: each must be text that is not blank.\<close>

definition payload_authority_ok :: "json_object \<Rightarrow> string list \<Rightarrow> bool" where
  "payload_authority_ok p names = list_all (\<lambda>k. case fmlookup p k of
       Some (JStr s) \<Rightarrow> py_strip s \<noteq> [] | _ \<Rightarrow> False) names"

definition settlement_event_type_of :: "settlement_kind \<Rightarrow> settlement_event_type" where
  "settlement_event_type_of k = (if k = KindReleased then BudgetReservationReleased else BudgetReconciled)"

definition settlement_record_valid :: "(json \<Rightarrow> string) \<Rightarrow> settlement_record \<Rightarrow> bool" where
  "settlement_record_valid digest t \<longleftrightarrow>
     clean (st_settlement_id t) \<and> clean (st_reservation_id t) \<and> clean (st_session_id t) \<and>
     clean (st_agent_name t) \<and> clean_opt (st_environment_name t) \<and>
     reconciliation_valid digest (st_reconciliation t) \<and>
     st_settlement_id t = rr_settlement_id (st_reconciliation t) \<and>
     st_reservation_id t = rr_reservation_id (st_reconciliation t) \<and>
     st_settlement_kind t = rr_settlement_kind (st_reconciliation t) \<and>
     ev_id (st_event t) = budget_settlement_event_id digest (st_settlement_id t) \<and>
     ev_type (st_event t) = settlement_event_type_of (st_settlement_kind t) \<and>
     ev_session_id (st_event t) = st_session_id t \<and>
     ev_agent_name (st_event t) = st_agent_name t \<and>
     ev_environment_name (st_event t) = st_environment_name t \<and>
     ev_timestamp (st_event t) = rr_settled_at (st_reconciliation t) \<and>
     list_all (\<lambda>(k, v). fmlookup (ev_payload (st_event t)) k = Some v \<or>
         v = JNull \<and> fmlookup (ev_payload (st_event t)) k = None)
       (reconciliation_payload_items (st_reconciliation t)) \<and>
     ((fmlookup (ev_payload (st_event t)) ''execution_profile_fingerprint'' \<noteq> None) \<longleftrightarrow>
        (rr_execution_profile_fingerprint (st_reconciliation t) \<noteq> None)) \<and>
     (case rr_execution_profile_fingerprint (st_reconciliation t) of
        None \<Rightarrow> True
      | Some f \<Rightarrow> fmlookup (ev_payload (st_event t)) ''execution_profile_fingerprint'' = Some (JStr f))"

definition settlement_event :: "(json \<Rightarrow> string) \<Rightarrow> reservation_record \<Rightarrow> reconciliation \<Rightarrow> string option
    \<Rightarrow> json_object \<Rightarrow> event" where
  "settlement_event digest r q interaction payload =
     \<lparr>ev_type = settlement_event_type_of (rr_settlement_kind q),
      ev_id = budget_settlement_event_id digest (rr_settlement_id q),
      ev_timestamp = rr_settled_at q, ev_session_id = rec_session_id r,
      ev_interaction_id = interaction, ev_agent_name = rec_agent_name r,
      ev_environment_name = rec_environment_name r, ev_payload = payload\<rparr>"

definition attested_fields :: "json_object \<Rightarrow> string option \<Rightarrow> string list" where
  "attested_fields payload interaction =
     [''reservation_id'', ''settlement_id'', ''budget_limit_id'', ''model_step_id'', ''model_attempt_id'']
     @ (if fmlookup payload ''execution_profile_fingerprint'' \<noteq> None then [''execution_profile_fingerprint''] else [])
     @ (if fmlookup payload ''session_instance_id'' \<noteq> None then [''session_instance_id''] else [])
     @ (if interaction \<noteq> None then [''interaction_id''] else [])"

definition settlement_of :: "reservation_record \<Rightarrow> reconciliation \<Rightarrow> event \<Rightarrow> settlement_record" where
  "settlement_of r q event =
     \<lparr>st_settlement_id = rr_settlement_id q, st_reservation_id = rec_reservation_id r,
      st_settlement_kind = rr_settlement_kind q, st_session_id = rec_session_id r,
      st_agent_name = rec_agent_name r, st_environment_name = rec_environment_name r,
      st_reconciliation = q, st_event = event, st_event_published = False\<rparr>"

definition attest_settlement :: "(json \<Rightarrow> string) \<Rightarrow> event \<Rightarrow> settlement_record \<Rightarrow> settlement_record result" where
  "attest_settlement digest event settlement =
     (if \<not> event_valid event then Inl ValueError
      else if ev_interaction_id event \<noteq> None \<and>
         fmlookup (ev_payload event) ''interaction_id'' \<noteq> map_option JStr (ev_interaction_id event)
      then Inl RuntimeError
      else if \<not> payload_authority_ok (ev_payload event) (attested_fields (ev_payload event) (ev_interaction_id event))
      then Inl ValueError
      else if \<not> settlement_record_valid digest settlement then Inl ValueError
      else Inr settlement)"

definition budget_settlement_record ::
    "(json \<Rightarrow> string) \<Rightarrow> reservation_record \<Rightarrow> reconciliation \<Rightarrow> settlement_record result" where
  "budget_settlement_record digest r q =
     (if rec_reservation_id r \<noteq> rr_reservation_id q then Inl ValueError
      else
        bind_res (budget_reconciliation_payload q) (\<lambda>own.
        bind_res (payload_text (rec_settlement_event_payload r) ''interaction_id'') (\<lambda>interaction.
          let event = settlement_event digest r q interaction (rec_settlement_event_payload r ++\<^sub>f own)
          in attest_settlement digest event (settlement_of r q event))))"

section \<open>Transitions of one reservation\<close>

definition expired_reservation_reason :: "int \<Rightarrow> string" where
  "expired_reservation_reason ttl = ''Reservation expired:'' @ '' not reconciled within '' @ str_int ttl @ ''s.''"

definition is_expired_reservation_reason :: "string option \<Rightarrow> bool" where
  "is_expired_reservation_reason reason = (case reason of
       None \<Rightarrow> False | Some s \<Rightarrow> starts_with ''Reservation expired:'' s)"

definition reservation_is_expired :: "reservation_record \<Rightarrow> datetime \<Rightarrow> int option \<Rightarrow> bool" where
  "reservation_is_expired r now ttl = (case ttl of
       None \<Rightarrow> False
     | Some s \<Rightarrow> (case utc_duration_cutoff now s of
           Inr (Some cutoff) \<Rightarrow> rec_updated_at r \<le> cutoff
         | _ \<Rightarrow> False))"

definition reconciled_record :: "reservation_record \<Rightarrow> rat \<Rightarrow> string option \<Rightarrow> datetime
    \<Rightarrow> billing_identity option \<Rightarrow> reservation_record result" where
  "reconciled_record r actual reason at_time identity =
     bind_res (reconciled_billing_identity (rec_billing_identity r) identity) (\<lambda>resolved.
       if rec_status r = Reconciled then
         (if rec_actual_amount r = Some actual \<and> rec_reason r = reason \<and> rec_billing_identity r = resolved
          then Inr r else Inl ValueError)
       else if rec_status r \<noteq> Active then Inl ValueError
       else Inr (r\<lparr>rec_actual_amount := Some actual, rec_status := Reconciled, rec_reason := reason,
               rec_updated_at := at_time, rec_billing_identity := resolved\<rparr>))"

definition released_record :: "reservation_record \<Rightarrow> string \<Rightarrow> datetime \<Rightarrow> reservation_record result" where
  "released_record r reason at_time =
     (if rec_status r = Released then
        (if rec_reason r = Some reason \<or> is_expired_reservation_reason (rec_reason r)
         then Inr r else Inl ValueError)
      else if rec_status r \<noteq> Active then Inl ValueError
      else Inr (r\<lparr>rec_status := Released, rec_reason := Some reason, rec_updated_at := at_time\<rparr>))"

definition validate_amount :: "rat \<Rightarrow> rat result" where
  "validate_amount a = (if a < 0 then Inl ValueError else Inr a)"

definition budget_reconciliation_preview :: "(json \<Rightarrow> string) \<Rightarrow> reservation_record \<Rightarrow> rat \<Rightarrow> settlement_kind
    \<Rightarrow> string option \<Rightarrow> datetime \<Rightarrow> billing_identity option \<Rightarrow> reconciliation_pricing option \<Rightarrow> reconciliation result" where
  "budget_reconciliation_preview digest r actual kind reason at_time identity pricing =
     bind_res (validate_amount actual) (\<lambda>actual.
     bind_res (reconciled_record r actual reason at_time identity) (\<lambda>r'.
       reconciliation_from_record digest r' kind pricing))"

definition budget_release_preview :: "(json \<Rightarrow> string) \<Rightarrow> reservation_record \<Rightarrow> string \<Rightarrow> datetime
    \<Rightarrow> reconciliation result" where
  "budget_release_preview digest r reason at_time =
     bind_res (require_clean_nonblank reason) (\<lambda>reason.
     bind_res (released_record r reason at_time) (\<lambda>r'.
       reconciliation_from_record digest r' KindReleased None))"

end
