(* ===== verification/Budget_Ledger.thy ===== *)
theory Budget_Ledger
  imports Budget_Records
begin

text \<open>
  The in-memory budget ledger (\<open>InMemoryBudgetLedger\<close> of \<open>src/cayu/budgets/base.py\<close>, with the batch
  primitive of \<open>_batch.py\<close>, the scan bounds of \<open>_reservation_scan.py\<close> and the fallback registries the
  base class \<open>BudgetLedger\<close> attaches to a ledger).  Each coroutine runs under the ledger's lock and is
  one atomic action on the state; an exception keeps what was mutated before it was raised.  The
  value the ledger's clock returns is the argument \<open>now\<close>.
\<close>

section \<open>State\<close>

record ledger =
  led_records :: "(string, reservation_record) dict"
  led_by_session :: "(string, string list) dict"
  led_settlements :: "(string, settlement_record) dict"
  led_ttl :: "int option"
  led_bindings :: "(string, string \<times> int \<times> string list) dict"
  led_claims :: "(string, string \<times> string) dict"

definition validate_reservation_ttl :: "int option \<Rightarrow> int option result" where
  "validate_reservation_ttl ttl = (case ttl of
       None \<Rightarrow> Inr None
     | Some n \<Rightarrow> if n < 1 then Inl ValueError else Inr (Some n))"

definition new_ledger :: "int option \<Rightarrow> ledger result" where
  "new_ledger ttl = bind_res (validate_reservation_ttl ttl) (\<lambda>ttl.
     Inr \<lparr>led_records = [], led_by_session = [], led_settlements = [], led_ttl = ttl,
        led_bindings = [], led_claims = []\<rparr>)"

definition put_record :: "reservation_record \<Rightarrow> ledger \<Rightarrow> ledger" where
  "put_record r s = s\<lparr>led_records := dict_put (rec_reservation_id r) r (led_records s)\<rparr>"

definition session_ids :: "ledger \<Rightarrow> string \<Rightarrow> string list" where
  "session_ids s session = (case dict_get (led_by_session s) session of None \<Rightarrow> [] | Some ids \<Rightarrow> ids)"

definition index_record :: "reservation_record \<Rightarrow> ledger \<Rightarrow> ledger" where
  "index_record r s = s\<lparr>led_by_session := dict_put (rec_session_id r)
     (py_insort (rec_reservation_id r) (session_ids s (rec_session_id r))) (led_by_session s)\<rparr>"

definition store_settlement :: "settlement_record \<Rightarrow> (ledger, unit) action" where
  "store_settlement t s = (case dict_get (led_settlements s) (st_settlement_id t) of
       None \<Rightarrow> (Inr (), s\<lparr>led_settlements := dict_put (st_settlement_id t) t (led_settlements s)\<rparr>)
     | Some existing \<Rightarrow>
         if existing\<lparr>st_event_published := False\<rparr> \<noteq> t then (Inl ValueError, s) else (Inr (), s))"

text \<open>Record the settlement of \<open>original\<close> in the outbox, then replace the reservation.\<close>

definition commit_settlement :: "(json \<Rightarrow> string) \<Rightarrow> reservation_record \<Rightarrow> reservation_record
    \<Rightarrow> reconciliation \<Rightarrow> (ledger, unit) action" where
  "commit_settlement digest original settled q s = (case budget_settlement_record digest original q of
       Inl e \<Rightarrow> (Inl e, s)
     | Inr t \<Rightarrow> (case store_settlement t s of
           (Inl e, s') \<Rightarrow> (Inl e, s')
         | (Inr _, s') \<Rightarrow> (Inr (), put_record settled s')))"

section \<open>Reaping and usage\<close>

definition reservation_matches_limit :: "reservation_record \<Rightarrow> budget_limit \<Rightarrow> bool" where
  "reservation_matches_limit r l \<longleftrightarrow> rec_budget_limit_id r = bl_budget_limit_id l"

definition reapable :: "datetime \<Rightarrow> int option \<Rightarrow> budget_limit \<Rightarrow> reservation_record \<Rightarrow> bool" where
  "reapable now ttl l r \<longleftrightarrow> rec_status r = Active \<and> rec_dispatch_id r = None \<and>
     reservation_matches_limit r l \<and> reservation_is_expired r now ttl"

definition reap_one :: "(json \<Rightarrow> string) \<Rightarrow> datetime \<Rightarrow> int \<Rightarrow> reservation_record \<Rightarrow> (ledger, unit) action" where
  "reap_one digest now ttl r s =
     (case bind_res (released_record r (case sf_expiration_reason (rec_settlement_fallback r) of
               None \<Rightarrow> expired_reservation_reason ttl | Some x \<Rightarrow> x) now) (\<lambda>r'.
           bind_res (reconciliation_from_record digest r' KindReleased None) (\<lambda>q. Inr (r', q))) of
        Inl e \<Rightarrow> (Inl e, s)
      | Inr (r', q) \<Rightarrow> commit_settlement digest r r' q s)"

fun reap_loop :: "(json \<Rightarrow> string) \<Rightarrow> datetime \<Rightarrow> int \<Rightarrow> budget_limit \<Rightarrow> (string \<times> reservation_record) list
    \<Rightarrow> (ledger, unit) action" where
  "reap_loop digest now ttl l [] s = (Inr (), s)"
| "reap_loop digest now ttl l ((_, r) # items) s =
     (if \<not> reapable now (Some ttl) l r then reap_loop digest now ttl l items s
      else (case reap_one digest now ttl r s of
              (Inl e, s') \<Rightarrow> (Inl e, s')
            | (Inr _, s') \<Rightarrow> reap_loop digest now ttl l items s'))"

definition reap_expired :: "(json \<Rightarrow> string) \<Rightarrow> datetime \<Rightarrow> budget_limit \<Rightarrow> (ledger, unit) action" where
  "reap_expired digest now l s = (case led_ttl s of
       None \<Rightarrow> (Inr (), s)
     | Some ttl \<Rightarrow> reap_loop digest now ttl l (led_records s) s)"

definition record_charge :: "datetime option \<Rightarrow> datetime option \<Rightarrow> reservation_record \<Rightarrow> rat" where
  "record_charge since until r = (case rec_status r of
       Active \<Rightarrow> rec_reserved_amount r
     | Reconciled \<Rightarrow> if in_window since until (rec_updated_at r) then opt_or_zero (rec_actual_amount r) else 0
     | Released \<Rightarrow> 0)"

definition ledger_used_amount :: "zone_db \<Rightarrow> reservation_record list \<Rightarrow> budget_limit \<Rightarrow> datetime \<Rightarrow> rat result" where
  "ledger_used_amount zones records l now =
     bind_res (bounds zones (bl_window l) now) (\<lambda>(since, until).
       Inr (sum_list (map (record_charge since until) (filter (\<lambda>r. reservation_matches_limit r l) records))))"

section \<open>Reserving\<close>

record reservation_result =
  res_accepted :: bool
  res_budget_limit_id :: string
  res_model_step_id :: string
  res_model_attempt_id :: string
  res_scope :: budget_scope
  res_key :: "string option"
  res_window :: budget_window
  res_currency :: string
  res_maximum :: rat
  res_action :: budget_action
  res_requested :: rat
  res_actual :: rat
  res_record :: "reservation_record option"

definition make_reservation_result :: "budget_limit \<Rightarrow> model_attempt_identity \<Rightarrow> bool \<Rightarrow> rat \<Rightarrow> rat
    \<Rightarrow> reservation_record option \<Rightarrow> reservation_result result" where
  "make_reservation_result l i accepted requested actual record =
     (if \<not> model_attempt_identity_valid i \<or> \<not> is_budget_limit_id (bl_budget_limit_id l)
         \<or> bl_max_estimated_cost l \<le> 0 \<or> requested < 0 \<or> actual < 0
         \<or> (case record of None \<Rightarrow> False
            | Some r \<Rightarrow> rec_budget_limit_id r \<noteq> bl_budget_limit_id l \<or> rec_model_step_id r \<noteq> ma_model_step_id i
                \<or> rec_model_attempt_id r \<noteq> ma_model_attempt_id i)
      then Inl ValueError
      else Inr \<lparr>res_accepted = accepted, res_budget_limit_id = bl_budget_limit_id l,
        res_model_step_id = ma_model_step_id i, res_model_attempt_id = ma_model_attempt_id i,
        res_scope = bl_scope l, res_key = bl_key l, res_window = bl_window l, res_currency = bl_currency l,
        res_maximum = bl_max_estimated_cost l, res_action = bl_action l, res_requested = requested,
        res_actual = actual, res_record = record\<rparr>)"

record reserve_request =
  rq_reservation_id :: "string option"
  rq_session_id :: string
  rq_agent_name :: string
  rq_provider_name :: string
  rq_model :: string
  rq_attempt :: model_attempt_identity
  rq_environment_name :: "string option"
  rq_settlement_event_payload :: json_object
  rq_settlement_fallback :: "settlement_fallback option"
  rq_requested_amount :: "rat option"
  rq_billing_identity :: "billing_identity option"
  rq_effective_at :: "datetime option"

text \<open>\<open>fresh\<close> stands for the text \<open>uuid4().hex\<close> returns.\<close>

definition new_budget_reservation_id :: "string \<Rightarrow> string" where
  "new_budget_reservation_id fresh = ''bres_'' @ fresh"

definition reserve_checks :: "reserve_request \<Rightarrow> string \<Rightarrow> string result" where
  "reserve_checks q fresh =
     bind_res (case rq_reservation_id q of None \<Rightarrow> Inr (new_budget_reservation_id fresh)
        | Some i \<Rightarrow> require_clean_nonblank i) (\<lambda>rid.
     bind_res (require_clean_nonblank (rq_session_id q)) (\<lambda>_.
     bind_res (require_clean_nonblank (rq_agent_name q)) (\<lambda>_.
     bind_res (require_clean_nonblank (rq_provider_name q)) (\<lambda>_.
     bind_res (require_clean_nonblank (rq_model q)) (\<lambda>_.
     bind_res (require_clean_nonblank_opt (rq_environment_name q)) (\<lambda>_.
     bind_res (copy_billing_identity (rq_billing_identity q)) (\<lambda>_.
     bind_res (raise_if (\<not> model_attempt_identity_valid (rq_attempt q)) ValueError) (\<lambda>_.
     bind_res (raise_if (case rq_settlement_fallback q of None \<Rightarrow> False | Some f \<Rightarrow> \<not> fallback_valid f) ValueError) (\<lambda>_.
       Inr rid)))))))))"

definition effective_fallback :: "ledger \<Rightarrow> datetime \<Rightarrow> reserve_request \<Rightarrow> settlement_fallback" where
  "effective_fallback s now q = (case rq_settlement_fallback q of
       Some f \<Rightarrow> f
     | None \<Rightarrow> \<lparr>sf_settled_at = now, sf_reconciliation_reason = publication_fallback_budget_reason,
         sf_release_reason = default_release_reason,
         sf_expiration_reason = map_option expired_reservation_reason (led_ttl s)\<rparr>)"

definition requested_amount_of :: "budget_limit \<Rightarrow> reserve_request \<Rightarrow> datetime \<Rightarrow> rat result" where
  "requested_amount_of l q now = (case rq_requested_amount q of
       None \<Rightarrow> budget_reservation_amount l (rq_provider_name q) (rq_model q)
         (case rq_effective_at q of None \<Rightarrow> now | Some t \<Rightarrow> t) (rq_billing_identity q)
     | Some a \<Rightarrow> validate_amount a)"

definition new_reservation_record :: "budget_limit \<Rightarrow> reserve_request \<Rightarrow> string \<Rightarrow> settlement_fallback
    \<Rightarrow> rat \<Rightarrow> datetime \<Rightarrow> reservation_record" where
  "new_reservation_record l q rid fallback amount now =
     \<lparr>rec_reservation_id = rid, rec_budget_limit_id = bl_budget_limit_id l,
      rec_model_step_id = ma_model_step_id (rq_attempt q), rec_model_attempt_id = ma_model_attempt_id (rq_attempt q),
      rec_scope = bl_scope l, rec_key = bl_key l, rec_window = bl_window l, rec_currency = bl_currency l,
      rec_session_id = rq_session_id q, rec_agent_name = rq_agent_name q,
      rec_environment_name = rq_environment_name q, rec_provider_name = rq_provider_name q,
      rec_model = rq_model q, rec_billing_identity = rq_billing_identity q,
      rec_settlement_event_payload = rq_settlement_event_payload q, rec_settlement_fallback = fallback,
      rec_dispatch_id = None, rec_dispatched_at = None, rec_reserved_amount = amount,
      rec_actual_amount = None, rec_status = Active, rec_reason = None,
      rec_created_at = now, rec_updated_at = now\<rparr>"

definition admit_record :: "reservation_record \<Rightarrow> ledger \<Rightarrow> ledger" where
  "admit_record r s = index_record r (put_record r s)"

definition reserve :: "zone_db \<Rightarrow> (json \<Rightarrow> string) \<Rightarrow> datetime \<Rightarrow> string \<Rightarrow> budget_limit \<Rightarrow> reserve_request
    \<Rightarrow> (ledger, reservation_result) action" where
  "reserve zones digest now fresh l q s =
     (case bind_res (reserve_checks q fresh) (\<lambda>rid.
           bind_res (requested_amount_of l q now) (\<lambda>amount. Inr (rid, amount))) of
        Inl e \<Rightarrow> (Inl e, s)
      | Inr (rid, amount) \<Rightarrow>
          (case reap_expired digest now l s of
             (Inl e, s') \<Rightarrow> (Inl e, s')
           | (Inr _, s') \<Rightarrow>
               (case ledger_used_amount zones (dict_values (led_records s')) l now of
                  Inl e \<Rightarrow> (Inl e, s')
                | Inr current \<Rightarrow>
                    if current + amount > bl_max_estimated_cost l then
                      (make_reservation_result l (rq_attempt q) False amount (current + amount) None, s')
                    else
                      (let r = new_reservation_record l q rid (effective_fallback s now q) amount now in
                       if \<not> reservation_record_valid zones r then (Inl ValueError, s')
                       else if dict_get (led_records s') rid \<noteq> None
                       then (Inl BudgetReservationIdentityConflict, s')
                       else (make_reservation_result l (rq_attempt q) True amount (current + amount) (Some r),
                             admit_record r s')))))"

section \<open>Dispatch, release, heartbeat, reconciliation\<close>

definition validate_reservation_id_batch :: "string list \<Rightarrow> string list result" where
  "validate_reservation_id_batch ids = bind_res (traverse_res require_clean_nonblank ids) (\<lambda>ids.
     if \<not> distinct ids then Inl ValueError else Inr ids)"

definition check_dispatch :: "ledger \<Rightarrow> datetime \<Rightarrow> string \<Rightarrow> string \<Rightarrow> reservation_record result" where
  "check_dispatch s now dispatch_id rid = (case dict_get (led_records s) rid of
       None \<Rightarrow> Inl KeyError
     | Some r \<Rightarrow>
         if rec_dispatch_id r \<noteq> None \<and> rec_dispatch_id r \<noteq> Some dispatch_id then Inl ValueError
         else if rec_dispatch_id r = None \<and> rec_status r \<noteq> Active then Inl ValueError
         else if rec_dispatch_id r = None \<and> reservation_is_expired r now (led_ttl s) then Inl ValueError
         else Inr r)"

definition dispatched_record :: "string \<Rightarrow> datetime \<Rightarrow> reservation_record \<Rightarrow> reservation_record" where
  "dispatched_record dispatch_id marked_at r =
     (if rec_dispatch_id r \<noteq> None then r
      else r\<lparr>rec_dispatch_id := Some dispatch_id, rec_dispatched_at := Some marked_at\<rparr>)"

definition mark_dispatched :: "datetime \<Rightarrow> string list \<Rightarrow> string \<Rightarrow> datetime option
    \<Rightarrow> (ledger, reservation_record list) action" where
  "mark_dispatched now ids dispatch_id dispatched_at s =
     (case bind_res (validate_reservation_id_batch ids) (\<lambda>ids.
           bind_res (require_clean_nonblank dispatch_id) (\<lambda>d.
             traverse_res (check_dispatch s now d) ids)) of
        Inl e \<Rightarrow> (Inl e, s)
      | Inr records \<Rightarrow>
          (let marked = map (dispatched_record dispatch_id (case dispatched_at of None \<Rightarrow> now | Some t \<Rightarrow> t)) records
           in (Inr marked, fold put_record marked s)))"

definition check_pre_provider :: "ledger \<Rightarrow> string \<Rightarrow> string \<Rightarrow> reservation_record result" where
  "check_pre_provider s dispatch_id rid = (case dict_get (led_records s) rid of
       None \<Rightarrow> Inl KeyError
     | Some r \<Rightarrow>
         if rec_dispatch_id r \<noteq> None \<and> rec_dispatch_id r \<noteq> Some dispatch_id then Inl ValueError
         else if rec_status r \<notin> {Active, Released} then Inl ValueError
         else Inr r)"

fun commit_settlements :: "(json \<Rightarrow> string) \<Rightarrow> (reservation_record \<times> reservation_record \<times> reconciliation) list
    \<Rightarrow> (ledger, unit) action" where
  "commit_settlements digest [] s = (Inr (), s)"
| "commit_settlements digest ((original, settled, q) # rest) s =
     (case commit_settlement digest original settled q s of
        (Inl e, s') \<Rightarrow> (Inl e, s')
      | (Inr _, s') \<Rightarrow> commit_settlements digest rest s')"

definition release_pre_provider_dispatch :: "(json \<Rightarrow> string) \<Rightarrow> datetime \<Rightarrow> string list \<Rightarrow> string \<Rightarrow> string
    \<Rightarrow> datetime option \<Rightarrow> (ledger, reconciliation list) action" where
  "release_pre_provider_dispatch digest now ids dispatch_id reason occurred_at s =
     (case bind_res (validate_reservation_id_batch ids) (\<lambda>ids.
           bind_res (require_clean_nonblank dispatch_id) (\<lambda>d.
           bind_res (require_clean_nonblank reason) (\<lambda>reason.
           bind_res (traverse_res (check_pre_provider s d) ids) (\<lambda>records.
           bind_res (traverse_res (\<lambda>r. released_record r reason (case occurred_at of None \<Rightarrow> now | Some t \<Rightarrow> t)) records) (\<lambda>released.
           bind_res (traverse_res (\<lambda>r. reconciliation_from_record digest r KindReleased None) released) (\<lambda>recons.
             Inr (zip records (zip released recons), recons))))))) of
        Inl e \<Rightarrow> (Inl e, s)
      | Inr (work, recons) \<Rightarrow>
          (case commit_settlements digest work s of
             (Inl e, s') \<Rightarrow> (Inl e, s')
           | (Inr _, s') \<Rightarrow> (Inr recons, s')))"

definition heartbeat :: "datetime \<Rightarrow> string \<Rightarrow> (ledger, bool) action" where
  "heartbeat now rid s = (case require_clean_nonblank rid of
       Inl e \<Rightarrow> (Inl e, s)
     | Inr rid \<Rightarrow> (case dict_get (led_records s) rid of
           None \<Rightarrow> (Inl KeyError, s)
         | Some r \<Rightarrow>
             if rec_status r \<noteq> Active \<or> reservation_is_expired r now (led_ttl s) then (Inr False, s)
             else (Inr True, put_record (r\<lparr>rec_updated_at := now\<rparr>) s)))"

definition reconcilable_record :: "ledger \<Rightarrow> string \<Rightarrow> reservation_record result" where
  "reconcilable_record s rid = (case dict_get (led_records s) rid of
       None \<Rightarrow> Inl KeyError
     | Some r \<Rightarrow> if rec_status r \<in> {Active, Reconciled} then Inr r else Inl ValueError)"

definition releasable_record :: "ledger \<Rightarrow> string \<Rightarrow> reservation_record result" where
  "releasable_record s rid = (case dict_get (led_records s) rid of
       None \<Rightarrow> Inl KeyError
     | Some r \<Rightarrow>
         if rec_status r = Active \<and> rec_dispatch_id r \<noteq> None then Inl ValueError
         else if rec_status r \<in> {Active, Released} then Inr r
         else Inl ValueError)"

definition commit_and_return :: "(json \<Rightarrow> string) \<Rightarrow> (reservation_record \<times> reservation_record \<times> reconciliation) result
    \<Rightarrow> (ledger, reconciliation) action" where
  "commit_and_return digest prepared s = (case prepared of
       Inl e \<Rightarrow> (Inl e, s)
     | Inr (original, settled, q) \<Rightarrow>
         (case commit_settlement digest original settled q s of
            (Inl e, s') \<Rightarrow> (Inl e, s')
          | (Inr _, s') \<Rightarrow> (Inr q, s')))"

definition reconcile :: "(json \<Rightarrow> string) \<Rightarrow> datetime \<Rightarrow> string \<Rightarrow> rat \<Rightarrow> settlement_kind \<Rightarrow> string option
    \<Rightarrow> datetime option \<Rightarrow> billing_identity option \<Rightarrow> reconciliation_pricing option
    \<Rightarrow> (ledger, reconciliation) action" where
  "reconcile digest now rid actual kind reason occurred_at identity pricing s =
     commit_and_return digest
       (bind_res (require_clean_nonblank rid) (\<lambda>rid.
        bind_res (validate_amount actual) (\<lambda>actual.
        bind_res (reconcilable_record s rid) (\<lambda>r.
        bind_res (reconciled_record r actual reason (case occurred_at of None \<Rightarrow> now | Some t \<Rightarrow> t) identity) (\<lambda>r'.
        bind_res (reconciliation_from_record digest r' kind pricing) (\<lambda>q. Inr (r, r', q))))))) s"

definition release :: "(json \<Rightarrow> string) \<Rightarrow> datetime \<Rightarrow> string \<Rightarrow> string \<Rightarrow> datetime option
    \<Rightarrow> (ledger, reconciliation) action" where
  "release digest now rid reason occurred_at s =
     commit_and_return digest
       (bind_res (require_clean_nonblank rid) (\<lambda>rid.
        bind_res (require_clean_nonblank reason) (\<lambda>reason.
        bind_res (releasable_record s rid) (\<lambda>r.
        bind_res (released_record r reason (case occurred_at of None \<Rightarrow> now | Some t \<Rightarrow> t)) (\<lambda>r'.
        bind_res (reconciliation_from_record digest r' KindReleased None) (\<lambda>q. Inr (r, r', q))))))) s"

section \<open>Reads and the settlement outbox\<close>

definition load_settlement :: "ledger \<Rightarrow> string \<Rightarrow> settlement_record option result" where
  "load_settlement s sid = bind_res (require_clean_nonblank sid) (\<lambda>sid. Inr (dict_get (led_settlements s) sid))"

definition load_reservation :: "ledger \<Rightarrow> string \<Rightarrow> reservation_record option result" where
  "load_reservation s rid = bind_res (require_clean_nonblank rid) (\<lambda>rid. Inr (dict_get (led_records s) rid))"

definition reservation_scan_bounds :: "string option \<Rightarrow> int \<Rightarrow> (string option \<times> nat) result" where
  "reservation_scan_bounds after limit =
     bind_res (require_clean_nonblank_opt after) (\<lambda>after.
       if \<not> (1 \<le> limit \<and> limit \<le> 128) then Inl ValueError else Inr (after, nat limit))"

definition scan_reservation_records :: "ledger \<Rightarrow> string \<Rightarrow> string option \<Rightarrow> int \<Rightarrow> reservation_record list result" where
  "scan_reservation_records s session after limit =
     bind_res (require_clean_nonblank session) (\<lambda>session.
     bind_res (reservation_scan_bounds after limit) (\<lambda>(after, limit).
       let indexed = session_ids s session;
           start = (case after of None \<Rightarrow> 0 | Some a \<Rightarrow> bisect_right indexed a)
       in traverse_res (\<lambda>k. case dict_get (led_records s) k of None \<Rightarrow> Inl KeyError | Some r \<Rightarrow> Inr r)
            (take limit (drop start indexed))))"

definition settlement_key :: "settlement_record \<Rightarrow> datetime \<times> string" where
  "settlement_key t = (rr_settled_at (st_reconciliation t), st_settlement_id t)"

definition validate_settlement_page_limit :: "int \<Rightarrow> nat result" where
  "validate_settlement_page_limit n = (if \<not> (1 \<le> n \<and> n \<le> 1000) then Inl ValueError else Inr (nat n))"

definition pending_after :: "string option \<Rightarrow> (datetime \<times> string) option \<Rightarrow> settlement_record \<Rightarrow> bool" where
  "pending_after session after t \<longleftrightarrow> \<not> st_event_published t \<and>
     (case session of None \<Rightarrow> True | Some x \<Rightarrow> st_session_id t = x) \<and>
     (case after of None \<Rightarrow> True | Some c \<Rightarrow> settlement_key t > c)"

definition list_pending_settlements :: "ledger \<Rightarrow> string option \<Rightarrow> (datetime \<times> string) option \<Rightarrow> int
    \<Rightarrow> settlement_record list result" where
  "list_pending_settlements s session after limit =
     bind_res (require_clean_nonblank_opt session) (\<lambda>session.
     bind_res (case after of None \<Rightarrow> Inr None
         | Some (t, sid) \<Rightarrow> bind_res (require_clean_nonblank sid) (\<lambda>sid. Inr (Some (t, sid)))) (\<lambda>after.
     bind_res (validate_settlement_page_limit limit) (\<lambda>limit.
       Inr (take limit (sort_key settlement_key
         (filter (pending_after session after) (dict_values (led_settlements s))))))))"

definition mark_settlement_event_published :: "string \<Rightarrow> string \<Rightarrow> (ledger, settlement_record) action" where
  "mark_settlement_event_published sid event_id s =
     (case bind_res (require_clean_nonblank sid) (\<lambda>sid. bind_res (require_clean_nonblank event_id) (\<lambda>_. Inr sid)) of
        Inl e \<Rightarrow> (Inl e, s)
      | Inr sid \<Rightarrow> (case dict_get (led_settlements s) sid of
            None \<Rightarrow> (Inl KeyError, s)
          | Some t \<Rightarrow>
              if ev_id (st_event t) \<noteq> event_id then (Inl ValueError, s)
              else if st_event_published t then (Inr t, s)
              else (Inr (t\<lparr>st_event_published := True\<rparr>),
                    s\<lparr>led_settlements := dict_put sid (t\<lparr>st_event_published := True\<rparr>) (led_settlements s)\<rparr>)))"

section \<open>Bindings and identity claims\<close>

definition register_budget_binding :: "string \<Rightarrow> string \<Rightarrow> int \<Rightarrow> (ledger, unit) action" where
  "register_budget_binding bid authority allowance s =
     (case bind_res (require_clean_nonblank bid) (\<lambda>_. bind_res (require_clean_nonblank authority) (\<lambda>_.
           raise_if (\<not> (0 < allowance \<and> allowance \<le> max_durable_json_integer)) ValueError)) of
        Inl e \<Rightarrow> (Inl e, s)
      | Inr _ \<Rightarrow> (case dict_get (led_bindings s) bid of
            None \<Rightarrow> (Inr (), s\<lparr>led_bindings := dict_put bid (authority, allowance, []) (led_bindings s)\<rparr>)
          | Some (a, n, _) \<Rightarrow>
              if (a, n) \<noteq> (authority, allowance) then (Inl BudgetBindingRegistrationConflict, s) else (Inr (), s)))"

definition require_registered_budget_binding :: "ledger \<Rightarrow> string \<Rightarrow> string \<Rightarrow> int \<Rightarrow> unit result" where
  "require_registered_budget_binding s bid authority allowance =
     bind_res (require_clean_nonblank bid) (\<lambda>bid.
       if \<not> is_sha256_text authority then Inl ValueError
       else if \<not> (0 < allowance \<and> allowance \<le> max_durable_json_integer) then Inl ValueError
       else (case dict_get (led_bindings s) bid of
               None \<Rightarrow> Inl LookupError
             | Some (a, n, _) \<Rightarrow> if (a, n) \<noteq> (authority, allowance) then Inl BudgetBindingRegistrationConflict else Inr ()))"

definition claim_reservation_identity :: "string \<Rightarrow> string \<Rightarrow> string \<Rightarrow> (ledger, unit) action" where
  "claim_reservation_identity rid session publication s =
     (case bind_res (require_clean_nonblank rid) (\<lambda>_. bind_res (require_clean_nonblank session) (\<lambda>_.
           require_clean_nonblank publication)) of
        Inl e \<Rightarrow> (Inl e, s)
      | Inr _ \<Rightarrow> (case dict_get (led_claims s) rid of
            None \<Rightarrow> (Inr (), s\<lparr>led_claims := dict_put rid (session, publication) (led_claims s)\<rparr>)
          | Some c \<Rightarrow> if c \<noteq> (session, publication) then (Inl BudgetReservationIdentityConflict, s) else (Inr (), s)))"

section \<open>Atomic batches\<close>

record batch_result =
  bb_records :: "reservation_record list"
  bb_projected_usage :: "rat list"
  bb_failure :: "reservation_result option"

type_synonym batch_member = "budget_limit \<times> reservation_record"

definition batch_member_valid :: "zone_db \<Rightarrow> batch_member \<Rightarrow> bool" where
  "batch_member_valid zones m = (let (l, r) = m in
     budget_limit_valid zones l \<and> reservation_record_valid zones r \<and>
     \<not> (bl_reservation l = None \<or> bl_action l \<noteq> ActionInterrupt \<or> rec_budget_limit_id r \<noteq> bl_budget_limit_id l
        \<or> rec_scope r \<noteq> bl_scope l \<or> rec_key r \<noteq> bl_key l \<or> rec_window r \<noteq> bl_window l
        \<or> rec_currency r \<noteq> bl_currency l \<or> rec_status r \<noteq> Active \<or> rec_dispatch_id r \<noteq> None
        \<or> rec_actual_amount r \<noteq> None \<or> rec_reason r \<noteq> None))"

definition batch_identity :: "reservation_record \<Rightarrow> string \<times> string \<times> string \<times> string \<times> string option
    \<times> string \<times> string \<times> billing_identity option" where
  "batch_identity r = (rec_session_id r, rec_agent_name r, rec_provider_name r, rec_model r,
     rec_environment_name r, rec_model_step_id r, rec_model_attempt_id r, rec_billing_identity r)"

definition prepare_batch :: "zone_db \<Rightarrow> batch_member list \<Rightarrow> batch_member list result" where
  "prepare_batch zones ms =
     (if \<not> (1 \<le> length ms \<and> length ms \<le> 16) then Inl ValueError
      else if \<not> list_all (batch_member_valid zones) ms then Inl ValueError
      else if \<not> distinct (map (rec_reservation_id \<circ> snd) ms) \<or> \<not> distinct (map (bl_budget_limit_id \<circ> fst) ms)
      then Inl ValueError
      else if list_ex (\<lambda>m. batch_identity (snd m) \<noteq> batch_identity (snd (hd ms))) ms then Inl ValueError
      else Inr ms)"

definition replay_matches :: "batch_member \<Rightarrow> reservation_record \<Rightarrow> bool" where
  "replay_matches m r \<longleftrightarrow>
     r = (snd m)\<lparr>rec_created_at := rec_created_at r, rec_updated_at := rec_updated_at r,
            rec_dispatch_id := rec_dispatch_id r, rec_dispatched_at := rec_dispatched_at r\<rparr>
     \<and> rec_status r = Active"

definition replay_batch :: "batch_member list \<Rightarrow> reservation_record option list \<Rightarrow> batch_result option result" where
  "replay_batch ms existing =
     (if list_all (\<lambda>r. r = None) existing then Inr None
      else if list_ex (\<lambda>r. r = None) existing then Inl BudgetReservationIdentityConflict
      else if \<not> list_all2 (\<lambda>m r. replay_matches m (the r)) ms existing then Inl BudgetReservationIdentityConflict
      else Inr (Some \<lparr>bb_records = map the existing, bb_projected_usage = [], bb_failure = None\<rparr>))"

definition batch_failure :: "batch_member \<Rightarrow> rat \<Rightarrow> reservation_result option result" where
  "batch_failure m used = (let (l, r) = m; projected = used + rec_reserved_amount r in
     if projected \<le> bl_max_estimated_cost l then Inr None
     else bind_res (make_reservation_result l
         \<lparr>ma_model_step_id = rec_model_step_id r, ma_model_attempt_id = rec_model_attempt_id r\<rparr>
         False (rec_reserved_amount r) projected None) (\<lambda>x. Inr (Some x)))"

definition stamp_member :: "datetime \<Rightarrow> batch_member \<Rightarrow> reservation_record" where
  "stamp_member now m = (snd m)\<lparr>rec_created_at := now, rec_updated_at := now\<rparr>"

text \<open>The admission loop: reap, measure and compare every ceiling before anything is written.\<close>

fun admit_members :: "zone_db \<Rightarrow> (json \<Rightarrow> string) \<Rightarrow> datetime \<Rightarrow> batch_member list
    \<Rightarrow> (ledger, reservation_result + rat list) action" where
  "admit_members zones digest now [] s = (Inr (Inr []), s)"
| "admit_members zones digest now (m # ms) s =
     (case reap_expired digest now (fst m) s of
        (Inl e, s') \<Rightarrow> (Inl e, s')
      | (Inr _, s') \<Rightarrow>
          (case ledger_used_amount zones (dict_values (led_records s')) (fst m) now of
             Inl e \<Rightarrow> (Inl e, s')
           | Inr used \<Rightarrow>
               (case batch_failure m used of
                  Inl e \<Rightarrow> (Inl e, s')
                | Inr (Some failure) \<Rightarrow> (Inr (Inl failure), s')
                | Inr None \<Rightarrow>
                    (case admit_members zones digest now ms s' of
                       (Inr (Inr projected), s'') \<Rightarrow> (Inr (Inr ((used + rec_reserved_amount (snd m)) # projected)), s'')
                     | other \<Rightarrow> other))))"

record binding_use =
  bu_binding_id :: string
  bu_authority_digest :: "string option"
  bu_allowance :: "int option"
  bu_consumption_id :: "string option"

text \<open>The consumption a binding still owes, or \<open>None\<close> when this consumption was recorded before.\<close>

definition check_binding :: "ledger \<Rightarrow> binding_use \<Rightarrow> (string \<times> string) option result" where
  "check_binding s u = (case (bu_authority_digest u, bu_allowance u, bu_consumption_id u) of
       (Some authority, Some allowance, Some consumption) \<Rightarrow>
         (case dict_get (led_bindings s) (bu_binding_id u) of
            None \<Rightarrow> Inl BudgetBindingRegistrationConflict
          | Some (a, n, consumed) \<Rightarrow>
              if (a, n) \<noteq> (authority, allowance) then Inl BudgetBindingRegistrationConflict
              else if consumption \<in> set consumed then Inr None
              else if int (length consumed) \<ge> allowance then Inl BudgetBindingAllowanceExhausted
              else Inr (Some (bu_binding_id u, consumption)))
     | _ \<Rightarrow> Inl ValueError)"

definition consume_binding :: "(string \<times> string) option \<Rightarrow> ledger \<Rightarrow> ledger" where
  "consume_binding pending s = (case pending of
       None \<Rightarrow> s
     | Some (bid, consumption) \<Rightarrow> (case dict_get (led_bindings s) bid of
           None \<Rightarrow> s
         | Some (a, n, consumed) \<Rightarrow>
             s\<lparr>led_bindings := dict_put bid (a, n, consumption # consumed) (led_bindings s)\<rparr>))"

definition reserve_batch :: "zone_db \<Rightarrow> (json \<Rightarrow> string) \<Rightarrow> datetime \<Rightarrow> batch_member list \<Rightarrow> binding_use option
    \<Rightarrow> (ledger, batch_result) action" where
  "reserve_batch zones digest now ms binding s =
     (case prepare_batch zones ms of
        Inl e \<Rightarrow> (Inl e, s)
      | Inr ms \<Rightarrow>
          (case replay_batch ms (map (\<lambda>m. dict_get (led_records s) (rec_reservation_id (snd m))) ms) of
             Inl e \<Rightarrow> (Inl e, s)
           | Inr (Some replay) \<Rightarrow> (Inr replay, s)
           | Inr None \<Rightarrow>
               (case (case binding of None \<Rightarrow> Inr None | Some u \<Rightarrow> check_binding s u) of
                  Inl e \<Rightarrow> (Inl e, s)
                | Inr pending \<Rightarrow>
                    (case admit_members zones digest now ms s of
                       (Inl e, s') \<Rightarrow> (Inl e, s')
                     | (Inr (Inl failure), s') \<Rightarrow>
                         (Inr \<lparr>bb_records = [], bb_projected_usage = [], bb_failure = Some failure\<rparr>, s')
                     | (Inr (Inr projected), s') \<Rightarrow>
                         (let records = map (stamp_member now) ms in
                          (Inr \<lparr>bb_records = records, bb_projected_usage = projected, bb_failure = None\<rparr>,
                           fold index_record records (fold put_record records (consume_binding pending s'))))))))"

section \<open>Runs\<close>

text \<open>One step is one public coroutine, whatever it returns or raises.\<close>

inductive ledger_step :: "zone_db \<Rightarrow> (json \<Rightarrow> string) \<Rightarrow> ledger \<Rightarrow> ledger \<Rightarrow> bool"
  for zones :: zone_db and digest :: "json \<Rightarrow> string"
where
  step_reserve: "ledger_step zones digest s (snd (reserve zones digest now fresh l q s))"
| step_reserve_batch: "ledger_step zones digest s (snd (reserve_batch zones digest now ms binding s))"
| step_mark_dispatched: "ledger_step zones digest s (snd (mark_dispatched now ids d at_time s))"
| step_release_pre: "ledger_step zones digest s (snd (release_pre_provider_dispatch digest now ids d reason at_time s))"
| step_heartbeat: "ledger_step zones digest s (snd (heartbeat now rid s))"
| step_reconcile: "ledger_step zones digest s (snd (reconcile digest now rid actual kind reason at_time identity pricing s))"
| step_release: "ledger_step zones digest s (snd (release digest now rid reason at_time s))"
| step_publish: "ledger_step zones digest s (snd (mark_settlement_event_published sid eid s))"
| step_register: "ledger_step zones digest s (snd (register_budget_binding bid authority allowance s))"
| step_claim: "ledger_step zones digest s (snd (claim_reservation_identity rid session publication s))"

inductive_cases ledger_stepE: "ledger_step zones digest s t"

end
