(* ===== verification/Ledger_Samples.thy ===== *)
theory Ledger_Samples
  imports Budget_Ledger
begin

text \<open>
  Concrete ledgers the witnesses of the ledger's theorems run on: one ceiling, one reservation, and
  the states after its dispatch, release, reconciliation and expiry.  The digest used here is the
  identity on reservation and settlement identifiers.
\<close>

definition sample_digest :: "json \<Rightarrow> string" where
  "sample_digest j = (case j of JObj m \<Rightarrow> (case fmlookup m ''reservation_id'' of Some (JStr s) \<Rightarrow> s
     | _ \<Rightarrow> (case fmlookup m ''settlement_id'' of Some (JStr s) \<Rightarrow> s | _ \<Rightarrow> ''-'')) | _ \<Rightarrow> ''-'')"

definition zeros :: "nat \<Rightarrow> string" where
  "zeros n = replicate n (CHR ''0'')"

definition sample_ceiling :: budget_limit where
  "sample_ceiling = sample_limit\<lparr>bl_budget_limit_id := ''blim_'' @ zeros 64\<rparr>"

definition sample_request :: "string \<Rightarrow> rat \<Rightarrow> json_object \<Rightarrow> reserve_request" where
  "sample_request rid amount payload = \<lparr>rq_reservation_id = Some rid, rq_session_id = ''s'', rq_agent_name = ''a'',
     rq_provider_name = ''acme'', rq_model = ''large-1'',
     rq_attempt = \<lparr>ma_model_step_id = ''mstep_'' @ zeros 32, ma_model_attempt_id = ''matt_'' @ zeros 32\<rparr>,
     rq_environment_name = None, rq_settlement_event_payload = payload, rq_settlement_fallback = None,
     rq_requested_amount = Some amount, rq_billing_identity = None, rq_effective_at = None\<rparr>"

definition sample_ledger :: ledger where
  "sample_ledger = \<lparr>led_records = [], led_by_session = [], led_settlements = [], led_ttl = Some 60,
     led_bindings = [], led_claims = []\<rparr>"

definition sample_reserved :: ledger where
  "sample_reserved = snd (reserve utc_zones sample_digest 0 '''' sample_ceiling (sample_request ''r1'' (3 / 500) fmempty) sample_ledger)"

definition sample_released :: ledger where
  "sample_released = snd (release sample_digest 5 ''r1'' ''x'' None sample_reserved)"

definition sample_dispatched :: ledger where
  "sample_dispatched = snd (mark_dispatched 1 [''r1''] ''d'' None sample_reserved)"

definition sample_reconciled :: ledger where
  "sample_reconciled = snd (reconcile sample_digest 3 ''r1'' (1 / 250) Completed None None None None sample_dispatched)"

definition sample_returned :: ledger where
  "sample_returned = snd (release_pre_provider_dispatch sample_digest 4 [''r1''] ''d'' ''x'' None sample_dispatched)"

definition sample_stuck :: ledger where
  "sample_stuck = snd (reserve utc_zones sample_digest 0 '''' sample_ceiling
     (sample_request ''r1'' (3 / 500) (fmap_of_list [(''execution_profile_fingerprint'', JNull)])) sample_ledger)"

definition sample_member :: batch_member where
  "sample_member = (sample_ceiling, new_reservation_record sample_ceiling (sample_request ''r2'' (3 / 500) fmempty) ''r2''
     (effective_fallback sample_ledger 0 (sample_request ''r2'' (3 / 500) fmempty)) (3 / 500) 0)"

lemma sample_new: "new_ledger (Some 60) = Inr sample_ledger"
  by (simp add: new_ledger_def validate_reservation_ttl_def sample_ledger_def)

lemma sample_reserved_run: "(ledger_step utc_zones sample_digest)\<^sup>*\<^sup>* sample_ledger sample_reserved"
  unfolding sample_reserved_def by (rule r_into_rtranclp) (rule step_reserve)

lemma sample_released_run: "(ledger_step utc_zones sample_digest)\<^sup>*\<^sup>* sample_ledger sample_released"
  unfolding sample_released_def by (rule rtranclp.rtrancl_into_rtrancl [OF sample_reserved_run]) (rule step_release)

lemma sample_dispatched_run: "(ledger_step utc_zones sample_digest)\<^sup>*\<^sup>* sample_ledger sample_dispatched"
  unfolding sample_dispatched_def by (rule rtranclp.rtrancl_into_rtrancl [OF sample_reserved_run]) (rule step_mark_dispatched)

lemma sample_reconciled_run: "(ledger_step utc_zones sample_digest)\<^sup>*\<^sup>* sample_ledger sample_reconciled"
  unfolding sample_reconciled_def by (rule rtranclp.rtrancl_into_rtrancl [OF sample_dispatched_run]) (rule step_reconcile)

end
