(* ===== verification/Ledger_Invariant.thy ===== *)
theory Ledger_Invariant
  imports Ledger_Samples
begin

text \<open>
  The invariant of the in-memory ledger and how one reservation may evolve.  Every public coroutine
  keeps the invariant (\<open>ledger_ok\<close>), whatever it returns or raises, and a settled reservation and its
  outbox entry never change again.
\<close>

section \<open>Definitions\<close>

definition record_ok :: "reservation_record \<Rightarrow> bool" where
  "record_ok r \<longleftrightarrow> 0 \<le> rec_reserved_amount r \<and>
     (rec_status r = Reconciled \<longleftrightarrow> rec_actual_amount r \<noteq> None) \<and> opt_nonneg (rec_actual_amount r) \<and>
     (rec_dispatch_id r = None \<longleftrightarrow> rec_dispatched_at r = None)"

text \<open>\<open>settles digest t r\<close>: the outbox entry \<open>t\<close> is the settlement of the terminal reservation \<open>r\<close>.\<close>

definition settles :: "(json \<Rightarrow> string) \<Rightarrow> settlement_record \<Rightarrow> reservation_record \<Rightarrow> bool" where
  "settles digest t r \<longleftrightarrow> (\<exists>kind pricing q. reconciliation_from_record digest r kind pricing = Inr q \<and>
     (rec_status r = Released \<longrightarrow> pricing = None) \<and>
     budget_settlement_record digest r q = Inr (t\<lparr>st_event_published := False\<rparr>))"

definition records_ok :: "ledger \<Rightarrow> bool" where
  "records_ok s \<longleftrightarrow> dict_ok (led_records s) \<and>
     (\<forall>rid r. dict_get (led_records s) rid = Some r \<longrightarrow> rec_reservation_id r = rid \<and> record_ok r)"

definition outbox_ok :: "(json \<Rightarrow> string) \<Rightarrow> ledger \<Rightarrow> bool" where
  "outbox_ok digest s \<longleftrightarrow> dict_ok (led_settlements s) \<and>
     (\<forall>rid r. dict_get (led_records s) rid = Some r \<and> rec_status r \<noteq> Active \<longrightarrow>
        (\<exists>t. dict_get (led_settlements s) (budget_settlement_id digest rid) = Some t \<and> settles digest t r)) \<and>
     (\<forall>sid t. dict_get (led_settlements s) sid = Some t \<longrightarrow> st_settlement_id t = sid \<and>
        (\<exists>r. dict_get (led_records s) (st_reservation_id t) = Some r \<and> rec_status r \<noteq> Active \<and> settles digest t r))"

definition index_ok :: "ledger \<Rightarrow> bool" where
  "index_ok s \<longleftrightarrow> (\<forall>session. sorted (session_ids s session) \<and> distinct (session_ids s session) \<and>
     set (session_ids s session) = {rid. \<exists>r. dict_get (led_records s) rid = Some r \<and> rec_session_id r = session})"

definition bindings_ok :: "ledger \<Rightarrow> bool" where
  "bindings_ok s \<longleftrightarrow> (\<forall>bid a n consumed. dict_get (led_bindings s) bid = Some (a, n, consumed) \<longrightarrow>
     distinct consumed \<and> int (length consumed) \<le> n)"

definition ledger_ok :: "(json \<Rightarrow> string) \<Rightarrow> ledger \<Rightarrow> bool" where
  "ledger_ok digest s \<longleftrightarrow> records_ok s \<and> outbox_ok digest s \<and> index_ok s \<and> bindings_ok s"

text \<open>What a settlement or a lease renewal may change of a reservation, and what it must keep.\<close>

definition same_request :: "reservation_record \<Rightarrow> reservation_record \<Rightarrow> bool" where
  "same_request r r' \<longleftrightarrow>
     rec_reservation_id r' = rec_reservation_id r \<and> rec_budget_limit_id r' = rec_budget_limit_id r \<and>
     rec_session_id r' = rec_session_id r \<and> rec_agent_name r' = rec_agent_name r \<and>
     rec_environment_name r' = rec_environment_name r \<and>
     rec_settlement_event_payload r' = rec_settlement_event_payload r \<and>
     rec_reserved_amount r' = rec_reserved_amount r \<and> rec_dispatch_id r' = rec_dispatch_id r"

text \<open>A settled version of \<open>r\<close> together with its reconciliation.\<close>

definition settled_version :: "(json \<Rightarrow> string) \<Rightarrow> reservation_record \<Rightarrow> reservation_record \<Rightarrow> reconciliation \<Rightarrow> bool" where
  "settled_version digest r r' q \<longleftrightarrow> same_request r r' \<and> record_ok r' \<and> (rec_status r \<noteq> Active \<longrightarrow> r' = r) \<and>
     (\<exists>kind pricing. reconciliation_from_record digest r' kind pricing = Inr q \<and> (rec_status r' = Released \<longrightarrow> pricing = None))"

text \<open>What reaping may do: release reservations it found reapable, and touch nothing else.\<close>

definition reap_rel :: "datetime \<Rightarrow> int option \<Rightarrow> budget_limit \<Rightarrow> ledger \<Rightarrow> ledger \<Rightarrow> bool" where
  "reap_rel now ttl l s s' \<longleftrightarrow>
     led_by_session s' = led_by_session s \<and> led_ttl s' = led_ttl s \<and> led_bindings s' = led_bindings s \<and>
     led_claims s' = led_claims s \<and> map fst (led_records s') = map fst (led_records s) \<and>
     (\<forall>rid r. dict_get (led_records s) rid = Some r \<longrightarrow>
        dict_get (led_records s') rid = Some r \<or>
        reapable now ttl l r \<and> (\<exists>r'. dict_get (led_records s') rid = Some r' \<and> same_request r r' \<and> rec_status r' = Released))"

definition reap_post :: "(json \<Rightarrow> string) \<Rightarrow> datetime \<Rightarrow> int \<Rightarrow> budget_limit \<Rightarrow> (string \<times> reservation_record) list
    \<Rightarrow> ledger \<Rightarrow> unit result \<Rightarrow> ledger \<Rightarrow> bool" where
  "reap_post digest now ttl l items s res s' \<longleftrightarrow> ledger_ok digest s' \<and> reap_rel now (Some ttl) l s s' \<and>
    (\<forall>k. k \<notin> fst ` set items \<longrightarrow> dict_get (led_records s') k = dict_get (led_records s) k) \<and>
    (res = Inr () \<longrightarrow> (\<forall>k r. (k, r) \<in> set items \<longrightarrow> reapable now (Some ttl) l r \<longrightarrow>
       (\<exists>r'. dict_get (led_records s') k = Some r' \<and> rec_status r' = Released)))"

text \<open>
  A terminal reservation never changes; an active one keeps its identity, its ceiling, its session,
  its amount and its settlement payload, and once it carries a dispatch it keeps that dispatch.  The predicate \<open>charge\<close> says which
  reconciliations are allowed: only \<open>reconcile\<close> makes any.
\<close>

definition record_evolves :: "(reservation_record \<Rightarrow> bool) \<Rightarrow> reservation_record \<Rightarrow> reservation_record \<Rightarrow> bool" where
  "record_evolves charge r r' \<longleftrightarrow> r' = r \<or> rec_status r = Active \<and> (rec_status r' = Reconciled \<longrightarrow> charge r') \<and>
     rec_reservation_id r' = rec_reservation_id r \<and> rec_budget_limit_id r' = rec_budget_limit_id r \<and>
     rec_session_id r' = rec_session_id r \<and> rec_reserved_amount r' = rec_reserved_amount r \<and>
     rec_settlement_event_payload r' = rec_settlement_event_payload r \<and>
     (rec_dispatch_id r \<noteq> None \<longrightarrow> rec_dispatch_id r' = rec_dispatch_id r)"

definition ledger_evolves :: "(reservation_record \<Rightarrow> bool) \<Rightarrow> ledger \<Rightarrow> ledger \<Rightarrow> bool" where
  "ledger_evolves charge s s' \<longleftrightarrow> (\<forall>rid r. dict_get (led_records s) rid = Some r \<longrightarrow>
     (\<exists>r'. dict_get (led_records s') rid = Some r' \<and> record_evolves charge r r'))"

text \<open>Nothing leaves the outbox and nothing in it is rewritten: an entry may only be marked as published.\<close>

definition outbox_kept :: "ledger \<Rightarrow> ledger \<Rightarrow> bool" where
  "outbox_kept s t \<longleftrightarrow> (\<forall>sid e. dict_get (led_settlements s) sid = Some e \<longrightarrow>
     (\<exists>b. dict_get (led_settlements t) sid = Some (e\<lparr>st_event_published := b\<rparr>) \<and> (st_event_published e \<longrightarrow> b)))"

text \<open>The joint effect every operation is shown to have: the invariant, the evolution of every
  reservation, and no reservation beyond those named.\<close>

definition keeps :: "(reservation_record \<Rightarrow> bool) \<Rightarrow> string set \<Rightarrow> (json \<Rightarrow> string)
    \<Rightarrow> ledger \<Rightarrow> ledger \<Rightarrow> bool" where
  "keeps charge new digest s s' \<longleftrightarrow> ledger_ok digest s' \<and> ledger_evolves charge s s' \<and>
     (\<forall>k. dict_get (led_records s) k = None \<and> k \<notin> new \<longrightarrow> dict_get (led_records s') k = None)"

section \<open>Well-formed ledgers\<close>

section \<open>Settling one reservation\<close>

lemma same_request_refl [simp]: "same_request r r" by (simp add: same_request_def)

lemma settlement_record_same_request:
  assumes "same_request r r'"
  shows "budget_settlement_record digest r' q = budget_settlement_record digest r q"
proof -
  have "settlement_event digest r' q = settlement_event digest r q" "settlement_of r' q = settlement_of r q"
    using assms by (auto simp: settlement_event_def settlement_of_def same_request_def fun_eq_iff)
  then show ?thesis using assms by (simp add: budget_settlement_record_def same_request_def)
qed

lemma attest_settlement_Inr:
  "attest_settlement digest e t = Inr t' \<Longrightarrow> t' = t \<and> settlement_record_valid digest t"
  by (auto simp: attest_settlement_def split: if_splits)

lemma budget_settlement_record_Inr:
  assumes "budget_settlement_record digest r q = Inr t"
  shows "st_settlement_id t = rr_settlement_id q" "st_reservation_id t = rec_reservation_id r"
    "st_settlement_kind t = rr_settlement_kind q" "st_session_id t = rec_session_id r"
    "st_reconciliation t = q" "\<not> st_event_published t" "settlement_record_valid digest t"
    "ev_payload (st_event t) = rec_settlement_event_payload r ++\<^sub>f fmap_of_list (reconciliation_payload_items q)"
proof -
  from assms obtain i where t: "t = settlement_of r q (settlement_event digest r q i
      (rec_settlement_event_payload r ++\<^sub>f fmap_of_list (reconciliation_payload_items q)))"
    and valid: "settlement_record_valid digest t"
    by (auto simp: budget_settlement_record_def budget_reconciliation_payload_def Let_def res_simps
        split: if_splits dest!: attest_settlement_Inr)
  from valid show "settlement_record_valid digest t" .
  show "st_settlement_id t = rr_settlement_id q" "st_reservation_id t = rec_reservation_id r"
    "st_settlement_kind t = rr_settlement_kind q" "st_session_id t = rec_session_id r"
    "st_reconciliation t = q" "\<not> st_event_published t"
    "ev_payload (st_event t) = rec_settlement_event_payload r ++\<^sub>f fmap_of_list (reconciliation_payload_items q)"
    unfolding t by (simp_all add: settlement_of_def settlement_event_def)
qed

lemma check_reconciliation_Inr [res_simps]:
  "check_reconciliation digest q = Inr q' \<longleftrightarrow> q' = q \<and> reconciliation_valid digest q"
  by (auto simp: check_reconciliation_def)

lemma reconciliation_from_record_Inr:
  assumes "reconciliation_from_record digest r kind pricing = Inr q"
  shows "rr_reservation_id q = rec_reservation_id r"
    "rr_settlement_id q = budget_settlement_id digest (rec_reservation_id r)"
    "rr_settlement_kind q = kind" "rr_status q = rec_status r" "rec_status r \<noteq> Active"
    "kind = KindReleased \<longleftrightarrow> rec_status r = Released"
    "rr_reserved_amount q = rec_reserved_amount r" "rr_actual_amount q = rec_actual_amount r"
    "rr_released_amount q = released_amount_of r" "rr_settled_at q = rec_updated_at r" "rr_reason q = rec_reason r"
    "reconciliation_valid digest q"
  using assms
  by (cases "rec_status r"; cases pricing;
      auto simp: reconciliation_from_record_def reconciliation_with_pricing_evidence_def res_simps split: if_splits)+

lemma released_record_cases:
  assumes "released_record r reason t = Inr r'"
  shows "rec_status r' = Released" "same_request r r'"
    "(rec_status r = Active \<and> r' = r\<lparr>rec_status := Released, rec_reason := Some reason, rec_updated_at := t\<rparr>) \<or>
     (rec_status r = Released \<and> r' = r)"
  using assms by (auto simp: released_record_def same_request_def split: if_splits)

lemma reconciled_record_cases:
  assumes "reconciled_record r a reason t identity = Inr r'"
  shows "rec_status r' = Reconciled" "same_request r r'" "rec_actual_amount r' = Some a" "rec_reason r' = reason"
    "(rec_status r = Active \<and> rec_updated_at r' = t) \<or> (rec_status r = Reconciled \<and> r' = r)"
  using assms by (auto simp: reconciled_record_def same_request_def res_simps split: if_splits)

lemma store_settlement_cases:
  assumes "store_settlement t s = (res, s')"
  obtains e where "res = Inl e" "s' = s"
  | "res = Inr ()" "dict_get (led_settlements s) (st_settlement_id t) = None"
    "s' = s\<lparr>led_settlements := dict_put (st_settlement_id t) t (led_settlements s)\<rparr>"
  | e where "res = Inr ()" "dict_get (led_settlements s) (st_settlement_id t) = Some e"
    "e\<lparr>st_event_published := False\<rparr> = t" "s' = s"
  using assms by (auto simp: store_settlement_def split: option.splits if_splits)

lemma commit_settlement_cases:
  assumes "commit_settlement digest r r' q s = (res, s')"
  obtains e where "res = Inl e" "s' = s"
  | t where "res = Inr ()" "budget_settlement_record digest r q = Inr t"
    "dict_get (led_settlements s) (st_settlement_id t) = None"
    "s' = put_record r' (s\<lparr>led_settlements := dict_put (st_settlement_id t) t (led_settlements s)\<rparr>)"
  | t e where "res = Inr ()" "budget_settlement_record digest r q = Inr t"
    "dict_get (led_settlements s) (st_settlement_id t) = Some e" "e\<lparr>st_event_published := False\<rparr> = t"
    "s' = put_record r' s"
  using assms
  by (auto simp: commit_settlement_def split: sum.splits prod.splits elim: store_settlement_cases)

lemma commit_settlement_error:
  "commit_settlement digest r r' q s = (Inl e, s') \<Longrightarrow> s' = s"
  by (auto elim: commit_settlement_cases)

lemma records_ok_put:
  assumes "records_ok s" "record_ok r"
  shows "records_ok (put_record r s)"
  using assms by (auto simp: records_ok_def put_record_def dict_simps)

lemma put_record_simps [simp]:
  "led_settlements (put_record r s) = led_settlements s" "led_by_session (put_record r s) = led_by_session s"
  "led_ttl (put_record r s) = led_ttl s" "led_bindings (put_record r s) = led_bindings s"
  "led_claims (put_record r s) = led_claims s" "session_ids (put_record r s) = session_ids s"
  "led_records (put_record r s) = dict_put (rec_reservation_id r) r (led_records s)"
  by (auto simp: put_record_def session_ids_def fun_eq_iff)

lemma dict_put_same: "dict_get d k = Some v \<Longrightarrow> dict_put k v d = d"
  by (induction d) auto

lemma put_record_same: "dict_get (led_records s) (rec_reservation_id r) = Some r \<Longrightarrow> put_record r s = s"
  by (simp add: put_record_def dict_put_same)

lemma settles_new:
  assumes "settled_version digest r r' q" "budget_settlement_record digest r q = Inr (t\<lparr>st_event_published := False\<rparr>)"
  shows "settles digest t r'"
  using assms settlement_record_same_request [of r r' digest q]
  by (auto simp: settled_version_def settles_def)

lemma settled_version_facts:
  assumes "settled_version digest r r' q"
  shows "rec_status r' \<noteq> Active" "rec_reservation_id r' = rec_reservation_id r" "rec_session_id r' = rec_session_id r"
    "rr_settlement_id q = budget_settlement_id digest (rec_reservation_id r)" "record_ok r'"
  using assms by (auto simp: settled_version_def same_request_def dest: reconciliation_from_record_Inr)

lemma index_ok_put:
  assumes "index_ok s" "dict_get (led_records s) (rec_reservation_id r) = Some r0" "rec_session_id r = rec_session_id r0"
  shows "index_ok (put_record r s)"
  unfolding index_ok_def
proof
  fix session
  have "{rid. \<exists>r1. dict_get (led_records (put_record r s)) rid = Some r1 \<and> rec_session_id r1 = session}
    = {rid. \<exists>r1. dict_get (led_records s) rid = Some r1 \<and> rec_session_id r1 = session}"
    using assms(2,3) by (auto simp: dict_simps)
  then show "sorted (session_ids (put_record r s) session) \<and> distinct (session_ids (put_record r s) session) \<and>
     set (session_ids (put_record r s) session) = {rid. \<exists>r1. dict_get (led_records (put_record r s)) rid = Some r1 \<and> rec_session_id r1 = session}"
    using assms(1) by (simp add: index_ok_def)
qed

lemma outbox_terminal:
  "outbox_ok digest s \<Longrightarrow> dict_get (led_records s) rid = Some r \<Longrightarrow> rec_status r \<noteq> Active \<Longrightarrow>
    \<exists>t. dict_get (led_settlements s) (budget_settlement_id digest rid) = Some t \<and> settles digest t r"
  by (simp add: outbox_ok_def)

lemma outbox_entry:
  "outbox_ok digest s \<Longrightarrow> dict_get (led_settlements s) sid = Some t \<Longrightarrow> st_settlement_id t = sid \<and>
    (\<exists>r. dict_get (led_records s) (st_reservation_id t) = Some r \<and> rec_status r \<noteq> Active \<and> settles digest t r)"
  by (simp add: outbox_ok_def)

lemma outbox_ok_new_settlement:
  assumes ok: "outbox_ok digest s" and cur: "dict_get (led_records s) (rec_reservation_id r) = Some r"
    and active: "rec_status r = Active" and ver: "settled_version digest r r' q"
    and t: "budget_settlement_record digest r q = Inr t" and new: "dict_get (led_settlements s) (st_settlement_id t) = None"
  shows "outbox_ok digest (put_record r' (s\<lparr>led_settlements := dict_put (st_settlement_id t) t (led_settlements s)\<rparr>))"
proof -
  note v = settled_version_facts [OF ver] and tf = budget_settlement_record_Inr [OF t]
  have settled: "settles digest t r'" using settles_new [OF ver, of t] t tf(6) by simp
  let ?s = "put_record r' (s\<lparr>led_settlements := dict_put (st_settlement_id t) t (led_settlements s)\<rparr>)"
  have sid: "st_settlement_id t = budget_settlement_id digest (rec_reservation_id r)" using tf(1) v(4) by simp
  have rid: "st_reservation_id t = rec_reservation_id r" using tf(2) .
  have a: "\<exists>t0. dict_get (led_settlements ?s) (budget_settlement_id digest k) = Some t0 \<and> settles digest t0 r0"
    if "dict_get (led_records ?s) k = Some r0" "rec_status r0 \<noteq> Active" for k r0
  proof (cases "k = rec_reservation_id r")
    case True
    with that v(2) settled sid show ?thesis by (simp add: dict_simps)
  next
    case False
    with that v(2) have "dict_get (led_records s) k = Some r0" "rec_status r0 \<noteq> Active" by (simp_all add: dict_simps)
    then obtain t0 where "dict_get (led_settlements s) (budget_settlement_id digest k) = Some t0" "settles digest t0 r0"
      using outbox_terminal [OF ok] by blast
    with new show ?thesis by (auto simp: dict_simps)
  qed
  have b: "st_settlement_id t0 = k \<and> (\<exists>r0. dict_get (led_records ?s) (st_reservation_id t0) = Some r0 \<and> rec_status r0 \<noteq> Active \<and> settles digest t0 r0)"
    if "dict_get (led_settlements ?s) k = Some t0" for k t0
  proof (cases "k = st_settlement_id t")
    case True
    with that rid v settled show ?thesis by (simp add: dict_simps)
  next
    case False
    with that have "dict_get (led_settlements s) k = Some t0" by (simp add: dict_simps)
    then obtain r0 where r0: "st_settlement_id t0 = k" "dict_get (led_records s) (st_reservation_id t0) = Some r0"
      "rec_status r0 \<noteq> Active" "settles digest t0 r0" using outbox_entry [OF ok] by blast
    with cur active have "st_reservation_id t0 \<noteq> rec_reservation_id r" by auto
    with r0 v(2) show ?thesis by (simp add: dict_simps)
  qed
  have "dict_ok (led_settlements ?s)" using ok by (simp add: outbox_ok_def dict_ok_put)
  then show ?thesis unfolding outbox_ok_def using a b by blast
qed

lemma bindings_ok_cong: "led_bindings s' = led_bindings s \<Longrightarrow> bindings_ok s' = bindings_ok s"
  by (simp add: bindings_ok_def)

lemma ledger_ok_records: "ledger_ok digest s \<Longrightarrow> dict_get (led_records s) rid = Some r \<Longrightarrow> rec_reservation_id r = rid \<and> record_ok r"
  by (auto simp: ledger_ok_def records_ok_def)

lemma commit_settlement_effect:
  assumes ok: "ledger_ok digest s" and cur: "dict_get (led_records s) (rec_reservation_id r) = Some r"
    and ver: "settled_version digest r r' q"
    and run: "commit_settlement digest r r' q s = (res, s')"
  obtains (failed) e where "res = Inl e" "s' = s"
  | (stored) t where "res = Inr ()" "rec_status r = Active" "budget_settlement_record digest r q = Inr t"
      "dict_get (led_settlements s) (st_settlement_id t) = None"
      "s' = put_record r' (s\<lparr>led_settlements := dict_put (st_settlement_id t) t (led_settlements s)\<rparr>)"
  | (replayed) "res = Inr ()" "s' = s" "r' = r" "rec_status r \<noteq> Active"
  using run
proof (cases rule: commit_settlement_cases)
  case (1 e)
  then show thesis by (rule failed)
next
  case (2 t)
  have "rec_status r = Active"
  proof (rule ccontr)
    assume "rec_status r \<noteq> Active"
    with ok cur have "dict_get (led_settlements s) (budget_settlement_id digest (rec_reservation_id r)) \<noteq> None"
      using outbox_terminal [of digest s "rec_reservation_id r" r] by (auto simp: ledger_ok_def)
    with 2 budget_settlement_record_Inr(1) [OF 2(2)] settled_version_facts(4) [OF ver] show False by simp
  qed
  with 2 show thesis by (intro stored) auto
next
  case (3 t e)
  have "st_reservation_id e = rec_reservation_id r"
    using 3(4) budget_settlement_record_Inr(2) [OF 3(2)] by auto
  with ok 3(3) cur have "rec_status r \<noteq> Active"
    using outbox_entry [of digest s "st_settlement_id t" e] by (auto simp: ledger_ok_def)
  with ver have "r' = r" by (simp add: settled_version_def)
  with 3 cur \<open>rec_status r \<noteq> Active\<close> show thesis by (intro replayed) (simp_all add: put_record_same)
qed

lemma commit_settlement_ok:
  assumes ok: "ledger_ok digest s" and cur: "dict_get (led_records s) (rec_reservation_id r) = Some r"
    and ver: "settled_version digest r r' q"
    and run: "commit_settlement digest r r' q s = (res, s')"
  shows "ledger_ok digest s'"
  using ok cur ver run
proof (cases rule: commit_settlement_effect)
  case (stored t)
  let ?u = "s\<lparr>led_settlements := dict_put (st_settlement_id t) t (led_settlements s)\<rparr>"
  note v = settled_version_facts [OF ver]
  have "outbox_ok digest s'"
    using outbox_ok_new_settlement [OF _ cur stored(2) ver stored(3,4)] ok stored(5) by (simp add: ledger_ok_def)
  moreover have "records_ok s'" "index_ok s'" "bindings_ok s'"
  proof -
    have "records_ok ?u" "index_ok ?u" using ok by (simp_all add: ledger_ok_def records_ok_def index_ok_def session_ids_def)
    then show "records_ok s'" "index_ok s'" unfolding stored(5)
      using v cur by (simp_all add: records_ok_put index_ok_put [where ?r0.0 = r])
    show "bindings_ok s'" using ok bindings_ok_cong [of s' s] by (simp add: stored(5) ledger_ok_def)
  qed
  ultimately show ?thesis by (simp add: ledger_ok_def)
qed (use ok in simp_all)

lemma released_version:
  assumes "record_ok r" "released_record r reason t = Inr r'" "reconciliation_from_record digest r' KindReleased None = Inr q"
  shows "settled_version digest r r' q"
proof -
  note c = released_record_cases [OF assms(2)]
  have "record_ok r'" using c(3) assms(1) by (auto simp: record_ok_def)
  moreover have "rec_status r \<noteq> Active \<longrightarrow> r' = r" using c(3) by auto
  ultimately show ?thesis using c(2) assms(3) by (auto simp: settled_version_def)
qed

lemma reconciled_version:
  assumes "record_ok r" "0 \<le> a" "reconciled_record r a reason t i = Inr r'" "reconciliation_from_record digest r' kind pricing = Inr q"
  shows "settled_version digest r r' q"
proof -
  note c = reconciled_record_cases [OF assms(3)]
  have "rec_dispatched_at r' = rec_dispatched_at r" using assms(3)
    by (auto simp: reconciled_record_def res_simps split: if_splits)
  then have "record_ok r'" using c assms(1,2) by (auto simp: record_ok_def same_request_def opt_nonneg_def)
  moreover have "rec_status r \<noteq> Active \<longrightarrow> r' = r" using c(5) by auto
  ultimately show ?thesis using c(1,2) assms(4) by (auto simp: settled_version_def)
qed

section \<open>Reaping\<close>

lemma reap_rel_refl [simp]: "reap_rel now ttl l s s" by (simp add: reap_rel_def)

lemma reap_rel_get:
  "reap_rel now ttl l s s' \<Longrightarrow> dict_get (led_records s) rid = Some r \<Longrightarrow>
     dict_get (led_records s') rid = Some r \<or>
     reapable now ttl l r \<and> (\<exists>r'. dict_get (led_records s') rid = Some r' \<and> same_request r r' \<and> rec_status r' = Released)"
  by (simp add: reap_rel_def)

lemma reap_rel_trans:
  assumes "reap_rel now ttl l s u" "reap_rel now ttl l u t"
  shows "reap_rel now ttl l s t"
proof -
  have "dict_get (led_records t) rid = Some r \<or>
     reapable now ttl l r \<and> (\<exists>r'. dict_get (led_records t) rid = Some r' \<and> same_request r r' \<and> rec_status r' = Released)"
    if "dict_get (led_records s) rid = Some r" for rid r
    using reap_rel_get [OF assms(1) that] reap_rel_get [OF assms(2)]
    by (fastforce simp: reapable_def)
  then show ?thesis using assms by (simp add: reap_rel_def)
qed

lemma reap_rel_keys: "reap_rel now ttl l s s' \<Longrightarrow> dict_get (led_records s') k = None \<longleftrightarrow> dict_get (led_records s) k = None"
  by (metis reap_rel_def list.set_map map_of_eq_None_iff)

lemma reap_one_ok:
  assumes ok: "ledger_ok digest s" and cur: "dict_get (led_records s) (rec_reservation_id r) = Some r"
    and reap: "reapable now (Some ttl) l r" and run: "reap_one digest now ttl r s = (res, s')"
  shows "ledger_ok digest s' \<and> reap_rel now (Some ttl) l s s' \<and>
    (res = Inr () \<longrightarrow> (\<exists>r'. dict_get (led_records s') (rec_reservation_id r) = Some r' \<and> rec_status r' = Released)) \<and>
    (\<forall>rid. rid \<noteq> rec_reservation_id r \<longrightarrow> dict_get (led_records s') rid = dict_get (led_records s) rid)"
proof (cases "bind_res (released_record r (case sf_expiration_reason (rec_settlement_fallback r) of
               None \<Rightarrow> expired_reservation_reason ttl | Some x \<Rightarrow> x) now) (\<lambda>r'.
           bind_res (reconciliation_from_record digest r' KindReleased None) (\<lambda>q. Inr (r', q)))")
  case (Inl e)
  with run ok show ?thesis by (auto simp: reap_one_def)
next
  case (Inr p)
  obtain r' q where p: "p = (r', q)" by (cases p)
  from Inr obtain reason where rel: "released_record r reason now = Inr r'"
    and q: "reconciliation_from_record digest r' KindReleased None = Inr q" by (auto simp: p res_simps)
  have commit: "commit_settlement digest r r' q s = (res, s')" using run Inr by (simp add: reap_one_def p)
  have rok: "record_ok r" using ledger_ok_records [OF ok cur] by simp
  have ver: "settled_version digest r r' q" by (rule released_version [OF rok rel q])
  have lok: "ledger_ok digest s'" by (rule commit_settlement_ok [OF ok cur ver commit])
  note c = released_record_cases [OF rel] and v = settled_version_facts [OF ver]
  from ok cur ver commit show ?thesis
  proof (cases rule: commit_settlement_effect)
    case (failed e)
    with ok show ?thesis by simp
  next
    case (stored t)
    have keys: "map fst (led_records s') = map fst (led_records s)"
      using cur v(2) by (auto simp: stored(5) dict_keys_put dest: map_of_SomeD intro: rev_image_eqI)
    have "dict_get (led_records s') k = Some r0 \<or>
       reapable now (Some ttl) l r0 \<and> (\<exists>r1. dict_get (led_records s') k = Some r1 \<and> same_request r0 r1 \<and> rec_status r1 = Released)"
      if "dict_get (led_records s) k = Some r0" for k r0
      using that cur reap c(1,2) v(2) by (cases "k = rec_reservation_id r") (auto simp: stored(5) dict_simps)
    then have "reap_rel now (Some ttl) l s s'" using keys by (simp add: reap_rel_def stored(5))
    then show ?thesis using lok c(1) v(2) by (auto simp: stored(5) dict_simps)
  next
    case replayed
    with reap show ?thesis by (simp add: reapable_def)
  qed
qed

lemma reap_post_skip:
  "reap_post digest now ttl l items s res s' \<Longrightarrow> \<not> reapable now (Some ttl) l r \<Longrightarrow> reap_post digest now ttl l ((k, r) # items) s res s'"
  by (auto simp: reap_post_def)

lemma reap_post_step:
  assumes post: "reap_post digest now ttl l items u res s'" and rel: "reap_rel now (Some ttl) l s u"
    and hd: "\<exists>r'. dict_get (led_records u) k = Some r' \<and> rec_status r' = Released" and notin: "k \<notin> fst ` set items"
    and others: "\<forall>j. j \<noteq> k \<longrightarrow> dict_get (led_records u) j = dict_get (led_records s) j"
  shows "reap_post digest now ttl l ((k, r) # items) s res s'"
proof -
  have keep: "dict_get (led_records s') j = dict_get (led_records u) j" if "j \<notin> fst ` set items" for j
    using post that by (simp add: reap_post_def)
  have "dict_get (led_records s') j = dict_get (led_records s) j" if "j \<notin> fst ` set ((k, r) # items)" for j
    using that others keep by simp
  moreover have "\<exists>r'. dict_get (led_records s') j = Some r' \<and> rec_status r' = Released"
    if "res = Inr ()" "(j, x) \<in> set ((k, r) # items)" "reapable now (Some ttl) l x" for j x
    using that post hd keep [OF notin] by (auto simp: reap_post_def)
  moreover have "ledger_ok digest s'" "reap_rel now (Some ttl) l s s'"
    using post reap_rel_trans [OF rel] by (auto simp: reap_post_def)
  ultimately show ?thesis unfolding reap_post_def by blast
qed

lemma reap_loop_ok:
  assumes "ledger_ok digest s" "distinct (map fst items)"
    "\<And>k r. (k, r) \<in> set items \<Longrightarrow> dict_get (led_records s) k = Some r" "reap_loop digest now ttl l items s = (res, s')"
  shows "reap_post digest now ttl l items s res s'"
  using assms
proof (induction items arbitrary: s)
  case Nil
  then show ?case by (simp add: reap_post_def)
next
  case (Cons x items)
  obtain k r where x: "x = (k, r)" by (cases x)
  have cur: "dict_get (led_records s) k = Some r" using Cons.prems(3) by (simp add: x)
  have id: "rec_reservation_id r = k" using ledger_ok_records [OF Cons.prems(1) cur] by simp
  have dist: "distinct (map fst items)" and notin: "k \<notin> fst ` set items" using Cons.prems(2) by (auto simp: x)
  show ?case
  proof (cases "reapable now (Some ttl) l r")
    case False
    then have "reap_loop digest now ttl l items s = (res, s')" using Cons.prems(4) by (simp add: x)
    with Cons.IH [OF Cons.prems(1) dist] Cons.prems(3) False show ?thesis by (simp add: x reap_post_skip)
  next
    case True
    obtain res1 u where u: "reap_one digest now ttl r s = (res1, u)" by fastforce
    note one = reap_one_ok [OF Cons.prems(1) cur [folded id] True u]
    show ?thesis
    proof (cases res1)
      case (Inl e)
      with True u Cons.prems(4) have "res = Inl e" "s' = u" by (simp_all add: x)
      with one id show ?thesis by (simp add: x reap_post_def)
    next
      case (Inr z)
      with True u Cons.prems(4) have run: "reap_loop digest now ttl l items u = (res, s')" by (simp add: x)
      have cur': "dict_get (led_records u) k' = Some r'" if "(k', r') \<in> set items" for k' r'
      proof -
        from that notin have "k' \<noteq> rec_reservation_id r" using id by force
        with one Cons.prems(3) that show ?thesis by (simp add: x)
      qed
      have "reap_post digest now ttl l items u res s'"
        using one by (intro Cons.IH [OF _ dist cur' run]) simp
      then show ?thesis unfolding x
        using one Inr id notin by (intro reap_post_step [where u = u]) auto
    qed
  qed
qed

lemma ledger_ok_dict: "ledger_ok digest s \<Longrightarrow> dict_ok (led_records s)"
  by (simp add: ledger_ok_def records_ok_def)

lemma reap_expired_post:
  assumes "ledger_ok digest s" "reap_expired digest now l s = (res, s')" "led_ttl s = Some ttl"
  shows "reap_post digest now ttl l (led_records s) s res s'"
proof (rule reap_loop_ok [OF assms(1)])
  show "distinct (map fst (led_records s))" using ledger_ok_dict [OF assms(1)] by (simp add: dict_ok_def)
  show "dict_get (led_records s) k = Some r" if "(k, r) \<in> set (led_records s)" for k r
    using that dict_in_set [OF ledger_ok_dict [OF assms(1)]] by simp
  show "reap_loop digest now ttl l (led_records s) s = (res, s')" using assms(2,3) by (simp add: reap_expired_def)
qed

lemma reap_expired_ok:
  assumes ok: "ledger_ok digest s" and run: "reap_expired digest now l s = (res, s')"
  shows "ledger_ok digest s' \<and> reap_rel now (led_ttl s) l s s'"
proof (cases "led_ttl s")
  case None
  with ok run show ?thesis by (auto simp: reap_expired_def)
next
  case (Some ttl)
  from reap_expired_post [OF ok run Some] Some show ?thesis by (simp add: reap_post_def)
qed

lemma reap_expired_complete:
  assumes ok: "ledger_ok digest s" and run: "reap_expired digest now l s = (Inr u, s')"
    and get: "dict_get (led_records s') k = Some r"
  shows "\<not> reapable now (led_ttl s) l r"
proof
  assume reap: "reapable now (led_ttl s) l r"
  then obtain ttl where ttl: "led_ttl s = Some ttl"
    by (cases "led_ttl s") (auto simp: reapable_def reservation_is_expired_def)
  note dok = ledger_ok_dict [OF ok] and post = reap_expired_post [OF ok run ttl]
  from post have rel: "reap_rel now (Some ttl) l s s'" by (simp add: reap_post_def)
  obtain r0 where r0: "dict_get (led_records s) k = Some r0"
    using get reap_rel_keys [OF rel, of k] by auto
  from reap_rel_get [OF rel r0] get reap have eq: "r0 = r" by (auto simp: reapable_def)
  have "(k, r0) \<in> set (led_records s)" using r0 dok by (simp add: dict_in_set)
  with post reap ttl eq have "\<exists>r'. dict_get (led_records s') k = Some r' \<and> rec_status r' = Released"
    by (auto simp: reap_post_def)
  with get reap show False by (simp add: reapable_def)
qed

section \<open>How reservations evolve\<close>

lemma record_evolves_refl [simp]: "record_evolves charge r r" by (simp add: record_evolves_def)

lemma record_evolves_trans:
  "record_evolves charge a b \<Longrightarrow> record_evolves charge b c \<Longrightarrow> record_evolves charge a c"
  unfolding record_evolves_def by metis

lemma ledger_evolves_refl [simp]: "ledger_evolves charge s s" by (simp add: ledger_evolves_def)

lemma ledger_evolves_trans: "ledger_evolves charge a b \<Longrightarrow> ledger_evolves charge b c \<Longrightarrow> ledger_evolves charge a c"
  unfolding ledger_evolves_def by (meson record_evolves_trans)

lemma same_request_evolves:
  "same_request r r' \<Longrightarrow> rec_status r = Active \<Longrightarrow> (rec_status r' = Reconciled \<Longrightarrow> charge r') \<Longrightarrow> record_evolves charge r r'"
  by (auto simp: same_request_def record_evolves_def)

lemma reap_rel_evolves:
  assumes "reap_rel now ttl l s s'"
  shows "ledger_evolves charge s s'"
  unfolding ledger_evolves_def
proof (intro allI impI)
  fix rid r
  assume "dict_get (led_records s) rid = Some r"
  from reap_rel_get [OF assms this] show "\<exists>r'. dict_get (led_records s') rid = Some r' \<and> record_evolves charge r r'"
    by (auto simp: reapable_def intro!: same_request_evolves)
qed

lemma put_record_evolves:
  assumes "dict_get (led_records s) (rec_reservation_id r') = Some r" "record_evolves charge r r'"
  shows "ledger_evolves charge s (put_record r' s)"
  using assms by (auto simp: ledger_evolves_def dict_simps)

lemma ledger_evolves_cong: "led_records s' = led_records t \<Longrightarrow> ledger_evolves charge s t \<Longrightarrow> ledger_evolves charge s s'"
  by (simp add: ledger_evolves_def)

section \<open>Operations keep the invariant\<close>

lemma commit_settlement_evolves:
  assumes "ledger_ok digest s" "dict_get (led_records s) (rec_reservation_id r) = Some r"
    "settled_version digest r r' q" "commit_settlement digest r r' q s = (res, s')"
    "rec_status r = Active \<Longrightarrow> rec_status r' = Reconciled \<Longrightarrow> charge r'"
  shows "ledger_evolves charge s s'"
  using assms(1-4)
proof (cases rule: commit_settlement_effect)
  case (stored t)
  have "record_evolves charge r r'" using assms(3,5) stored(2) by (auto simp: settled_version_def intro: same_request_evolves)
  then have "ledger_evolves charge s (put_record r' s)"
    using assms(2) settled_version_facts(2) [OF assms(3)] by (intro put_record_evolves) auto
  then show ?thesis by (rule ledger_evolves_cong [rotated]) (simp add: stored(5))
qed (use assms in simp_all)

lemma outbox_ok_active:
  assumes ok: "outbox_ok digest s" and act: "\<And>r0. dict_get (led_records s) (rec_reservation_id r) = Some r0 \<Longrightarrow> rec_status r0 = Active"
    and r: "rec_status r = Active"
  shows "outbox_ok digest (put_record r s)"
proof -
  have a: "\<exists>t0. dict_get (led_settlements s) (budget_settlement_id digest k) = Some t0 \<and> settles digest t0 r0"
    if "dict_get (led_records (put_record r s)) k = Some r0" "rec_status r0 \<noteq> Active" for k r0
  proof -
    from that r have "dict_get (led_records s) k = Some r0" by (auto simp: dict_simps split: if_splits)
    with outbox_terminal [OF ok] that(2) show ?thesis by blast
  qed
  have b: "st_settlement_id t0 = k \<and> (\<exists>r0. dict_get (led_records (put_record r s)) (st_reservation_id t0) = Some r0 \<and> rec_status r0 \<noteq> Active \<and> settles digest t0 r0)"
    if get: "dict_get (led_settlements s) k = Some t0" for k t0
  proof -
    from outbox_entry [OF ok get] obtain r0 where "st_settlement_id t0 = k"
      "dict_get (led_records s) (st_reservation_id t0) = Some r0" "rec_status r0 \<noteq> Active" "settles digest t0 r0" by blast
    moreover from this act have "st_reservation_id t0 \<noteq> rec_reservation_id r" by auto
    ultimately show ?thesis by (simp add: dict_simps)
  qed
  have "dict_ok (led_settlements s)" using ok by (simp add: outbox_ok_def)
  then show ?thesis unfolding outbox_ok_def put_record_simps(1) using a b by blast
qed

lemma put_active_ok:
  assumes ok: "ledger_ok digest s" and cur: "dict_get (led_records s) (rec_reservation_id r) = Some r0"
    and "rec_status r0 = Active" "rec_status r = Active" "record_ok r" "rec_session_id r = rec_session_id r0"
  shows "ledger_ok digest (put_record r s)"
proof -
  have parts: "records_ok s" "outbox_ok digest s" "index_ok s" "bindings_ok s" using ok by (simp_all add: ledger_ok_def)
  have "records_ok (put_record r s)" using parts(1) assms(5) by (rule records_ok_put)
  moreover have "outbox_ok digest (put_record r s)" using parts(2) assms by (intro outbox_ok_active) auto
  moreover have "index_ok (put_record r s)" using parts(3) cur assms(6) by (rule index_ok_put)
  moreover have "bindings_ok (put_record r s)" using parts(4) bindings_ok_cong [of "put_record r s" s] by simp
  ultimately show ?thesis by (simp add: ledger_ok_def)
qed

lemma session_ids_index [simp]:
  "session_ids (index_record r s) session = (if session = rec_session_id r
     then py_insort (rec_reservation_id r) (session_ids s session) else session_ids s session)"
  by (auto simp: index_record_def session_ids_def dict_simps)

lemma index_record_simps [simp]:
  "led_records (index_record r s) = led_records s" "led_settlements (index_record r s) = led_settlements s"
  "led_ttl (index_record r s) = led_ttl s" "led_bindings (index_record r s) = led_bindings s"
  "led_claims (index_record r s) = led_claims s"
  by (simp_all add: index_record_def)

lemma index_ok_admit:
  assumes ok: "index_ok s" and new: "dict_get (led_records s) (rec_reservation_id r) = None"
  shows "index_ok (admit_record r s)"
  unfolding index_ok_def
proof
  fix session
  have prev: "sorted (session_ids s session)" "distinct (session_ids s session)"
    "set (session_ids s session) = {rid. \<exists>r. dict_get (led_records s) rid = Some r \<and> rec_session_id r = session}"
    using ok by (simp_all add: index_ok_def)
  have fresh: "rec_reservation_id r \<notin> set (session_ids s session)" using new by (simp add: prev(3))
  have "{rid. \<exists>r1. dict_get (led_records (admit_record r s)) rid = Some r1 \<and> rec_session_id r1 = session}
    = (if session = rec_session_id r then insert (rec_reservation_id r) (set (session_ids s session)) else set (session_ids s session))"
    unfolding prev(3) using new by (auto simp: admit_record_def dict_simps)
  then show "sorted (session_ids (admit_record r s) session) \<and> distinct (session_ids (admit_record r s) session) \<and>
     set (session_ids (admit_record r s) session) = {rid. \<exists>r1. dict_get (led_records (admit_record r s)) rid = Some r1 \<and> rec_session_id r1 = session}"
    using prev(1,2) fresh by (auto simp: admit_record_def distinct_py_insort)
qed

lemma outbox_ok_cong:
  "led_records s' = led_records s \<Longrightarrow> led_settlements s' = led_settlements s \<Longrightarrow> outbox_ok digest s' = outbox_ok digest s"
  by (simp add: outbox_ok_def)

lemma records_ok_cong: "led_records s' = led_records s \<Longrightarrow> records_ok s' = records_ok s"
  by (simp add: records_ok_def)

lemma index_ok_cong:
  "led_records s' = led_records s \<Longrightarrow> led_by_session s' = led_by_session s \<Longrightarrow> index_ok s' = index_ok s"
  by (simp add: index_ok_def session_ids_def)

lemma admit_ok:
  assumes ok: "ledger_ok digest s" and new: "dict_get (led_records s) (rec_reservation_id r) = None"
    and r: "record_ok r" "rec_status r = Active"
  shows "ledger_ok digest (admit_record r s)" "ledger_evolves charge s (admit_record r s)"
proof -
  have parts: "records_ok s" "outbox_ok digest s" "index_ok s" "bindings_ok s" using ok by (simp_all add: ledger_ok_def)
  have "records_ok (put_record r s)" using parts(1) r(1) by (rule records_ok_put)
  then have "records_ok (admit_record r s)" using records_ok_cong [of "admit_record r s" "put_record r s"] by (simp add: admit_record_def)
  moreover have "outbox_ok digest (put_record r s)" using parts(2) new r by (intro outbox_ok_active) auto
  then have "outbox_ok digest (admit_record r s)" using outbox_ok_cong [of "admit_record r s" "put_record r s"] by (simp add: admit_record_def)
  moreover have "index_ok (admit_record r s)" using parts(3) new by (rule index_ok_admit)
  moreover have "bindings_ok (admit_record r s)" using parts(4) bindings_ok_cong [of "admit_record r s" s] by (simp add: admit_record_def)
  ultimately show "ledger_ok digest (admit_record r s)" by (simp add: ledger_ok_def)
  show "ledger_evolves charge s (admit_record r s)" using new by (auto simp: ledger_evolves_def admit_record_def dict_simps)
qed

lemma index_put_commute: "index_record a (put_record b s) = put_record b (index_record a s)"
  by (simp add: index_record_def put_record_def session_ids_def)

lemma fold_index_put: "fold index_record rs (put_record r s) = put_record r (fold index_record rs s)"
  by (induction rs arbitrary: s) (simp_all add: index_put_commute)

lemma fold_admit: "fold index_record rs (fold put_record rs s) = fold admit_record rs s"
proof (induction rs arbitrary: s)
  case (Cons r rs)
  have "fold put_record rs (index_record r t) = index_record r (fold put_record rs t)" for t
    by (induction rs arbitrary: t) (simp_all add: index_put_commute [symmetric])
  then have "fold index_record (r # rs) (fold put_record (r # rs) s) = fold index_record rs (fold put_record rs (index_record r (put_record r s)))"
    by simp
  with Cons show ?case by (simp add: admit_record_def)
qed simp

lemma admit_all_ok:
  assumes "ledger_ok digest s" "distinct (map rec_reservation_id rs)"
    "\<forall>r\<in>set rs. dict_get (led_records s) (rec_reservation_id r) = None \<and> record_ok r \<and> rec_status r = Active"
  shows "ledger_ok digest (fold admit_record rs s) \<and> ledger_evolves charge s (fold admit_record rs s)"
  using assms
proof (induction rs arbitrary: s)
  case (Cons r rs)
  have a: "ledger_ok digest (admit_record r s)" "ledger_evolves charge s (admit_record r s)"
    using admit_ok [OF Cons.prems(1)] Cons.prems(3) by auto
  have "ledger_ok digest (fold admit_record rs (admit_record r s)) \<and> ledger_evolves charge (admit_record r s) (fold admit_record rs (admit_record r s))"
  proof (rule Cons.IH [OF a(1)])
    show "distinct (map rec_reservation_id rs)" using Cons.prems(2) by simp
    show "\<forall>x\<in>set rs. dict_get (led_records (admit_record r s)) (rec_reservation_id x) = None \<and> record_ok x \<and> rec_status x = Active"
      using Cons.prems(2,3) by (auto simp: admit_record_def dict_simps intro: rev_image_eqI)
  qed
  with a ledger_evolves_trans [OF a(2)] show ?case by simp
qed simp

lemma keeps_refl: "ledger_ok digest s \<Longrightarrow> keeps charge new digest s s" by (simp add: keeps_def)

lemma keeps_trans: "keeps charge new digest a b \<Longrightarrow> keeps charge new digest b c \<Longrightarrow> keeps charge new digest a c"
  by (auto simp: keeps_def intro: ledger_evolves_trans)

lemma reap_keeps: "ledger_ok digest s \<Longrightarrow> reap_expired digest now l s = (res, s') \<Longrightarrow> keeps charge new digest s s'"
  unfolding keeps_def using reap_expired_ok reap_rel_evolves reap_rel_keys by metis

lemma put_keeps:
  assumes "ledger_ok digest (put_record r' s)" "dict_get (led_records s) (rec_reservation_id r') = Some r" "record_evolves charge r r'"
  shows "keeps charge new digest s (put_record r' s)"
  using assms put_record_evolves [of s r' r charge] by (auto simp: keeps_def dict_simps)

lemma commit_keeps:
  assumes "ledger_ok digest s" "dict_get (led_records s) (rec_reservation_id r) = Some r"
    "settled_version digest r r' q" "commit_settlement digest r r' q s = (res, s')"
    "rec_status r = Active \<Longrightarrow> rec_status r' = Reconciled \<Longrightarrow> charge r'"
  shows "keeps charge new digest s s'"
proof -
  have "dict_get (led_records s') k = None" if absent: "dict_get (led_records s) k = None" for k
    using assms(1-4)
    by (cases rule: commit_settlement_effect) (use absent assms(2) settled_version_facts(2) [OF assms(3)] in \<open>auto simp: dict_simps\<close>)
  then show ?thesis
    using commit_settlement_ok [OF assms(1-4)] commit_settlement_evolves [where charge = charge, OF assms] by (simp add: keeps_def)
qed

lemma dispatched_record_facts [simp]:
  "rec_reservation_id (dispatched_record d t r) = rec_reservation_id r"
  "rec_session_id (dispatched_record d t r) = rec_session_id r"
  "rec_status (dispatched_record d t r) = rec_status r"
  "rec_reserved_amount (dispatched_record d t r) = rec_reserved_amount r"
  "rec_budget_limit_id (dispatched_record d t r) = rec_budget_limit_id r"
  "rec_actual_amount (dispatched_record d t r) = rec_actual_amount r"
  "rec_updated_at (dispatched_record d t r) = rec_updated_at r"
  "rec_settlement_event_payload (dispatched_record d t r) = rec_settlement_event_payload r"
  by (simp_all add: dispatched_record_def)

lemma dispatched_record_step:
  assumes ok: "ledger_ok digest s" and cur: "dict_get (led_records s) (rec_reservation_id r) = Some r"
    and act: "rec_dispatch_id r = None \<longrightarrow> rec_status r = Active"
  shows "keeps charge new digest s (put_record (dispatched_record d t r) s)"
proof (cases "rec_dispatch_id r")
  case None
  have rok: "record_ok r" using ledger_ok_records [OF ok cur] by simp
  then have "record_ok (dispatched_record d t r)" using None by (auto simp: record_ok_def dispatched_record_def)
  with act None have "ledger_ok digest (put_record (dispatched_record d t r) s)"
    by (intro put_active_ok [OF ok, where ?r0.0 = r]) (simp_all add: cur)
  moreover have "record_evolves charge r (dispatched_record d t r)" using act None by (simp add: record_evolves_def)
  ultimately show ?thesis using cur by (intro put_keeps [where r = r]) simp_all
next
  case (Some a)
  then have "dispatched_record d t r = r" by (simp add: dispatched_record_def)
  with cur ok show ?thesis by (simp add: put_record_same keeps_refl)
qed

lemma mark_all_keeps:
  assumes "ledger_ok digest s" "distinct (map rec_reservation_id rs)"
    "\<forall>r\<in>set rs. dict_get (led_records s) (rec_reservation_id r) = Some r \<and> (rec_dispatch_id r = None \<longrightarrow> rec_status r = Active)"
  shows "keeps charge new digest s (fold put_record (map (dispatched_record d t) rs) s)"
  using assms
proof (induction rs arbitrary: s)
  case (Cons r rs)
  let ?u = "put_record (dispatched_record d t r) s"
  have one: "keeps charge new digest s ?u" using Cons.prems by (intro dispatched_record_step) auto
  have "keeps charge new digest ?u (fold put_record (map (dispatched_record d t) rs) ?u)"
  proof (rule Cons.IH)
    show "ledger_ok digest ?u" using one by (simp add: keeps_def)
    show "distinct (map rec_reservation_id rs)" using Cons.prems(2) by simp
    show "\<forall>x\<in>set rs. dict_get (led_records ?u) (rec_reservation_id x) = Some x \<and> (rec_dispatch_id x = None \<longrightarrow> rec_status x = Active)"
    proof
      fix x assume mem: "x \<in> set rs"
      then have "rec_reservation_id x \<in> rec_reservation_id ` set rs" by simp
      then have "rec_reservation_id x \<noteq> rec_reservation_id r" using Cons.prems(2) by auto
      then show "dict_get (led_records ?u) (rec_reservation_id x) = Some x \<and> (rec_dispatch_id x = None \<longrightarrow> rec_status x = Active)"
        using Cons.prems(3) mem by (simp add: dict_simps)
    qed
  qed
  with one show ?case by (auto intro: keeps_trans)
qed (simp add: keeps_refl)

lemma validate_batch_Inr [res_simps]:
  "validate_reservation_id_batch ids = Inr ids' \<longleftrightarrow> ids' = ids \<and> distinct ids \<and> (\<forall>i\<in>set ids. clean i)"
proof -
  have "traverse_res require_clean_nonblank ids = Inr ys \<longleftrightarrow> ys = ids \<and> (\<forall>i\<in>set ids. clean i)" for ys
    unfolding traverse_res_Inr by (induction ids arbitrary: ys) (auto simp: list_all2_Cons1 clean_def res_simps)
  then show ?thesis by (auto simp: validate_reservation_id_batch_def res_simps split: if_splits)
qed

lemma check_dispatch_Inr:
  "check_dispatch s now d rid = Inr r \<longleftrightarrow> dict_get (led_records s) rid = Some r \<and>
     (rec_dispatch_id r = None \<and> rec_status r = Active \<and> \<not> reservation_is_expired r now (led_ttl s) \<or> rec_dispatch_id r = Some d)"
  by (auto simp: check_dispatch_def split: option.splits if_splits)

lemma traverse_ids:
  assumes ok: "ledger_ok digest s" and tr: "traverse_res f ids = Inr rs" and dist: "distinct ids"
    and f: "\<And>i r. f i = Inr r \<Longrightarrow> dict_get (led_records s) i = Some r"
  shows "map rec_reservation_id rs = ids" "\<And>r. r \<in> set rs \<Longrightarrow> dict_get (led_records s) (rec_reservation_id r) = Some r \<and> f (rec_reservation_id r) = Inr r"
proof -
  have all: "list_all2 (\<lambda>i r. f i = Inr r) ids rs" using tr by (simp add: traverse_res_Inr)
  then show "map rec_reservation_id rs = ids"
  proof (induction rule: list_all2_induct)
    case (Cons i js r rs)
    then show ?case using f ledger_ok_records [OF ok] by auto
  qed simp
  show "dict_get (led_records s) (rec_reservation_id r) = Some r \<and> f (rec_reservation_id r) = Inr r" if "r \<in> set rs" for r
  proof -
    from all that obtain i where "f i = Inr r" by (auto simp: list_all2_conv_all_nth in_set_conv_nth)
    with f ledger_ok_records [OF ok] show ?thesis by blast
  qed
qed

lemma mark_dispatched_keeps:
  assumes ok: "ledger_ok digest s"
  shows "keeps charge new digest s (snd (mark_dispatched now ids d at_time s))"
proof (cases "bind_res (validate_reservation_id_batch ids) (\<lambda>ids.
           bind_res (require_clean_nonblank d) (\<lambda>d. traverse_res (check_dispatch s now d) ids))")
  case (Inl e)
  with ok show ?thesis by (simp add: mark_dispatched_def keeps_refl)
next
  case (Inr rs)
  then have tr: "traverse_res (check_dispatch s now d) ids = Inr rs" and dist: "distinct ids" by (auto simp: res_simps)
  have f: "\<And>i r. check_dispatch s now d i = Inr r \<Longrightarrow> dict_get (led_records s) i = Some r"
    by (simp add: check_dispatch_Inr)
  have "dict_get (led_records s) (rec_reservation_id r) = Some r \<and> (rec_dispatch_id r = None \<longrightarrow> rec_status r = Active)"
    if "r \<in> set rs" for r
    using traverse_ids(2) [OF ok tr dist f that] unfolding check_dispatch_Inr by auto
  moreover have "map rec_reservation_id rs = ids" by (rule traverse_ids(1) [OF ok tr dist f])
  ultimately have "map rec_reservation_id rs = ids" "\<forall>r\<in>set rs. dict_get (led_records s) (rec_reservation_id r) = Some r \<and> (rec_dispatch_id r = None \<longrightarrow> rec_status r = Active)"
    by blast+
  then show ?thesis using mark_all_keeps [OF ok, of rs] dist Inr by (simp add: mark_dispatched_def Let_def)
qed

lemma commit_settlements_keeps:
  assumes "ledger_ok digest s" "distinct (map (\<lambda>w. rec_reservation_id (fst w)) work)"
    "\<forall>(r, r', q)\<in>set work. dict_get (led_records s) (rec_reservation_id r) = Some r \<and> settled_version digest r r' q"
    "commit_settlements digest work s = (res, s')"
    "\<forall>(r, r', q)\<in>set work. rec_status r' \<noteq> Reconciled"
  shows "keeps charge new digest s s'"
  using assms
proof (induction work arbitrary: s)
  case (Cons w work)
  obtain r r' q where w: "w = (r, r', q)" by (cases w)
  have cur: "dict_get (led_records s) (rec_reservation_id r) = Some r" and ver: "settled_version digest r r' q"
    using Cons.prems(3) by (auto simp: w)
  obtain res1 u where u: "commit_settlement digest r r' q s = (res1, u)" by fastforce
  have one: "keeps charge new digest s u" using commit_keeps [OF Cons.prems(1) cur ver u] Cons.prems(5) by (simp add: w)
  show ?case
  proof (cases res1)
    case (Inl e)
    with u Cons.prems(4) one show ?thesis by (simp add: w)
  next
    case (Inr x)
    with u Cons.prems(4) have run: "commit_settlements digest work u = (res, s')" by (simp add: w)
    have other: "dict_get (led_records u) k = dict_get (led_records s) k" if "k \<noteq> rec_reservation_id r" for k
      using Cons.prems(1) cur ver u
      by (cases rule: commit_settlement_effect) (use that settled_version_facts(2) [OF ver] in \<open>auto simp: dict_simps\<close>)
    have "keeps charge new digest u s'"
    proof (rule Cons.IH [OF _ _ _ run])
      show "\<forall>(a, b, c)\<in>set work. rec_status b \<noteq> Reconciled" using Cons.prems(5) by simp
      show "ledger_ok digest u" using one by (simp add: keeps_def)
      show "distinct (map (\<lambda>w. rec_reservation_id (fst w)) work)" using Cons.prems(2) by simp
      show "\<forall>(a, b, c)\<in>set work. dict_get (led_records u) (rec_reservation_id a) = Some a \<and> settled_version digest a b c"
      proof (clarify)
        fix a b c assume mem: "(a, b, c) \<in> set work"
        then have "rec_reservation_id a \<noteq> rec_reservation_id r" using Cons.prems(2) by (force simp: w)
        then show "dict_get (led_records u) (rec_reservation_id a) = Some a \<and> settled_version digest a b c"
          using Cons.prems(3) mem other by auto
      qed
    qed
    with one show ?thesis by (rule keeps_trans)
  qed
qed (simp add: keeps_refl)

lemma check_pre_provider_Inr:
  "check_pre_provider s d rid = Inr r \<longleftrightarrow> dict_get (led_records s) rid = Some r \<and>
     (rec_dispatch_id r = None \<or> rec_dispatch_id r = Some d) \<and> rec_status r \<in> {Active, Released}"
  by (auto simp: check_pre_provider_def split: option.splits if_splits)

lemma zip_work_versions:
  assumes ok: "\<forall>r\<in>set rs. record_ok r"
    and rel: "list_all2 (\<lambda>r r'. released_record r reason t = Inr r') rs rs'"
    and q: "list_all2 (\<lambda>r' q. reconciliation_from_record digest r' KindReleased None = Inr q) rs' qs"
    and mem: "(r, r', q) \<in> set (zip rs (zip rs' qs))"
  shows "r \<in> set rs \<and> settled_version digest r r' q \<and> rec_status r' = Released"
proof -
  from mem obtain i where i: "i < length rs" "i < length rs'" "i < length qs" "rs ! i = r" "rs' ! i = r'" "qs ! i = q"
    by (auto simp: set_zip)
  then have "released_record r reason t = Inr r'" "reconciliation_from_record digest r' KindReleased None = Inr q" "r \<in> set rs"
    using rel q by (auto simp: list_all2_conv_all_nth)
  with ok show ?thesis by (auto intro: released_version dest: released_record_cases)
qed

lemma release_pre_keeps:
  assumes ok: "ledger_ok digest s"
  shows "keeps charge new digest s (snd (release_pre_provider_dispatch digest now ids d reason at_time s))"
proof -
  let ?t = "case at_time of None \<Rightarrow> now | Some t \<Rightarrow> t"
  let ?prep = "bind_res (validate_reservation_id_batch ids) (\<lambda>ids.
           bind_res (require_clean_nonblank d) (\<lambda>d.
           bind_res (require_clean_nonblank reason) (\<lambda>reason.
           bind_res (traverse_res (check_pre_provider s d) ids) (\<lambda>records.
           bind_res (traverse_res (\<lambda>r. released_record r reason ?t) records) (\<lambda>released.
           bind_res (traverse_res (\<lambda>r. reconciliation_from_record digest r KindReleased None) released) (\<lambda>recons.
             Inr (zip records (zip released recons), recons)))))))"
  show ?thesis
  proof (cases ?prep)
    case (Inl e)
    with ok show ?thesis by (simp add: release_pre_provider_dispatch_def keeps_refl)
  next
    case (Inr p)
    then obtain rs rs' qs where p: "p = (zip rs (zip rs' qs), qs)" and dist: "distinct ids"
      and tr: "traverse_res (check_pre_provider s d) ids = Inr rs"
      and rel: "traverse_res (\<lambda>r. released_record r reason ?t) rs = Inr rs'"
      and q: "traverse_res (\<lambda>r. reconciliation_from_record digest r KindReleased None) rs' = Inr qs"
      by (auto simp: res_simps)
    note t = traverse_ids [OF ok tr dist]
    have cur: "map rec_reservation_id rs = ids" "\<forall>r\<in>set rs. dict_get (led_records s) (rec_reservation_id r) = Some r"
      using t by (auto simp: check_pre_provider_Inr)
    have rok: "\<forall>r\<in>set rs. record_ok r" using cur(2) ledger_ok_records [OF ok] by blast
    have ver: "r \<in> set rs \<and> settled_version digest r r' q \<and> rec_status r' = Released" if "(r, r', q) \<in> set (zip rs (zip rs' qs))" for r r' q
      using zip_work_versions [OF rok _ _ that] rel q by (simp add: traverse_res_Inr)
    have len: "length rs' = length rs" "length qs = length rs"
      using traverse_res_length [OF rel] traverse_res_length [OF q] by simp_all
    have ids: "map (\<lambda>w. rec_reservation_id (fst w)) (zip rs (zip rs' qs)) = ids"
    proof -
      have "map (\<lambda>w. rec_reservation_id (fst w)) (zip rs (zip rs' qs)) = map rec_reservation_id (map fst (zip rs (zip rs' qs)))" by simp
      also have "map fst (zip rs (zip rs' qs)) = rs" using len by simp
      finally show ?thesis using cur(1) by simp
    qed
    obtain res s' where run: "commit_settlements digest (zip rs (zip rs' qs)) s = (res, s')" by fastforce
    have "keeps charge new digest s s'"
    proof (rule commit_settlements_keeps [OF ok _ _ run])
      show "\<forall>(r, r', q)\<in>set (zip rs (zip rs' qs)). rec_status r' \<noteq> Reconciled" using ver by fastforce
      show "distinct (map (\<lambda>w. rec_reservation_id (fst w)) (zip rs (zip rs' qs)))" unfolding ids by (rule dist)
      show "\<forall>(r, r', q)\<in>set (zip rs (zip rs' qs)). dict_get (led_records s) (rec_reservation_id r) = Some r \<and> settled_version digest r r' q"
        using ver cur(2) by blast
    qed
    then show ?thesis using Inr run
      by (cases res) (simp_all add: release_pre_provider_dispatch_def p)
  qed
qed

lemma heartbeat_keeps:
  assumes ok: "ledger_ok digest s"
  shows "keeps charge new digest s (snd (heartbeat now rid s))"
proof (cases "snd (heartbeat now rid s) = s")
  case True
  with ok show ?thesis by (simp add: keeps_refl)
next
  case False
  then obtain r where get: "dict_get (led_records s) rid = Some r" and act: "rec_status r = Active"
    and res: "snd (heartbeat now rid s) = put_record (r\<lparr>rec_updated_at := now\<rparr>) s"
    by (auto simp: heartbeat_def res_simps split: sum.splits option.splits if_splits)
  note r = ledger_ok_records [OF ok get]
  have "ledger_ok digest (put_record (r\<lparr>rec_updated_at := now\<rparr>) s)"
    using r act get by (intro put_active_ok [OF ok, where ?r0.0 = r]) (simp_all add: record_ok_def opt_nonneg_def)
  then show ?thesis unfolding res
    using r act get by (intro put_keeps [where r = r]) (simp_all add: record_evolves_def)
qed

lemma commit_and_return_keeps:
  assumes ok: "ledger_ok digest s"
    and prep: "\<And>r r' q. prepared = Inr (r, r', q) \<Longrightarrow>
      dict_get (led_records s) (rec_reservation_id r) = Some r \<and> settled_version digest r r' q \<and>
      (rec_status r = Active \<and> rec_status r' = Reconciled \<longrightarrow> charge r')"
  shows "keeps charge new digest s (snd (commit_and_return digest prepared s))"
proof (cases prepared)
  case (Inl e)
  with ok show ?thesis by (simp add: commit_and_return_def keeps_refl)
next
  case (Inr p)
  obtain r r' q where p: "p = (r, r', q)" by (cases p)
  obtain res s' where run: "commit_settlement digest r r' q s = (res, s')" by fastforce
  have "keeps charge new digest s s'"
    using prep [of r r' q] Inr p by (intro commit_keeps [OF ok _ _ run]) auto
  then show ?thesis using run by (cases res) (simp_all add: commit_and_return_def Inr p)
qed

lemma validate_amount_Inr [res_simps]: "validate_amount a = Inr b \<longleftrightarrow> b = a \<and> 0 \<le> a"
  by (auto simp: validate_amount_def)

lemma reconcilable_record_Inr [res_simps]:
  "reconcilable_record s rid = Inr r \<longleftrightarrow> dict_get (led_records s) rid = Some r \<and> rec_status r \<in> {Active, Reconciled}"
  by (auto simp: reconcilable_record_def split: option.splits if_splits)

lemma releasable_record_Inr [res_simps]:
  "releasable_record s rid = Inr r \<longleftrightarrow> dict_get (led_records s) rid = Some r \<and>
     (rec_status r = Active \<and> rec_dispatch_id r = None \<or> rec_status r = Released)"
  by (auto simp: releasable_record_def split: option.splits if_splits)

lemma reconcile_keeps:
  assumes ok: "ledger_ok digest s"
    and charge: "\<And>r r'. dict_get (led_records s) rid = Some r \<Longrightarrow> same_request r r' \<Longrightarrow> rec_actual_amount r' = Some actual \<Longrightarrow> charge r'"
  shows "keeps charge new digest s (snd (reconcile digest now rid actual kind reason at_time identity pricing s))"
  unfolding reconcile_def
proof (rule commit_and_return_keeps [OF ok])
  fix r r' q
  assume "bind_res (require_clean_nonblank rid) (\<lambda>rid.
        bind_res (validate_amount actual) (\<lambda>actual.
        bind_res (reconcilable_record s rid) (\<lambda>r.
        bind_res (reconciled_record r actual reason (case at_time of None \<Rightarrow> now | Some t \<Rightarrow> t) identity) (\<lambda>r'.
        bind_res (reconciliation_from_record digest r' kind pricing) (\<lambda>q. Inr (r, r', q)))))) = Inr (r, r', q)"
  then have get: "dict_get (led_records s) rid = Some r" and pos: "0 \<le> actual"
    and rec: "reconciled_record r actual reason (case at_time of None \<Rightarrow> now | Some t \<Rightarrow> t) identity = Inr r'"
    and q: "reconciliation_from_record digest r' kind pricing = Inr q"
    by (auto simp: res_simps)
  note r = ledger_ok_records [OF ok get]
  with get reconciled_version [OF _ pos rec q] charge [OF get] reconciled_record_cases(2,3) [OF rec]
  show "dict_get (led_records s) (rec_reservation_id r) = Some r \<and> settled_version digest r r' q \<and>
      (rec_status r = Active \<and> rec_status r' = Reconciled \<longrightarrow> charge r')" by simp
qed

lemma release_keeps:
  assumes ok: "ledger_ok digest s"
  shows "keeps charge new digest s (snd (release digest now rid reason at_time s))"
  unfolding release_def
proof (rule commit_and_return_keeps [OF ok])
  fix r r' q
  assume "bind_res (require_clean_nonblank rid) (\<lambda>rid.
        bind_res (require_clean_nonblank reason) (\<lambda>reason.
        bind_res (releasable_record s rid) (\<lambda>r.
        bind_res (released_record r reason (case at_time of None \<Rightarrow> now | Some t \<Rightarrow> t)) (\<lambda>r'.
        bind_res (reconciliation_from_record digest r' KindReleased None) (\<lambda>q. Inr (r, r', q)))))) = Inr (r, r', q)"
  then have get: "dict_get (led_records s) rid = Some r"
    and rel: "released_record r reason (case at_time of None \<Rightarrow> now | Some t \<Rightarrow> t) = Inr r'"
    and q: "reconciliation_from_record digest r' KindReleased None = Inr q"
    by (auto simp: res_simps)
  note r = ledger_ok_records [OF ok get]
  with get released_version [OF _ rel q] released_record_cases(1) [OF rel]
  show "dict_get (led_records s) (rec_reservation_id r) = Some r \<and> settled_version digest r r' q \<and>
      (rec_status r = Active \<and> rec_status r' = Reconciled \<longrightarrow> charge r')" by simp
qed

lemma ledger_ok_cong:
  assumes "led_records s' = led_records s" "led_by_session s' = led_by_session s" "led_settlements s' = led_settlements s"
    "bindings_ok s'" "ledger_ok digest s"
  shows "ledger_ok digest s'"
  using assms outbox_ok_cong [OF assms(1,3)] records_ok_cong [OF assms(1)] index_ok_cong [OF assms(1,2)]
  by (simp add: ledger_ok_def)

lemma outbox_ok_publish:
  assumes ok: "outbox_ok digest s" and get: "dict_get (led_settlements s) sid = Some t"
    and s': "s' = s\<lparr>led_settlements := dict_put sid (t\<lparr>st_event_published := True\<rparr>) (led_settlements s)\<rparr>"
  shows "outbox_ok digest s'"
proof -
  have settles_pub: "settles digest (t0\<lparr>st_event_published := b\<rparr>) r0 = settles digest t0 r0" for t0 r0 b
    by (simp add: settles_def)
  have a: "\<exists>t0. dict_get (led_settlements s') (budget_settlement_id digest k) = Some t0 \<and> settles digest t0 r0"
    if "dict_get (led_records s') k = Some r0" "rec_status r0 \<noteq> Active" for k r0
  proof -
    from that s' outbox_terminal [OF ok, of k r0] obtain t0
      where "dict_get (led_settlements s) (budget_settlement_id digest k) = Some t0" "settles digest t0 r0" by auto
    with get show ?thesis by (cases "budget_settlement_id digest k = sid") (auto simp: s' dict_simps settles_pub)
  qed
  have b: "st_settlement_id t0 = k \<and> (\<exists>r0. dict_get (led_records s') (st_reservation_id t0) = Some r0 \<and> rec_status r0 \<noteq> Active \<and> settles digest t0 r0)"
    if entry: "dict_get (led_settlements s') k = Some t0" for k t0
  proof -
    obtain t1 where "dict_get (led_settlements s) k = Some t1" "t0 = t1 \<or> t0 = t1\<lparr>st_event_published := True\<rparr>"
      using entry get by (cases "k = sid") (auto simp: s' dict_simps)
    with outbox_entry [OF ok, of k t1] show ?thesis by (auto simp: s' settles_pub)
  qed
  have "dict_ok (led_settlements s')" using ok by (simp add: s' outbox_ok_def dict_ok_put)
  then show ?thesis unfolding outbox_ok_def using a b by blast
qed

lemma publish_keeps:
  assumes ok: "ledger_ok digest s"
  shows "keeps charge new digest s (snd (mark_settlement_event_published sid eid s))"
proof (cases "snd (mark_settlement_event_published sid eid s) = s")
  case True
  with ok show ?thesis by (simp add: keeps_refl)
next
  case False
  then obtain t where get: "dict_get (led_settlements s) sid = Some t"
    and res: "snd (mark_settlement_event_published sid eid s)
      = s\<lparr>led_settlements := dict_put sid (t\<lparr>st_event_published := True\<rparr>) (led_settlements s)\<rparr>"
    by (auto simp: mark_settlement_event_published_def res_simps split: sum.splits option.splits if_splits)
  let ?s = "s\<lparr>led_settlements := dict_put sid (t\<lparr>st_event_published := True\<rparr>) (led_settlements s)\<rparr>"
  have parts: "records_ok s" "outbox_ok digest s" "index_ok s" "bindings_ok s" using ok by (simp_all add: ledger_ok_def)
  have "outbox_ok digest ?s" using outbox_ok_publish [OF parts(2) get] by simp
  moreover have "records_ok ?s" "index_ok ?s" "bindings_ok ?s"
    using parts records_ok_cong [of ?s s] index_ok_cong [of ?s s] bindings_ok_cong [of ?s s] by simp_all
  ultimately show ?thesis by (simp add: keeps_def res ledger_ok_def ledger_evolves_def)
qed

lemma bindings_ok_get:
  "bindings_ok s \<Longrightarrow> dict_get (led_bindings s) bid = Some (a, n, c) \<Longrightarrow> distinct c \<and> int (length c) \<le> n"
  unfolding bindings_ok_def by blast

lemma register_keeps:
  assumes ok: "ledger_ok digest s"
  shows "keeps charge new digest s (snd (register_budget_binding bid authority allowance s))"
proof (cases "snd (register_budget_binding bid authority allowance s) = s")
  case True
  with ok show ?thesis by (simp add: keeps_refl)
next
  case False
  then have pos: "0 < allowance" and res: "snd (register_budget_binding bid authority allowance s)
      = s\<lparr>led_bindings := dict_put bid (authority, allowance, []) (led_bindings s)\<rparr>"
    by (auto simp: register_budget_binding_def res_simps split: sum.splits option.splits if_splits)
  let ?s = "s\<lparr>led_bindings := dict_put bid (authority, allowance, []) (led_bindings s)\<rparr>"
  have bok: "bindings_ok s" using ok by (simp add: ledger_ok_def)
  have "bindings_ok ?s"
    unfolding bindings_ok_def
  proof (intro allI impI)
    fix b a n c
    assume "dict_get (led_bindings ?s) b = Some (a, n, c)"
    then have "b = bid \<and> n = allowance \<and> c = [] \<or> dict_get (led_bindings s) b = Some (a, n, c)"
      by (auto simp: dict_simps split: if_splits)
    then show "distinct c \<and> int (length c) \<le> n"
    proof
      assume "b = bid \<and> n = allowance \<and> c = []"
      with pos show ?thesis by simp
    next
      assume "dict_get (led_bindings s) b = Some (a, n, c)"
      with bok show ?thesis by (rule bindings_ok_get)
    qed
  qed
  then have "ledger_ok digest ?s" using ok by (intro ledger_ok_cong [of ?s s]) simp_all
  then show ?thesis by (simp add: keeps_def res ledger_evolves_def)
qed

lemma claim_keeps:
  assumes ok: "ledger_ok digest s"
  shows "keeps charge new digest s (snd (claim_reservation_identity rid session publication s))"
proof -
  let ?s = "snd (claim_reservation_identity rid session publication s)"
  have same: "led_records ?s = led_records s" "led_by_session ?s = led_by_session s"
    "led_settlements ?s = led_settlements s" "led_bindings ?s = led_bindings s"
    by (auto simp: claim_reservation_identity_def split: sum.splits option.splits)
  have "bindings_ok ?s" using ok bindings_ok_cong [OF same(4)] by (simp add: ledger_ok_def)
  then have "ledger_ok digest ?s" using ok by (intro ledger_ok_cong [OF same(1-3)])
  then show ?thesis by (simp add: keeps_def ledger_evolves_def same(1))
qed

lemma new_reservation_record_ok:
  assumes "reservation_record_valid zones (new_reservation_record l q rid f a now)"
  shows "record_ok (new_reservation_record l q rid f a now)"
  using assms by (auto simp: reservation_record_valid_def record_ok_def new_reservation_record_def opt_nonneg_def)

lemma reserve_cases:
  assumes "reserve zones digest now fresh l q s = (res, s')"
  obtains (early) e where "res = Inl e" "s' = s"
  | (reap_failed) e where "res = Inl e" "reap_expired digest now l s = (Inl e, s')"
  | (unmeasured) e where "res = Inl e" "reap_expired digest now l s = (Inr (), s')"
  | (rejected) amount current where "reap_expired digest now l s = (Inr (), s')"
      "requested_amount_of l q now = Inr amount"
      "ledger_used_amount zones (dict_values (led_records s')) l now = Inr current" "current + amount > bl_max_estimated_cost l"
      "res = make_reservation_result l (rq_attempt q) False amount (current + amount) None"
  | (admitted) amount current rid r u where "reap_expired digest now l s = (Inr (), u)"
      "requested_amount_of l q now = Inr amount"
      "ledger_used_amount zones (dict_values (led_records u)) l now = Inr current" "current + amount \<le> bl_max_estimated_cost l"
      "r = new_reservation_record l q rid (effective_fallback s now q) amount now" "reservation_record_valid zones r"
      "dict_get (led_records u) rid = None" "s' = admit_record r u"
      "res = make_reservation_result l (rq_attempt q) True amount (current + amount) (Some r)"
proof -
  show thesis
  proof (cases "bind_res (reserve_checks q fresh) (\<lambda>rid. bind_res (requested_amount_of l q now) (\<lambda>amount. Inr (rid, amount)))")
    case (Inl e)
    with assms show thesis by (intro early [of e]) (simp_all add: reserve_def)
  next
    case (Inr p)
    obtain rid amount where p: "p = (rid, amount)" by (cases p)
    from Inr have amt: "requested_amount_of l q now = Inr amount" by (auto simp: p res_simps)
    obtain r1 u where u: "reap_expired digest now l s = (r1, u)" by fastforce
    show thesis
    proof (cases r1)
      case (Inl e)
      with assms Inr u p show thesis by (intro reap_failed [of e]) (simp_all add: reserve_def)
    next
      case (Inr z)
      note reaped = u [unfolded Inr, simplified]
      show thesis
      proof (cases "ledger_used_amount zones (dict_values (led_records u)) l now")
        case (Inl e)
        with assms \<open>bind_res (reserve_checks q fresh) _ = Inr p\<close> reaped p show thesis
          by (intro unmeasured [of e]) (simp_all add: reserve_def)
      next
        case (Inr current)
        note run = assms [unfolded reserve_def \<open>bind_res (reserve_checks q fresh) _ = Inr p\<close> p, simplified, unfolded reaped, simplified, unfolded Inr, simplified]
        define r where "r = new_reservation_record l q rid (effective_fallback s now q) amount now"
        show thesis
        proof (cases "current + amount > bl_max_estimated_cost l")
          case True
          with run reaped amt Inr show thesis by (intro rejected [of amount current]) auto
        next
          case False
          note run' = run [unfolded r_def [symmetric] Let_def]
          consider "\<not> reservation_record_valid zones r \<or> dict_get (led_records u) rid \<noteq> None"
            | "reservation_record_valid zones r" "dict_get (led_records u) rid = None" by blast
          then show thesis
          proof cases
            case 1
            with run' False have "(\<exists>e. res = Inl e) \<and> u = s'" by (auto split: if_splits)
            with reaped show thesis by (auto intro: unmeasured)
          next
            case 2
            with run' False reaped amt Inr show thesis by (intro admitted [where rid = rid and r = r and u = u]) (auto simp: r_def)
          qed
        qed
      qed
    qed
  qed
qed

lemma reserve_keeps:
  assumes ok: "ledger_ok digest s"
  shows "keeps charge UNIV digest s (snd (reserve zones digest now fresh l q s))"
proof -
  obtain res s' where run: "reserve zones digest now fresh l q s = (res, s')" by fastforce
  from run have "keeps charge UNIV digest s s'"
  proof (cases rule: reserve_cases)
    case (early e)
    with ok show ?thesis by (simp add: keeps_refl)
  next
    case (admitted amount current rid r u)
    have u: "keeps charge UNIV digest s u" using ok admitted(1) by (rule reap_keeps)
    have "rec_reservation_id r = rid" "rec_status r = Active" by (simp_all add: admitted(5) new_reservation_record_def)
    moreover have "record_ok r" using admitted(6) unfolding admitted(5) by (rule new_reservation_record_ok)
    ultimately have "keeps charge UNIV digest u s'"
      using admit_ok [of digest u r] u admitted(7,8) by (simp add: keeps_def)
    with u show ?thesis by (rule keeps_trans)
  qed (use ok in \<open>auto intro: reap_keeps\<close>)
  with run show ?thesis by simp
qed

lemma admit_members_keeps:
  assumes "ledger_ok digest s" "admit_members zones digest now ms s = (res, s')"
  shows "keeps charge new digest s s' \<and> map fst (led_records s') = map fst (led_records s) \<and> led_bindings s' = led_bindings s"
  using assms
proof (induction ms arbitrary: s res s')
  case Nil
  then show ?case by (simp add: keeps_refl)
next
  case (Cons m ms)
  obtain r1 u where u: "reap_expired digest now (fst m) s = (r1, u)" by fastforce
  have one: "keeps charge new digest s u" using Cons.prems(1) u by (rule reap_keeps)
  have rel: "reap_rel now (led_ttl s) (fst m) s u" using reap_expired_ok [OF Cons.prems(1) u] by simp
  have keys: "map fst (led_records u) = map fst (led_records s)" "led_bindings u = led_bindings s" using rel by (simp_all add: reap_rel_def)
  obtain r2 t where t: "admit_members zones digest now ms u = (r2, t)" by fastforce
  have two: "keeps charge new digest u t \<and> map fst (led_records t) = map fst (led_records u) \<and> led_bindings t = led_bindings u"
    using one by (intro Cons.IH [OF _ t]) (simp add: keeps_def)
  have "s' = u \<or> s' = t"
    using Cons.prems(2) u t by (auto split: sum.splits option.splits prod.splits)
  with one two keys keeps_trans [of charge new digest s u t] show ?case by auto
qed

lemma consume_binding_simps [simp]:
  "led_records (consume_binding p s) = led_records s" "led_by_session (consume_binding p s) = led_by_session s"
  "led_settlements (consume_binding p s) = led_settlements s"
  by (auto simp: consume_binding_def split: option.splits)

lemma check_binding_pending:
  assumes "check_binding s u = Inr (Some (bid, c))"
  shows "\<exists>a n cs. dict_get (led_bindings s) bid = Some (a, n, cs) \<and> c \<notin> set cs \<and> int (length cs) < n"
proof -
  from assms obtain authority allowance
    where args: "bu_authority_digest u = Some authority" "bu_allowance u = Some allowance" "bu_consumption_id u = Some c" "bu_binding_id u = bid"
    by (auto simp: check_binding_def split: option.splits if_splits)
  with assms show ?thesis
    by (cases "dict_get (led_bindings s) bid") (auto simp: check_binding_def split: if_splits)
qed

lemma consume_binding_ok:
  assumes bok: "bindings_ok s" and chk: "check_binding s0 u = Inr pending" and same: "led_bindings s = led_bindings s0"
  shows "bindings_ok (consume_binding pending s)"
proof (cases pending)
  case None
  with bok show ?thesis by (simp add: consume_binding_def)
next
  case (Some p)
  obtain bid c where p: "p = (bid, c)" by (cases p)
  obtain a n cs where get: "dict_get (led_bindings s0) bid = Some (a, n, cs)"
    and new: "c \<notin> set cs" "int (length cs) < n"
    using check_binding_pending [OF chk [unfolded Some p]] by blast
  let ?s = "s\<lparr>led_bindings := dict_put bid (a, n, c # cs) (led_bindings s)\<rparr>"
  have eq: "consume_binding pending s = ?s" using Some p get same by (simp add: consume_binding_def)
  have "dict_get (led_bindings s) bid = Some (a, n, cs)" using get same by simp
  from bindings_ok_get [OF bok this] have cs: "distinct cs" by simp
  show ?thesis
    unfolding eq bindings_ok_def
  proof (intro allI impI)
    fix b a' n' c'
    assume "dict_get (led_bindings ?s) b = Some (a', n', c')"
    then have "b = bid \<and> n' = n \<and> c' = c # cs \<or> dict_get (led_bindings s) b = Some (a', n', c')"
      by (cases "b = bid") (auto simp: dict_simps)
    then show "distinct c' \<and> int (length c') \<le> n'"
    proof
      assume "b = bid \<and> n' = n \<and> c' = c # cs"
      with new cs show ?thesis by simp
    next
      assume "dict_get (led_bindings s) b = Some (a', n', c')"
      with bok show ?thesis by (rule bindings_ok_get)
    qed
  qed
qed

lemma reserve_batch_cases:
  assumes "reserve_batch zones digest now ms binding s = (res, s')"
  obtains (unchanged) "s' = s" "\<And>b. res = Inr b \<Longrightarrow> bb_failure b = None \<and> bb_projected_usage b = [] \<and> list_all2 replay_matches ms (bb_records b)
        \<and> bb_records b = map (\<lambda>m. the (dict_get (led_records s) (rec_reservation_id (snd m)))) ms"
  | (refused) e where "prepare_batch zones ms = Inr ms" "admit_members zones digest now ms s = (Inl e, s')" "res = Inl e"
  | (over) failure where "prepare_batch zones ms = Inr ms" "admit_members zones digest now ms s = (Inr (Inl failure), s')"
      "res = Inr \<lparr>bb_records = [], bb_projected_usage = [], bb_failure = Some failure\<rparr>"
  | (admitted) projected u pending where "prepare_batch zones ms = Inr ms"
      "\<forall>m\<in>set ms. dict_get (led_records s) (rec_reservation_id (snd m)) = None"
      "(case binding of None \<Rightarrow> Inr None | Some b \<Rightarrow> check_binding s b) = Inr pending"
      "admit_members zones digest now ms s = (Inr (Inr projected), u)"
      "res = Inr \<lparr>bb_records = map (stamp_member now) ms, bb_projected_usage = projected, bb_failure = None\<rparr>"
      "s' = fold admit_record (map (stamp_member now) ms) (consume_binding pending u)"
proof (cases "prepare_batch zones ms")
  case (Inl e)
  with assms show thesis by (intro unchanged) (simp_all add: reserve_batch_def)
next
  case (Inr ms')
  then have prep: "prepare_batch zones ms = Inr ms" and [simp]: "ms' = ms" by (auto simp: prepare_batch_def split: if_splits)
  let ?ex = "map (\<lambda>m. dict_get (led_records s) (rec_reservation_id (snd m))) ms"
  show thesis
  proof (cases "replay_batch ms ?ex")
    case (Inl e)
    with assms prep show thesis by (intro unchanged) (simp_all add: reserve_batch_def)
  next
    case (Inr rep)
    note replay = this
    show thesis
    proof (cases rep)
      case (Some b)
      with replay have "bb_failure b = None \<and> bb_projected_usage b = []" "bb_records b = map the ?ex" "list_all2 (\<lambda>m r. replay_matches m (the r)) ms ?ex"
        by (auto simp: replay_batch_def split: if_splits)
      moreover have "list_all2 replay_matches ms (map the ?ex)"
        using calculation(3) by (simp add: list_all2_conv_all_nth)
      moreover have "res = Inr b" "s' = s" using assms prep replay Some by (simp_all add: reserve_batch_def)
      ultimately show thesis by (intro unchanged) (simp_all add: comp_def)
    next
      case None
      then have fresh: "\<forall>m\<in>set ms. dict_get (led_records s) (rec_reservation_id (snd m)) = None"
        using replay by (auto simp: replay_batch_def list_all_iff split: if_splits)
      show thesis
      proof (cases "case binding of None \<Rightarrow> Inr None | Some u \<Rightarrow> check_binding s u")
        case (Inl e)
        with assms prep replay None show thesis by (intro unchanged) (simp_all add: reserve_batch_def)
      next
        case (Inr pending)
        note run = assms [unfolded reserve_batch_def prep, simplified, unfolded replay None, simplified, unfolded Inr, simplified]
        obtain r1 u where u: "admit_members zones digest now ms s = (r1, u)" by fastforce
        consider e where "r1 = Inl e" | f where "r1 = Inr (Inl f)" | p where "r1 = Inr (Inr p)"
          by (metis sum.exhaust)
        then show thesis
        proof cases
          case (1 e)
          with run u prep show thesis by (intro refused [of e]) auto
        next
          case (2 f)
          with run u prep show thesis by (intro over [of f]) auto
        next
          case (3 p)
          with run u prep fresh Inr show thesis
            by (intro admitted [of pending p u]) (auto simp: Let_def fold_admit)
        qed
      qed
    qed
  qed
qed

lemma stamp_member_simps [simp]:
  "rec_reservation_id (stamp_member now m) = rec_reservation_id (snd m)"
  "rec_status (stamp_member now m) = rec_status (snd m)"
  "rec_budget_limit_id (stamp_member now m) = rec_budget_limit_id (snd m)"
  "rec_reserved_amount (stamp_member now m) = rec_reserved_amount (snd m)"
  "rec_session_id (stamp_member now m) = rec_session_id (snd m)"
  by (simp_all add: stamp_member_def)

lemma prepare_batch_facts:
  assumes "prepare_batch zones ms = Inr ms"
  shows "distinct (map (\<lambda>m. rec_reservation_id (snd m)) ms)" "distinct (map (\<lambda>m. bl_budget_limit_id (fst m)) ms)"
    "\<And>m. m \<in> set ms \<Longrightarrow> batch_member_valid zones m"
  using assms by (auto simp: prepare_batch_def comp_def list_all_iff split: if_splits)

lemma batch_member_facts:
  assumes "batch_member_valid zones m"
  shows "rec_status (snd m) = Active" "rec_budget_limit_id (snd m) = bl_budget_limit_id (fst m)"
    "record_ok (stamp_member now m)" "0 \<le> rec_reserved_amount (snd m)"
  using assms
  by (auto simp: batch_member_valid_def reservation_record_valid_def record_ok_def stamp_member_def opt_nonneg_def split: prod.splits)

lemma dict_get_None_keys: "map fst d' = map fst d \<Longrightarrow> dict_get d' k = None \<longleftrightarrow> dict_get d k = None"
  by (metis list.set_map map_of_eq_None_iff)

lemma reserve_batch_keeps:
  assumes ok: "ledger_ok digest s"
  shows "keeps charge UNIV digest s (snd (reserve_batch zones digest now ms binding s))"
proof -
  obtain res s' where run: "reserve_batch zones digest now ms binding s = (res, s')" by fastforce
  from run have "keeps charge UNIV digest s s'"
  proof (cases rule: reserve_batch_cases)
    case (admitted projected u pending)
    have u: "keeps charge UNIV digest s u" "map fst (led_records u) = map fst (led_records s)" "led_bindings u = led_bindings s"
      using admit_members_keeps [OF ok admitted(4)] by auto
    note prep = prepare_batch_facts [OF admitted(1)]
    have bok: "bindings_ok u" using u(1) by (simp add: keeps_def ledger_ok_def)
    have "bindings_ok (consume_binding pending u)"
    proof (cases binding)
      case None
      with admitted(3) bok show ?thesis by (simp add: consume_binding_def)
    next
      case (Some b)
      with admitted(3) have "check_binding s b = Inr pending" by simp
      then show ?thesis by (rule consume_binding_ok [OF bok _ u(3)])
    qed
    then have cok: "ledger_ok digest (consume_binding pending u)"
      using u(1) by (simp add: ledger_ok_cong [of _ u] keeps_def)
    have "ledger_ok digest s' \<and> ledger_evolves charge (consume_binding pending u) s'"
      unfolding admitted(6)
    proof (rule admit_all_ok [OF cok])
      show "distinct (map rec_reservation_id (map (stamp_member now) ms))" using prep(1) by (simp add: comp_def)
      show "\<forall>r\<in>set (map (stamp_member now) ms). dict_get (led_records (consume_binding pending u)) (rec_reservation_id r) = None
          \<and> record_ok r \<and> rec_status r = Active"
      proof
        fix r assume "r \<in> set (map (stamp_member now) ms)"
        then obtain m where m: "m \<in> set ms" "r = stamp_member now m" by auto
        with admitted(2) dict_get_None_keys [OF u(2)] batch_member_facts [OF prep(3) [OF m(1)]]
        show "dict_get (led_records (consume_binding pending u)) (rec_reservation_id r) = None \<and> record_ok r \<and> rec_status r = Active"
          by simp
      qed
    qed
    then have "keeps charge UNIV digest u s'" by (auto simp: keeps_def ledger_evolves_def)
    with u(1) show ?thesis by (rule keeps_trans)
  qed (use ok admit_members_keeps [OF ok] in \<open>auto simp: keeps_refl\<close>)
  with run show ?thesis by simp
qed

lemma ledger_step_keeps:
  assumes "ledger_step zones digest s t" "ledger_ok digest s"
  shows "keeps (\<lambda>_. True) UNIV digest s t"
  using assms
  by (auto elim!: ledger_stepE intro: reserve_keeps reserve_batch_keeps mark_dispatched_keeps release_pre_keeps
      heartbeat_keeps reconcile_keeps release_keeps publish_keeps register_keeps claim_keeps)

interpretation ledger: invariant_system "ledger_step zones digest" "ledger_ok digest" for zones digest
  by unfold_locales (use ledger_step_keeps in \<open>auto simp: keeps_def\<close>)

interpretation terminal: stable_system "ledger_step zones digest" "ledger_ok digest"
    "\<lambda>s. dict_get (led_records s) rid = Some r \<and> rec_status r \<noteq> Active" for zones digest rid r
proof unfold_locales
  fix s t
  assume "ledger_step zones digest s t" "ledger_ok digest s" "dict_get (led_records s) rid = Some r \<and> rec_status r \<noteq> Active"
  with ledger_step_keeps show "dict_get (led_records t) rid = Some r \<and> rec_status r \<noteq> Active"
    by (fastforce simp: keeps_def ledger_evolves_def record_evolves_def)
qed

section \<open>What stays in the outbox\<close>

lemma published_again: "e\<lparr>st_event_published := st_event_published e\<rparr> = e" for e :: settlement_record
  by simp

lemma outbox_entry_same:
  "\<exists>b. e = e\<lparr>st_event_published := b\<rparr> \<and> (st_event_published e \<longrightarrow> b)" for e :: settlement_record
  using published_again [of e] by metis

lemma outbox_kept_refl [simp]: "outbox_kept s s"
  using outbox_entry_same by (auto simp: outbox_kept_def)

lemma outbox_kept_trans:
  assumes "outbox_kept a b" "outbox_kept b c"
  shows "outbox_kept a c"
  unfolding outbox_kept_def
proof (intro allI impI)
  fix sid e
  assume "dict_get (led_settlements a) sid = Some e"
  with assms(1) obtain x where x: "dict_get (led_settlements b) sid = Some (e\<lparr>st_event_published := x\<rparr>)"
    "st_event_published e \<longrightarrow> x" unfolding outbox_kept_def by blast
  with assms(2) obtain y where "dict_get (led_settlements c) sid = Some (e\<lparr>st_event_published := x, st_event_published := y\<rparr>)"
    "st_event_published (e\<lparr>st_event_published := x\<rparr>) \<longrightarrow> y" unfolding outbox_kept_def by blast
  with x(2) show "\<exists>b. dict_get (led_settlements c) sid = Some (e\<lparr>st_event_published := b\<rparr>) \<and> (st_event_published e \<longrightarrow> b)"
    by (intro exI [of _ y]) simp
qed

lemma outbox_kept_same: "led_settlements t = led_settlements s \<Longrightarrow> outbox_kept u s \<Longrightarrow> outbox_kept u t"
  by (simp add: outbox_kept_def)

lemma outbox_kept_new:
  "dict_get (led_settlements s) sid = None \<Longrightarrow> outbox_kept s (s\<lparr>led_settlements := dict_put sid t (led_settlements s)\<rparr>)"
  using outbox_entry_same by (auto simp: outbox_kept_def dict_simps)

lemma commit_settlement_outbox:
  assumes "commit_settlement digest r r' q s = (res, s')"
  shows "outbox_kept s s'"
  using assms
proof (cases rule: commit_settlement_cases)
  case (2 t)
  then show ?thesis by (intro outbox_kept_same [OF _ outbox_kept_new [OF 2(3)], of s']) simp
next
  case (3 t e)
  then show ?thesis by (intro outbox_kept_same [of s' s]) simp_all
qed simp

lemma commit_and_return_outbox: "outbox_kept s (snd (commit_and_return digest prepared s))"
  by (auto simp: commit_and_return_def split: sum.split prod.split dest: commit_settlement_outbox)

lemma commit_settlements_outbox: "commit_settlements digest work s = (res, s') \<Longrightarrow> outbox_kept s s'"
proof (induction work arbitrary: s)
  case (Cons w work)
  obtain r r' q where w: "w = (r, r', q)" by (cases w)
  obtain res1 u where u: "commit_settlement digest r r' q s = (res1, u)" by fastforce
  note one = commit_settlement_outbox [OF u]
  show ?case
  proof (cases res1)
    case (Inr x)
    with Cons.prems u w have "commit_settlements digest work u = (res, s')" by simp
    with one Cons.IH show ?thesis by (blast intro: outbox_kept_trans)
  qed (use Cons.prems u w one in simp)
qed simp

lemma release_pre_outbox: "outbox_kept s (snd (release_pre_provider_dispatch digest now ids d reason at_time s))"
  by (auto simp: release_pre_provider_dispatch_def split: sum.split prod.split dest: commit_settlements_outbox)

lemma reap_one_outbox: "reap_one digest now ttl r s = (res, s') \<Longrightarrow> outbox_kept s s'"
  by (auto simp: reap_one_def split: sum.splits prod.splits dest: commit_settlement_outbox)

lemma reap_loop_outbox: "reap_loop digest now ttl l items s = (res, s') \<Longrightarrow> outbox_kept s s'"
proof (induction items arbitrary: s)
  case (Cons x items)
  obtain k r where x: "x = (k, r)" by (cases x)
  obtain res1 u where u: "reap_one digest now ttl r s = (res1, u)" by fastforce
  note one = reap_one_outbox [OF u]
  consider "\<not> reapable now (Some ttl) l r" | "reapable now (Some ttl) l r" "isl res1"
    | "reapable now (Some ttl) l r" "\<not> isl res1" by blast
  then show ?case
  proof cases
    case 3
    then have "reap_loop digest now ttl l items u = (res, s')" using Cons.prems u by (cases res1) (simp_all add: x)
    with one Cons.IH show ?thesis by (blast intro: outbox_kept_trans)
  next
    case 2
    with Cons.prems u one show ?thesis by (cases res1) (simp_all add: x)
  qed (use Cons x in simp)
qed simp

lemma reap_expired_outbox: "reap_expired digest now l s = (res, s') \<Longrightarrow> outbox_kept s s'"
  by (auto simp: reap_expired_def split: option.splits dest: reap_loop_outbox)

lemma admit_record_settlements [simp]: "led_settlements (admit_record r s) = led_settlements s"
  by (simp add: admit_record_def)

lemma fold_admit_settlements [simp]: "led_settlements (fold admit_record rs s) = led_settlements s"
  by (induction rs arbitrary: s) simp_all

lemma fold_put_settlements [simp]: "led_settlements (fold put_record rs s) = led_settlements s"
  by (induction rs arbitrary: s) simp_all

lemma admit_members_outbox: "admit_members zones digest now ms s = (res, s') \<Longrightarrow> outbox_kept s s'"
proof (induction ms arbitrary: s res s')
  case (Cons m ms)
  obtain r1 u where u: "reap_expired digest now (fst m) s = (r1, u)" by fastforce
  obtain r2 t where t: "admit_members zones digest now ms u = (r2, t)" by fastforce
  have "s' = u \<or> s' = t"
    using Cons.prems u t by (auto split: sum.splits option.splits prod.splits)
  then show ?case
    using reap_expired_outbox [OF u] Cons.IH [OF t] by (auto intro: outbox_kept_trans)
qed simp

lemma reserve_outbox: "outbox_kept s (snd (reserve zones digest now fresh l q s))"
proof -
  obtain res s' where run: "reserve zones digest now fresh l q s = (res, s')" by fastforce
  from run have "outbox_kept s s'"
  proof (cases rule: reserve_cases)
    case (admitted amount current rid r u)
    then show ?thesis using reap_expired_outbox by (intro outbox_kept_same [of s' u]) auto
  qed (auto dest: reap_expired_outbox)
  with run show ?thesis by simp
qed

lemma reserve_batch_outbox: "outbox_kept s (snd (reserve_batch zones digest now ms binding s))"
proof -
  obtain res s' where run: "reserve_batch zones digest now ms binding s = (res, s')" by fastforce
  from run have "outbox_kept s s'"
  proof (cases rule: reserve_batch_cases)
    case (admitted projected u pending)
    then show ?thesis using admit_members_outbox by (intro outbox_kept_same [of s' u]) auto
  qed (auto dest: admit_members_outbox)
  with run show ?thesis by simp
qed

lemma publish_outbox: "outbox_kept s (snd (mark_settlement_event_published sid eid s))"
proof (cases "snd (mark_settlement_event_published sid eid s) = s")
  case False
  then obtain t where get: "dict_get (led_settlements s) sid = Some t"
    and res: "snd (mark_settlement_event_published sid eid s)
      = s\<lparr>led_settlements := dict_put sid (t\<lparr>st_event_published := True\<rparr>) (led_settlements s)\<rparr>"
    by (auto simp: mark_settlement_event_published_def res_simps split: sum.splits option.splits if_splits)
  show ?thesis unfolding res outbox_kept_def
  proof (intro allI impI)
    fix k e
    assume e: "dict_get (led_settlements s) k = Some e"
    show "\<exists>b. dict_get (led_settlements (s\<lparr>led_settlements := dict_put sid (t\<lparr>st_event_published := True\<rparr>) (led_settlements s)\<rparr>)) k
        = Some (e\<lparr>st_event_published := b\<rparr>) \<and> (st_event_published e \<longrightarrow> b)"
      using e get outbox_entry_same [of e] by (cases "k = sid") (auto simp: dict_simps)
  qed
qed simp

lemma ledger_step_outbox:
  assumes "ledger_step zones digest s t"
  shows "outbox_kept s t"
proof -
  have "led_settlements (snd (mark_dispatched now ids d at_time s)) = led_settlements s"
    "led_settlements (snd (heartbeat now rid s)) = led_settlements s"
    "led_settlements (snd (register_budget_binding bid authority allowance s)) = led_settlements s"
    "led_settlements (snd (claim_reservation_identity rid session publication s)) = led_settlements s"
    for now ids d at_time s rid bid authority allowance session publication
    by (auto simp: mark_dispatched_def heartbeat_def register_budget_binding_def claim_reservation_identity_def Let_def res_simps
        split: sum.splits option.splits if_splits)
  note same = this [THEN outbox_kept_same, OF outbox_kept_refl]
  from assms show ?thesis
    by (cases rule: ledger_stepE)
      (auto simp: reconcile_def release_def intro: same reserve_outbox reserve_batch_outbox release_pre_outbox
        commit_and_return_outbox publish_outbox)
qed

lemma ledger_run_outbox: "(ledger_step zones digest)\<^sup>*\<^sup>* s t \<Longrightarrow> outbox_kept s t"
  by (induction rule: rtranclp_induct) (auto intro: outbox_kept_trans ledger_step_outbox)

lemma ledger_run_evolves:
  assumes "(ledger_step zones digest)\<^sup>*\<^sup>* s t" "ledger_ok digest s"
  shows "ledger_ok digest t \<and> ledger_evolves (\<lambda>_. True) s t"
  using assms
proof (induction rule: rtranclp_induct)
  case (step t u)
  then show ?case using ledger_step_keeps [of zones digest t u]
    by (auto simp: keeps_def intro: ledger_evolves_trans)
qed simp

lemma new_ledger_ok:
  assumes "new_ledger ttl = Inr s" 
  shows "ledger_ok digest s"
  using assms
  by (auto simp: new_ledger_def res_simps ledger_ok_def records_ok_def outbox_ok_def index_ok_def bindings_ok_def session_ids_def)

text \<open>
  C1. Every state a run of the ledger reaches, through any sequence of its coroutines with any
  arguments and whatever they return or raise, is well formed: identifiers match keys, amounts are not
  negative, exactly the reconciled reservations carry an actual amount, dispatch identifier and time come
  together, the session index is the sorted set of the session's reservations, the outbox holds exactly
  one settlement per settled reservation, computed from it, and no binding is consumed past its
  allowance or twice by one consumption.
\<close>
theorem ledger_invariant:
  assumes "new_ledger ttl = Inr s0" "(ledger_step zones digest)\<^sup>*\<^sup>* s0 s"
  shows "ledger_ok digest s"
  using assms new_ledger_ok ledger.inv_run by blast

theorem ledger_invariant_witness: "ledger_ok sample_digest sample_reconciled"
  by (rule ledger_invariant [OF sample_new sample_reconciled_run])

text \<open>
  C18. A settled reservation is final: from the state where it is released or reconciled, no run changes
  any field of it, and the settlement it has in the outbox there is the settlement of that reservation
  and stays the same entry, field by field: all a run may do to it is mark its event as published, and
  that mark is never taken back.
\<close>
theorem settled_reservation_frozen:
  assumes "new_ledger ttl = Inr s0" "(ledger_step zones digest)\<^sup>*\<^sup>* s0 s" "(ledger_step zones digest)\<^sup>*\<^sup>* s t"
    "dict_get (led_records s) rid = Some r" "rec_status r \<noteq> Active"
  shows "dict_get (led_records t) rid = Some r \<and>
    (\<exists>e b. dict_get (led_settlements s) (budget_settlement_id digest rid) = Some e \<and> settles digest e r \<and>
       dict_get (led_settlements t) (budget_settlement_id digest rid) = Some (e\<lparr>st_event_published := b\<rparr>) \<and>
       (st_event_published e \<longrightarrow> b))"
proof -
  have ok: "ledger_ok digest s" using assms(1,2) new_ledger_ok ledger.inv_run by blast
  then have "dict_get (led_records t) rid = Some r \<and> rec_status r \<noteq> Active"
    using terminal.stable_run [OF assms(3)] assms(4,5) by blast
  moreover obtain e where e: "dict_get (led_settlements s) (budget_settlement_id digest rid) = Some e" "settles digest e r"
    using ok outbox_terminal [OF _ assms(4,5)] by (auto simp: ledger_ok_def)
  moreover from ledger_run_outbox [OF assms(3)] e(1) obtain b
    where "dict_get (led_settlements t) (budget_settlement_id digest rid) = Some (e\<lparr>st_event_published := b\<rparr>)"
      "st_event_published e \<longrightarrow> b" unfolding outbox_kept_def by blast
  ultimately show ?thesis by blast
qed

theorem settled_reservation_frozen_witness:
  "dict_get (led_records (snd (release sample_digest 9 ''r1'' ''again'' None sample_released))) ''r1''
     = dict_get (led_records sample_released) ''r1''
   \<and> map_option rec_status (dict_get (led_records sample_released) ''r1'') = Some Released"
proof -
  have "map_option rec_status (dict_get (led_records sample_released) ''r1'') = Some Released" by code_simp
  then obtain r where r: "dict_get (led_records sample_released) ''r1'' = Some r" "rec_status r = Released" by auto
  have "(ledger_step utc_zones sample_digest)\<^sup>*\<^sup>* sample_released (snd (release sample_digest 9 ''r1'' ''again'' None sample_released))"
    by (rule r_into_rtranclp) (rule step_release)
  from settled_reservation_frozen [OF sample_new sample_released_run this r(1)] r show ?thesis by auto
qed

end
