(* ===== verification/Ledger_Spending.thy ===== *)
theory Ledger_Spending
  imports Ledger_Invariant
begin

text \<open>
  Money: what the reservations of a ceiling add up to, admission against the ceiling for one
  reservation and for an atomic batch, and the ceiling over whole runs.
\<close>

section \<open>Definitions\<close>

definition limit_charge :: "budget_limit \<Rightarrow> datetime option \<Rightarrow> datetime option \<Rightarrow> reservation_record \<Rightarrow> rat" where
  "limit_charge l since until r = (if reservation_matches_limit r l then record_charge since until r else 0)"

definition usage_of :: "budget_limit \<Rightarrow> datetime option \<Rightarrow> datetime option \<Rightarrow> (string, reservation_record) dict \<Rightarrow> rat" where
  "usage_of l since until d = sum_list (map (\<lambda>(k, r). limit_charge l since until r) d)"

text \<open>All-time charges of a reservation never grow except by a reconciliation above the reservation.\<close>

definition covered :: "reservation_record \<Rightarrow> bool" where
  "covered r \<longleftrightarrow> opt_or_zero (rec_actual_amount r) \<le> rec_reserved_amount r"

definition covered_under :: "budget_limit \<Rightarrow> reservation_record \<Rightarrow> bool" where
  "covered_under l r \<longleftrightarrow> (reservation_matches_limit r l \<longrightarrow> covered r)"

inductive covered_step :: "zone_db \<Rightarrow> (json \<Rightarrow> string) \<Rightarrow> budget_limit \<Rightarrow> ledger \<Rightarrow> ledger \<Rightarrow> bool"
  for zones :: zone_db and digest :: "json \<Rightarrow> string" and L :: budget_limit
where
  covered_reserve: "(bl_budget_limit_id l = bl_budget_limit_id L \<Longrightarrow>
      bl_window l = bl_window L \<and> bl_max_estimated_cost l = bl_max_estimated_cost L) \<Longrightarrow>
    covered_step zones digest L s (snd (reserve zones digest now fresh l q s))"
| covered_batch: "(\<And>l r. (l, r) \<in> set ms \<Longrightarrow> bl_budget_limit_id l = bl_budget_limit_id L \<Longrightarrow>
      bl_window l = bl_window L \<and> bl_max_estimated_cost l = bl_max_estimated_cost L) \<Longrightarrow>
    covered_step zones digest L s (snd (reserve_batch zones digest now ms binding s))"
| covered_mark: "covered_step zones digest L s (snd (mark_dispatched now ids d at_time s))"
| covered_release_pre: "covered_step zones digest L s (snd (release_pre_provider_dispatch digest now ids d reason at_time s))"
| covered_heartbeat: "covered_step zones digest L s (snd (heartbeat now rid s))"
| covered_reconcile: "(\<And>r. dict_get (led_records s) rid = Some r \<Longrightarrow> reservation_matches_limit r L \<Longrightarrow> actual \<le> rec_reserved_amount r) \<Longrightarrow>
    covered_step zones digest L s (snd (reconcile digest now rid actual kind reason at_time identity pricing s))"
| covered_release: "covered_step zones digest L s (snd (release digest now rid reason at_time s))"
| covered_publish: "covered_step zones digest L s (snd (mark_settlement_event_published sid eid s))"
| covered_register: "covered_step zones digest L s (snd (register_budget_binding bid authority allowance s))"
| covered_claim: "covered_step zones digest L s (snd (claim_reservation_identity rid session publication s))"

inductive_cases covered_stepE: "covered_step zones digest L s t"

definition spend :: "budget_limit \<Rightarrow> ledger \<Rightarrow> rat" where
  "spend l s = usage_of l None None (led_records s)"

definition cap_held :: "(json \<Rightarrow> string) \<Rightarrow> budget_limit \<Rightarrow> ledger \<Rightarrow> bool" where
  "cap_held digest L s \<longleftrightarrow> ledger_ok digest s \<and> spend L s \<le> bl_max_estimated_cost L"

section \<open>Spending\<close>

lemma used_amount_usage:
  "ledger_used_amount zones (dict_values d) l now =
     bind_res (bounds zones (bl_window l) now) (\<lambda>(since, until). Inr (usage_of l since until d))"
proof -
  have "sum_list (map (record_charge a b) (filter (\<lambda>r. reservation_matches_limit r l) (map snd d)))
    = sum_list (map (\<lambda>(k, r). limit_charge l a b r) d)" for a b
    by (induction d) (auto simp: limit_charge_def)
  then show ?thesis by (simp add: ledger_used_amount_def dict_values_def usage_of_def)
qed

lemma usage_put_new:
  "dict_get d k = None \<Longrightarrow> usage_of l a b (dict_put k r d) = usage_of l a b d + limit_charge l a b r"
  by (simp add: dict_put_absent usage_of_def)

lemma usage_as_sum:
  assumes "dict_ok d"
  shows "usage_of l a b d = (\<Sum>k\<in>fst ` set d. limit_charge l a b (the (dict_get d k)))"
proof -
  have "usage_of l a b d = sum_list (map (\<lambda>k. limit_charge l a b (the (dict_get d k))) (map fst d))"
    using assms by (auto simp: usage_of_def dict_in_set split: prod.splits intro!: arg_cong [of _ _ sum_list] map_cong)
  also have "\<dots> = (\<Sum>k\<in>fst ` set d. limit_charge l a b (the (dict_get d k)))"
    using assms by (subst sum_list_distinct_conv_sum_set) (auto simp: dict_ok_def)
  finally show ?thesis .
qed

text \<open>Usage cannot grow when no reservation appears and none is charged more.\<close>

lemma usage_mono:
  assumes ok: "dict_ok d" "dict_ok d'" and keys: "\<And>k. dict_get d k = None \<Longrightarrow> dict_get d' k = None"
    and pointwise: "\<And>k r. dict_get d k = Some r \<Longrightarrow> \<exists>r'. dict_get d' k = Some r' \<and> limit_charge l a b r' \<le> limit_charge l a b r"
  shows "usage_of l a b d' \<le> usage_of l a b d"
proof -
  have dom: "fst ` set d' = fst ` set d"
  proof -
    have "k \<in> fst ` set d' \<longleftrightarrow> k \<in> fst ` set d" for k
      using keys [of k] pointwise [of k] map_of_eq_None_iff [of d k] map_of_eq_None_iff [of d' k]
      by (metis not_None_eq option.distinct(1))
    then show ?thesis by blast
  qed
  have "limit_charge l a b (the (dict_get d' k)) \<le> limit_charge l a b (the (dict_get d k))" if "k \<in> fst ` set d" for k
    using that pointwise [of k] map_of_eq_None_iff [of d k] by (metis not_None_eq option.sel)
  then show ?thesis
    unfolding usage_as_sum [OF ok(1)] usage_as_sum [OF ok(2)] dom by (rule sum_mono)
qed

lemma evolves_charge_le:
  assumes "record_evolves (covered_under l) r r'" "record_ok r"
  shows "limit_charge l None None r' \<le> limit_charge l None None r"
  using assms
  by (cases "rec_status r'")
    (auto simp: record_evolves_def limit_charge_def record_charge_def reservation_matches_limit_def covered_under_def
      covered_def in_window_def record_ok_def)

lemma keeps_usage_le:
  assumes "keeps (covered_under l) {} digest s s'" "ledger_ok digest s"
  shows "usage_of l None None (led_records s') \<le> usage_of l None None (led_records s)"
proof (rule usage_mono)
  show "dict_ok (led_records s)" "dict_ok (led_records s')" using assms by (auto simp: keeps_def intro: ledger_ok_dict)
  show "dict_get (led_records s') k = None" if "dict_get (led_records s) k = None" for k
    using assms(1) that by (simp add: keeps_def)
  show "\<exists>r'. dict_get (led_records s') k = Some r' \<and> limit_charge l None None r' \<le> limit_charge l None None r"
    if get: "dict_get (led_records s) k = Some r" for k r
  proof -
    have "\<exists>r'. dict_get (led_records s') k = Some r' \<and> record_evolves (covered_under l) r r'"
      using assms(1) get by (simp add: keeps_def ledger_evolves_def)
    then show ?thesis using evolves_charge_le ledger_ok_records [OF assms(2) get] by blast
  qed
qed

lemma make_reservation_result_Inr [res_simps]:
  "make_reservation_result l i a req act rec = Inr x \<Longrightarrow>
     res_accepted x = a \<and> res_requested x = req \<and> res_actual x = act \<and> res_record x = rec \<and> res_maximum x = bl_max_estimated_cost l"
  by (auto simp: make_reservation_result_def split: if_splits)

lemma admit_record_records [simp]:
  "led_records (admit_record r s) = dict_put (rec_reservation_id r) r (led_records s)"
  by (simp add: admit_record_def)

lemma admit_usage:
  "dict_get (led_records s) (rec_reservation_id r) = None \<Longrightarrow>
     usage_of l a b (led_records (admit_record r s)) = usage_of l a b (led_records s) + limit_charge l a b r"
  by (simp add: usage_put_new)

lemma new_record_simps [simp]:
  "rec_reservation_id (new_reservation_record l q rid f a now) = rid"
  "rec_status (new_reservation_record l q rid f a now) = Active"
  "rec_budget_limit_id (new_reservation_record l q rid f a now) = bl_budget_limit_id l"
  "rec_reserved_amount (new_reservation_record l q rid f a now) = a"
  by (simp_all add: new_reservation_record_def)

text \<open>
  C26. An accepted reservation is stored active for the requested amount, the projected usage the result
  reports is the usage the ledger measures afterwards over the limit's window, and it does not exceed the
  limit's ceiling.
\<close>
theorem accepted_reserve_within_limit:
  assumes run: "reserve zones digest now fresh l q s = (Inr res, s')" and acc: "res_accepted res"
  shows "ledger_used_amount zones (dict_values (led_records s')) l now = Inr (res_actual res)
    \<and> res_actual res \<le> bl_max_estimated_cost l
    \<and> (\<exists>r. res_record res = Some r \<and> dict_get (led_records s') (rec_reservation_id r) = Some r
         \<and> rec_status r = Active \<and> rec_reserved_amount r = res_requested res)"
  using run
proof (cases rule: reserve_cases)
  case (rejected amount current)
  then have "make_reservation_result l (rq_attempt q) False amount (current + amount) None = Inr res" by simp
  from make_reservation_result_Inr [OF this] acc show ?thesis by simp
next
  case (admitted amount current rid r u)
  then have "make_reservation_result l (rq_attempt q) True amount (current + amount) (Some r) = Inr res" by simp
  note res = make_reservation_result_Inr [OF this]
  obtain a b where b: "bounds zones (bl_window l) now = Inr (a, b)" and cur: "current = usage_of l a b (led_records u)"
    using admitted(3) by (auto simp: used_amount_usage res_simps)
  have "limit_charge l a b r = amount"
    by (simp add: admitted(5) limit_charge_def reservation_matches_limit_def record_charge_def)
  then have "usage_of l a b (led_records s') = current + amount"
    using admit_usage [of u r l a b] admitted(5,7,8) cur by simp
  moreover have "dict_get (led_records s') (rec_reservation_id r) = Some r"
    by (simp add: admitted(8) dict_simps)
  ultimately show ?thesis using res admitted(4,5) b by (simp add: used_amount_usage)
qed simp_all

theorem accepted_reserve_within_limit_witness:
  "ledger_used_amount utc_zones (dict_values (led_records sample_reserved)) sample_ceiling 0 = Inr (3 / 500)
   \<and> 3 / 500 \<le> bl_max_estimated_cost sample_ceiling"
proof -
  let ?run = "reserve utc_zones sample_digest 0 '''' sample_ceiling (sample_request ''r1'' (3 / 500) fmempty) sample_ledger"
  have "case fst ?run of Inr res \<Rightarrow> res_accepted res \<and> res_actual res = 3 / 500 | _ \<Rightarrow> False" by code_simp
  then obtain res where res: "fst ?run = Inr res" "res_accepted res" "res_actual res = 3 / 500" by (auto split: sum.splits)
  then have "?run = (Inr res, sample_reserved)" by (simp add: sample_reserved_def prod_eq_iff)
  from accepted_reserve_within_limit [OF this res(2)] res(3) show ?thesis by simp
qed

lemma covered_step_ledger_step: "covered_step zones digest L s t \<Longrightarrow> ledger_step zones digest s t"
  by (auto elim!: covered_stepE intro: ledger_step.intros)

lemma reap_usage_le:
  assumes ok: "ledger_ok digest s" and run: "reap_expired digest now l s = (res, s')"
  shows "usage_of L a b (led_records s') \<le> usage_of L a b (led_records s)"
proof -
  have rel: "reap_rel now (led_ttl s) l s s'" and ok': "ledger_ok digest s'" using reap_expired_ok [OF ok run] by auto
  show ?thesis
  proof (rule usage_mono)
    show "dict_ok (led_records s)" "dict_ok (led_records s')" using ok ok' by (auto intro: ledger_ok_dict)
    show "dict_get (led_records s') k = None" if "dict_get (led_records s) k = None" for k
      using reap_rel_keys [OF rel] that by simp
    show "\<exists>r'. dict_get (led_records s') k = Some r' \<and> limit_charge L a b r' \<le> limit_charge L a b r"
      if get: "dict_get (led_records s) k = Some r" for k r
    proof -
      have "limit_charge L a b r' \<le> limit_charge L a b r" if "rec_status r' = Released" "rec_status r = Active" for r'
        using that ledger_ok_records [OF ok get] by (simp add: limit_charge_def record_charge_def record_ok_def)
      with reap_rel_get [OF rel get] show ?thesis by (auto simp: reapable_def)
    qed
  qed
qed

lemma reap_spend_le:
  "ledger_ok digest s \<Longrightarrow> reap_expired digest now l s = (res, s') \<Longrightarrow> spend L s' \<le> spend L s"
  by (simp add: spend_def reap_usage_le)

lemma limit_charge_other:
  "\<not> reservation_matches_limit r l \<Longrightarrow> limit_charge l a b r = 0" by (simp add: limit_charge_def)

lemma reserve_cap:
  assumes ok: "ledger_ok digest s" and cap: "spend L s \<le> bl_max_estimated_cost L"
    and all_time: "bw_kind (bl_window L) = AllTime"
    and same: "bl_budget_limit_id l = bl_budget_limit_id L \<Longrightarrow> bl_window l = bl_window L \<and> bl_max_estimated_cost l = bl_max_estimated_cost L"
  shows "spend L (snd (reserve zones digest now fresh l q s)) \<le> bl_max_estimated_cost L"
proof -
  obtain res s' where run: "reserve zones digest now fresh l q s = (res, s')" by fastforce
  have reaped: "spend L s' \<le> bl_max_estimated_cost L" if "reap_expired digest now l s = (x, s')" for x
    using reap_spend_le [OF ok that, of L] cap by simp
  from run have "spend L s' \<le> bl_max_estimated_cost L"
  proof (cases rule: reserve_cases)
    case (admitted amount current rid r u)
    have u: "spend L u \<le> spend L s" by (rule reap_spend_le [OF ok admitted(1)])
    have s': "spend L s' = spend L u + limit_charge L None None r"
      using admit_usage [of u r L None None] admitted(5,7,8) by (simp add: spend_def)
    show ?thesis
    proof (cases "bl_budget_limit_id l = bl_budget_limit_id L")
      case True
      with same all_time have b: "bounds zones (bl_window l) now = Inr (None, None)" by (simp add: bounds_all_time)
      have "current = spend L u"
        using admitted(3) b True by (simp add: used_amount_usage spend_def usage_of_def limit_charge_def reservation_matches_limit_def)
      moreover have "limit_charge L None None r = amount"
        using True by (simp add: admitted(5) limit_charge_def reservation_matches_limit_def record_charge_def)
      ultimately show ?thesis using s' admitted(4) same [OF True] by simp
    next
      case False
      then have "limit_charge L None None r = 0"
        by (simp add: admitted(5) limit_charge_def reservation_matches_limit_def)
      with s' u cap show ?thesis by simp
    qed
  qed (use cap reaped in \<open>auto\<close>)
  with run show ?thesis by simp
qed

lemma fold_admit_usage:
  assumes "distinct (map rec_reservation_id rs)" "\<forall>r\<in>set rs. dict_get (led_records s) (rec_reservation_id r) = None"
  shows "usage_of l a b (led_records (fold admit_record rs s)) = usage_of l a b (led_records s) + sum_list (map (limit_charge l a b) rs)"
  using assms
proof (induction rs arbitrary: s)
  case (Cons r rs)
  have "\<forall>x\<in>set rs. dict_get (led_records (admit_record r s)) (rec_reservation_id x) = None"
  proof
    fix x assume "x \<in> set rs"
    moreover from this have "rec_reservation_id x \<in> rec_reservation_id ` set rs" by simp
    then have "rec_reservation_id x \<noteq> rec_reservation_id r" using Cons.prems(1) by auto
    ultimately show "dict_get (led_records (admit_record r s)) (rec_reservation_id x) = None"
      using Cons.prems(2) by (simp add: dict_simps)
  qed
  with Cons show ?case by (simp add: usage_put_new)
qed simp

lemma fold_admit_get:
  assumes "distinct (map rec_reservation_id rs)" "r \<in> set rs"
  shows "dict_get (led_records (fold admit_record rs s)) (rec_reservation_id r) = Some r"
proof -
  have keep: "dict_get (led_records (fold admit_record xs u)) k = dict_get (led_records u) k"
    if "k \<notin> rec_reservation_id ` set xs" for xs u k
    using that by (induction xs arbitrary: u) (simp_all add: dict_simps)
  show ?thesis
    using assms
  proof (induction rs arbitrary: s)
    case (Cons x xs)
    show ?case
    proof (cases "x = r")
      case True
      with Cons.prems(1) keep [of "rec_reservation_id r" xs] show ?thesis by (simp add: dict_simps)
    next
      case False
      with Cons show ?thesis by simp
    qed
  qed simp
qed

lemma own_member_charge:
  assumes "distinct (map (\<lambda>m. bl_budget_limit_id (fst m)) ms)" "m \<in> set ms"
    and members: "\<forall>m\<in>set ms. rec_status (snd m) = Active \<and> rec_budget_limit_id (snd m) = bl_budget_limit_id (fst m)"
  shows "sum_list (map (limit_charge (fst m) a b \<circ> stamp_member now) ms) = rec_reserved_amount (snd m)"
proof -
  have f: "limit_charge (fst m) a b (stamp_member now x)
    = (if bl_budget_limit_id (fst x) = bl_budget_limit_id (fst m) then rec_reserved_amount (snd x) else 0)" if "x \<in> set ms" for x
    using that members by (auto simp: limit_charge_def reservation_matches_limit_def record_charge_def)
  have other: "sum_list (map (\<lambda>x. if bl_budget_limit_id (fst x) = i then rec_reserved_amount (snd x) else 0) xs) = (0 :: rat)"
    if "i \<notin> (\<lambda>m. bl_budget_limit_id (fst m)) ` set xs" for xs :: "batch_member list" and i
    using that by (induction xs) auto
  have "sum_list (map (limit_charge (fst m) a b \<circ> stamp_member now) ms)
    = sum_list (map (\<lambda>x. if bl_budget_limit_id (fst x) = bl_budget_limit_id (fst m) then rec_reserved_amount (snd x) else 0) ms)"
    using f by (intro arg_cong [of _ _ sum_list] map_cong) auto
  also have "\<dots> = rec_reserved_amount (snd m)"
    using assms(1,2)
  proof (induction ms)
    case (Cons x xs)
    show ?case
    proof (cases "x = m")
      case True
      with Cons.prems(1) other [of "bl_budget_limit_id (fst m)" xs] show ?thesis by simp
    next
      case False
      with Cons.prems have "m \<in> set xs" by simp
      have "bl_budget_limit_id (fst x) \<notin> (\<lambda>m. bl_budget_limit_id (fst m)) ` set xs" using Cons.prems(1) by simp
      with \<open>m \<in> set xs\<close> have "bl_budget_limit_id (fst x) \<noteq> bl_budget_limit_id (fst m)" by (metis imageI)
      with Cons \<open>m \<in> set xs\<close> show ?thesis by simp
    qed
  qed simp
  finally show ?thesis .
qed

lemma batch_failure_None:
  "batch_failure m used = Inr None \<Longrightarrow> used + rec_reserved_amount (snd m) \<le> bl_max_estimated_cost (fst m)"
  by (auto simp: batch_failure_def Let_def res_simps split: prod.splits if_splits)

lemma admit_members_within:
  assumes "ledger_ok digest s" "admit_members zones digest now ms s = (Inr (Inr projected), s')"
  shows "(\<forall>L a b. usage_of L a b (led_records s') \<le> usage_of L a b (led_records s)) \<and>
    (\<forall>m\<in>set ms. \<exists>a b. bounds zones (bl_window (fst m)) now = Inr (a, b) \<and>
       usage_of (fst m) a b (led_records s') + rec_reserved_amount (snd m) \<le> bl_max_estimated_cost (fst m))"
  using assms
proof (induction ms arbitrary: s projected)
  case (Cons m ms)
  obtain r1 u where u: "reap_expired digest now (fst m) s = (r1, u)" by fastforce
  from Cons.prems(2) u obtain used rest where r1: "r1 = Inr ()"
    and used: "ledger_used_amount zones (dict_values (led_records u)) (fst m) now = Inr used"
    and nofail: "batch_failure m used = Inr None"
    and rest: "admit_members zones digest now ms u = (Inr (Inr rest), s')"
    by (auto split: sum.splits option.splits prod.splits)
  have uok: "ledger_ok digest u" using reap_expired_ok [OF Cons.prems(1) u] by simp
  note IH = Cons.IH [OF uok rest]
  have first: "usage_of L a b (led_records u) \<le> usage_of L a b (led_records s)" for L a b
    by (rule reap_usage_le [OF Cons.prems(1) u])
  obtain a b where b: "bounds zones (bl_window (fst m)) now = Inr (a, b)" and eq: "used = usage_of (fst m) a b (led_records u)"
    using used by (auto simp: used_amount_usage res_simps)
  have "usage_of (fst m) a b (led_records s') + rec_reserved_amount (snd m) \<le> bl_max_estimated_cost (fst m)"
    using batch_failure_None [OF nofail] IH eq by (meson add_right_mono order_trans)
  moreover have "usage_of L a b (led_records s') \<le> usage_of L a b (led_records s)" for L a b
    using IH first order_trans by blast
  ultimately show ?case using b IH by auto
qed simp

lemma usage_of_limit: "bl_budget_limit_id l = bl_budget_limit_id L \<Longrightarrow> usage_of l a b d = usage_of L a b d"
  by (simp add: usage_of_def limit_charge_def reservation_matches_limit_def)

lemma admitted_batch:
  assumes ok: "ledger_ok digest s" and prep: "prepare_batch zones ms = Inr ms"
    and new: "\<forall>m\<in>set ms. dict_get (led_records s) (rec_reservation_id (snd m)) = None"
    and adm: "admit_members zones digest now ms s = (Inr (Inr projected), u)"
    and s': "s' = fold admit_record (map (stamp_member now) ms) (consume_binding pending u)"
  shows "usage_of L a b (led_records s') = usage_of L a b (led_records u) + sum_list (map (limit_charge L a b \<circ> stamp_member now) ms)"
    and "m \<in> set ms \<Longrightarrow> dict_get (led_records s') (rec_reservation_id (snd m)) = Some (stamp_member now m)"
proof -
  have dist: "distinct (map rec_reservation_id (map (stamp_member now) ms))"
    using prepare_batch_facts(1) [OF prep] by (simp add: comp_def)
  have keys: "map fst (led_records u) = map fst (led_records s)" using admit_members_keeps [OF ok adm] by simp
  have "\<forall>r\<in>set (map (stamp_member now) ms). dict_get (led_records (consume_binding pending u)) (rec_reservation_id r) = None"
    using new dict_get_None_keys [OF keys] by simp
  from fold_admit_usage [OF dist this]
  show "usage_of L a b (led_records s') = usage_of L a b (led_records u) + sum_list (map (limit_charge L a b \<circ> stamp_member now) ms)"
    by (simp add: s')
  show "dict_get (led_records s') (rec_reservation_id (snd m)) = Some (stamp_member now m)" if "m \<in> set ms"
    using fold_admit_get [OF dist, of "stamp_member now m" "consume_binding pending u"] that by (simp add: s')
qed

lemma admitted_batch_within:
  assumes ok: "ledger_ok digest s" and prep: "prepare_batch zones ms = Inr ms"
    and new: "\<forall>m\<in>set ms. dict_get (led_records s) (rec_reservation_id (snd m)) = None"
    and adm: "admit_members zones digest now ms s = (Inr (Inr projected), u)"
    and s': "s' = fold admit_record (map (stamp_member now) ms) (consume_binding pending u)" and m: "m \<in> set ms"
  obtains a b where "bounds zones (bl_window (fst m)) now = Inr (a, b)"
    "usage_of (fst m) a b (led_records s') \<le> bl_max_estimated_cost (fst m)"
proof -
  from admit_members_within [OF ok adm] m obtain a b where b: "bounds zones (bl_window (fst m)) now = Inr (a, b)"
    and le: "usage_of (fst m) a b (led_records u) + rec_reserved_amount (snd m) \<le> bl_max_estimated_cost (fst m)" by blast
  have "sum_list (map (limit_charge (fst m) a b \<circ> stamp_member now) ms) = rec_reserved_amount (snd m)"
    using prepare_batch_facts(2) [OF prep] m
  proof (rule own_member_charge)
    show "\<forall>m\<in>set ms. rec_status (snd m) = Active \<and> rec_budget_limit_id (snd m) = bl_budget_limit_id (fst m)"
      using batch_member_facts(1,2) [OF prepare_batch_facts(3) [OF prep]] by blast
  qed
  with admitted_batch(1) [OF ok prep new adm s', of "fst m" a b] le b that show thesis by simp
qed

text \<open>
  C10. A batch reservation is all or nothing.  Either every member is stored, stamped with the ledger's
  clock, and afterwards the measured usage of every member's limit is within its ceiling; or the set of
  reservations of the ledger is what it was (a refusal, a conflict, an error, or the replay of a batch
  stored before).
\<close>
theorem batch_all_or_nothing:
  assumes "new_ledger ttl = Inr s0" "(ledger_step zones digest)\<^sup>*\<^sup>* s0 s"
    and run: "reserve_batch zones digest now ms binding s = (res, s')"
  shows "(\<exists>b. res = Inr b \<and> bb_failure b = None \<and> bb_records b = map (stamp_member now) ms \<and>
       (\<forall>m\<in>set ms. dict_get (led_records s') (rec_reservation_id (snd m)) = Some (stamp_member now m) \<and>
          (\<exists>used. ledger_used_amount zones (dict_values (led_records s')) (fst m) now = Inr used \<and>
             used \<le> bl_max_estimated_cost (fst m))))
     \<or> map fst (led_records s') = map fst (led_records s)"
proof -
  have ok: "ledger_ok digest s" using assms(1,2) new_ledger_ok ledger.inv_run by blast
  show ?thesis using run
  proof (cases rule: reserve_batch_cases)
    case (admitted projected u pending)
    have "\<exists>used. ledger_used_amount zones (dict_values (led_records s')) (fst m) now = Inr used \<and> used \<le> bl_max_estimated_cost (fst m)"
      if "m \<in> set ms" for m
      by (rule admitted_batch_within [OF ok admitted(1,2,4,6) that]) (simp add: used_amount_usage)
    moreover have "res = Inr \<lparr>bb_records = map (stamp_member now) ms, bb_projected_usage = projected, bb_failure = None\<rparr>"
      by (fact admitted(5))
    ultimately show ?thesis
      using admitted_batch(2) [OF ok admitted(1,2,4,6)]
      by (intro disjI1 exI [of _ "\<lparr>bb_records = map (stamp_member now) ms, bb_projected_usage = projected, bb_failure = None\<rparr>"]
          conjI ballI) (assumption | simp only: batch_result.simps)+
  next
    case (refused e)
    show ?thesis using admit_members_keeps [OF ok refused(2)] by (intro disjI2) simp
  next
    case (over failure)
    show ?thesis using admit_members_keeps [OF ok over(2)] by (intro disjI2) simp
  qed simp
qed

theorem batch_all_or_nothing_witness:
  "dict_get (led_records (snd (reserve_batch utc_zones sample_digest 0 [sample_member] None sample_ledger)))
     (rec_reservation_id (snd sample_member)) = Some (stamp_member 0 sample_member)"
proof -
  let ?run = "reserve_batch utc_zones sample_digest 0 [sample_member] None sample_ledger"
  have grown: "map fst (led_records (snd ?run)) \<noteq> map fst (led_records sample_ledger)" by code_simp
  from batch_all_or_nothing [OF sample_new rtranclp.rtrancl_refl, of utc_zones sample_digest 0 "[sample_member]" None "fst ?run" "snd ?run"] grown
  show ?thesis by auto
qed

lemma batch_cap:
  assumes ok: "ledger_ok digest s" and cap: "spend L s \<le> bl_max_estimated_cost L"
    and all_time: "bw_kind (bl_window L) = AllTime"
    and same: "\<And>l r. (l, r) \<in> set ms \<Longrightarrow> bl_budget_limit_id l = bl_budget_limit_id L \<Longrightarrow>
      bl_window l = bl_window L \<and> bl_max_estimated_cost l = bl_max_estimated_cost L"
  shows "spend L (snd (reserve_batch zones digest now ms binding s)) \<le> bl_max_estimated_cost L"
proof -
  obtain res s' where run: "reserve_batch zones digest now ms binding s = (res, s')" by fastforce
  have kept: "spend L u \<le> bl_max_estimated_cost L" if "admit_members zones digest now ms s = (x, u)" for x u
    using keeps_usage_le [of L digest s u] admit_members_keeps [OF ok that] ok cap by (auto simp: spend_def)
  from run have "spend L s' \<le> bl_max_estimated_cost L"
  proof (cases rule: reserve_batch_cases)
    case (admitted projected u pending)
    show ?thesis
    proof (cases "\<exists>m\<in>set ms. bl_budget_limit_id (fst m) = bl_budget_limit_id L")
      case True
      then obtain m where m: "m \<in> set ms" and id: "bl_budget_limit_id (fst m) = bl_budget_limit_id L" by blast
      have eq: "bl_window (fst m) = bl_window L" "bl_max_estimated_cost (fst m) = bl_max_estimated_cost L"
        using same [of "fst m" "snd m"] m id by simp_all
      obtain a b where b: "bounds zones (bl_window (fst m)) now = Inr (a, b)"
        and le: "usage_of (fst m) a b (led_records s') \<le> bl_max_estimated_cost (fst m)"
        by (rule admitted_batch_within [OF ok admitted(1,2,4,6) m])
      from b eq(1) all_time have "a = None" "b = None" by (simp_all add: bounds_all_time)
      with le eq(2) usage_of_limit [OF id] show ?thesis by (simp add: spend_def)
    next
      case False
      have "limit_charge L a b (stamp_member now m) = 0" if "m \<in> set ms" for a b m
        using that False batch_member_facts(2) [OF prepare_batch_facts(3) [OF admitted(1) that]]
        by (auto simp: limit_charge_def reservation_matches_limit_def)
      then have "map (limit_charge L a b \<circ> stamp_member now) ms = map (\<lambda>_. 0) ms" for a b by simp
      then have "sum_list (map (limit_charge L a b \<circ> stamp_member now) ms) = 0" for a b by (simp only: sum_list_0)
      with admitted_batch(1) [OF ok admitted(1,2,4,6), of L None None] kept [OF admitted(4)] show ?thesis
        by (simp add: spend_def)
    qed
  qed (use cap kept in \<open>auto\<close>)
  with run show ?thesis by simp
qed

lemma covered_step_cap:
  assumes step: "covered_step zones digest L s t" and inv: "cap_held digest L s" and all_time: "bw_kind (bl_window L) = AllTime"
  shows "cap_held digest L t"
proof -
  have ok: "ledger_ok digest s" and cap: "spend L s \<le> bl_max_estimated_cost L" using inv by (simp_all add: cap_held_def)
  have okt: "ledger_ok digest t" using ledger.inv_step [OF covered_step_ledger_step [OF step] ok] .
  have kept: "spend L u \<le> bl_max_estimated_cost L" if "keeps (covered_under L) {} digest s u" for u
    using keeps_usage_le [OF that ok] cap by (simp add: spend_def)
  from step have "spend L t \<le> bl_max_estimated_cost L"
  proof (cases rule: covered_step.cases)
    case (covered_reserve l now fresh q)
    then show ?thesis using reserve_cap [OF ok cap all_time] by blast
  next
    case (covered_batch ms now binding)
    then show ?thesis using batch_cap [OF ok cap all_time] by blast
  next
    case (covered_reconcile rid actual now kind reason at_time identity pricing)
    have "covered_under L r'" if "dict_get (led_records s) rid = Some r" "same_request r r'" "rec_actual_amount r' = Some actual" for r r'
      using covered_reconcile(2) [OF that(1)] that(2,3)
      by (simp add: covered_under_def covered_def same_request_def reservation_matches_limit_def opt_or_zero_def)
    then show ?thesis unfolding covered_reconcile(1) by (intro kept reconcile_keeps [OF ok])
  qed (simp_all add: kept mark_dispatched_keeps [OF ok] release_pre_keeps [OF ok] heartbeat_keeps [OF ok]
      release_keeps [OF ok] publish_keeps [OF ok] register_keeps [OF ok] claim_keeps [OF ok])
  with okt show ?thesis by (simp add: cap_held_def)
qed

interpretation cap: invariant_system "\<lambda>s t. covered_step zones digest L s t \<and> bw_kind (bl_window L) = AllTime" "cap_held digest L" for zones digest L
  by unfold_locales (blast intro: covered_step_cap)

text \<open>
  C2. Over whole runs: with an all-time window, if a limit identifier always denotes the same window and
  ceiling and no reservation of the limit is reconciled above its reserved amount, then in every reachable
  state the usage the ledger measures is the spend of the limit and never exceeds its ceiling.
\<close>
theorem ceiling_never_exceeded:
  assumes "new_ledger ttl = Inr s0" "0 \<le> bl_max_estimated_cost L" "bw_kind (bl_window L) = AllTime"
    "(covered_step zones digest L)\<^sup>*\<^sup>* s0 s"
  shows "ledger_used_amount zones (dict_values (led_records s)) L now = Inr (spend L s) \<and> spend L s \<le> bl_max_estimated_cost L"
proof -
  have "cap_held digest L s0"
    using assms(1,2) new_ledger_ok [OF assms(1)] by (auto simp: cap_held_def spend_def usage_of_def new_ledger_def res_simps)
  moreover have "(\<lambda>s t. covered_step zones digest L s t \<and> bw_kind (bl_window L) = AllTime)\<^sup>*\<^sup>* s0 s" using assms(3,4) by simp
  ultimately have "cap_held digest L s" by (rule cap.inv_run [rotated])
  then show ?thesis using assms(3) by (simp add: cap_held_def used_amount_usage bounds_all_time spend_def)
qed

theorem ceiling_never_exceeded_witness:
  "spend sample_ceiling sample_reserved \<le> bl_max_estimated_cost sample_ceiling \<and> spend sample_ceiling sample_reserved = 3 / 500"
proof -
  have "covered_step utc_zones sample_digest sample_ceiling sample_ledger sample_reserved"
    unfolding sample_reserved_def by (rule covered_reserve) simp
  then have "(covered_step utc_zones sample_digest sample_ceiling)\<^sup>*\<^sup>* sample_ledger sample_reserved" by simp
  moreover have "0 \<le> bl_max_estimated_cost sample_ceiling" "bw_kind (bl_window sample_ceiling) = AllTime"
    "spend sample_ceiling sample_reserved = 3 / 500" by code_simp+
  ultimately show ?thesis using ceiling_never_exceeded [OF sample_new] by blast
qed

end
