(* ===== verification/Ledger_Settlement.thy ===== *)
theory Ledger_Settlement
  imports Ledger_Spending
begin

text \<open>
  Settlement: retries of a settlement, who may give a dispatched reservation back, the outbox of
  settlement events and its pages, the scan of a session's reservations, expiry, and the accounting every
  settlement record carries.
\<close>

section \<open>Definitions\<close>

definition dispatched_active :: "string \<Rightarrow> string \<Rightarrow> ledger \<Rightarrow> bool" where
  "dispatched_active rid d s \<longleftrightarrow> (\<exists>r. dict_get (led_records s) rid = Some r \<and> rec_status r = Active \<and> rec_dispatch_id r = Some d)"

text \<open>The unbounded listing a page is cut from.\<close>

definition outbox_queue :: "ledger \<Rightarrow> string option \<Rightarrow> (datetime \<times> string) option \<Rightarrow> settlement_record list" where
  "outbox_queue s session after =
     sort_key settlement_key (filter (pending_after session after) (dict_values (led_settlements s)))"

section \<open>Retries\<close>

lemma commit_settlement_retry:
  assumes ok: "ledger_ok digest s" and cur: "dict_get (led_records s) (rec_reservation_id r) = Some r"
    and ver: "settled_version digest r r' q" and run: "commit_settlement digest r r' q s = (Inr u, s')"
  shows "dict_get (led_records s') (rec_reservation_id r) = Some r' \<and> commit_settlement digest r' r' q s' = (Inr (), s')"
proof -
  have same: "same_request r r'" using ver by (simp add: settled_version_def)
  note rid = settled_version_facts(2) [OF ver]
  from run show ?thesis
  proof (cases rule: commit_settlement_cases)
    case (2 t)
    have "\<not> st_event_published t" using budget_settlement_record_Inr(6) [OF 2(2)] .
    then have "t\<lparr>st_event_published := False\<rparr> = t" by simp
    with 2 rid settlement_record_same_request [OF same, of digest q] show ?thesis
      by (simp add: commit_settlement_def store_settlement_def dict_simps put_record_same)
  next
    case (3 t e)
    with rid settlement_record_same_request [OF same, of digest q] show ?thesis
      by (simp add: commit_settlement_def store_settlement_def dict_simps put_record_same)
  qed simp
qed

lemma released_record_retry:
  assumes "released_record r reason t = Inr r'"
  shows "released_record r' reason t' = Inr r'"
proof (cases "rec_status r = Active")
  case True
  with released_record_cases(3) [OF assms] show ?thesis by (auto simp: released_record_def)
next
  case False
  with released_record_cases(3) [OF assms] have eq: "rec_status r = Released" "r' = r" by auto
  with assms show ?thesis unfolding released_record_def eq(2) by (simp only: eq if_True)
qed

lemma reconciled_record_retry:
  assumes "reconciled_record r a reason t i = Inr r'"
  shows "reconciled_record r' a reason t' i = Inr r'"
proof -
  from assms have "reconciled_billing_identity (rec_billing_identity r) i = Inr (rec_billing_identity r')"
    and c: "rec_status r' = Reconciled" "rec_actual_amount r' = Some a" "rec_reason r' = reason"
    by (auto simp: reconciled_record_def res_simps split: if_splits)
  then show ?thesis by (simp add: reconciled_record_def reconciled_billing_identity_replay c)
qed

lemma commit_and_return_Inr:
  "commit_and_return digest prepared s = (Inr q, s') \<Longrightarrow>
     \<exists>r r'. prepared = Inr (r, r', q) \<and> commit_settlement digest r r' q s = (Inr (), s')"
  by (auto simp: commit_and_return_def split: sum.splits prod.splits)

text \<open>
  Releasing a reservation is idempotent: repeating a release that succeeded, at any later time,
  returns the same reconciliation and leaves the ledger as it is.
\<close>
theorem release_retry:
  assumes "new_ledger ttl = Inr s0" "(ledger_step zones digest)\<^sup>*\<^sup>* s0 s"
    and run: "release digest now rid reason at_time s = (Inr q, s')"
  shows "release digest now' rid reason at_time' s' = (Inr q, s')"
proof -
  have ok: "ledger_ok digest s" using assms(1,2) new_ledger_ok ledger.inv_run by blast
  from commit_and_return_Inr [OF run [unfolded release_def]] obtain r r' where
    pre: "require_clean_nonblank rid = Inr rid" "require_clean_nonblank reason = Inr reason"
    and get: "dict_get (led_records s) rid = Some r"
    and rel: "released_record r reason (case at_time of None \<Rightarrow> now | Some t \<Rightarrow> t) = Inr r'"
    and q: "reconciliation_from_record digest r' KindReleased None = Inr q"
    and com: "commit_settlement digest r r' q s = (Inr (), s')"
    by (auto simp: res_simps)
  note r = ledger_ok_records [OF ok get]
  have ver: "settled_version digest r r' q" using r rel q by (auto intro: released_version)
  have retry: "dict_get (led_records s') rid = Some r'" "commit_settlement digest r' r' q s' = (Inr (), s')"
    using commit_settlement_retry [OF ok _ ver com] get r by auto
  have "releasable_record s' rid = Inr r'"
    using retry(1) released_record_cases(1) [OF rel] by (simp add: releasable_record_def)
  then show ?thesis
    by (simp add: release_def commit_and_return_def pre released_record_retry [OF rel] q retry(2))
qed

theorem release_retry_witness:
  "case release sample_digest 5 ''r1'' ''x'' None sample_reserved of
     (Inr q, s') \<Rightarrow> release sample_digest 77 ''r1'' ''x'' None s' = (Inr q, s') | _ \<Rightarrow> False"
proof -
  let ?run = "release sample_digest 5 ''r1'' ''x'' None sample_reserved"
  have "case fst ?run of Inr q \<Rightarrow> True | _ \<Rightarrow> False" by code_simp
  then obtain q s' where "?run = (Inr q, s')" by (cases ?run) (auto split: sum.splits)
  with release_retry [OF sample_new sample_reserved_run this, of 77 None] show ?thesis by simp
qed

text \<open>
  C30. Reconciling is idempotent: repeating a reconciliation that succeeded with the same amount, kind,
  reason, billing identity and pricing returns the same reconciliation and leaves the ledger as it is.
\<close>
theorem reconcile_retry:
  assumes "new_ledger ttl = Inr s0" "(ledger_step zones digest)\<^sup>*\<^sup>* s0 s"
    and run: "reconcile digest now rid actual kind reason at_time identity pricing s = (Inr q, s')"
  shows "reconcile digest now' rid actual kind reason at_time' identity pricing s' = (Inr q, s')"
proof -
  have ok: "ledger_ok digest s" using assms(1,2) new_ledger_ok ledger.inv_run by blast
  from commit_and_return_Inr [OF run [unfolded reconcile_def]] obtain r r' where
    pre: "require_clean_nonblank rid = Inr rid" "0 \<le> actual"
    and get: "dict_get (led_records s) rid = Some r"
    and rec: "reconciled_record r actual reason (case at_time of None \<Rightarrow> now | Some t \<Rightarrow> t) identity = Inr r'"
    and q: "reconciliation_from_record digest r' kind pricing = Inr q"
    and com: "commit_settlement digest r r' q s = (Inr (), s')"
    by (auto simp: res_simps)
  note r = ledger_ok_records [OF ok get]
  have ver: "settled_version digest r r' q" using r pre(2) rec q by (auto intro: reconciled_version)
  have retry: "dict_get (led_records s') rid = Some r'" "commit_settlement digest r' r' q s' = (Inr (), s')"
    using commit_settlement_retry [OF ok _ ver com] get r by auto
  have "reconcilable_record s' rid = Inr r'"
    using retry(1) reconciled_record_cases(1) [OF rec] by (simp add: reconcilable_record_def)
  moreover have "validate_amount actual = Inr actual" using pre(2) by (simp add: validate_amount_def)
  ultimately show ?thesis
    by (simp add: reconcile_def commit_and_return_def pre reconciled_record_retry [OF rec] q retry(2))
qed

theorem reconcile_retry_witness:
  "case reconcile sample_digest 3 ''r1'' (1 / 250) Completed None None None None sample_dispatched of
     (Inr q, s') \<Rightarrow> reconcile sample_digest 99 ''r1'' (1 / 250) Completed None None None None s' = (Inr q, s') | _ \<Rightarrow> False"
proof -
  let ?run = "reconcile sample_digest 3 ''r1'' (1 / 250) Completed None None None None sample_dispatched"
  have "case fst ?run of Inr q \<Rightarrow> True | _ \<Rightarrow> False" by code_simp
  then obtain q s' where "?run = (Inr q, s')" by (cases ?run) (auto split: sum.splits)
  with reconcile_retry [OF sample_new sample_dispatched_run this, of 99 None] show ?thesis by simp
qed

section \<open>Dispatched reservations\<close>

lemma dispatched_active_get:
  "dispatched_active rid d s \<Longrightarrow> dict_get (led_records t) rid = dict_get (led_records s) rid \<Longrightarrow> dispatched_active rid d t"
  by (simp add: dispatched_active_def)

lemma reap_dispatched:
  assumes "ledger_ok digest s" "reap_expired digest now l s = (res, t)" "dispatched_active rid d s"
  shows "dispatched_active rid d t"
proof -
  have "reap_rel now (led_ttl s) l s t" using reap_expired_ok [OF assms(1,2)] by simp
  from reap_rel_get [OF this] assms(3) show ?thesis by (fastforce simp: dispatched_active_def reapable_def)
qed

lemma admit_dispatched:
  assumes "dict_get (led_records s) (rec_reservation_id r) = None" "dispatched_active rid d s"
  shows "dispatched_active rid d (admit_record r s)"
  using assms by (auto simp: dispatched_active_def dict_simps)

lemma fold_admit_dispatched:
  assumes "\<forall>r\<in>set rs. rec_reservation_id r \<noteq> rid" "dispatched_active rid d s"
  shows "dispatched_active rid d (fold admit_record rs s)"
  using assms
proof (induction rs arbitrary: s)
  case (Cons r rs)
  have "dispatched_active rid d (admit_record r s)" using Cons.prems by (auto simp: dispatched_active_def dict_simps)
  with Cons show ?case by simp
qed simp

lemma reserve_dispatched:
  assumes ok: "ledger_ok digest s" and d: "dispatched_active rid d s"
  shows "dispatched_active rid d (snd (reserve zones digest now fresh l q s))"
proof -
  obtain res t where run: "reserve zones digest now fresh l q s = (res, t)" by fastforce
  from run have "dispatched_active rid d t"
  proof (cases rule: reserve_cases)
    case (admitted amount current rid' r u)
    have "dispatched_active rid d u" by (rule reap_dispatched [OF ok admitted(1) d])
    then show ?thesis unfolding admitted(8) using admitted(5,7) by (intro admit_dispatched) simp_all
  qed (use ok d in \<open>auto intro: reap_dispatched\<close>)
  with run show ?thesis by simp
qed

lemma admit_members_dispatched:
  assumes "ledger_ok digest s" "admit_members zones digest now ms s = (res, t)" "dispatched_active rid d s"
  shows "dispatched_active rid d t"
  using assms
proof (induction ms arbitrary: s res t)
  case (Cons m ms)
  obtain r1 u where u: "reap_expired digest now (fst m) s = (r1, u)" by fastforce
  have uok: "ledger_ok digest u" using reap_expired_ok [OF Cons.prems(1) u] by simp
  have du: "dispatched_active rid d u" by (rule reap_dispatched [OF Cons.prems(1) u Cons.prems(3)])
  obtain r2 w where w: "admit_members zones digest now ms u = (r2, w)" by fastforce
  have dw: "dispatched_active rid d w" by (rule Cons.IH [OF uok w du])
  from Cons.prems(2) u w have "t = u \<or> t = w"
    by (auto split: sum.splits option.splits prod.splits)
  with du dw show ?case by blast
qed simp

lemma reserve_batch_dispatched:
  assumes ok: "ledger_ok digest s" and d: "dispatched_active rid d s"
  shows "dispatched_active rid d (snd (reserve_batch zones digest now ms binding s))"
proof -
  obtain res t where run: "reserve_batch zones digest now ms binding s = (res, t)" by fastforce
  from run have "dispatched_active rid d t"
  proof (cases rule: reserve_batch_cases)
    case (admitted projected u pending)
    have "dispatched_active rid d u" by (rule admit_members_dispatched [OF ok admitted(4) d])
    then have "dispatched_active rid d (consume_binding pending u)" by (simp add: dispatched_active_def)
    then show ?thesis unfolding admitted(6)
      using admitted(2) d by (intro fold_admit_dispatched) (auto simp: dispatched_active_def)
  qed (use ok d in \<open>auto intro: admit_members_dispatched\<close>)
  with run show ?thesis by simp
qed

lemma commit_settlement_other:
  assumes "commit_settlement digest r r' q s = (res, s')" "k \<noteq> rec_reservation_id r'"
  shows "dict_get (led_records s') k = dict_get (led_records s) k"
  using assms(1) by (cases rule: commit_settlement_cases) (use assms(2) in \<open>simp_all add: dict_simps\<close>)

lemma commit_settlements_other:
  assumes "commit_settlements digest work s = (res, s')" "\<forall>w\<in>set work. rec_reservation_id (fst (snd w)) \<noteq> k"
  shows "dict_get (led_records s') k = dict_get (led_records s) k"
  using assms
proof (induction work arbitrary: s)
  case (Cons w work)
  obtain r r' q where w: "w = (r, r', q)" by (cases w)
  obtain r1 u where u: "commit_settlement digest r r' q s = (r1, u)" by fastforce
  have "dict_get (led_records u) k = dict_get (led_records s) k"
    using commit_settlement_other [OF u] Cons.prems(2) w by auto
  with Cons u w show ?case by (cases r1) auto
qed simp

lemma commit_and_return_state:
  assumes "commit_and_return digest prepared s = (res, t)"
  shows "t = s \<or> (\<exists>r r' q. prepared = Inr (r, r', q) \<and> commit_settlement digest r r' q s = (Inr (), t))"
  using assms by (auto simp: commit_and_return_def split: sum.splits prod.splits dest: commit_settlement_error)

lemma release_dispatched:
  assumes ok: "ledger_ok digest s" and d: "dispatched_active rid d s"
  shows "dispatched_active rid d (snd (release digest now rid' reason at_time s))"
proof -
  obtain res t where run: "release digest now rid' reason at_time s = (res, t)" by fastforce
  have "dict_get (led_records t) rid = dict_get (led_records s) rid"
  proof (cases "t = s")
    case False
    then obtain r r' q where get: "dict_get (led_records s) rid' = Some r" and "releasable_record s rid' = Inr r"
      and rel: "released_record r reason (case at_time of None \<Rightarrow> now | Some t \<Rightarrow> t) = Inr r'"
      and com: "commit_settlement digest r r' q s = (Inr (), t)"
      using run by (auto simp: release_def res_simps dest!: commit_and_return_state)
    then have "rid' \<noteq> rid" using d by (auto simp: dispatched_active_def res_simps)
    moreover have "rec_reservation_id r' = rid'"
      using released_record_cases(2) [OF rel] ledger_ok_records [OF ok get] by (simp add: same_request_def)
    ultimately show ?thesis using commit_settlement_other [OF com] by simp
  qed simp
  with run d show ?thesis by (simp add: dispatched_active_def)
qed

lemma heartbeat_dispatched:
  assumes ok: "ledger_ok digest s" and d: "dispatched_active rid d s"
  shows "dispatched_active rid d (snd (heartbeat now rid' s))"
proof (cases "snd (heartbeat now rid' s) = s")
  case False
  then obtain r where "dict_get (led_records s) rid' = Some r" "rec_status r = Active"
    "snd (heartbeat now rid' s) = put_record (r\<lparr>rec_updated_at := now\<rparr>) s"
    by (auto simp: heartbeat_def res_simps split: sum.splits option.splits if_splits)
  with d ledger_ok_records [OF ok] show ?thesis by (auto simp: dispatched_active_def dict_simps)
qed (use d in simp)

lemma put_all_dispatched:
  assumes "\<forall>r\<in>set rs. rec_reservation_id r = rid \<longrightarrow> rec_status r = Active \<and> rec_dispatch_id r = Some d" "dispatched_active rid d s"
  shows "dispatched_active rid d (fold put_record rs s)"
  using assms
proof (induction rs arbitrary: s)
  case (Cons r rs)
  have "dispatched_active rid d (put_record r s)" using Cons.prems by (auto simp: dispatched_active_def dict_simps)
  with Cons show ?case by simp
qed simp

lemma mark_dispatched_dispatched:
  assumes ok: "ledger_ok digest s" and d: "dispatched_active rid d s"
  shows "dispatched_active rid d (snd (mark_dispatched now ids d' at_time s))"
proof (cases "bind_res (validate_reservation_id_batch ids) (\<lambda>ids.
           bind_res (require_clean_nonblank d') (\<lambda>d. traverse_res (check_dispatch s now d) ids))")
  case (Inl e)
  with d show ?thesis by (simp add: mark_dispatched_def)
next
  case (Inr rs)
  then have dist: "distinct ids" and tr: "traverse_res (check_dispatch s now d') ids = Inr rs" by (auto simp: res_simps)
  have cur: "dict_get (led_records s) (rec_reservation_id r) = Some r" if "r \<in> set rs" for r
    using traverse_ids(2) [OF ok tr dist] that by (auto simp: check_dispatch_Inr)
  have "\<forall>r\<in>set (map (dispatched_record d' t) rs). rec_reservation_id r = rid \<longrightarrow> rec_status r = Active \<and> rec_dispatch_id r = Some d" for t
    using d cur by (force simp: dispatched_active_def dispatched_record_def)
  from put_all_dispatched [OF this d, of "case at_time of None \<Rightarrow> now | Some t \<Rightarrow> t"]
  show ?thesis by (simp add: mark_dispatched_def Inr Let_def)
qed

lemma release_pre_dispatched:
  assumes ok: "ledger_ok digest s" and active: "dispatched_active rid d s" and foreign: "rid \<notin> set ids \<or> d' \<noteq> d"
  shows "dispatched_active rid d (snd (release_pre_provider_dispatch digest now ids d' reason at_time s))"
proof -
  let ?t = "case at_time of None \<Rightarrow> now | Some t \<Rightarrow> t"
  let ?prep = "bind_res (validate_reservation_id_batch ids) (\<lambda>ids.
           bind_res (require_clean_nonblank d') (\<lambda>d.
           bind_res (require_clean_nonblank reason) (\<lambda>reason.
           bind_res (traverse_res (check_pre_provider s d) ids) (\<lambda>records.
           bind_res (traverse_res (\<lambda>r. released_record r reason ?t) records) (\<lambda>released.
           bind_res (traverse_res (\<lambda>r. reconciliation_from_record digest r KindReleased None) released) (\<lambda>recons.
             Inr (zip records (zip released recons), recons)))))))"
  show ?thesis
  proof (cases ?prep)
    case (Inl e)
    with active show ?thesis by (simp add: release_pre_provider_dispatch_def)
  next
    case (Inr p)
    then obtain rs rs' qs where p: "p = (zip rs (zip rs' qs), qs)" and dist: "distinct ids"
      and tr: "traverse_res (check_pre_provider s d') ids = Inr rs"
      and rel: "traverse_res (\<lambda>r. released_record r reason ?t) rs = Inr rs'"
      by (auto simp: res_simps)
    have ids: "map rec_reservation_id rs = ids"
      by (rule traverse_ids(1) [OF ok tr dist]) (simp add: check_pre_provider_Inr)
    have cur: "check_pre_provider s d' (rec_reservation_id r) = Inr r" if "r \<in> set rs" for r
      using that traverse_ids(2) [OF ok tr dist] by (auto simp: check_pre_provider_Inr)
    have "rec_reservation_id r' \<noteq> rid" if "r' \<in> set rs'" for r'
    proof -
      have "list_all2 (\<lambda>r r'. released_record r reason ?t = Inr r') rs rs'" using rel by (simp add: traverse_res_Inr)
      moreover from that obtain i where "i < length rs'" "rs' ! i = r'" by (auto simp: in_set_conv_nth)
      ultimately have "rs ! i \<in> set rs" "released_record (rs ! i) reason ?t = Inr r'"
        by (auto simp: list_all2_conv_all_nth)
      then obtain r where r: "r \<in> set rs" "released_record r reason ?t = Inr r'" by blast
      have "rec_reservation_id r \<in> set ids" using r(1) by (simp flip: ids)
      moreover have "dict_get (led_records s) (rec_reservation_id r) = Some r" "rec_dispatch_id r = None \<or> rec_dispatch_id r = Some d'"
        using cur [OF r(1)] by (auto simp: check_pre_provider_Inr)
      ultimately have "rec_reservation_id r \<noteq> rid" using foreign active by (auto simp: dispatched_active_def)
      then show ?thesis using released_record_cases(2) [OF r(2)] by (simp add: same_request_def)
    qed
    then have other: "\<forall>w\<in>set (zip rs (zip rs' qs)). rec_reservation_id (fst (snd w)) \<noteq> rid"
      by (metis prod.collapse set_zip_leftD set_zip_rightD)
    obtain res s' where run: "commit_settlements digest (zip rs (zip rs' qs)) s = (res, s')" by fastforce
    have "dispatched_active rid d s'" using dispatched_active_get [OF active commit_settlements_other [OF run other]] .
    then show ?thesis using Inr run by (cases res) (simp_all add: release_pre_provider_dispatch_def p)
  qed
qed

lemma reconcile_never_releases:
  assumes ok: "ledger_ok digest s" and active: "dispatched_active rid d s"
    and get: "dict_get (led_records (snd (reconcile digest now rid' actual kind reason at_time identity pricing s))) rid = Some r'"
  shows "rec_status r' \<noteq> Released"
proof -
  obtain res t where run: "reconcile digest now rid' actual kind reason at_time identity pricing s = (res, t)" by fastforce
  from commit_and_return_state [OF run [unfolded reconcile_def]] show ?thesis
  proof
    assume "t = s"
    with run get active show ?thesis by (auto simp: dispatched_active_def)
  next
    assume "\<exists>r x q. bind_res (require_clean_nonblank rid') (\<lambda>rid.
        bind_res (validate_amount actual) (\<lambda>actual.
        bind_res (reconcilable_record s rid) (\<lambda>r.
        bind_res (reconciled_record r actual reason (case at_time of None \<Rightarrow> now | Some t \<Rightarrow> t) identity) (\<lambda>r'.
        bind_res (reconciliation_from_record digest r' kind pricing) (\<lambda>q. Inr (r, r', q)))))) = Inr (r, x, q)
      \<and> commit_settlement digest r x q s = (Inr (), t)"
    then obtain r x q where "reconciled_record r actual reason (case at_time of None \<Rightarrow> now | Some t \<Rightarrow> t) identity = Inr x"
      and com: "commit_settlement digest r x q s = (Inr (), t)" by (auto simp: res_simps)
    note st = reconciled_record_cases(1) [OF this(1)]
    show ?thesis
    proof (cases "rid = rec_reservation_id x")
      case True
      from com have "dict_get (led_records t) rid = Some x"
        by (cases rule: commit_settlement_cases) (simp_all add: True dict_simps)
      with run get st show ?thesis by simp
    next
      case False
      with commit_settlement_other [OF com] run get active show ?thesis by (auto simp: dispatched_active_def)
    qed
  qed
qed

lemma same_records_dispatched:
  "led_records t = led_records s \<Longrightarrow> dispatched_active rid d s \<Longrightarrow> dispatched_active rid d t"
  by (simp add: dispatched_active_def)

lemma registry_records [simp]:
  "led_records (snd (mark_settlement_event_published sid eid s)) = led_records s"
  "led_records (snd (register_budget_binding bid authority allowance s)) = led_records s"
  "led_records (snd (claim_reservation_identity k session publication s)) = led_records s"
  by (auto simp: mark_settlement_event_published_def register_budget_binding_def claim_reservation_identity_def
      split: sum.splits option.splits prod.splits)

text \<open>
  C27. A reservation that is active and dispatched is given back by nothing but the pre-provider release
  that presents its dispatch identifier: expiry, an ordinary release, a reconciliation, a heartbeat, another
  reservation or a batch never release it.
\<close>
theorem dispatched_release_needs_owner:
  assumes "new_ledger ttl = Inr s0" "(ledger_step zones digest)\<^sup>*\<^sup>* s0 s" and step: "ledger_step zones digest s t"
    and before: "dict_get (led_records s) rid = Some r" "rec_status r = Active" "rec_dispatch_id r = Some d"
    and after: "dict_get (led_records t) rid = Some r'" "rec_status r' = Released"
  shows "\<exists>now ids reason at_time. rid \<in> set ids \<and> t = snd (release_pre_provider_dispatch digest now ids d reason at_time s)"
proof -
  have ok: "ledger_ok digest s" using assms(1,2) new_ledger_ok ledger.inv_run by blast
  have active: "dispatched_active rid d s" using before by (simp add: dispatched_active_def)
  have gone: "\<not> dispatched_active rid d t" using after by (simp add: dispatched_active_def)
  from step show ?thesis
  proof (cases rule: ledger_step.cases)
    case (step_release_pre now ids d' reason at_time)
    show ?thesis
    proof (cases "rid \<in> set ids \<and> d' = d")
      case True
      with step_release_pre show ?thesis by blast
    next
      case False
      then have "dispatched_active rid d t" unfolding step_release_pre by (intro release_pre_dispatched [OF ok active]) auto
      with gone show ?thesis by contradiction
    qed
  next
    case (step_reconcile now rid' actual kind reason at_time identity pricing)
    with reconcile_never_releases [OF ok active] after show ?thesis by simp
  next
    case (step_publish sid eid)
    with gone active show ?thesis by (simp add: same_records_dispatched)
  next
    case (step_register bid authority allowance)
    with gone active show ?thesis by (simp add: same_records_dispatched)
  next
    case (step_claim k session publication)
    with gone active show ?thesis by (simp add: same_records_dispatched)
  qed (use gone reserve_dispatched [OF ok active] reserve_batch_dispatched [OF ok active]
        mark_dispatched_dispatched [OF ok active] heartbeat_dispatched [OF ok active] release_dispatched [OF ok active]
        in simp_all)
qed

theorem dispatched_release_needs_owner_witness:
  "\<exists>now ids reason at_time. ''r1'' \<in> set ids \<and>
     sample_returned = snd (release_pre_provider_dispatch sample_digest now ids ''d'' reason at_time sample_dispatched)"
proof -
  have "map_option (\<lambda>r. (rec_status r, rec_dispatch_id r)) (dict_get (led_records sample_dispatched) ''r1'') = Some (Active, Some ''d'')"
    "map_option rec_status (dict_get (led_records sample_returned) ''r1'') = Some Released" by code_simp+
  then obtain r r' where r: "dict_get (led_records sample_dispatched) ''r1'' = Some r" "rec_status r = Active" "rec_dispatch_id r = Some ''d''"
    and r': "dict_get (led_records sample_returned) ''r1'' = Some r'" "rec_status r' = Released" by auto
  have "ledger_step utc_zones sample_digest sample_dispatched sample_returned"
    unfolding sample_returned_def by (rule step_release_pre)
  from dispatched_release_needs_owner [OF sample_new sample_dispatched_run this r r'] show ?thesis .
qed

section \<open>Pages of the outbox\<close>

lemma clean_iff: "clean x \<longleftrightarrow> x \<noteq> [] \<and> py_strip x = x"
  by (auto simp: clean_def res_simps)

lemma settles_valid:
  assumes "settles digest t r"
  shows "settlement_record_valid digest (t\<lparr>st_event_published := False\<rparr>)"
  using assms by (auto simp: settles_def dest: budget_settlement_record_Inr(7))

lemma settlement_valid_clean: "settlement_record_valid digest t \<Longrightarrow> clean (st_settlement_id t)"
  unfolding settlement_record_valid_def by (elim conjE)

lemma outbox_valid:
  assumes "ledger_ok digest s" "t \<in> set (dict_values (led_settlements s))"
  shows "settlement_record_valid digest (t\<lparr>st_event_published := False\<rparr>)" "dict_get (led_settlements s) (st_settlement_id t) = Some t"
proof -
  have ok: "outbox_ok digest s" "dict_ok (led_settlements s)" using assms(1) by (auto simp: ledger_ok_def outbox_ok_def)
  from assms(2) obtain k where "(k, t) \<in> set (led_settlements s)" by (auto simp: dict_values_def)
  then have get: "dict_get (led_settlements s) k = Some t" using dict_in_set [OF ok(2)] by simp
  from outbox_entry [OF ok(1) this] obtain r where k: "st_settlement_id t = k" and "settles digest t r" by blast
  then show "settlement_record_valid digest (t\<lparr>st_event_published := False\<rparr>)" by (intro settles_valid)
  from k get show "dict_get (led_settlements s) (st_settlement_id t) = Some t" by simp
qed

lemma outbox_queue_set: "t \<in> set (outbox_queue s session after) \<Longrightarrow> t \<in> set (dict_values (led_settlements s)) \<and> pending_after session after t"
  by (simp add: outbox_queue_def)

lemma outbox_keys_distinct:
  assumes "ledger_ok digest s"
  shows "distinct (map settlement_key (dict_values (led_settlements s)))"
proof -
  have dok: "dict_ok (led_settlements s)" using assms by (auto simp: ledger_ok_def outbox_ok_def)
  have "map st_settlement_id (dict_values (led_settlements s)) = map fst (led_settlements s)"
  proof -
    have "st_settlement_id t = k" if "(k, t) \<in> set (led_settlements s)" for k t
    proof -
      have "dict_get (led_settlements s) k = Some t" using that dict_in_set [OF dok] by simp
      then show ?thesis using outbox_entry [of digest s k t] assms by (simp add: ledger_ok_def)
    qed
    then show ?thesis by (auto simp: dict_values_def)
  qed
  then have "distinct (map st_settlement_id (dict_values (led_settlements s)))" using dok by (simp add: dict_ok_def)
  then show ?thesis by (auto simp: distinct_map settlement_key_def inj_on_def)
qed

lemma outbox_queue_strict:
  assumes "ledger_ok digest s"
  shows "sorted_wrt (<) (map settlement_key (outbox_queue s session after))"
proof -
  have "distinct (map settlement_key (filter (pending_after session after) (dict_values (led_settlements s))))"
    using outbox_keys_distinct [OF assms] by (simp add: distinct_map_filter)
  then have "distinct (map settlement_key (outbox_queue s session after))"
    by (auto simp: outbox_queue_def distinct_map)
  moreover have "sorted (map settlement_key (outbox_queue s session after))" by (simp add: outbox_queue_def)
  ultimately show ?thesis by (simp add: strict_sorted_iff)
qed

lemma filter_beyond:
  fixes key :: "'a \<Rightarrow> 'b :: linorder"
  assumes "sorted_wrt (<) (map key (xs @ x # ys))"
  shows "filter (\<lambda>t. key x < key t) (xs @ x # ys) = ys"
proof -
  have low: "key t < key x" if "t \<in> set xs" for t using assms that by (simp add: sorted_wrt_append)
  have high: "key x < key t" if "t \<in> set ys" for t using assms that by (simp add: sorted_wrt_append)
  have "filter (\<lambda>t. key x < key t) xs = []" using low by (auto simp: filter_empty_conv dest: less_asym)
  moreover have "filter (\<lambda>t. key x < key t) ys = ys" using high by simp
  ultimately show ?thesis by simp
qed

lemma outbox_queue_resume:
  assumes ok: "ledger_ok digest s" and split: "outbox_queue s session after = xs @ x # ys"
  shows "outbox_queue s session (Some (settlement_key x)) = ys"
proof -
  have "x \<in> set (outbox_queue s session after)" by (simp add: split)
  then have x: "pending_after session after x" using outbox_queue_set by blast
  have "filter (pending_after session (Some (settlement_key x))) ts
      = filter (\<lambda>t. settlement_key x < settlement_key t) (filter (pending_after session after) ts)" for ts
    using x by (induction ts) (auto simp: pending_after_def split: option.splits)
  then have "outbox_queue s session (Some (settlement_key x)) = filter (\<lambda>t. settlement_key x < settlement_key t) (outbox_queue s session after)"
    by (simp add: outbox_queue_def filter_sort)
  also have "\<dots> = ys" unfolding split
    using outbox_queue_strict [OF ok, of session after] by (intro filter_beyond) (simp only: split)
  finally show ?thesis .
qed

lemma list_pending_Inr:
  "list_pending_settlements s session after n = Inr page \<longleftrightarrow>
     clean_opt session \<and> (case after of None \<Rightarrow> True | Some c \<Rightarrow> clean (snd c)) \<and> 1 \<le> n \<and> n \<le> 1000 \<and>
     page = take (nat n) (outbox_queue s session after)"
  by (auto simp: list_pending_settlements_def outbox_queue_def res_simps clean_opt_def clean_iff validate_settlement_page_limit_def
      require_clean_nonblank_opt_def split: option.splits prod.splits if_splits)

text \<open>
  C28. Pages of the settlement outbox: the pending settlements after a cursor are strictly ordered by
  time and identifier, a page is their prefix, and the page taken from the last key of a page continues
  exactly where that page stopped, with nothing skipped or repeated.
\<close>
theorem outbox_pages:
  assumes "new_ledger ttl = Inr s0" "(ledger_step zones digest)\<^sup>*\<^sup>* s0 s"
    and page: "list_pending_settlements s session after n = Inr page" and more: "page \<noteq> []" and m: "1 \<le> m" "m \<le> 1000"
  shows "sorted_wrt (<) (map settlement_key (outbox_queue s session after))
    \<and> page = take (nat n) (outbox_queue s session after)
    \<and> list_pending_settlements s session (Some (settlement_key (last page))) m
        = Inr (take (nat m) (drop (length page) (outbox_queue s session after)))"
proof -
  have ok: "ledger_ok digest s" using assms(1,2) new_ledger_ok ledger.inv_run by blast
  let ?q = "outbox_queue s session after"
  have cut: "page = take (nat n) ?q" and session: "clean_opt session" using page by (simp_all add: list_pending_Inr)
  have "?q = butlast page @ last page # drop (length page) ?q"
  proof -
    have "?q = page @ drop (nat n) ?q" by (simp add: cut)
    moreover have "drop (nat n) ?q = drop (length page) ?q" by (cases "nat n \<le> length ?q") (simp_all add: cut)
    ultimately show ?thesis using more by (metis append.assoc append_Cons append_Nil append_butlast_last_id)
  qed
  then have resume: "outbox_queue s session (Some (settlement_key (last page))) = drop (length page) ?q"
    by (rule outbox_queue_resume [OF ok])
  have "last page \<in> set ?q" using more last_in_set [of page] in_set_takeD cut by metis
  then have "settlement_record_valid digest ((last page)\<lparr>st_event_published := False\<rparr>)"
    using outbox_valid(1) [OF ok] outbox_queue_set by blast
  from settlement_valid_clean [OF this] have "clean (snd (settlement_key (last page)))" by (simp add: settlement_key_def)
  then have "list_pending_settlements s session (Some (settlement_key (last page))) m
        = Inr (take (nat m) (drop (length page) ?q))"
    using session m by (simp add: list_pending_Inr resume)
  with cut outbox_queue_strict [OF ok] show ?thesis by blast
qed

theorem outbox_pages_witness:
  "list_pending_settlements sample_released None None 1 = Inr (outbox_queue sample_released None None)
   \<and> list_pending_settlements sample_released None (Some (settlement_key (last (outbox_queue sample_released None None)))) 5 = Inr []"
proof -
  have one: "length (outbox_queue sample_released None None) = 1" by code_simp
  have page: "list_pending_settlements sample_released None None 1 = Inr (outbox_queue sample_released None None)"
    using one by (simp add: list_pending_Inr clean_opt_def)
  have "outbox_queue sample_released None None \<noteq> []" using one by auto
  from outbox_pages [OF sample_new sample_released_run page this, of 5] one page show ?thesis by simp
qed

section \<open>Scans of a session\<close>

lemma scan_bounds_Inr:
  "reservation_scan_bounds after n = Inr p \<longleftrightarrow> clean_opt after \<and> 1 \<le> n \<and> n \<le> 128 \<and> p = (after, nat n)"
  by (auto simp: reservation_scan_bounds_def res_simps clean_opt_def clean_iff require_clean_nonblank_opt_def split: option.splits)

lemma drop_bisect_right:
  "sorted xs \<Longrightarrow> drop (bisect_right xs a) xs = filter (\<lambda>k. a < k) xs"
proof (induction xs)
  case (Cons x xs)
  show ?case
  proof (cases "x \<le> a")
    case True
    with Cons show ?thesis by (simp add: bisect_right_def)
  next
    case False
    with Cons.prems have "\<forall>k\<in>set xs. a < k" by auto
    with False show ?thesis by (simp add: bisect_right_def)
  qed
qed (simp add: bisect_right_def)

lemma index_as_set:
  assumes "index_ok s"
  shows "session_ids s session = sorted_list_of_set {rid. \<exists>r. dict_get (led_records s) rid = Some r \<and> rec_session_id r = session}"
proof -
  have "sorted (session_ids s session)" "distinct (session_ids s session)"
    "set (session_ids s session) = {rid. \<exists>r. dict_get (led_records s) rid = Some r \<and> rec_session_id r = session}"
    using assms by (simp_all add: index_ok_def)
  then show ?thesis by (metis sorted_list_of_set.idem_if_sorted_distinct)
qed

text \<open>
  C29. The indexed scan of a session agrees with its specification: it returns the records of the session
  whose identifier is above the cursor, in identifier order, cut to the limit, and never meets a
  missing record.
\<close>
theorem scan_matches_specification:
  assumes "new_ledger ttl = Inr s0" "(ledger_step zones digest)\<^sup>*\<^sup>* s0 s"
    and args: "clean session" "clean_opt after" "1 \<le> n" "n \<le> 128"
  shows "scan_reservation_records s session after n = Inr (map (\<lambda>rid. the (dict_get (led_records s) rid)) (take (nat n)
    (filter (\<lambda>rid. case after of None \<Rightarrow> True | Some a \<Rightarrow> a < rid)
      (sorted_list_of_set {rid. \<exists>r. dict_get (led_records s) rid = Some r \<and> rec_session_id r = session}))))"
proof -
  have ok: "ledger_ok digest s" using assms(1,2) new_ledger_ok ledger.inv_run by blast
  then have ix: "index_ok s" by (simp add: ledger_ok_def)
  let ?ids = "session_ids s session"
  let ?start = "case after of None \<Rightarrow> 0 | Some a \<Rightarrow> bisect_right ?ids a"
  have sorted: "sorted ?ids" and elems: "set ?ids = {rid. \<exists>r. dict_get (led_records s) rid = Some r \<and> rec_session_id r = session}"
    using ix by (simp_all add: index_ok_def)
  have from_start: "drop ?start ?ids = filter (\<lambda>rid. case after of None \<Rightarrow> True | Some a \<Rightarrow> a < rid) ?ids"
    using drop_bisect_right [OF sorted] by (cases after) simp_all
  have "dict_get (led_records s) rid = Some (the (dict_get (led_records s) rid))" if "rid \<in> set (take (nat n) (drop ?start ?ids))" for rid
  proof -
    have "rid \<in> set ?ids" using that by (meson in_set_takeD in_set_dropD)
    then show ?thesis using elems by auto
  qed
  then have "(case dict_get (led_records s) rid of None \<Rightarrow> Inl KeyError | Some r \<Rightarrow> Inr r) = Inr (the (dict_get (led_records s) rid))"
    if "rid \<in> set (take (nat n) (drop ?start ?ids))" for rid
    using that by (metis option.simps(5))
  then have "traverse_res (\<lambda>k. case dict_get (led_records s) k of None \<Rightarrow> Inl KeyError | Some r \<Rightarrow> Inr r) (take (nat n) (drop ?start ?ids))
    = Inr (map (\<lambda>rid. the (dict_get (led_records s) rid)) (take (nat n) (drop ?start ?ids)))"
    unfolding traverse_res_Inr list_all2_map2 by (rule list.rel_refl_strong)
  moreover have "reservation_scan_bounds after n = Inr (after, nat n)" using args by (simp add: scan_bounds_Inr)
  moreover have "require_clean_nonblank session = Inr session" using args(1) by (simp add: clean_def)
  ultimately show ?thesis
    unfolding index_as_set [OF ix, symmetric] from_start [symmetric] by (simp add: scan_reservation_records_def Let_def)
qed

theorem scan_matches_specification_witness:
  "scan_reservation_records sample_reserved ''s'' None 1 = Inr (map (\<lambda>rid. the (dict_get (led_records sample_reserved) rid))
     (take 1 (sorted_list_of_set {rid. \<exists>r. dict_get (led_records sample_reserved) rid = Some r \<and> rec_session_id r = ''s''})))"
proof -
  have "clean ''s''" by code_simp
  from scan_matches_specification [OF sample_new sample_reserved_run this, of None 1] show ?thesis
    by (simp add: clean_opt_def)
qed

section \<open>What a settlement says\<close>

text \<open>
  C19. Every settlement of the outbox accounts for its reservation: what is charged is the actual amount
  the settlement states, charged plus released is the larger of reserved and charged, and the audit event
  carries the same amounts.
\<close>
theorem settlement_accounts_for_reservation:
  assumes "new_ledger ttl = Inr s0" "(ledger_step zones digest)\<^sup>*\<^sup>* s0 s"
    and entry: "dict_get (led_settlements s) sid = Some t"
  shows "\<exists>r. dict_get (led_records s) (st_reservation_id t) = Some r \<and> rec_status r \<noteq> Active
    \<and> sid = budget_settlement_id digest (rec_reservation_id r)
    \<and> record_charge None None r = opt_or_zero (rr_actual_amount (st_reconciliation t))
    \<and> rr_reserved_amount (st_reconciliation t) = rec_reserved_amount r
    \<and> record_charge None None r + rr_released_amount (st_reconciliation t) = max (rec_reserved_amount r) (record_charge None None r)
    \<and> fmlookup (ev_payload (st_event t)) ''actual_amount'' = Some (json_opt JDec (rec_actual_amount r))
    \<and> fmlookup (ev_payload (st_event t)) ''released_amount'' = Some (JDec (rr_released_amount (st_reconciliation t)))"
proof -
  have ok: "ledger_ok digest s" using assms(1,2) new_ledger_ok ledger.inv_run by blast
  then have "outbox_ok digest s" by (simp add: ledger_ok_def)
  from outbox_entry [OF this entry] obtain r where sid: "st_settlement_id t = sid"
    and get: "dict_get (led_records s) (st_reservation_id t) = Some r" and settled: "rec_status r \<noteq> Active" and st: "settles digest t r"
    by blast
  from st obtain kind pricing q where q: "reconciliation_from_record digest r kind pricing = Inr q"
    and t: "budget_settlement_record digest r q = Inr (t\<lparr>st_event_published := False\<rparr>)" by (auto simp: settles_def)
  note qf = reconciliation_from_record_Inr [OF q] and tf = budget_settlement_record_Inr [OF t]
  have q_eq: "st_reconciliation t = q" and id: "st_settlement_id t = rr_settlement_id q" using tf by simp_all
  have rok: "record_ok r" using ledger_ok_records [OF ok get] by simp
  have payload: "fmlookup (ev_payload (st_event t)) k = map_of (reconciliation_payload_items q) k"
    if "map_of (reconciliation_payload_items q) k \<noteq> None" for k
  proof -
    from that obtain y where y: "fmlookup (fmap_of_list (reconciliation_payload_items q)) k = Some y" by (auto simp: fmlookup_of_list)
    then have "fmlookup (rec_settlement_event_payload r ++\<^sub>f fmap_of_list (reconciliation_payload_items q)) k = Some y"
      unfolding fmlookup_add using fmdomI [OF y] by (simp only: if_True)
    with tf(8) y show ?thesis by (simp add: fmlookup_of_list)
  qed
  have amounts: "map_of (reconciliation_payload_items q) ''actual_amount'' = Some (json_opt JDec (rr_actual_amount q))"
    "map_of (reconciliation_payload_items q) ''released_amount'' = Some (JDec (rr_released_amount q))"
    by (simp_all add: reconciliation_payload_items_def)
  have charge: "record_charge None None r = opt_or_zero (rec_actual_amount r)"
    using settled rok by (cases "rec_status r") (auto simp: record_charge_def record_ok_def in_window_def opt_or_zero_def)
  have "opt_or_zero (rec_actual_amount r) + released_amount_of r = max (rec_reserved_amount r) (opt_or_zero (rec_actual_amount r))"
    using settled rok by (cases "rec_status r") (auto simp: released_amount_of_def record_ok_def opt_or_zero_def max_def opt_nonneg_def)
  with charge qf get settled sid id q_eq payload amounts show ?thesis by (intro exI [of _ r]) simp
qed

theorem settlement_accounts_for_reservation_witness:
  "\<exists>r. dict_get (led_records sample_reconciled) ''r1'' = Some r \<and> record_charge None None r = 1 / 250"
proof -
  have "map_option st_reservation_id (dict_get (led_settlements sample_reconciled) ''bset_r1'') = Some ''r1''"
    "map_option (\<lambda>t. rr_actual_amount (st_reconciliation t)) (dict_get (led_settlements sample_reconciled) ''bset_r1'') = Some (Some (1 / 250))"
    by code_simp+
  then obtain t where t: "dict_get (led_settlements sample_reconciled) ''bset_r1'' = Some t" "st_reservation_id t = ''r1''"
    "rr_actual_amount (st_reconciliation t) = Some (1 / 250)" by auto
  from settlement_accounts_for_reservation [OF sample_new sample_reconciled_run t(1)] t(2,3) show ?thesis
    by (auto simp: opt_or_zero_def)
qed

section \<open>Capacity comes back\<close>

text \<open>
  C31. Capacity comes back: when a reservation call returns, each reservation of the same limit that was
  active, not dispatched and expired is released, charges nothing, and has its settlement in the outbox.
\<close>
theorem reserve_reaps_expired:
  assumes "new_ledger ttl = Inr s0" "(ledger_step zones digest)\<^sup>*\<^sup>* s0 s"
    and run: "reserve zones digest now fresh l q s = (Inr res, s')"
    and get: "dict_get (led_records s) rid = Some r" and expired: "reapable now (led_ttl s) l r"
  shows "\<exists>r' t. dict_get (led_records s') rid = Some r' \<and> rec_status r' = Released \<and> same_request r r'
    \<and> limit_charge l None None r' = 0
    \<and> dict_get (led_settlements s') (budget_settlement_id digest rid) = Some t \<and> settles digest t r'"
proof -
  have ok: "ledger_ok digest s" using assms(1,2) new_ledger_ok ledger.inv_run by blast
  obtain u where u: "reap_expired digest now l s = (Inr (), u)"
    and kept: "dict_get (led_records s') rid = dict_get (led_records u) rid"
    using run
  proof (cases rule: reserve_cases)
    case (rejected amount current)
    then show ?thesis by (intro that) auto
  next
    case (admitted amount current rid' x u)
    have "dict_get (led_records u) rid \<noteq> None"
      using reap_rel_keys [of now "led_ttl s" l s u rid] reap_expired_ok [OF ok admitted(1)] get by simp
    with admitted(5,7) have "rec_reservation_id x \<noteq> rid" by auto
    with admitted show ?thesis by (intro that) (auto simp: dict_simps)
  qed simp_all
  have rel: "reap_rel now (led_ttl s) l s u" using reap_expired_ok [OF ok u] by simp
  have "dict_get (led_records u) rid \<noteq> Some r" using reap_expired_complete [OF ok u] expired by blast
  then obtain r' where r': "dict_get (led_records u) rid = Some r'" "same_request r r'" "rec_status r' = Released"
    using reap_rel_get [OF rel get] by blast
  have "ledger_ok digest s'" using reserve_keeps [OF ok, of "\<lambda>_. True" zones now fresh l q] run by (simp add: keeps_def)
  then have "outbox_ok digest s'" by (simp add: ledger_ok_def)
  from outbox_terminal [OF this] r' kept have "\<exists>t. dict_get (led_settlements s') (budget_settlement_id digest rid) = Some t \<and> settles digest t r'" by simp
  with r' kept show ?thesis by (auto simp: limit_charge_def record_charge_def)
qed

theorem reserve_reaps_expired_witness:
  "\<exists>r'. dict_get (led_records (snd (reserve utc_zones sample_digest 100000000 '''' sample_ceiling (sample_request ''r3'' (1 / 100) fmempty) sample_reserved))) ''r1'' = Some r'
     \<and> rec_status r' = Released"
proof -
  let ?run = "reserve utc_zones sample_digest 100000000 '''' sample_ceiling (sample_request ''r3'' (1 / 100) fmempty) sample_reserved"
  have "case fst ?run of Inr q \<Rightarrow> True | _ \<Rightarrow> False" by code_simp
  then obtain res s' where run: "?run = (Inr res, s')" by (cases ?run) (auto split: sum.splits)
  have "map_option (reapable 100000000 (led_ttl sample_reserved) sample_ceiling) (dict_get (led_records sample_reserved) ''r1'') = Some True" by code_simp
  then obtain r where "dict_get (led_records sample_reserved) ''r1'' = Some r" "reapable 100000000 (led_ttl sample_reserved) sample_ceiling r" by auto
  from reserve_reaps_expired [OF sample_new sample_reserved_run run this] run show ?thesis by auto
qed

section \<open>Settlement payloads that cannot be settled\<close>

lemma null_fingerprint_no_settlement:
  assumes null: "fmlookup (rec_settlement_event_payload r) ''execution_profile_fingerprint'' = Some JNull"
    and same: "same_request r r'" and q: "reconciliation_from_record digest r' kind pricing = Inr q"
  shows "budget_settlement_record digest r q \<noteq> Inr t"
proof
  assume t: "budget_settlement_record digest r q = Inr t"
  note tf = budget_settlement_record_Inr [OF t]
  have "payload_text (rec_settlement_event_payload r') ''execution_profile_fingerprint'' = Inr None"
    using null same by (simp add: payload_text_def same_request_def)
  then have "rr_execution_profile_fingerprint q = None"
    using q by (auto simp: reconciliation_from_record_def reconciliation_with_pricing_evidence_def res_simps split: if_splits option.splits)
  moreover have "fmlookup (fmap_of_list (reconciliation_payload_items q)) ''execution_profile_fingerprint'' = None"
    by (simp add: fmlookup_of_list reconciliation_payload_items_def)
  from fmdom_notI [OF this] have "fmlookup (ev_payload (st_event t)) ''execution_profile_fingerprint'' = Some JNull"
    using null unfolding tf(8) fmlookup_add by (simp only: if_False)
  ultimately show False using tf(5,7) unfolding settlement_record_valid_def by simp
qed

lemma null_fingerprint_no_commit:
  assumes "fmlookup (rec_settlement_event_payload r) ''execution_profile_fingerprint'' = Some JNull"
    "same_request r r'" "reconciliation_from_record digest r' kind pricing = Inr q"
  shows "\<exists>e. commit_settlement digest r r' q s = (Inl e, s)"
  using null_fingerprint_no_settlement [OF assms]
  by (cases "budget_settlement_record digest r q") (auto simp: commit_settlement_def)

lemma null_fingerprint_no_reap:
  assumes "fmlookup (rec_settlement_event_payload r) ''execution_profile_fingerprint'' = Some JNull"
  shows "\<exists>e. reap_one digest now ttl r s = (Inl e, s)"
proof -
  let ?prep = "bind_res (released_record r (case sf_expiration_reason (rec_settlement_fallback r) of
               None \<Rightarrow> expired_reservation_reason ttl | Some x \<Rightarrow> x) now) (\<lambda>r'.
           bind_res (reconciliation_from_record digest r' KindReleased None) (\<lambda>q. Inr (r', q)))"
  show ?thesis
  proof (cases ?prep)
    case (Inl e)
    then show ?thesis by (simp add: reap_one_def)
  next
    case (Inr p)
    then obtain r' q where p: "p = (r', q)" and r': "released_record r (case sf_expiration_reason (rec_settlement_fallback r) of
               None \<Rightarrow> expired_reservation_reason ttl | Some x \<Rightarrow> x) now = Inr r'"
      and q: "reconciliation_from_record digest r' KindReleased None = Inr q" by (auto simp: res_simps)
    from null_fingerprint_no_commit [OF assms released_record_cases(2) [OF r'] q, of s] Inr p
    show ?thesis by (simp add: reap_one_def)
  qed
qed

lemma reap_loop_stuck:
  assumes "(rid, r) \<in> set items" "reapable now (Some ttl) l r"
    "fmlookup (rec_settlement_event_payload r) ''execution_profile_fingerprint'' = Some JNull"
  shows "\<exists>e t. reap_loop digest now ttl l items s = (Inl e, t)"
  using assms
proof (induction items arbitrary: s)
  case (Cons i items)
  obtain k x where i: "i = (k, x)" by (cases i)
  show ?case
  proof (cases "reapable now (Some ttl) l x")
    case False
    with Cons i show ?thesis by auto
  next
    case True
    obtain r1 u where u: "reap_one digest now ttl x s = (r1, u)" by fastforce
    show ?thesis
    proof (cases r1)
      case (Inl e)
      with True u i show ?thesis by simp
    next
      case (Inr z)
      with null_fingerprint_no_reap [of r digest now ttl s] u Cons.prems(3) have "x \<noteq> r" by auto
      with Cons.prems(1) i have "(rid, r) \<in> set items" by simp
      from Cons.IH [OF this Cons.prems(2,3), of u] True u i Inr show ?thesis by simp
    qed
  qed
qed simp

lemma null_fingerprint_no_release:
  assumes get: "dict_get (led_records s) rid = Some r"
    and null: "fmlookup (rec_settlement_event_payload r) ''execution_profile_fingerprint'' = Some JNull"
  shows "\<exists>e. release digest now rid reason at_time s = (Inl e, s)"
proof (rule ccontr)
  assume none: "\<nexists>e. release digest now rid reason at_time s = (Inl e, s)"
  obtain res t where run: "release digest now rid reason at_time s = (res, t)" by fastforce
  show False
  proof (cases res)
    case (Inr qq)
    from commit_and_return_Inr [OF run [unfolded Inr release_def]] obtain r' where
      rel: "released_record r reason (case at_time of None \<Rightarrow> now | Some t \<Rightarrow> t) = Inr r'"
      and q: "reconciliation_from_record digest r' KindReleased None = Inr qq"
      and com: "commit_settlement digest r r' qq s = (Inr (), t)"
      using get by (auto simp: res_simps)
    with null_fingerprint_no_commit [OF null released_record_cases(2) [OF rel] q, of s] show False by auto
  next
    case (Inl e)
    with run commit_and_return_state [OF run [unfolded release_def]] none show False
      by (auto simp: release_def commit_and_return_def res_simps split: sum.splits prod.splits)
  qed
qed

lemma null_fingerprint_no_reconcile:
  assumes get: "dict_get (led_records s) rid = Some r"
    and null: "fmlookup (rec_settlement_event_payload r) ''execution_profile_fingerprint'' = Some JNull"
  shows "\<exists>e. reconcile digest now rid actual kind reason at_time identity pricing s = (Inl e, s)"
proof (rule ccontr)
  assume none: "\<nexists>e. reconcile digest now rid actual kind reason at_time identity pricing s = (Inl e, s)"
  obtain res t where run: "reconcile digest now rid actual kind reason at_time identity pricing s = (res, t)" by fastforce
  show False
  proof (cases res)
    case (Inr qq)
    from commit_and_return_Inr [OF run [unfolded Inr reconcile_def]] obtain r' where
      rel: "reconciled_record r actual reason (case at_time of None \<Rightarrow> now | Some t \<Rightarrow> t) identity = Inr r'"
      and q: "reconciliation_from_record digest r' kind pricing = Inr qq"
      and com: "commit_settlement digest r r' qq s = (Inr (), t)"
      using get by (auto simp: res_simps)
    with null_fingerprint_no_commit [OF null reconciled_record_cases(2) [OF rel] q, of s] show False by auto
  next
    case (Inl e)
    with run commit_and_return_state [OF run [unfolded reconcile_def]] none show False
      by (auto simp: reconcile_def commit_and_return_def res_simps split: sum.splits prod.splits)
  qed
qed

lemma commit_settlements_stuck:
  assumes "(r, r', q) \<in> set work" "same_request r r'" "reconciliation_from_record digest r' kind pricing = Inr q"
    "fmlookup (rec_settlement_event_payload r) ''execution_profile_fingerprint'' = Some JNull"
  shows "\<exists>e t. commit_settlements digest work s = (Inl e, t)"
  using assms(1)
proof (induction work arbitrary: s)
  case (Cons w work)
  obtain a a' b where w: "w = (a, a', b)" by (cases w)
  obtain res u where u: "commit_settlement digest a a' b s = (res, u)" by fastforce
  show ?case
  proof (cases res)
    case (Inl e)
    with u w show ?thesis by simp
  next
    case (Inr x)
    with null_fingerprint_no_commit [OF assms(4,2,3), of s] u have "(a, a', b) \<noteq> (r, r', q)" by auto
    with Cons.prems w have "(r, r', q) \<in> set work" by auto
    from Cons.IH [OF this, of u] u w Inr show ?thesis by simp
  qed
qed simp

lemma null_fingerprint_no_pre_provider_release:
  assumes get: "dict_get (led_records s) rid = Some r" and mem: "rid \<in> set ids"
    and null: "fmlookup (rec_settlement_event_payload r) ''execution_profile_fingerprint'' = Some JNull"
  shows "\<exists>e t. release_pre_provider_dispatch digest now ids d reason at_time s = (Inl e, t)"
proof -
  let ?t = "case at_time of None \<Rightarrow> now | Some t \<Rightarrow> t"
  let ?prep = "bind_res (validate_reservation_id_batch ids) (\<lambda>ids.
           bind_res (require_clean_nonblank d) (\<lambda>d.
           bind_res (require_clean_nonblank reason) (\<lambda>reason.
           bind_res (traverse_res (check_pre_provider s d) ids) (\<lambda>records.
           bind_res (traverse_res (\<lambda>r. released_record r reason ?t) records) (\<lambda>released.
           bind_res (traverse_res (\<lambda>r. reconciliation_from_record digest r KindReleased None) released) (\<lambda>recons.
             Inr (zip records (zip released recons), recons)))))))"
  show ?thesis
  proof (cases ?prep)
    case (Inl e)
    then show ?thesis by (simp add: release_pre_provider_dispatch_def)
  next
    case (Inr p)
    then obtain rs rs' qs where p: "p = (zip rs (zip rs' qs), qs)"
      and tr: "list_all2 (\<lambda>i r. check_pre_provider s d i = Inr r) ids rs"
      and rel: "list_all2 (\<lambda>r r'. released_record r reason ?t = Inr r') rs rs'"
      and q: "list_all2 (\<lambda>r' q. reconciliation_from_record digest r' KindReleased None = Inr q) rs' qs"
      by (auto simp: res_simps traverse_res_Inr)
    from mem obtain i where i: "i < length ids" "ids ! i = rid" by (auto simp: in_set_conv_nth)
    note len = list_all2_lengthD [OF tr] list_all2_lengthD [OF rel] list_all2_lengthD [OF q]
    have "rs ! i = r" using list_all2_nthD [OF tr i(1)] i(2) get by (simp add: check_pre_provider_Inr)
    moreover have "released_record (rs ! i) reason ?t = Inr (rs' ! i)" using rel i len by (simp add: list_all2_conv_all_nth)
    moreover have "reconciliation_from_record digest (rs' ! i) KindReleased None = Inr (qs ! i)"
      using q i len by (simp add: list_all2_conv_all_nth)
    moreover have "(rs ! i, rs' ! i, qs ! i) \<in> set (zip rs (zip rs' qs))"
      using i len by (auto simp: set_zip)
    ultimately obtain e u where "commit_settlements digest (zip rs (zip rs' qs)) s = (Inl e, u)"
      using commit_settlements_stuck [OF _ _ _ null] released_record_cases(2) by metis
    then show ?thesis using Inr by (simp add: release_pre_provider_dispatch_def p)
  qed
qed

lemma null_fingerprint_blocks_limit:
  assumes get: "dict_get (led_records s) rid = Some r"
    and null: "fmlookup (rec_settlement_event_payload r) ''execution_profile_fingerprint'' = Some JNull"
    and reap: "reapable now (led_ttl s) l r"
  shows "\<exists>e t. reserve zones digest now fresh l q s = (Inl e, t)"
proof -
  from reap obtain n where ttl: "led_ttl s = Some n"
    by (cases "led_ttl s") (auto simp: reapable_def reservation_is_expired_def)
  have "(rid, r) \<in> set (led_records s)" using get by (rule map_of_SomeD)
  from reap_loop_stuck [OF this] reap null ttl obtain e t where "reap_expired digest now l s = (Inl e, t)"
    by (force simp: reap_expired_def)
  then show ?thesis by (auto simp: reserve_def split: sum.splits)
qed

text \<open>A ledger's terminal reservations have no null fingerprint, so along a run such a reservation stays active.\<close>

lemma null_fingerprint_active:
  assumes ok: "ledger_ok digest s" and get: "dict_get (led_records s) rid = Some r"
    and null: "fmlookup (rec_settlement_event_payload r) ''execution_profile_fingerprint'' = Some JNull"
  shows "rec_status r = Active \<and> (\<forall>sid e. dict_get (led_settlements s) sid = Some e \<longrightarrow> st_reservation_id e \<noteq> rid)"
proof -
  have none: "\<not> settles digest e r" for e
    using null_fingerprint_no_settlement [OF null same_request_refl] by (auto simp: settles_def)
  have "outbox_ok digest s" using ok by (simp add: ledger_ok_def)
  with none get show ?thesis using outbox_terminal [of digest s rid r] outbox_entry [of digest s] by fastforce
qed

lemma null_fingerprint_run:
  assumes ok: "ledger_ok digest s" and run: "(ledger_step zones digest)\<^sup>*\<^sup>* s t"
    and get: "dict_get (led_records s) rid = Some r"
    and null: "fmlookup (rec_settlement_event_payload r) ''execution_profile_fingerprint'' = Some JNull"
  obtains r' where "dict_get (led_records t) rid = Some r'"
    "rec_settlement_event_payload r' = rec_settlement_event_payload r" "ledger_ok digest t"
proof -
  from ledger_run_evolves [OF run ok] get obtain r' where r': "dict_get (led_records t) rid = Some r'"
    "record_evolves (\<lambda>_. True) r r'" and tok: "ledger_ok digest t" unfolding ledger_evolves_def by blast
  from r'(2) have "rec_settlement_event_payload r' = rec_settlement_event_payload r" by (auto simp: record_evolves_def)
  with r'(1) tok show thesis by (intro that)
qed

text \<open>
  C24. A reservation whose settlement payload carries a null execution profile fingerprint can never be
  settled.  Whatever coroutines run after it was stored, it is still active with the same payload and
  no settlement of it is in the outbox.  In every state so reached release and reconcile raise and
  change nothing, a pre-provider release of any batch that names it raises, and when it is reapable,
  that is expired and never dispatched, every reserve on its limit raises.
\<close>
theorem null_fingerprint_never_settles:
  assumes "new_ledger ttl = Inr s0" "(ledger_step zones digest)\<^sup>*\<^sup>* s0 s" "(ledger_step zones digest)\<^sup>*\<^sup>* s t"
    "dict_get (led_records s) rid = Some r"
    "fmlookup (rec_settlement_event_payload r) ''execution_profile_fingerprint'' = Some JNull"
  shows "\<exists>r'. dict_get (led_records t) rid = Some r' \<and> rec_status r' = Active
    \<and> rec_settlement_event_payload r' = rec_settlement_event_payload r
    \<and> (\<forall>sid e. dict_get (led_settlements t) sid = Some e \<longrightarrow> st_reservation_id e \<noteq> rid)
    \<and> (\<exists>e. release digest now rid reason at_time t = (Inl e, t))
    \<and> (\<exists>e. reconcile digest now rid actual kind reason' at_time identity pricing t = (Inl e, t))
    \<and> (rid \<in> set ids \<longrightarrow> (\<exists>e u. release_pre_provider_dispatch digest now ids d reason at_time t = (Inl e, u)))
    \<and> (reapable now (led_ttl t) l r' \<longrightarrow> (\<exists>e u. reserve zones digest now fresh l q t = (Inl e, u)))"
proof -
  have "ledger_ok digest s" using assms(1,2) new_ledger_ok ledger.inv_run by blast
  from null_fingerprint_run [OF this assms(3-5)] obtain r' where r': "dict_get (led_records t) rid = Some r'"
    "rec_settlement_event_payload r' = rec_settlement_event_payload r" "ledger_ok digest t" .
  with assms(5) have "fmlookup (rec_settlement_event_payload r') ''execution_profile_fingerprint'' = Some JNull" by simp
  note null = this and active = null_fingerprint_active [OF r'(3,1) this]
  show ?thesis
    by (rule exI [of _ r'], intro conjI impI)
      (rule r' active [THEN conjunct1] active [THEN conjunct2] null_fingerprint_no_release [OF r'(1) null]
         null_fingerprint_no_reconcile [OF r'(1) null] null_fingerprint_no_pre_provider_release [OF r'(1) _ null]
         null_fingerprint_blocks_limit [OF r'(1) null], assumption?)+
qed

lemma sample_stuck_run: "(ledger_step utc_zones sample_digest)\<^sup>*\<^sup>* sample_ledger sample_stuck"
  unfolding sample_stuck_def by (rule r_into_rtranclp) (rule step_reserve)

theorem null_fingerprint_never_settles_witness:
  "map_option rec_status (dict_get (led_records sample_stuck) ''r1'') = Some Active
   \<and> (\<exists>e. release sample_digest 100000000 ''r1'' ''x'' None sample_stuck = (Inl e, sample_stuck))
   \<and> (\<exists>e t. reserve utc_zones sample_digest 100000000 '''' sample_ceiling (sample_request ''r3'' (1 / 100) fmempty) sample_stuck = (Inl e, t))"
proof -
  have "map_option (\<lambda>r. fmlookup (rec_settlement_event_payload r) ''execution_profile_fingerprint'') (dict_get (led_records sample_stuck) ''r1'') = Some (Some JNull)"
    "map_option (reapable 100000000 (led_ttl sample_stuck) sample_ceiling) (dict_get (led_records sample_stuck) ''r1'') = Some True"
    by code_simp+
  then obtain r where r: "dict_get (led_records sample_stuck) ''r1'' = Some r"
    "fmlookup (rec_settlement_event_payload r) ''execution_profile_fingerprint'' = Some JNull"
    and reap: "reapable 100000000 (led_ttl sample_stuck) sample_ceiling r" by auto
  from null_fingerprint_never_settles [OF sample_new sample_stuck_run rtranclp.rtrancl_refl r, where now = 100000000
      and reason = "''x''" and at_time = None and fresh = "''''" and l = sample_ceiling
      and q = "sample_request ''r3'' (1 / 100) fmempty"] r(1) reap
  show ?thesis by auto
qed

end
