(* ===== verification/Task_Records.thy ===== *)
theory Task_Records
  imports Budget_Window
begin

text \<open>
  Durable task records (\<open>src/cayu/tasks/records.py\<close>, \<open>scheduling.py\<close>, \<open>_graph_identity.py\<close>): the task
  snapshot with its schedule and retry series, their validation, and the retry-attempt authority
  digest.  Seconds given as floats are rationals; SHA-256 over canonical JSON is the argument \<open>digest\<close>.
  Not modelled: the size limits of JSON documents and of work contracts, the digit limits of decimals.
\<close>

section \<open>Data\<close>

datatype task_status =
    PENDING
  | WAITING_DEPENDENCIES
  | WAITING_GROUP
  | DEPENDENCY_SKIPPED
  | CLAIMED
  | RUNNING
  | PAUSED
  | BLOCKED
  | NEEDS_ATTENTION
  | COMPLETED
  | FAILED
  | CANCELLED

fun task_status_value :: "task_status \<Rightarrow> string" where
  "task_status_value PENDING = ''pending''"
| "task_status_value WAITING_DEPENDENCIES = ''waiting_dependencies''"
| "task_status_value WAITING_GROUP = ''waiting_group''"
| "task_status_value DEPENDENCY_SKIPPED = ''dependency_skipped''"
| "task_status_value CLAIMED = ''claimed''"
| "task_status_value RUNNING = ''running''"
| "task_status_value PAUSED = ''paused''"
| "task_status_value BLOCKED = ''blocked''"
| "task_status_value NEEDS_ATTENTION = ''needs_attention''"
| "task_status_value COMPLETED = ''completed''"
| "task_status_value FAILED = ''failed''"
| "task_status_value CANCELLED = ''cancelled''"

definition terminal_task_statuses :: "task_status set" where
  "terminal_task_statuses = {COMPLETED, FAILED, CANCELLED, DEPENDENCY_SKIPPED}"

definition held_task_statuses :: "task_status set" where
  "held_task_statuses = {PAUSED, BLOCKED, NEEDS_ATTENTION}"

datatype retry_series_disposition =
    SERIES_ACTIVE
  | RETRY_SCHEDULED
  | SUCCEEDED
  | NON_RETRYABLE_FAILURE
  | SERIES_CANCELLED
  | ATTEMPTS_EXHAUSTED
  | ELAPSED_EXHAUSTED
  | TOKENS_EXHAUSTED
  | COST_EXHAUSTED

fun retry_disposition_value :: "retry_series_disposition \<Rightarrow> string" where
  "retry_disposition_value SERIES_ACTIVE = ''active''"
| "retry_disposition_value RETRY_SCHEDULED = ''retry_scheduled''"
| "retry_disposition_value SUCCEEDED = ''succeeded''"
| "retry_disposition_value NON_RETRYABLE_FAILURE = ''non_retryable_failure''"
| "retry_disposition_value SERIES_CANCELLED = ''cancelled''"
| "retry_disposition_value ATTEMPTS_EXHAUSTED = ''attempts_exhausted''"
| "retry_disposition_value ELAPSED_EXHAUSTED = ''elapsed_exhausted''"
| "retry_disposition_value TOKENS_EXHAUSTED = ''tokens_exhausted''"
| "retry_disposition_value COST_EXHAUSTED = ''cost_exhausted''"

record retry_policy =
  tp_max_attempts :: int
  tp_max_elapsed_seconds :: "rat option"
  tp_max_total_tokens :: "int option"
  tp_max_estimated_cost :: "rat option"
  tp_cost_currency :: string
  tp_initial_backoff_seconds :: rat
  tp_backoff_multiplier :: rat
  tp_max_backoff_seconds :: rat

record retry_series =
  rs_series_id :: string
  rs_causal_budget_id :: string
  rs_authority_sha256 :: string
  rs_attempt :: int
  rs_policy :: retry_policy
  rs_started_at :: datetime
  rs_cumulative_tokens :: int
  rs_cumulative_estimated_cost :: rat
  rs_attempts_remaining :: int
  rs_tokens_remaining :: "int option"
  rs_estimated_cost_remaining :: "rat option"
  rs_elapsed_deadline :: "datetime option"
  rs_disposition :: retry_series_disposition
  rs_predecessor_task_id :: "string option"
  rs_successor_task_id :: "string option"
  rs_next_eligible_at :: "datetime option"

datatype misfire_policy = FIRE_ONCE | SKIP

record schedule_policy =
  sp_expires_at :: "datetime option"
  sp_misfire_policy :: misfire_policy
  sp_misfire_grace_seconds :: int

record schedule_state =
  ss_revision :: int
  ss_policy :: schedule_policy
  ss_creation_sha256 :: string
  ss_admitted_at :: "datetime option"

text \<open>Invocation provenance: the fields the task code reads; the rest is kept as one document.\<close>

record task_invocation =
  ti_root_invocation_id :: string
  ti_root_session_id :: "string option"
  ti_event_retry_key :: "string option"
  ti_document :: json_object

record restart_record =
  rst_restarted_at :: datetime
  rst_previous_worker_id :: string
  rst_previous_lease_expires_at :: datetime
  rst_previous_session_id :: "string option"
  rst_validator_id :: string
  rst_validator_version :: string
  rst_evidence_id :: string

record task =
  tk_id :: string
  tk_type :: string
  tk_concurrency_key :: "string option"
  tk_restartable :: bool
  tk_restart_count :: int
  tk_max_restarts :: "int option"
  tk_restart_history :: "restart_record list"
  tk_title :: "string option"
  tk_description :: "string option"
  tk_status :: task_status
  tk_session_id :: "string option"
  tk_session_instance_id :: "string option"
  tk_parent_task_id :: "string option"
  tk_assigned_agent_name :: "string option"
  tk_graph_id :: "string option"
  tk_prerequisite_task_ids :: "string list"
  tk_available_at :: "datetime option"
  tk_worker_id :: "string option"
  tk_lease_expires_at :: "datetime option"
  tk_interrupted_handoff_id :: "string option"
  tk_status_reason :: "string option"
  tk_status_payload :: "json_object option"
  tk_input :: json_object
  tk_result :: "json_object option"
  tk_error :: "json_object option"
  tk_metadata :: json_object
  tk_created_at :: datetime
  tk_updated_at :: datetime
  tk_started_at :: "datetime option"
  tk_completed_at :: "datetime option"
  tk_invocation :: task_invocation
  tk_schedule :: "schedule_state option"
  tk_retry_series :: "retry_series option"
  tk_work_contract :: "json_object option"

section \<open>Text of instants and durations\<close>

definition isoformat :: "datetime \<Rightarrow> string" where
  "isoformat t = (let day = t div 86400000000; rest = t mod 86400000000;
       secs = rest div 1000000; us = rest mod 1000000
     in iso_date (day + epoch_ordinal) @ ''T'' @ pad_digits 2 (secs div 3600) @ '':'' @
        pad_digits 2 (secs div 60 mod 60) @ '':'' @ pad_digits 2 (secs mod 60) @
        (if us = 0 then [] else ''.'' @ pad_digits 6 us) @ ''+00:00'')"

text \<open>The JSON text pydantic writes for an instant: ISO format with \<open>Z\<close> for the zone.\<close>

definition json_instant :: "datetime \<Rightarrow> json" where
  "json_instant t = (let s = isoformat t in JStr (take (length s - 6) s @ ''Z''))"

text \<open>\<open>timedelta(seconds=x)\<close> in microseconds: rounded to the nearest, ties to even.\<close>

definition round_half_even :: "rat \<Rightarrow> int" where
  "round_half_even x = (let f = \<lfloor>x\<rfloor>; d = x - of_int f in
     if d < 1 / 2 \<or> (d = 1 / 2 \<and> even f) then f else f + 1)"

definition timedelta_us :: "rat \<Rightarrow> int" where
  "timedelta_us s = round_half_even (s * 1000000)"

section \<open>Schedules\<close>

definition task_schedule_grace_max_seconds :: int where
  "task_schedule_grace_max_seconds = 366 * 24 * 60 * 60"

definition schedule_policy_valid :: "schedule_policy \<Rightarrow> bool" where
  "schedule_policy_valid p \<longleftrightarrow> 0 \<le> sp_misfire_grace_seconds p \<and>
     sp_misfire_grace_seconds p \<le> task_schedule_grace_max_seconds"

definition validate_task_schedule_window :: "datetime \<Rightarrow> schedule_policy \<Rightarrow> unit result" where
  "validate_task_schedule_window available_at p =
     (if \<not> schedule_policy_valid p then Inl ValueError
      else case sp_expires_at p of
        None \<Rightarrow> Inr ()
      | Some e \<Rightarrow> if e \<le> available_at then Inl ValueError else Inr ())"

datatype schedule_eligibility =
    SCHEDULE_FUTURE
  | SCHEDULE_ELIGIBLE
  | SCHEDULE_MISFIRED
  | SCHEDULE_EXPIRED
  | SCHEDULE_SKIPPED

definition task_schedule_eligibility :: "datetime \<Rightarrow> schedule_policy \<Rightarrow> datetime \<Rightarrow> schedule_eligibility result" where
  "task_schedule_eligibility available_at p as_of =
     bind_res (validate_task_schedule_window available_at p) (\<lambda>_.
       if as_of < available_at then Inr SCHEDULE_FUTURE
       else if (case sp_expires_at p of None \<Rightarrow> False | Some e \<Rightarrow> as_of \<ge> e) then Inr SCHEDULE_EXPIRED
       else if as_of - available_at > seconds (sp_misfire_grace_seconds p) then
         Inr (if sp_misfire_policy p = SKIP then SCHEDULE_SKIPPED else SCHEDULE_MISFIRED)
       else Inr SCHEDULE_ELIGIBLE)"

definition max_portable_json_integer :: int where
  "max_portable_json_integer = 2 ^ 53 - 1"

definition schedule_state_valid :: "schedule_state \<Rightarrow> bool" where
  "schedule_state_valid s \<longleftrightarrow> 1 \<le> ss_revision s \<and> ss_revision s \<le> max_portable_json_integer \<and>
     schedule_policy_valid (ss_policy s) \<and> is_sha256_text (ss_creation_sha256 s)"

section \<open>Retry series\<close>

text \<open>
  Costs are decimals of at most so many digits with an exponent between -64 and 64.  A cost that is given
  is below the power of ten these bounds leave; one that is computed has at most the 28 digits of the
  decimal context, so it is refused exactly when it rounds to \<open>10 ^ 92\<close> or more.
\<close>

definition given_cost_ok :: "nat \<Rightarrow> rat \<Rightarrow> bool" where
  "given_cost_ok max_digits x \<longleftrightarrow> 0 \<le> x \<and> x < of_int (10 ^ (max_digits + 64))"

definition computed_cost_ok :: "rat \<Rightarrow> bool" where
  "computed_cost_ok x \<longleftrightarrow> 0 \<le> x \<and> x < of_int (10 ^ 92 - 5 * 10 ^ 63)"

definition retry_policy_valid :: "retry_policy \<Rightarrow> bool" where
  "retry_policy_valid p \<longleftrightarrow> 1 \<le> tp_max_attempts p \<and> tp_max_attempts p \<le> 100 \<and>
     opt_holds (\<lambda>x. 0 < x \<and> x \<le> 31536000) (tp_max_elapsed_seconds p) \<and>
     opt_holds (\<lambda>n. 0 < n \<and> n \<le> max_durable_json_integer) (tp_max_total_tokens p) \<and>
     opt_holds (\<lambda>c. 0 < c \<and> given_cost_ok 64 c) (tp_max_estimated_cost p) \<and>
     durable_clean (tp_cost_currency p) \<and> utf8_bytes (tp_cost_currency p) \<le> 16 \<and>
     0 \<le> tp_initial_backoff_seconds p \<and> tp_initial_backoff_seconds p \<le> 86400 \<and>
     1 \<le> tp_backoff_multiplier p \<and> tp_backoff_multiplier p \<le> 100 \<and>
     0 \<le> tp_max_backoff_seconds p \<and> tp_max_backoff_seconds p \<le> 86400"

definition retry_series_valid :: "retry_series \<Rightarrow> bool" where
  "retry_series_valid s \<longleftrightarrow>
     durable_clean (rs_series_id s) \<and> durable_clean (rs_causal_budget_id s) \<and> is_sha256_text (rs_authority_sha256 s) \<and>
     1 \<le> rs_attempt s \<and> rs_attempt s \<le> 100 \<and> retry_policy_valid (rs_policy s) \<and>
     0 \<le> rs_cumulative_tokens s \<and> rs_cumulative_tokens s \<le> max_durable_json_integer \<and>
     given_cost_ok 128 (rs_cumulative_estimated_cost s) \<and> opt_holds (given_cost_ok 64) (rs_estimated_cost_remaining s) \<and>
     opt_holds durable_clean (rs_predecessor_task_id s) \<and> opt_holds durable_clean (rs_successor_task_id s) \<and>
     rs_attempts_remaining s = max 0 (tp_max_attempts (rs_policy s) - rs_attempt s) \<and>
     rs_tokens_remaining s = map_option (\<lambda>n. max 0 (n - rs_cumulative_tokens s)) (tp_max_total_tokens (rs_policy s)) \<and>
     rs_estimated_cost_remaining s =
       map_option (\<lambda>c. max 0 (c - rs_cumulative_estimated_cost s)) (tp_max_estimated_cost (rs_policy s)) \<and>
     rs_elapsed_deadline s =
       map_option (\<lambda>x. rs_started_at s + timedelta_us x) (tp_max_elapsed_seconds (rs_policy s)) \<and>
     (rs_disposition s = RETRY_SCHEDULED \<longleftrightarrow> rs_successor_task_id s \<noteq> None) \<and>
     (rs_disposition s = RETRY_SCHEDULED \<longleftrightarrow> rs_next_eligible_at s \<noteq> None)"

definition retry_policy_json :: "retry_policy \<Rightarrow> json" where
  "retry_policy_json p = JObj (fmap_of_list
     [(''max_attempts'', JInt (tp_max_attempts p)),
      (''max_elapsed_seconds'', json_opt JNum (tp_max_elapsed_seconds p)),
      (''max_total_tokens'', json_opt JInt (tp_max_total_tokens p)),
      (''max_estimated_cost'', json_opt JDec (tp_max_estimated_cost p)),
      (''cost_currency'', JStr (tp_cost_currency p)),
      (''initial_backoff_seconds'', JNum (tp_initial_backoff_seconds p)),
      (''backoff_multiplier'', JNum (tp_backoff_multiplier p)),
      (''max_backoff_seconds'', JNum (tp_max_backoff_seconds p))])"

text \<open>
  The authority of one attempt.  The record \<open>s\<close> supplies series, causal budget, attempt, policy, start,
  cumulative figures and predecessor; \<open>t\<close> supplies the task fields.
\<close>

definition task_retry_attempt_authority_sha256 :: "(json \<Rightarrow> string) \<Rightarrow> task \<Rightarrow> retry_series \<Rightarrow> string" where
  "task_retry_attempt_authority_sha256 digest t s = digest (JObj (fmap_of_list (
     [(''schema'', JStr ''cayu.task-retry-attempt-authority.v1'')] @
     (case tk_concurrency_key t of None \<Rightarrow> [] | Some k \<Rightarrow> [(''concurrency_key'', JStr k)]) @
     [(''task_id'', JStr (tk_id t)), (''task_type'', JStr (tk_type t)),
      (''title'', json_opt JStr (tk_title t)), (''description'', json_opt JStr (tk_description t)),
      (''parent_task_id'', json_opt JStr (tk_parent_task_id t)),
      (''assigned_agent_name'', json_opt JStr (tk_assigned_agent_name t)),
      (''available_at'', json_opt (\<lambda>x. JStr (isoformat x)) (tk_available_at t)),
      (''created_at'', JStr (isoformat (tk_created_at t))),
      (''input'', JObj (tk_input t)), (''metadata'', JObj (tk_metadata t)),
      (''invocation'', JObj (ti_document (tk_invocation t))),
      (''series_id'', JStr (rs_series_id s)), (''causal_budget_id'', JStr (rs_causal_budget_id s)),
      (''attempt'', JInt (rs_attempt s)), (''policy'', retry_policy_json (rs_policy s)),
      (''started_at'', JStr (isoformat (rs_started_at s))),
      (''cumulative_tokens'', JInt (rs_cumulative_tokens s)),
      (''cumulative_estimated_cost'', JDec (rs_cumulative_estimated_cost s)),
      (''predecessor_task_id'', json_opt JStr (rs_predecessor_task_id s))])))"

section \<open>Validation of a task\<close>

definition task_graph_max_nodes :: nat where "task_graph_max_nodes = 1024"

definition task_graph_max_edges :: nat where "task_graph_max_edges = 4096"

definition graph_identifier :: "string \<Rightarrow> string result" where
  "graph_identifier s = bind_res (require_durable_clean_nonblank s) (\<lambda>s.
     if utf8_bytes s > 256 then Inl ValueError else Inr s)"

definition is_graph_identifier :: "string \<Rightarrow> bool" where
  "is_graph_identifier s \<longleftrightarrow> graph_identifier s = Inr s"

definition restart_policy_ok :: "task \<Rightarrow> bool" where
  "restart_policy_ok t \<longleftrightarrow> 0 \<le> tk_restart_count t \<and>
     opt_holds (\<lambda>n. 0 \<le> n \<and> n \<le> 100) (tk_max_restarts t) \<and>
     \<not> (tk_restart_count t \<noteq> 0 \<and> \<not> tk_restartable t) \<and>
     \<not> (tk_max_restarts t \<noteq> None \<and> \<not> tk_restartable t) \<and>
     int (length (tk_restart_history t)) \<le> tk_restart_count t \<and>
     \<not> (tk_restartable t \<and> (tk_graph_id t \<noteq> None \<or> tk_parent_task_id t \<noteq> None \<or> tk_schedule t \<noteq> None
         \<or> tk_retry_series t \<noteq> None \<or> tk_work_contract t \<noteq> None \<or> ti_root_session_id (tk_invocation t) \<noteq> None))"

definition graph_membership_ok :: "task \<Rightarrow> bool" where
  "graph_membership_ok t = (case tk_graph_id t of
       None \<Rightarrow> tk_prerequisite_task_ids t = [] \<and>
         tk_status t \<notin> {WAITING_DEPENDENCIES, WAITING_GROUP, DEPENDENCY_SKIPPED}
     | Some g \<Rightarrow> is_graph_identifier g \<and> is_graph_identifier (tk_id t) \<and>
         length (tk_prerequisite_task_ids t) \<le> task_graph_max_nodes \<and>
         list_all is_graph_identifier (tk_prerequisite_task_ids t) \<and>
         sorted_wrt (<) (tk_prerequisite_task_ids t) \<and> tk_id t \<notin> set (tk_prerequisite_task_ids t) \<and>
         \<not> (tk_status t \<in> {WAITING_DEPENDENCIES, DEPENDENCY_SKIPPED} \<and> tk_prerequisite_task_ids t = []))"

definition schedule_ok :: "task \<Rightarrow> bool" where
  "schedule_ok t = (case tk_schedule t of
       None \<Rightarrow> True
     | Some s \<Rightarrow> schedule_state_valid s \<and> (case tk_available_at t of
           None \<Rightarrow> False
         | Some a \<Rightarrow> ss_admitted_at s \<noteq> None \<or> validate_task_schedule_window a (ss_policy s) = Inr ()))"

definition retry_and_contract_ok :: "(json \<Rightarrow> string) \<Rightarrow> task \<Rightarrow> bool" where
  "retry_and_contract_ok digest t \<longleftrightarrow>
     \<not> (tk_session_instance_id t \<noteq> None \<and> tk_session_id t = None) \<and>
     \<not> (tk_interrupted_handoff_id t \<noteq> None \<and>
        (tk_status t \<noteq> RUNNING \<or> tk_session_id t = None \<or> tk_session_instance_id t = None)) \<and>
     (case tk_retry_series t of
        None \<Rightarrow> True
      | Some s \<Rightarrow> retry_series_valid s \<and> utf8_bytes (tk_id t) \<le> 1024 \<and>
          opt_holds (\<lambda>w. utf8_bytes w \<le> 1024) (tk_worker_id t) \<and>
          rs_authority_sha256 s = task_retry_attempt_authority_sha256 digest t s \<and>
          tk_work_contract t = None)"

text \<open>A canonical version 4 UUID: lower-case hexadecimal digits in five groups, version and variant fixed.\<close>

definition is_uuid4 :: "string \<Rightarrow> bool" where
  "is_uuid4 s \<longleftrightarrow> length s = 36 \<and>
     list_all (\<lambda>i. if i \<in> {8, 13, 18, 23} then s ! i = CHR ''-'' else hex_char (s ! i)) [0..<36] \<and>
     s ! 14 = CHR ''4'' \<and> s ! 19 \<in> set ''89ab''"

text \<open>A concurrency key: one letter or digit, then up to 255 characters of a restricted alphabet.\<close>

definition concurrency_key_ok :: "string \<Rightarrow> bool" where
  "concurrency_key_ok k \<longleftrightarrow>
     (let letters = ''ABCDEFGHIJKLMNOPQRSTUVWXYZabcdefghijklmnopqrstuvwxyz0123456789''
      in (case k of [] \<Rightarrow> False | c # cs \<Rightarrow> c \<in> set letters \<and> length cs \<le> 255 \<and>
           list_all (\<lambda>c. c \<in> set letters \<or> c \<in> set ''._:/@#=+-'') cs))"

definition task_texts_ok :: "task \<Rightarrow> bool" where
  "task_texts_ok t \<longleftrightarrow> durable_clean (tk_id t) \<and> durable_clean (tk_type t) \<and>
     opt_holds durable_nonblank (tk_title t) \<and> opt_holds durable_nonblank (tk_description t) \<and>
     opt_holds durable_nonblank (tk_status_reason t) \<and>
     opt_holds durable_clean (tk_session_id t) \<and> opt_holds durable_clean (tk_parent_task_id t) \<and>
     opt_holds durable_clean (tk_assigned_agent_name t) \<and> opt_holds durable_clean (tk_worker_id t) \<and>
     opt_holds durable_clean (tk_interrupted_handoff_id t) \<and> opt_holds concurrency_key_ok (tk_concurrency_key t) \<and>
     opt_holds is_uuid4 (tk_session_instance_id t)"

definition task_valid :: "(json \<Rightarrow> string) \<Rightarrow> task \<Rightarrow> bool" where
  "task_valid digest t \<longleftrightarrow> task_texts_ok t \<and> restart_policy_ok t \<and> graph_membership_ok t \<and>
     schedule_ok t \<and> retry_and_contract_ok digest t"

definition copy_task :: "(json \<Rightarrow> string) \<Rightarrow> task \<Rightarrow> task result" where
  "copy_task digest t = (if task_valid digest t then Inr t else Inl ValueError)"

lemma copy_task_Inr [res_simps]: "copy_task digest t = Inr u \<longleftrightarrow> u = t \<and> task_valid digest t"
  by (auto simp: copy_task_def)

section \<open>Schedule eligibility\<close>

text \<open>
  Every valid schedule is in exactly one of five phases at every instant, decided by two
  boundaries: future strictly before availability; expired from the exclusive expiry on, whatever the
  misfire policy; late when the grace is strictly exceeded; eligible otherwise, equality included.
  Once due, a schedule never becomes future again, and an expired one stays expired.
\<close>
theorem eligibility_phases:
  assumes "validate_task_schedule_window available_at p = Inr ()" and "as_of \<le> later"
  shows "(\<exists>phase. task_schedule_eligibility available_at p as_of = Inr phase \<and>
      (phase = SCHEDULE_FUTURE \<longleftrightarrow> as_of < available_at) \<and>
      (phase = SCHEDULE_EXPIRED \<longleftrightarrow> (\<exists>e. sp_expires_at p = Some e \<and> e \<le> as_of)) \<and>
      (phase = SCHEDULE_ELIGIBLE \<longleftrightarrow> available_at \<le> as_of \<and> as_of \<le> available_at + seconds (sp_misfire_grace_seconds p)
         \<and> (\<forall>e. sp_expires_at p = Some e \<longrightarrow> as_of < e))) \<and>
    (task_schedule_eligibility available_at p as_of = Inr SCHEDULE_EXPIRED \<longrightarrow>
      task_schedule_eligibility available_at p later = Inr SCHEDULE_EXPIRED) \<and>
    (task_schedule_eligibility available_at p later = Inr SCHEDULE_FUTURE \<longrightarrow>
      task_schedule_eligibility available_at p as_of = Inr SCHEDULE_FUTURE)"
  using assms
  by (auto simp: task_schedule_eligibility_def validate_task_schedule_window_def split: if_splits option.splits)

definition sample_schedule_policy :: schedule_policy where
  "sample_schedule_policy = \<lparr>sp_expires_at = Some 20000000, sp_misfire_policy = SKIP, sp_misfire_grace_seconds = 5\<rparr>"

theorem eligibility_phases_witness:
  "task_schedule_eligibility 10000000 sample_schedule_policy 15000000 = Inr SCHEDULE_ELIGIBLE \<and>
   task_schedule_eligibility 10000000 sample_schedule_policy 20000000 = Inr SCHEDULE_EXPIRED"
proof -
  have v: "validate_task_schedule_window 10000000 sample_schedule_policy = Inr ()" by code_simp
  show ?thesis using eligibility_phases [OF v, of 15000000 15000000] eligibility_phases [OF v, of 20000000 20000000]
    by (simp add: sample_schedule_policy_def seconds_def)
qed

end
