(* ===== verification/Task_Retry.thy ===== *)
theory Task_Retry
  imports Task_Records
begin

text \<open>
  Retry series of tasks (\<open>src/cayu/tasks/retry.py\<close>): classification of one attempt's outcome, cumulative
  accounting, backoff, the successor attempt, and the settlements the runtime makes on its own.
  Receipts of cancellation reconciliation are not modelled.
\<close>

section \<open>Data\<close>

datatype attempt_disposition =
    ATTEMPT_SUCCEEDED
  | RETRYABLE_FAILURE
  | ATTEMPT_NON_RETRYABLE_FAILURE
  | ATTEMPT_CANCELLED

fun attempt_disposition_value :: "attempt_disposition \<Rightarrow> string" where
  "attempt_disposition_value ATTEMPT_SUCCEEDED = ''succeeded''"
| "attempt_disposition_value RETRYABLE_FAILURE = ''retryable_failure''"
| "attempt_disposition_value ATTEMPT_NON_RETRYABLE_FAILURE = ''non_retryable_failure''"
| "attempt_disposition_value ATTEMPT_CANCELLED = ''cancelled''"

datatype retry_event_type = ATTEMPT_SETTLED | RETRY_SCHEDULED_EVENT | SERIES_TERMINAL

fun retry_event_type_value :: "retry_event_type \<Rightarrow> string" where
  "retry_event_type_value ATTEMPT_SETTLED = ''task.retry.attempt_settled''"
| "retry_event_type_value RETRY_SCHEDULED_EVENT = ''task.retry.scheduled''"
| "retry_event_type_value SERIES_TERMINAL = ''task.retry.series_terminal''"

record retry_event =
  re_id :: string
  re_type :: retry_event_type
  re_task_id :: string
  re_series_id :: string
  re_causal_budget_id :: string
  re_attempt :: int
  re_disposition :: retry_series_disposition
  re_occurred_at :: datetime
  re_attempts_remaining :: int
  re_tokens_remaining :: "int option"
  re_estimated_cost_remaining :: "rat option"
  re_cost_currency :: string
  re_elapsed_deadline :: "datetime option"
  re_next_eligible_at :: "datetime option"

record retry_settlement_request =
  sq_task_id :: string
  sq_worker_id :: string
  sq_lease_expires_at :: "datetime option"
  sq_idempotency_key :: string
  sq_causal_budget_id :: string
  sq_disposition :: attempt_disposition
  sq_result :: "json_object option"
  sq_error :: "json_object option"
  sq_token_count :: int
  sq_estimated_cost :: rat
  sq_retry_after_seconds :: "rat option"

record retry_settlement =
  sr_task_id :: string
  sr_idempotency_key :: string
  sr_request_sha256 :: string
  sr_task :: task
  sr_successor :: "task option"
  sr_events :: "retry_event list"
  sr_committed_at :: datetime

section \<open>Requests\<close>

definition idempotency_key_ok :: "string \<Rightarrow> bool" where
  "idempotency_key_ok k \<longleftrightarrow> durable_clean k \<and> utf8_bytes k \<le> 256"

definition settlement_request_valid :: "retry_settlement_request \<Rightarrow> bool" where
  "settlement_request_valid q \<longleftrightarrow> durable_clean (sq_task_id q) \<and> durable_clean (sq_worker_id q) \<and>
     durable_clean (sq_causal_budget_id q) \<and> idempotency_key_ok (sq_idempotency_key q) \<and>
     0 \<le> sq_token_count q \<and> sq_token_count q \<le> max_durable_json_integer div 100 \<and>
     given_cost_ok 64 (sq_estimated_cost q) \<and>
     opt_holds (\<lambda>x. 0 \<le> x \<and> x \<le> 86400) (sq_retry_after_seconds q) \<and>
     (if sq_disposition q = ATTEMPT_SUCCEEDED then sq_result q \<noteq> None \<and> sq_error q = None
      else sq_result q = None \<and> sq_error q \<noteq> None) \<and>
     \<not> (sq_retry_after_seconds q \<noteq> None \<and> sq_disposition q \<noteq> RETRYABLE_FAILURE)"

definition settlement_request_items :: "retry_settlement_request \<Rightarrow> (string \<times> json) list" where
  "settlement_request_items q =
     [(''task_id'', JStr (sq_task_id q)), (''worker_id'', JStr (sq_worker_id q)),
      (''causal_budget_id'', JStr (sq_causal_budget_id q)),
      (''idempotency_key'', JStr (sq_idempotency_key q)),
      (''disposition'', JStr (attempt_disposition_value (sq_disposition q))),
      (''result'', json_opt JObj (sq_result q)), (''error'', json_opt JObj (sq_error q)),
      (''token_count'', JInt (sq_token_count q)), (''estimated_cost'', JDec (sq_estimated_cost q)),
      (''retry_after_seconds'', json_opt JNum (sq_retry_after_seconds q))]"

definition prepare_task_retry_settlement ::
    "(json \<Rightarrow> string) \<Rightarrow> retry_settlement_request \<Rightarrow> (retry_settlement_request \<times> string) result" where
  "prepare_task_retry_settlement digest q =
     (if \<not> settlement_request_valid q then Inl ValueError
      else Inr (q, digest (JObj (fmap_of_list ([(''schema'', JStr ''cayu.task-retry-settlement.v2''),
        (''lease_expires_at'', json_opt (\<lambda>t. JStr (isoformat t)) (sq_lease_expires_at q))]
        @ settlement_request_items q)))))"

definition legacy_request_sha256 :: "(json \<Rightarrow> string) \<Rightarrow> retry_settlement_request \<Rightarrow> string" where
  "legacy_request_sha256 digest q = digest (JObj (fmap_of_list
     ((''schema'', JStr ''cayu.task-retry-settlement.v1'') # settlement_request_items q)))"

definition request_matches_sha256 :: "(json \<Rightarrow> string) \<Rightarrow> retry_settlement_request \<Rightarrow> string \<Rightarrow> string \<Rightarrow> bool" where
  "request_matches_sha256 digest q request_sha256 candidate \<longleftrightarrow>
     candidate \<in> {request_sha256, legacy_request_sha256 digest q}"

section \<open>Identities\<close>

definition task_retry_series_id :: "(json \<Rightarrow> string) \<Rightarrow> string \<Rightarrow> string" where
  "task_retry_series_id digest task_id = ''task-retry-series:v1:'' @ digest (JObj (fmap_of_list
     [(''schema'', JStr ''cayu.task-retry-series.v1''), (''first_task_id'', JStr task_id)]))"

definition task_retry_successor_id :: "(json \<Rightarrow> string) \<Rightarrow> string \<Rightarrow> int \<Rightarrow> string" where
  "task_retry_successor_id digest series_id attempt = ''task-retry-attempt:v1:'' @ digest (JObj (fmap_of_list
     [(''schema'', JStr ''cayu.task-retry-attempt.v1''), (''series_id'', JStr series_id), (''attempt'', JInt attempt)]))"

definition task_retry_runtime_idempotency_key :: "(json \<Rightarrow> string) \<Rightarrow> task \<Rightarrow> string \<Rightarrow> string result" where
  "task_retry_runtime_idempotency_key digest t operation = (case tk_retry_series t of
       None \<Rightarrow> Inl ValueError
     | Some s \<Rightarrow> bind_res (require_durable_clean_nonblank operation) (\<lambda>operation.
         Inr (''task-retry-'' @ operation @ '':v1:'' @ digest (JObj (fmap_of_list
           [(''schema'', JStr ''cayu.task-retry-runtime-settlement.v1''), (''operation'', JStr operation),
            (''series_id'', JStr (rs_series_id s)), (''task_id'', JStr (tk_id t)), (''attempt'', JInt (rs_attempt s))])))))"

definition task_retry_event_id :: "(json \<Rightarrow> string) \<Rightarrow> string \<Rightarrow> int \<Rightarrow> retry_event_type \<Rightarrow> string" where
  "task_retry_event_id digest series_id attempt type = ''task-retry-event:v1:'' @ digest (JObj (fmap_of_list
     [(''schema'', JStr ''cayu.task-retry-event.v1''), (''series_id'', JStr series_id), (''attempt'', JInt attempt),
      (''type'', JStr (retry_event_type_value type))]))"

section \<open>Backoff and snapshots\<close>

text \<open>The loop of \<open>_task_retry_backoff_seconds\<close>, with its early return.\<close>

fun backoff_loop :: "retry_policy \<Rightarrow> nat \<Rightarrow> rat \<Rightarrow> rat" where
  "backoff_loop p 0 delay = min delay (tp_max_backoff_seconds p)"
| "backoff_loop p (Suc n) delay =
     (if delay \<ge> tp_max_backoff_seconds p then tp_max_backoff_seconds p
      else backoff_loop p n (min (tp_max_backoff_seconds p) (delay * tp_backoff_multiplier p)))"

definition task_retry_backoff_seconds :: "retry_policy \<Rightarrow> int \<Rightarrow> rat" where
  "task_retry_backoff_seconds p completed_attempt =
     backoff_loop p (nat (completed_attempt - 1)) (tp_initial_backoff_seconds p)"

definition add_duration :: "datetime \<Rightarrow> int \<Rightarrow> datetime result" where
  "add_duration t us = (if in_dt_range (t + us) then Inr (t + us) else Inl OverflowError)"

definition task_retry_series_snapshot :: "string \<Rightarrow> string \<Rightarrow> string \<Rightarrow> int \<Rightarrow> retry_policy \<Rightarrow> datetime \<Rightarrow> int \<Rightarrow> rat
    \<Rightarrow> retry_series_disposition \<Rightarrow> string option \<Rightarrow> string option \<Rightarrow> datetime option \<Rightarrow> retry_series result" where
  "task_retry_series_snapshot series_id causal_budget_id authority attempt policy started_at tokens cost
     disposition predecessor successor next_eligible_at =
     bind_res (case tp_max_elapsed_seconds policy of None \<Rightarrow> Inr None
        | Some x \<Rightarrow> bind_res (add_duration started_at (timedelta_us x)) (\<lambda>d. Inr (Some d))) (\<lambda>deadline.
       let s = \<lparr>rs_series_id = series_id, rs_causal_budget_id = causal_budget_id, rs_authority_sha256 = authority,
          rs_attempt = attempt, rs_policy = policy, rs_started_at = started_at, rs_cumulative_tokens = tokens,
          rs_cumulative_estimated_cost = cost, rs_attempts_remaining = max 0 (tp_max_attempts policy - attempt),
          rs_tokens_remaining = map_option (\<lambda>n. max 0 (n - tokens)) (tp_max_total_tokens policy),
          rs_estimated_cost_remaining = map_option (\<lambda>c. max 0 (c - cost)) (tp_max_estimated_cost policy),
          rs_elapsed_deadline = deadline, rs_disposition = disposition, rs_predecessor_task_id = predecessor,
          rs_successor_task_id = successor, rs_next_eligible_at = next_eligible_at\<rparr>
       in if retry_series_valid s \<and> opt_holds computed_cost_ok (rs_estimated_cost_remaining s) then Inr s
          else Inl ValueError)"

definition retry_event_of :: "(json \<Rightarrow> string) \<Rightarrow> task \<Rightarrow> retry_series \<Rightarrow> datetime \<Rightarrow> retry_event_type \<Rightarrow> retry_event" where
  "retry_event_of digest t s occurred_at type =
     \<lparr>re_id = task_retry_event_id digest (rs_series_id s) (rs_attempt s) type, re_type = type, re_task_id = tk_id t,
      re_series_id = rs_series_id s, re_causal_budget_id = rs_causal_budget_id s, re_attempt = rs_attempt s,
      re_disposition = rs_disposition s, re_occurred_at = occurred_at,
      re_attempts_remaining = rs_attempts_remaining s, re_tokens_remaining = rs_tokens_remaining s,
      re_estimated_cost_remaining = rs_estimated_cost_remaining s, re_cost_currency = tp_cost_currency (rs_policy s),
      re_elapsed_deadline = rs_elapsed_deadline s, re_next_eligible_at = rs_next_eligible_at s\<rparr>"

definition task_retry_events :: "(json \<Rightarrow> string) \<Rightarrow> task \<Rightarrow> datetime \<Rightarrow> retry_event list result" where
  "task_retry_events digest t occurred_at = (case tk_retry_series t of
       None \<Rightarrow> Inl AssertionError
     | Some s \<Rightarrow> Inr [retry_event_of digest t s occurred_at ATTEMPT_SETTLED,
         retry_event_of digest t s occurred_at
           (if rs_disposition s = RETRY_SCHEDULED then RETRY_SCHEDULED_EVENT else SERIES_TERMINAL)])"

text \<open>The status payload a settled attempt carries.\<close>

definition settled_payload :: "retry_series \<Rightarrow> string \<Rightarrow> retry_series_disposition \<Rightarrow> int \<Rightarrow> rat \<Rightarrow> datetime option \<Rightarrow> json_object" where
  "settled_payload s key disposition tokens cost next_eligible_at = fmap_of_list
     [(''retry_series_id'', JStr (rs_series_id s)), (''attempt'', JInt (rs_attempt s)),
      (''disposition'', JStr (retry_disposition_value disposition)),
      (''settlement_idempotency_key'', JStr key), (''causal_budget_id'', JStr (rs_causal_budget_id s)),
      (''cumulative_tokens'', JInt tokens), (''cumulative_estimated_cost'', JDec cost),
      (''cost_currency'', JStr (tp_cost_currency (rs_policy s))),
      (''next_eligible_at'', json_opt (\<lambda>t. JStr (isoformat t)) next_eligible_at)]"

definition error_code :: "string \<Rightarrow> json_object" where
  "error_code c = fmap_of_list [(''code'', JStr c)]"

text \<open>The authority digest of an attempt with other cumulative figures, as the settlements recompute it.\<close>

definition attempt_authority :: "(json \<Rightarrow> string) \<Rightarrow> task \<Rightarrow> retry_series \<Rightarrow> int \<Rightarrow> rat \<Rightarrow> string" where
  "attempt_authority digest t s tokens cost = task_retry_attempt_authority_sha256 digest t
     (s\<lparr>rs_cumulative_tokens := tokens, rs_cumulative_estimated_cost := cost\<rparr>)"

section \<open>Receipts\<close>

definition expected_settled_status :: "retry_series_disposition \<Rightarrow> task_status" where
  "expected_settled_status d = (case d of SUCCEEDED \<Rightarrow> COMPLETED | SERIES_CANCELLED \<Rightarrow> CANCELLED | _ \<Rightarrow> FAILED)"

definition json_text :: "json \<Rightarrow> string option" where
  "json_text j = (case j of JStr s \<Rightarrow> Some s | _ \<Rightarrow> None)"

text \<open>Evidence of a dependency skip: a sorted, duplicate-free, non-empty list of prerequisites.\<close>

definition skip_causes_ok :: "task \<Rightarrow> bool" where
  "skip_causes_ok t = (case tk_status_payload t of
       None \<Rightarrow> False
     | Some p \<Rightarrow> (case fmlookup p ''failed_prerequisite_task_ids'' of
           Some (JList js) \<Rightarrow> js \<noteq> [] \<and> list_all (\<lambda>j. json_text j \<noteq> None) js \<and>
             sorted_wrt (<) (map (\<lambda>j. the (json_text j)) js) \<and>
             set (map (\<lambda>j. the (json_text j)) js) \<subseteq> set (tk_prerequisite_task_ids t)
         | _ \<Rightarrow> False))"

definition settled_status_ok :: "task \<Rightarrow> retry_series \<Rightarrow> bool" where
  "settled_status_ok t s \<longleftrightarrow> tk_status t =
     (if tk_status t = DEPENDENCY_SKIPPED \<and> rs_disposition s = NON_RETRYABLE_FAILURE \<and> tk_graph_id t \<noteq> None \<and>
         tk_prerequisite_task_ids t \<noteq> [] \<and> tk_status_reason t = Some ''dependency_failed'' \<and> skip_causes_ok t
      then DEPENDENCY_SKIPPED else expected_settled_status (rs_disposition s))"

definition successor_ok :: "task \<Rightarrow> retry_series \<Rightarrow> datetime \<Rightarrow> task \<Rightarrow> bool" where
  "successor_ok t s committed_at u = (case tk_retry_series u of
       None \<Rightarrow> False
     | Some n \<Rightarrow>
         Some (tk_id u) = rs_successor_task_id s \<and> tk_status u = PENDING \<and> tk_available_at u = rs_next_eligible_at s \<and>
         rs_series_id n = rs_series_id s \<and> rs_attempt n = rs_attempt s + 1 \<and>
         rs_predecessor_task_id n = Some (tk_id t) \<and> rs_disposition n = SERIES_ACTIVE \<and> rs_policy n = rs_policy s \<and>
         rs_started_at n = rs_started_at s \<and> rs_causal_budget_id n = rs_causal_budget_id s \<and>
         rs_cumulative_tokens n = rs_cumulative_tokens s \<and>
         rs_cumulative_estimated_cost n = rs_cumulative_estimated_cost s \<and>
         rs_tokens_remaining n = rs_tokens_remaining s \<and>
         rs_estimated_cost_remaining n = rs_estimated_cost_remaining s \<and>
         rs_elapsed_deadline n = rs_elapsed_deadline s \<and>
         tk_type u = tk_type t \<and> tk_title u = tk_title t \<and> tk_description u = tk_description t \<and>
         tk_parent_task_id u = tk_parent_task_id t \<and> tk_assigned_agent_name u = tk_assigned_agent_name t \<and>
         tk_input u = tk_input t \<and> tk_metadata u = tk_metadata t \<and> tk_invocation u = tk_invocation t \<and>
         tk_session_id u = None \<and> tk_worker_id u = None \<and> tk_lease_expires_at u = None \<and>
         tk_status_reason u = None \<and> tk_status_payload u = None \<and> tk_result u = None \<and> tk_error u = None \<and>
         tk_started_at u = None \<and> tk_completed_at u = None \<and>
         tk_created_at u = committed_at \<and> tk_updated_at u = committed_at)"

definition retry_event_ok :: "retry_settlement \<Rightarrow> retry_series \<Rightarrow> retry_event_type \<Rightarrow> retry_event \<Rightarrow> bool" where
  "retry_event_ok r s type e \<longleftrightarrow> re_type e = type \<and> re_task_id e = sr_task_id r \<and> re_series_id e = rs_series_id s \<and>
     re_causal_budget_id e = rs_causal_budget_id s \<and> re_attempt e = rs_attempt s \<and>
     re_disposition e = rs_disposition s \<and> re_occurred_at e = sr_committed_at r \<and>
     re_attempts_remaining e = rs_attempts_remaining s \<and> re_tokens_remaining e = rs_tokens_remaining s \<and>
     re_estimated_cost_remaining e = rs_estimated_cost_remaining s \<and>
     re_cost_currency e = tp_cost_currency (rs_policy s) \<and> re_elapsed_deadline e = rs_elapsed_deadline s \<and>
     re_next_eligible_at e = rs_next_eligible_at s"

definition settlement_valid :: "retry_settlement \<Rightarrow> bool" where
  "settlement_valid r = (case tk_retry_series (sr_task r) of
       None \<Rightarrow> False
     | Some s \<Rightarrow>
         durable_clean (sr_task_id r) \<and> idempotency_key_ok (sr_idempotency_key r) \<and> is_sha256_text (sr_request_sha256 r) \<and>
         tk_id (sr_task r) = sr_task_id r \<and>
         tk_worker_id (sr_task r) = None \<and> tk_lease_expires_at (sr_task r) = None \<and>
         settled_status_ok (sr_task r) s \<and>
         (rs_disposition s = RETRY_SCHEDULED \<longleftrightarrow> sr_successor r \<noteq> None) \<and>
         opt_holds (successor_ok (sr_task r) s (sr_committed_at r)) (sr_successor r) \<and>
         list_all2 (retry_event_ok r s) [ATTEMPT_SETTLED,
           if rs_disposition s = RETRY_SCHEDULED then RETRY_SCHEDULED_EVENT else SERIES_TERMINAL] (sr_events r))"

definition check_settlement :: "retry_settlement \<Rightarrow> retry_settlement result" where
  "check_settlement r = (if settlement_valid r then Inr r else Inl ValueError)"

section \<open>Settlements by the runtime\<close>

definition task_retry_runtime_terminal_request :: "(json \<Rightarrow> string) \<Rightarrow> task \<Rightarrow> string \<Rightarrow> attempt_disposition
    \<Rightarrow> json_object \<Rightarrow> int \<Rightarrow> rat \<Rightarrow> (retry_settlement_request \<times> string) result" where
  "task_retry_runtime_terminal_request digest t operation disposition error tokens cost = (case tk_retry_series t of
       None \<Rightarrow> Inl TaskTerminalizationConflict
     | Some s \<Rightarrow>
         if rs_disposition s \<noteq> SERIES_ACTIVE then Inl TaskTerminalizationConflict
         else bind_res (require_durable_clean_nonblank operation) (\<lambda>operation.
           bind_res (task_retry_runtime_idempotency_key digest t operation) (\<lambda>key.
             prepare_task_retry_settlement digest
               \<lparr>sq_task_id = tk_id t, sq_worker_id = ''cayu-runtime-retry-'' @ operation,
                sq_lease_expires_at = tk_lease_expires_at t, sq_idempotency_key = key,
                sq_causal_budget_id = rs_causal_budget_id s, sq_disposition = disposition,
                sq_result = None, sq_error = Some error, sq_token_count = tokens, sq_estimated_cost = cost,
                sq_retry_after_seconds = (if disposition = RETRYABLE_FAILURE then Some 0 else None)\<rparr>)))"

definition runtime_task_retry_terminal_settlement :: "(json \<Rightarrow> string) \<Rightarrow> task \<Rightarrow> string \<Rightarrow> attempt_disposition
    \<Rightarrow> retry_series_disposition \<Rightarrow> task_status \<Rightarrow> json_object \<Rightarrow> datetime \<Rightarrow> int \<Rightarrow> rat \<Rightarrow> retry_settlement result" where
  "runtime_task_retry_terminal_settlement digest t operation request_disposition series_disposition status error
     committed_at tokens cost = (case tk_retry_series t of
       None \<Rightarrow> Inl TaskTerminalizationConflict
     | Some s \<Rightarrow>
         if rs_disposition s \<noteq> SERIES_ACTIVE then Inl TaskTerminalizationConflict
         else bind_res (task_retry_runtime_terminal_request digest t operation request_disposition error tokens cost) (\<lambda>(q, sha).
           if rs_cumulative_tokens s + sq_token_count q > max_durable_json_integer then Inl ValueError
           else if \<not> computed_cost_ok (rs_cumulative_estimated_cost s + sq_estimated_cost q) then Inl ValueError
           else
             let total = rs_cumulative_tokens s + sq_token_count q;
                 spent = rs_cumulative_estimated_cost s + sq_estimated_cost q
             in bind_res (task_retry_series_snapshot (rs_series_id s) (rs_causal_budget_id s)
                  (attempt_authority digest t s total spent) (rs_attempt s) (rs_policy s) (rs_started_at s)
                  total spent series_disposition (rs_predecessor_task_id s) None None) (\<lambda>settled_series.
                let settled = t\<lparr>tk_status := status,
                      tk_status_reason := Some (retry_disposition_value series_disposition),
                      tk_status_payload := Some (settled_payload s (sq_idempotency_key q) series_disposition total spent None),
                      tk_result := None, tk_error := Some error, tk_worker_id := None, tk_lease_expires_at := None,
                      tk_started_at := Some (case tk_started_at t of None \<Rightarrow> committed_at | Some x \<Rightarrow> x),
                      tk_completed_at := Some committed_at, tk_updated_at := committed_at,
                      tk_retry_series := Some settled_series\<rparr>
                in bind_res (task_retry_events digest settled committed_at) (\<lambda>events.
                     check_settlement \<lparr>sr_task_id = tk_id t, sr_idempotency_key = sq_idempotency_key q,
                       sr_request_sha256 = sha, sr_task = settled, sr_successor = None, sr_events = events,
                       sr_committed_at = committed_at\<rparr>))))"

definition cancelled_task_retry_settlement :: "(json \<Rightarrow> string) \<Rightarrow> task \<Rightarrow> json_object option \<Rightarrow> datetime \<Rightarrow> retry_settlement result" where
  "cancelled_task_retry_settlement digest t error committed_at =
     (if (case tk_retry_series t of None \<Rightarrow> True | Some s \<Rightarrow> rs_disposition s \<noteq> SERIES_ACTIVE)
         \<or> tk_status t \<in> terminal_task_statuses
      then Inl TaskTerminalizationConflict
      else runtime_task_retry_terminal_settlement digest t ''cancellation'' ATTEMPT_CANCELLED SERIES_CANCELLED
        CANCELLED (case error of None \<Rightarrow> error_code ''cancelled'' | Some e \<Rightarrow> e) committed_at 0 0)"

definition task_retry_attempt_elapsed :: "task \<Rightarrow> datetime \<Rightarrow> bool" where
  "task_retry_attempt_elapsed t series_now \<longleftrightarrow> tk_status t = PENDING \<and> tk_session_id t = None \<and>
     (case tk_retry_series t of
        None \<Rightarrow> False
      | Some s \<Rightarrow> rs_disposition s = SERIES_ACTIVE \<and>
          (case rs_elapsed_deadline s of None \<Rightarrow> False | Some d \<Rightarrow> d \<le> series_now))"

definition expired_task_retry_settlement :: "(json \<Rightarrow> string) \<Rightarrow> task \<Rightarrow> datetime \<Rightarrow> datetime \<Rightarrow> retry_settlement result" where
  "expired_task_retry_settlement digest t committed_at series_now =
     (if \<not> task_retry_attempt_elapsed t series_now then Inl TaskTerminalizationConflict
      else runtime_task_retry_terminal_settlement digest t ''expiration'' RETRYABLE_FAILURE ELAPSED_EXHAUSTED
        FAILED (error_code ''elapsed_exhausted'') committed_at 0 0)"

section \<open>Pending cancellation\<close>

definition retry_cancellation_requested :: "task \<Rightarrow> bool" where
  "retry_cancellation_requested t \<longleftrightarrow> tk_status_reason t = Some ''retry_cancellation_requested''"

definition task_cancellation_requested :: "task \<Rightarrow> bool" where
  "task_cancellation_requested t \<longleftrightarrow> tk_status_reason t = Some ''cancellation_requested''"

text \<open>
  The event a cancellation request leaves in the status payload, with the text of its time.  A
  text hashed as such is written \<open>digest (JStr s)\<close>.
\<close>

definition cancellation_requested_event :: "(json \<Rightarrow> string) \<Rightarrow> task \<Rightarrow> retry_series \<Rightarrow> string \<Rightarrow> string \<Rightarrow> json \<Rightarrow> json_object" where
  "cancellation_requested_event digest t s key worker occurred_at = fmap_of_list
     [(''id'', JStr (''task-retry-reconciliation-event:v1:'' @ digest (JObj (fmap_of_list
         [(''schema'', JStr ''cayu.task-retry-cancellation-reconciliation-event.v1''),
          (''type'', JStr ''task.retry.cancellation_requested''), (''task_id'', JStr (tk_id t)),
          (''series_id'', JStr (rs_series_id s)), (''attempt'', JInt (rs_attempt s)),
          (''cancellation_idempotency_key'', JStr key), (''request_sha256'', JNull),
          (''reconciliation_idempotency_key'', JNull), (''evidence_sha256'', JNull)])))),
      (''type'', JStr ''task.retry.cancellation_requested''), (''task_id'', JStr (tk_id t)),
      (''series_id'', JStr (rs_series_id s)), (''attempt'', JInt (rs_attempt s)),
      (''causal_budget_id'', JStr (rs_causal_budget_id s)),
      (''original_worker_id_sha256'', JStr (digest (JStr worker))),
      (''cancellation_idempotency_key_sha256'', JStr (digest (JStr key))),
      (''request_sha256'', JNull), (''reconciliation_idempotency_key_sha256'', JNull),
      (''evidence_sha256'', JNull), (''actor_sha256'', JNull), (''outcome'', JNull),
      (''occurred_at'', occurred_at)]"

definition task_retry_requested_cancellation_settlement :: "(json \<Rightarrow> string) \<Rightarrow> task \<Rightarrow> string \<Rightarrow> int \<Rightarrow> rat
    \<Rightarrow> retry_settlement_request option result" where
  "task_retry_requested_cancellation_settlement digest t worker tokens cost =
     (if \<not> retry_cancellation_requested t then Inr None
      else case (tk_retry_series t, tk_status_payload t) of
        (Some s, Some p) \<Rightarrow>
          (case (fmlookup p ''settlement_idempotency_key'', fmlookup p ''error'', fmlookup p ''event'') of
             (Some (JStr key), Some (JObj error), Some (JObj event)) \<Rightarrow>
               if tk_status t \<notin> {CLAIMED, RUNNING} \<or> rs_disposition s \<noteq> SERIES_ACTIVE \<or> tk_worker_id t \<noteq> Some worker
                  \<or> tk_lease_expires_at t = None
                  \<or> fmdom' p \<noteq> {''settlement_idempotency_key'', ''error'', ''event''}
               then Inl TaskTerminalizationConflict
               else bind_res (task_retry_runtime_idempotency_key digest t ''cancellation'') (\<lambda>expected_key.
                 if key \<noteq> expected_key then Inl TaskTerminalizationConflict
                 else if event \<noteq> cancellation_requested_event digest t s expected_key worker
                    (case fmlookup event ''occurred_at'' of None \<Rightarrow> JNull | Some j \<Rightarrow> j)
                 then Inl TaskTerminalizationConflict
                 else
                   let q = \<lparr>sq_task_id = tk_id t, sq_worker_id = worker, sq_lease_expires_at = tk_lease_expires_at t,
                      sq_idempotency_key = expected_key, sq_causal_budget_id = rs_causal_budget_id s,
                      sq_disposition = ATTEMPT_CANCELLED, sq_result = None, sq_error = Some error,
                      sq_token_count = tokens, sq_estimated_cost = cost, sq_retry_after_seconds = None\<rparr>
                   in if settlement_request_valid q then Inr (Some q) else Inl ValueError)
           | _ \<Rightarrow> Inl TaskTerminalizationConflict)
      | _ \<Rightarrow> Inl TaskTerminalizationConflict)"

section \<open>Settlement of a reported attempt\<close>

text \<open>Status, disposition, result, error and, for a retry, the instant the successor becomes eligible.\<close>

record attempt_outcome =
  ao_status :: task_status
  ao_disposition :: retry_series_disposition
  ao_result :: "json_object option"
  ao_error :: "json_object option"
  ao_next_eligible_at :: "datetime option"

definition exhausted :: "retry_series_disposition \<Rightarrow> attempt_outcome" where
  "exhausted d = \<lparr>ao_status = FAILED, ao_disposition = d, ao_result = None,
     ao_error = Some (error_code (retry_disposition_value d)), ao_next_eligible_at = None\<rparr>"

definition deadline_passed :: "datetime option \<Rightarrow> datetime \<Rightarrow> bool" where
  "deadline_passed deadline t = (case deadline of None \<Rightarrow> False | Some d \<Rightarrow> t \<ge> d)"

definition retry_disposition_of :: "retry_series \<Rightarrow> retry_series_disposition option \<Rightarrow> datetime \<Rightarrow> int \<Rightarrow> rat
    \<Rightarrow> retry_series_disposition" where
  "retry_disposition_of s event_refusal next_eligible_at tokens cost = (case event_refusal of
       Some d \<Rightarrow> d
     | None \<Rightarrow>
         if rs_attempt s \<ge> tp_max_attempts (rs_policy s) then ATTEMPTS_EXHAUSTED
         else if deadline_passed (rs_elapsed_deadline s) next_eligible_at then ELAPSED_EXHAUSTED
         else if (case tp_max_total_tokens (rs_policy s) of None \<Rightarrow> False | Some n \<Rightarrow> tokens \<ge> n) then TOKENS_EXHAUSTED
         else if (case tp_max_estimated_cost (rs_policy s) of None \<Rightarrow> False | Some c \<Rightarrow> cost \<ge> c) then COST_EXHAUSTED
         else RETRY_SCHEDULED)"

definition attempt_total :: "retry_series \<Rightarrow> retry_settlement_request \<Rightarrow> int" where
  "attempt_total s q = rs_cumulative_tokens s + sq_token_count q"

definition attempt_spent :: "retry_series \<Rightarrow> retry_settlement_request \<Rightarrow> rat" where
  "attempt_spent s q = rs_cumulative_estimated_cost s + sq_estimated_cost q"

definition classify_attempt :: "retry_series \<Rightarrow> retry_settlement_request \<Rightarrow> bool \<Rightarrow> datetime
    \<Rightarrow> retry_series_disposition option \<Rightarrow> attempt_outcome result" where
  "classify_attempt s q cancelling series_now event_refusal =
     (let tokens = attempt_total s q; cost = attempt_spent s q;
          own = (\<lambda>status d. \<lparr>ao_status = status, ao_disposition = d, ao_result = sq_result q, ao_error = sq_error q,
             ao_next_eligible_at = None\<rparr>)
      in if cancelling then Inr (own CANCELLED SERIES_CANCELLED)
         else if event_refusal = Some ELAPSED_EXHAUSTED \<or> deadline_passed (rs_elapsed_deadline s) series_now
         then Inr (exhausted ELAPSED_EXHAUSTED)
         else if (case rs_tokens_remaining s of None \<Rightarrow> False | Some n \<Rightarrow> sq_token_count q > n)
         then Inr (exhausted TOKENS_EXHAUSTED)
         else if (case rs_estimated_cost_remaining s of None \<Rightarrow> False | Some c \<Rightarrow> sq_estimated_cost q > c)
         then Inr (exhausted COST_EXHAUSTED)
         else (case sq_disposition q of
             ATTEMPT_SUCCEEDED \<Rightarrow> Inr (own COMPLETED SUCCEEDED)
           | ATTEMPT_CANCELLED \<Rightarrow> Inr (own CANCELLED SERIES_CANCELLED)
           | ATTEMPT_NON_RETRYABLE_FAILURE \<Rightarrow> Inr (own FAILED NON_RETRYABLE_FAILURE)
           | RETRYABLE_FAILURE \<Rightarrow>
               bind_res (add_duration series_now (timedelta_us (max (task_retry_backoff_seconds (rs_policy s) (rs_attempt s))
                   (case sq_retry_after_seconds q of None \<Rightarrow> 0 | Some x \<Rightarrow> x)))) (\<lambda>next.
                 let d = retry_disposition_of s event_refusal next tokens cost
                 in Inr ((own FAILED d)\<lparr>ao_next_eligible_at := if d = RETRY_SCHEDULED \<and> event_refusal = None then Some next else None\<rparr>))))"

definition successor_task :: "task \<Rightarrow> string \<Rightarrow> datetime option \<Rightarrow> datetime \<Rightarrow> retry_series \<Rightarrow> task" where
  "successor_task t successor_id next_eligible_at now series =
     \<lparr>tk_id = successor_id, tk_type = tk_type t, tk_concurrency_key = tk_concurrency_key t, tk_restartable = False,
      tk_restart_count = 0, tk_max_restarts = None, tk_restart_history = [], tk_title = tk_title t,
      tk_description = tk_description t, tk_status = PENDING, tk_session_id = None, tk_session_instance_id = None,
      tk_parent_task_id = tk_parent_task_id t, tk_assigned_agent_name = tk_assigned_agent_name t, tk_graph_id = None,
      tk_prerequisite_task_ids = [], tk_available_at = next_eligible_at, tk_worker_id = None,
      tk_lease_expires_at = None, tk_interrupted_handoff_id = None, tk_status_reason = None,
      tk_status_payload = None, tk_input = tk_input t, tk_result = None, tk_error = None,
      tk_metadata = tk_metadata t, tk_created_at = now, tk_updated_at = now, tk_started_at = None,
      tk_completed_at = None, tk_invocation = tk_invocation t, tk_schedule = None,
      tk_retry_series = Some series, tk_work_contract = None\<rparr>"

definition settled_attempt :: "task \<Rightarrow> retry_series \<Rightarrow> string \<Rightarrow> attempt_outcome \<Rightarrow> datetime \<Rightarrow> retry_series \<Rightarrow> task" where
  "settled_attempt t s key out now settled_series =
     t\<lparr>tk_status := ao_status out, tk_status_reason := Some (retry_disposition_value (ao_disposition out)),
       tk_status_payload := Some (settled_payload s key (ao_disposition out) (rs_cumulative_tokens settled_series)
         (rs_cumulative_estimated_cost settled_series) (rs_next_eligible_at settled_series)),
       tk_result := ao_result out, tk_error := ao_error out, tk_worker_id := None, tk_lease_expires_at := None,
       tk_started_at := Some (case tk_started_at t of None \<Rightarrow> now | Some x \<Rightarrow> x),
       tk_completed_at := Some now, tk_updated_at := now, tk_retry_series := Some settled_series\<rparr>"

text \<open>The settled attempt and its successor, once the outcome is decided.\<close>

definition next_attempt_id :: "(json \<Rightarrow> string) \<Rightarrow> retry_series \<Rightarrow> string" where
  "next_attempt_id digest s = task_retry_successor_id digest (rs_series_id s) (rs_attempt s + 1)"

definition settled_series_of :: "(json \<Rightarrow> string) \<Rightarrow> task \<Rightarrow> retry_series \<Rightarrow> retry_settlement_request \<Rightarrow> attempt_outcome \<Rightarrow> retry_series result" where
  "settled_series_of digest t s q out = task_retry_series_snapshot (rs_series_id s) (rs_causal_budget_id s)
     (attempt_authority digest t s (attempt_total s q) (attempt_spent s q)) (rs_attempt s) (rs_policy s) (rs_started_at s)
     (attempt_total s q) (attempt_spent s q) (ao_disposition out) (rs_predecessor_task_id s)
     (map_option (\<lambda>_. next_attempt_id digest s) (ao_next_eligible_at out)) (ao_next_eligible_at out)"

definition successor_attempt :: "(json \<Rightarrow> string) \<Rightarrow> task \<Rightarrow> retry_series \<Rightarrow> retry_settlement_request \<Rightarrow> datetime \<Rightarrow> datetime \<Rightarrow> task result" where
  "successor_attempt digest t s q next now =
     (let draft = successor_task t (next_attempt_id digest s) (Some next) now s;
          base = s\<lparr>rs_attempt := rs_attempt s + 1, rs_predecessor_task_id := Some (tk_id t)\<rparr>
      in bind_res (task_retry_series_snapshot (rs_series_id s) (rs_causal_budget_id s)
           (attempt_authority digest draft base (attempt_total s q) (attempt_spent s q)) (rs_attempt s + 1) (rs_policy s)
           (rs_started_at s) (attempt_total s q) (attempt_spent s q) SERIES_ACTIVE (Some (tk_id t)) None None) (\<lambda>series.
         copy_task digest (draft\<lparr>tk_retry_series := Some series\<rparr>)))"

definition settled_task_retry_attempt :: "(json \<Rightarrow> string) \<Rightarrow> task \<Rightarrow> retry_settlement_request \<Rightarrow> datetime \<Rightarrow> datetime
    \<Rightarrow> retry_series_disposition option \<Rightarrow> (task \<times> task option) result" where
  "settled_task_retry_attempt digest t q now series_now event_refusal = (case tk_retry_series t of
       None \<Rightarrow> Inl ValueError
     | Some s \<Rightarrow>
         if rs_disposition s \<noteq> SERIES_ACTIVE then Inl TaskTerminalizationConflict
         else if sq_causal_budget_id q \<noteq> rs_causal_budget_id s then Inl TaskTerminalizationConflict
         else bind_res (task_retry_requested_cancellation_settlement digest t (sq_worker_id q) (sq_token_count q) (sq_estimated_cost q)) (\<lambda>requested.
           if (case requested of None \<Rightarrow> False | Some r \<Rightarrow> q \<noteq> r) then Inl TaskTerminalizationConflict
           else if attempt_total s q > max_durable_json_integer then Inl ValueError
           else if \<not> computed_cost_ok (attempt_spent s q) then Inl ValueError
           else bind_res (classify_attempt s q (requested \<noteq> None) series_now event_refusal) (\<lambda>out.
             bind_res (settled_series_of digest t s q out) (\<lambda>settled_series.
               let settled = settled_attempt t s (sq_idempotency_key q) out now settled_series
               in case ao_next_eligible_at out of
                    None \<Rightarrow> Inr (settled, None)
                  | Some next \<Rightarrow> bind_res (successor_attempt digest t s q next now) (\<lambda>successor.
                      Inr (settled, Some successor))))))"

text \<open>The receipt of a settlement, as the store builds it from the settled attempt and its successor.\<close>

definition settlement_receipt :: "(json \<Rightarrow> string) \<Rightarrow> retry_settlement_request \<Rightarrow> string \<Rightarrow> task \<Rightarrow> task option \<Rightarrow> datetime
    \<Rightarrow> retry_settlement result" where
  "settlement_receipt digest q request_sha256 settled successor now =
     bind_res (task_retry_events digest settled now) (\<lambda>events.
       check_settlement \<lparr>sr_task_id = sq_task_id q, sr_idempotency_key = sq_idempotency_key q,
         sr_request_sha256 = request_sha256, sr_task = settled, sr_successor = successor, sr_events = events,
         sr_committed_at = now\<rparr>)"

end
