(* ===== verification/Retry_Budget.thy ===== *)
theory Retry_Budget
  imports Task_Retry
begin

text \<open>
  Event retry budgets (\<open>src/cayu/tasks/retry_budgets.py\<close>): how many tasks one retry key may create and for
  how long.  The store runs these functions inside the transaction that stores a task.
\<close>

record retry_budget =
  tb_max_attempts :: "int option"
  tb_max_elapsed_seconds :: "rat option"

datatype retry_key_status = KEY_ACTIVE | KEY_GIVEN_UP | KEY_SUCCEEDED

record retry_key_state =
  ks_retry_key :: string
  ks_status :: retry_key_status
  ks_attempts :: int
  ks_settled_attempts :: int
  ks_legacy_attempts :: int
  ks_succeeded_at :: "datetime option"
  ks_budget :: retry_budget
  ks_implicit_budget :: bool
  ks_first_attempt_at :: datetime
  ks_latest_attempt_at :: datetime
  ks_latest_task_id :: string
  ks_given_up_at :: "datetime option"
  ks_given_up_reason :: "retry_series_disposition option"
  ks_refused_task_id :: "string option"

definition retry_budget_valid :: "retry_budget \<Rightarrow> bool" where
  "retry_budget_valid b \<longleftrightarrow> opt_holds (\<lambda>n. 1 \<le> n) (tb_max_attempts b) \<and> opt_holds (\<lambda>x. 0 < x) (tb_max_elapsed_seconds b)"

definition default_task_retry_budget :: retry_budget where
  "default_task_retry_budget = \<lparr>tb_max_attempts = Some 3, tb_max_elapsed_seconds = None\<rparr>"

definition validate_task_retry_key :: "string \<Rightarrow> string result" where
  "validate_task_retry_key k = bind_res (require_durable_clean_nonblank k) (\<lambda>k.
     if utf8_bytes k > 256 then Inl ValueError else Inr k)"

definition given_up_evidence_ok :: "retry_key_state \<Rightarrow> bool" where
  "given_up_evidence_ok s \<longleftrightarrow>
     (ks_status s = KEY_GIVEN_UP \<longleftrightarrow> ks_given_up_at s \<noteq> None \<and> ks_given_up_reason s \<noteq> None) \<and>
     (ks_status s \<noteq> KEY_GIVEN_UP \<longrightarrow> ks_refused_task_id s = None) \<and>
     (ks_status s = KEY_SUCCEEDED \<longleftrightarrow> ks_succeeded_at s \<noteq> None) \<and>
     ks_given_up_reason s \<in> {None, Some ATTEMPTS_EXHAUSTED, Some ELAPSED_EXHAUSTED}"

definition key_state_valid :: "retry_key_state \<Rightarrow> bool" where
  "key_state_valid s \<longleftrightarrow> validate_task_retry_key (ks_retry_key s) = Inr (ks_retry_key s) \<and>
     durable_clean (ks_latest_task_id s) \<and> opt_holds durable_clean (ks_refused_task_id s) \<and>
     1 \<le> ks_attempts s \<and> 0 \<le> ks_settled_attempts s \<and> 0 \<le> ks_legacy_attempts s \<and>
     given_up_evidence_ok s \<and> ks_settled_attempts s + ks_legacy_attempts s \<le> ks_attempts s"

definition key_elapsed_deadline :: "retry_key_state \<Rightarrow> datetime option result" where
  "key_elapsed_deadline s = (case tb_max_elapsed_seconds (ks_budget s) of
       None \<Rightarrow> Inr None
     | Some x \<Rightarrow> (case add_duration (ks_first_attempt_at s) (timedelta_us x) of
           Inl _ \<Rightarrow> Inl ValueError
         | Inr d \<Rightarrow> Inr (Some d)))"

definition expire_task_retry_key :: "retry_key_state \<Rightarrow> datetime \<Rightarrow> retry_key_state result" where
  "expire_task_retry_key s now =
     (if ks_status s \<noteq> KEY_ACTIVE then Inr s
      else bind_res (key_elapsed_deadline s) (\<lambda>deadline.
        Inr (if deadline_passed deadline now
             then s\<lparr>ks_status := KEY_GIVEN_UP, ks_given_up_at := Some now, ks_given_up_reason := Some ELAPSED_EXHAUSTED\<rparr>
             else s)))"

definition attempts_spent :: "retry_key_state \<Rightarrow> bool" where
  "attempts_spent s = (case tb_max_attempts (ks_budget s) of None \<Rightarrow> False | Some n \<Rightarrow> ks_attempts s \<ge> n)"

definition task_event_retry_refusal :: "retry_key_state option \<Rightarrow> datetime \<Rightarrow> retry_series_disposition option result" where
  "task_event_retry_refusal state now = (case state of
       None \<Rightarrow> Inr None
     | Some s \<Rightarrow> (case ks_status s of
           KEY_GIVEN_UP \<Rightarrow> Inr (ks_given_up_reason s)
         | KEY_SUCCEEDED \<Rightarrow> Inr (Some SERIES_CANCELLED)
         | KEY_ACTIVE \<Rightarrow> bind_res (key_elapsed_deadline s) (\<lambda>deadline.
             if deadline_passed deadline now then Inr (Some ELAPSED_EXHAUSTED)
             else if attempts_spent s
             then Inr (Some ATTEMPTS_EXHAUSTED)
             else Inr None)))"

definition initial_key_state :: "string \<Rightarrow> retry_budget \<Rightarrow> string \<Rightarrow> datetime \<Rightarrow> bool \<Rightarrow> retry_key_state" where
  "initial_key_state key budget task_id now implicit =
     \<lparr>ks_retry_key = key, ks_status = KEY_ACTIVE, ks_attempts = 1, ks_settled_attempts = 0, ks_legacy_attempts = 0,
      ks_succeeded_at = None, ks_budget = budget, ks_implicit_budget = implicit, ks_first_attempt_at = now,
      ks_latest_attempt_at = now, ks_latest_task_id = task_id, ks_given_up_at = None, ks_given_up_reason = None,
      ks_refused_task_id = None\<rparr>"

definition give_up :: "retry_series_disposition \<Rightarrow> string \<Rightarrow> datetime \<Rightarrow> retry_key_state \<Rightarrow> retry_key_state" where
  "give_up reason task_id now s = s\<lparr>ks_status := KEY_GIVEN_UP, ks_given_up_at := Some now,
     ks_given_up_reason := Some reason, ks_refused_task_id := Some task_id\<rparr>"

definition admit_task_retry_key :: "retry_key_state option \<Rightarrow> string \<Rightarrow> retry_budget \<Rightarrow> string \<Rightarrow> datetime \<Rightarrow> bool \<Rightarrow> bool
    \<Rightarrow> (retry_key_state \<times> bool) result" where
  "admit_task_retry_key state key budget task_id now explicit implicit = (case state of
       None \<Rightarrow>
         let initial = initial_key_state key budget task_id now implicit
         in if \<not> key_state_valid initial then Inl ValueError
            else bind_res (key_elapsed_deadline initial) (\<lambda>_. Inr (initial, True))
     | Some s \<Rightarrow>
         if ks_retry_key s \<noteq> key then Inl AssertionError
         else if ks_status s \<noteq> KEY_ACTIVE then Inr (s, False)
         else if explicit \<and> budget \<noteq> ks_budget s then Inl ValueError
         else
           bind_res (case tb_max_elapsed_seconds (ks_budget s) of None \<Rightarrow> Inr None
              | Some x \<Rightarrow> bind_res (add_duration (ks_first_attempt_at s) (timedelta_us x)) (\<lambda>d. Inr (Some d))) (\<lambda>deadline.
             if deadline_passed deadline now then Inr (give_up ELAPSED_EXHAUSTED task_id now s, False)
             else if attempts_spent s
             then (if ks_settled_attempts s + ks_legacy_attempts s < ks_attempts s then Inr (s, False)
                   else Inr (give_up ATTEMPTS_EXHAUSTED task_id now s, False))
             else Inr (s\<lparr>ks_attempts := ks_attempts s + 1, ks_latest_attempt_at := now, ks_latest_task_id := task_id\<rparr>, True)))"

definition event_terminal_statuses :: "task_status set" where
  "event_terminal_statuses = {COMPLETED, FAILED, CANCELLED}"

definition observe_task_retry_key_transition :: "retry_key_state \<Rightarrow> task option \<Rightarrow> task \<Rightarrow> datetime \<Rightarrow> retry_key_state result" where
  "observe_task_retry_key_transition s prior current now =
     bind_res (expire_task_retry_key s now) (\<lambda>s.
     bind_res (if prior = None \<and> tk_id current \<noteq> ks_latest_task_id s
         then bind_res (admit_task_retry_key (Some s) (ks_retry_key s) (ks_budget s) (tk_id current) now True False)
           (\<lambda>(s', admitted). if admitted then Inr s' else Inl RuntimeError)
         else Inr s) (\<lambda>s.
       if (case prior of None \<Rightarrow> True | Some p \<Rightarrow> tk_status p \<notin> event_terminal_statuses) \<and> tk_status current \<in> event_terminal_statuses
       then
         let s = s\<lparr>ks_settled_attempts := ks_settled_attempts s + 1\<rparr>
         in Inr (if ks_status s \<noteq> KEY_ACTIVE then s
            else if tk_status current = COMPLETED then s\<lparr>ks_status := KEY_SUCCEEDED, ks_succeeded_at := Some now\<rparr>
            else if attempts_spent s
                 \<and> ks_settled_attempts s + ks_legacy_attempts s = ks_attempts s
            then s\<lparr>ks_status := KEY_GIVEN_UP, ks_given_up_at := Some now, ks_given_up_reason := Some ATTEMPTS_EXHAUSTED\<rparr>
            else s)
       else Inr s))"

text \<open>Everything that can happen to the state of a key after its first admission.\<close>

inductive key_step :: "retry_key_state \<Rightarrow> retry_key_state \<Rightarrow> bool" where
  key_admit: "admit_task_retry_key (Some s) key budget task_id now explicit implicit = Inr (s', admitted) \<Longrightarrow> key_step s s'"
| key_observe: "observe_task_retry_key_transition s prior current now = Inr s' \<Longrightarrow> key_step s s'"
| key_expire: "expire_task_retry_key s now = Inr s' \<Longrightarrow> key_step s s'"

inductive_cases key_stepE: "key_step s s'"

text \<open>
  What every state reached from the first admission satisfies: identity, budget and start are those
  of the first admission, attempts stay within the budget, and every attempt after the first was
  admitted before the deadline.
\<close>

definition within_budget :: "string \<Rightarrow> retry_budget \<Rightarrow> datetime \<Rightarrow> retry_key_state \<Rightarrow> bool" where
  "within_budget key budget start s \<longleftrightarrow>
     ks_retry_key s = key \<and> ks_budget s = budget \<and> ks_first_attempt_at s = start \<and>
     given_up_evidence_ok s \<and> opt_holds (\<lambda>n. ks_attempts s \<le> n) (tb_max_attempts budget) \<and>
     (ks_latest_attempt_at s = start \<or>
      opt_holds (\<lambda>x. ks_latest_attempt_at s < start + timedelta_us x) (tb_max_elapsed_seconds budget))"

text \<open>The part of a closed key that no later step touches: everything but the count of settled attempts.\<close>

definition closed_key :: "retry_key_state \<Rightarrow> retry_key_state \<Rightarrow> bool" where
  "closed_key s0 s \<longleftrightarrow> ks_status s \<noteq> KEY_ACTIVE \<and> s\<lparr>ks_settled_attempts := 0\<rparr> = s0\<lparr>ks_settled_attempts := 0\<rparr>"

section \<open>Admission\<close>

lemma attempts_spent_iff: "attempts_spent s \<longleftrightarrow> \<not> opt_holds (\<lambda>n. ks_attempts s < n) (tb_max_attempts (ks_budget s))"
  by (auto simp: attempts_spent_def opt_holds_def split: option.splits)

lemma attempts_spent_settled [simp]: "attempts_spent (s\<lparr>ks_settled_attempts := n\<rparr>) = attempts_spent s"
  by (simp add: attempts_spent_def split: option.split)

lemma expire_cases:
  assumes "expire_task_retry_key s now = Inr s'"
  obtains "s' = s"
  | "ks_status s = KEY_ACTIVE"
    "s' = s\<lparr>ks_status := KEY_GIVEN_UP, ks_given_up_at := Some now, ks_given_up_reason := Some ELAPSED_EXHAUSTED\<rparr>"
  using assms by (auto simp: expire_task_retry_key_def res_simps split: if_splits)

lemma deadline_iff:
  "(case x of None \<Rightarrow> Inr None | Some y \<Rightarrow> bind_res (add_duration t (timedelta_us y)) (\<lambda>d. Inr (Some d))) = Inr deadline \<Longrightarrow>
   deadline_passed deadline now \<longleftrightarrow> \<not> opt_holds (\<lambda>y. now < t + timedelta_us y) x"
  by (auto simp: deadline_passed_def opt_holds_def add_duration_def split: option.splits if_splits)

lemma admit_cases:
  assumes "admit_task_retry_key (Some s) key budget task_id now explicit implicit = Inr (s', admitted)"
  obtains "s' = s" "\<not> admitted"
  | reason where "ks_status s = KEY_ACTIVE" "s' = give_up reason task_id now s" "\<not> admitted"
      "reason \<in> {ATTEMPTS_EXHAUSTED, ELAPSED_EXHAUSTED}"
  | "ks_status s = KEY_ACTIVE" "admitted" "opt_holds (\<lambda>n. ks_attempts s < n) (tb_max_attempts (ks_budget s))"
      "opt_holds (\<lambda>x. now < ks_first_attempt_at s + timedelta_us x) (tb_max_elapsed_seconds (ks_budget s))"
      "s' = s\<lparr>ks_attempts := ks_attempts s + 1, ks_latest_attempt_at := now, ks_latest_task_id := task_id\<rparr>"
proof -
  consider "ks_status s \<noteq> KEY_ACTIVE" | "ks_status s = KEY_ACTIVE" by blast
  then show thesis
  proof cases
    case 1
    with assms that(1) show thesis by (auto simp: admit_task_retry_key_def split: if_splits)
  next
    case 2
    with assms that show thesis
      by (auto simp: admit_task_retry_key_def res_simps attempts_spent_iff not_le deadline_iff split: if_splits)
  qed
qed

lemma observe_cases:
  assumes "observe_task_retry_key_transition s prior current now = Inr s'"
  obtains a b where "expire_task_retry_key s now = Inr a"
    "b = a \<or> (\<exists>x. admit_task_retry_key (Some a) (ks_retry_key a) (ks_budget a) (tk_id current) now True False = Inr (b, x))"
    "s' = b \<or> s' = b\<lparr>ks_settled_attempts := ks_settled_attempts b + 1\<rparr>
     \<or> ks_status b = KEY_ACTIVE \<and> s' = b\<lparr>ks_settled_attempts := ks_settled_attempts b + 1, ks_status := KEY_SUCCEEDED, ks_succeeded_at := Some now\<rparr>
     \<or> ks_status b = KEY_ACTIVE \<and> s' = b\<lparr>ks_settled_attempts := ks_settled_attempts b + 1, ks_status := KEY_GIVEN_UP, ks_given_up_at := Some now,
         ks_given_up_reason := Some ATTEMPTS_EXHAUSTED\<rparr>"
  using assms that
  by (auto simp: observe_task_retry_key_transition_def res_simps Let_def split: if_splits)

lemma within_budget_expire:
  "expire_task_retry_key a now = Inr b \<Longrightarrow> within_budget key budget start a \<Longrightarrow> within_budget key budget start b"
  by (erule expire_cases) (simp_all add: within_budget_def given_up_evidence_ok_def)

lemma within_budget_admit:
  "admit_task_retry_key (Some a) k bg task_id now explicit implicit = Inr (b, ok) \<Longrightarrow>
   within_budget key budget start a \<Longrightarrow> within_budget key budget start b"
  by (erule admit_cases) (auto simp: within_budget_def given_up_evidence_ok_def give_up_def opt_holds_def split: option.splits)

lemma within_budget_step:
  assumes "key_step s s'" "within_budget key budget start s"
  shows "within_budget key budget start s'"
  using assms(1)
proof (cases rule: key_step.cases)
  case (key_observe prior current now)
  from key_observe show ?thesis
  proof (cases rule: observe_cases)
    case (1 a b)
    have "within_budget key budget start a" using 1(1) assms(2) by (rule within_budget_expire)
    then have b: "within_budget key budget start b" using 1(2) within_budget_admit by blast
    from 1(3) show ?thesis
      by (elim disjE conjE) (hypsubst, use b in \<open>simp add: within_budget_def given_up_evidence_ok_def\<close>)+
  qed
qed (use assms(2) within_budget_expire within_budget_admit in blast)+

interpretation retry_key: invariant_system key_step "within_budget key budget start" for key budget start
  by unfold_locales (rule within_budget_step)

lemma expire_closed: "ks_status s \<noteq> KEY_ACTIVE \<Longrightarrow> expire_task_retry_key s now = Inr s"
  by (simp add: expire_task_retry_key_def)

lemma admit_closed:
  "ks_status s \<noteq> KEY_ACTIVE \<Longrightarrow> ks_retry_key s = key \<Longrightarrow>
   admit_task_retry_key (Some s) key budget task_id now explicit implicit = Inr (s, False)"
  by (simp add: admit_task_retry_key_def)

lemma observe_closed:
  assumes "ks_status s \<noteq> KEY_ACTIVE" "observe_task_retry_key_transition s prior current now = Inr s'"
  shows "s' = s \<or> s' = s\<lparr>ks_settled_attempts := ks_settled_attempts s + 1\<rparr>"
  using assms(2)
  by (simp add: observe_task_retry_key_transition_def expire_closed [OF assms(1)] admit_closed [OF assms(1) refl]
      assms(1) Let_def split: if_splits)

lemma closed_key_step:
  assumes "key_step s s'" "closed_key s0 s"
  shows "closed_key s0 s'"
proof -
  have st: "ks_status s \<noteq> KEY_ACTIVE" and frame: "s\<lparr>ks_settled_attempts := 0\<rparr> = s0\<lparr>ks_settled_attempts := 0\<rparr>"
    using assms(2) by (simp_all add: closed_key_def)
  from assms(1) have "s' = s \<or> s' = s\<lparr>ks_settled_attempts := ks_settled_attempts s + 1\<rparr>"
  proof (cases rule: key_step.cases)
    case (key_admit key budget task_id now explicit implicit admitted)
    from key_admit st show ?thesis by (cases rule: admit_cases) auto
  qed (use st observe_closed expire_closed in fastforce)+
  then show ?thesis
  proof
    assume "s' = s\<lparr>ks_settled_attempts := ks_settled_attempts s + 1\<rparr>"
    with st frame show ?thesis by (simp add: closed_key_def)
  qed (simp add: assms(2))
qed

interpretation closed_retry_key: invariant_system key_step "closed_key s0" for s0
  by unfold_locales (rule closed_key_step)

lemma initial_within_budget:
  assumes "admit_task_retry_key None key budget task_id now explicit implicit = Inr (s, True)" "retry_budget_valid budget"
  shows "within_budget key budget now s"
  using assms by (auto simp: admit_task_retry_key_def initial_key_state_def Let_def res_simps within_budget_def
      given_up_evidence_ok_def retry_budget_valid_def opt_holds_def split: if_splits option.splits)

text \<open>
  C16. Whatever sequence of admissions, task transitions and expirations a retry key goes through after
  its first admission, the first admission keeps fixing its budget and start; the number of admitted
  attempts never exceeds the budget; no attempt after the first is admitted at or past the elapsed
  deadline; and the evidence of giving up or succeeding matches the status.
\<close>
theorem retry_key_never_exceeds_budget:
  assumes "admit_task_retry_key None key budget task_id now explicit implicit = Inr (s0, True)"
    and "retry_budget_valid budget" and "key_step\<^sup>*\<^sup>* s0 s"
  shows "ks_retry_key s = key \<and> ks_budget s = budget \<and> ks_first_attempt_at s = now \<and>
    opt_holds (\<lambda>n. ks_attempts s \<le> n) (tb_max_attempts budget) \<and>
    (ks_latest_attempt_at s = now \<or>
     opt_holds (\<lambda>x. ks_latest_attempt_at s < now + timedelta_us x) (tb_max_elapsed_seconds budget)) \<and>
    given_up_evidence_ok s"
  using retry_key.inv_run [OF assms(3) initial_within_budget [OF assms(1,2)]] by (simp add: within_budget_def)

definition sample_budget :: retry_budget where
  "sample_budget = \<lparr>tb_max_attempts = Some 2, tb_max_elapsed_seconds = Some 60\<rparr>"

definition sample_key :: retry_key_state where
  "sample_key = initial_key_state ''job'' sample_budget ''t1'' 0 False"

definition sample_key_full :: retry_key_state where
  "sample_key_full = sample_key\<lparr>ks_attempts := 2, ks_latest_attempt_at := 5, ks_latest_task_id := ''t2''\<rparr>"

lemma sample_key_first: "admit_task_retry_key None ''job'' sample_budget ''t1'' 0 True False = Inr (sample_key, True)"
  by code_simp

lemma sample_key_second: "admit_task_retry_key (Some sample_key) ''job'' sample_budget ''t2'' 5 True False = Inr (sample_key_full, True)"
  by code_simp

theorem retry_key_never_exceeds_budget_witness:
  "ks_budget sample_key_full = sample_budget \<and> ks_attempts sample_key_full = 2 \<and> given_up_evidence_ok sample_key_full"
proof -
  have run: "key_step\<^sup>*\<^sup>* sample_key sample_key_full"
    using sample_key_second by (blast intro: key_admit)
  have valid: "retry_budget_valid sample_budget" by code_simp
  show ?thesis using retry_key_never_exceeds_budget [OF sample_key_first valid run]
    by (simp add: sample_key_full_def)
qed

text \<open>
  C40. A retry key that has succeeded or given up is final: no later admission, transition or
  expiration changes anything but the count of settled attempts, and every later admission is refused.
\<close>
theorem closed_retry_key_is_final:
  assumes "ks_status s \<noteq> KEY_ACTIVE" and "key_step\<^sup>*\<^sup>* s s'"
  shows "s'\<lparr>ks_settled_attempts := ks_settled_attempts s\<rparr> = s \<and>
    admit_task_retry_key (Some s') (ks_retry_key s') budget task_id now explicit implicit = Inr (s', False)"
proof -
  have "closed_key s s" using assms(1) by (simp add: closed_key_def)
  with assms(2) have c: "closed_key s s'" by (rule closed_retry_key.inv_run)
  then have "s'\<lparr>ks_settled_attempts := ks_settled_attempts s\<rparr> = s"
    by (cases s; cases s') (simp add: closed_key_def)
  with c show ?thesis by (simp add: closed_key_def admit_closed)
qed

theorem closed_retry_key_is_final_witness:
  "admit_task_retry_key (Some (give_up ELAPSED_EXHAUSTED ''t3'' 7 sample_key)) ''job'' sample_budget ''t4'' 9 False False
     = Inr (give_up ELAPSED_EXHAUSTED ''t3'' 7 sample_key, False)"
proof -
  have k: "ks_retry_key (give_up ELAPSED_EXHAUSTED ''t3'' 7 sample_key) = ''job''"
    and st: "ks_status (give_up ELAPSED_EXHAUSTED ''t3'' 7 sample_key) \<noteq> KEY_ACTIVE" by code_simp+
  show ?thesis using closed_retry_key_is_final [OF st rtranclp.rtrancl_refl] k by simp
qed

section \<open>Successors of a retry series\<close>

lemma refusal_none_active:
  assumes "task_event_retry_refusal (Some s) now = Inr None" "given_up_evidence_ok s"
  obtains deadline where "ks_status s = KEY_ACTIVE" "key_elapsed_deadline s = Inr deadline" "\<not> deadline_passed deadline now"
    "opt_holds (\<lambda>n. ks_attempts s < n) (tb_max_attempts (ks_budget s))"
  using assms
  by (cases "ks_status s") (auto simp: task_event_retry_refusal_def given_up_evidence_ok_def res_simps attempts_spent_iff
      split: if_splits)

text \<open>
  The check that lets a retry attempt schedule a successor agrees with the accounting done when
  the settled attempt and its successor are written in the same transaction: if the check does not
  refuse, observing the failed attempt and then the new successor never raises, admits the successor
  as the next attempt of the key and keeps the key active.
\<close>
theorem scheduled_successor_is_admitted:
  assumes open_key: "task_event_retry_refusal (Some s) now = Inr None" "given_up_evidence_ok s"
    and failed: "tk_status settled = FAILED" "tk_status prior \<notin> event_terminal_statuses"
    and fresh: "tk_status successor = PENDING" "tk_id successor \<noteq> ks_latest_task_id s"
  shows "bind_res (observe_task_retry_key_transition s (Some prior) settled now)
      (\<lambda>a. observe_task_retry_key_transition a None successor now)
    = Inr (s\<lparr>ks_settled_attempts := ks_settled_attempts s + 1, ks_attempts := ks_attempts s + 1,
        ks_latest_attempt_at := now, ks_latest_task_id := tk_id successor\<rparr>)"
  using open_key
proof (cases rule: refusal_none_active)
  case (1 deadline)
  have cap: "\<not> attempts_spent s" using 1(4) by (simp add: attempts_spent_iff)
  have first: "observe_task_retry_key_transition s (Some prior) settled now = Inr (s\<lparr>ks_settled_attempts := ks_settled_attempts s + 1\<rparr>)"
    using 1 failed cap
    by (simp add: observe_task_retry_key_transition_def expire_task_retry_key_def event_terminal_statuses_def Let_def)
  let ?a = "s\<lparr>ks_settled_attempts := ks_settled_attempts s + 1\<rparr>"
  have "key_elapsed_deadline ?a = key_elapsed_deadline s" by (simp add: key_elapsed_deadline_def split: option.split)
  moreover have "(case tb_max_elapsed_seconds (ks_budget s) of None \<Rightarrow> Inr None
      | Some x \<Rightarrow> bind_res (add_duration (ks_first_attempt_at s) (timedelta_us x)) (\<lambda>d. Inr (Some d))) = Inr deadline"
    using 1(2) by (auto simp: key_elapsed_deadline_def split: option.splits sum.splits)
  ultimately have "observe_task_retry_key_transition ?a None successor now
      = Inr (?a\<lparr>ks_attempts := ks_attempts s + 1, ks_latest_attempt_at := now, ks_latest_task_id := tk_id successor\<rparr>)"
    using 1 fresh cap
    by (simp add: observe_task_retry_key_transition_def expire_task_retry_key_def admit_task_retry_key_def
        event_terminal_statuses_def cong: option.case_cong)
  with first show ?thesis by simp
qed

definition sample_event_task :: "string \<Rightarrow> task_status \<Rightarrow> task" where
  "sample_event_task i st =
     \<lparr>tk_id = i, tk_type = ''job'', tk_concurrency_key = None, tk_restartable = False, tk_restart_count = 0,
      tk_max_restarts = None, tk_restart_history = [], tk_title = None, tk_description = None, tk_status = st,
      tk_session_id = None, tk_session_instance_id = None, tk_parent_task_id = None, tk_assigned_agent_name = None,
      tk_graph_id = None, tk_prerequisite_task_ids = [], tk_available_at = None, tk_worker_id = None,
      tk_lease_expires_at = None, tk_interrupted_handoff_id = None, tk_status_reason = None,
      tk_status_payload = None, tk_input = fmempty, tk_result = None, tk_error = None, tk_metadata = fmempty,
      tk_created_at = 0, tk_updated_at = 0, tk_started_at = None, tk_completed_at = None,
      tk_invocation = \<lparr>ti_root_invocation_id = ''root'', ti_root_session_id = None, ti_event_retry_key = Some ''job'',
        ti_document = fmempty\<rparr>,
      tk_schedule = None, tk_retry_series = None, tk_work_contract = None\<rparr>"

theorem scheduled_successor_is_admitted_witness:
  "bind_res (observe_task_retry_key_transition sample_key (Some (sample_event_task ''t1'' RUNNING)) (sample_event_task ''t1'' FAILED) 9)
      (\<lambda>a. observe_task_retry_key_transition a None (sample_event_task ''t2'' PENDING) 9)
    = Inr (sample_key\<lparr>ks_settled_attempts := 1, ks_attempts := 2, ks_latest_attempt_at := 9, ks_latest_task_id := ''t2''\<rparr>)"
proof -
  have "task_event_retry_refusal (Some sample_key) 9 = Inr None" "given_up_evidence_ok sample_key"
    "tk_status (sample_event_task ''t1'' FAILED) = FAILED"
    "tk_status (sample_event_task ''t1'' RUNNING) \<notin> event_terminal_statuses"
    "tk_status (sample_event_task ''t2'' PENDING) = PENDING"
    "tk_id (sample_event_task ''t2'' PENDING) \<noteq> ks_latest_task_id sample_key" by code_simp+
  from scheduled_successor_is_admitted [OF this] show ?thesis
    by (simp add: sample_key_def initial_key_state_def sample_event_task_def)
qed

end
