(* ===== verification/Retry_Series.thy ===== *)
theory Retry_Series
  imports Retry_Budget
begin

text \<open>
  Proofs about retry series: the backoff in closed form, the successor of a failed attempt stays within
  the policy, a settlement always produces a receipt its own validator accepts, chains of attempts are
  bounded, and the one refusal for which no receipt can be produced.
\<close>

section \<open>Backoff\<close>

lemma backoff_loop_closed:
  assumes "1 \<le> tp_backoff_multiplier p" "0 \<le> delay"
  shows "backoff_loop p n delay = min (tp_max_backoff_seconds p) (delay * tp_backoff_multiplier p ^ n)"
  using assms
proof (induction n arbitrary: delay)
  case (Suc n)
  have grow: "delay * x \<ge> delay" if "1 \<le> x" for x
    using that Suc.prems(2) mult_left_mono [of 1 x delay] by simp
  have pow: "1 \<le> tp_backoff_multiplier p ^ k" for k
    using Suc.prems(1) by (simp add: one_le_power)
  show ?case
  proof (cases "delay \<ge> tp_max_backoff_seconds p")
    case True
    with grow [OF pow [of "Suc n"]] show ?thesis by simp
  next
    case False
    let ?m = "tp_max_backoff_seconds p" and ?d = "delay * tp_backoff_multiplier p"
    have nonneg: "0 \<le> min ?m ?d" using False Suc.prems by auto
    have "backoff_loop p (Suc n) delay = min ?m (min ?m ?d * tp_backoff_multiplier p ^ n)"
      using False Suc.IH [OF Suc.prems(1) nonneg] by simp
    also have "\<dots> = min ?m (?d * tp_backoff_multiplier p ^ n)"
    proof (cases "?m \<le> ?d")
      case True
      have "?m \<le> ?m * tp_backoff_multiplier p ^ n" "?m \<le> ?d * tp_backoff_multiplier p ^ n"
        using pow [of n] True False Suc.prems mult_left_mono [of 1 "tp_backoff_multiplier p ^ n" ?m]
          mult_mono [of ?m ?d 1 "tp_backoff_multiplier p ^ n"] by auto
      with True show ?thesis by simp
    qed simp
    finally show ?thesis by (simp add: mult.assoc)
  qed
qed (simp add: min.commute)

text \<open>
  C39. The backoff loop with its early exit computes the capped geometric backoff: the delay after
  attempt n is the initial delay times the multiplier to the power n - 1, never more than the maximum.
\<close>
theorem backoff_is_capped_geometric:
  assumes "retry_policy_valid p" and "1 \<le> attempt"
  shows "task_retry_backoff_seconds p attempt =
    min (tp_max_backoff_seconds p) (tp_initial_backoff_seconds p * tp_backoff_multiplier p ^ nat (attempt - 1))"
  using assms by (simp add: task_retry_backoff_seconds_def backoff_loop_closed retry_policy_valid_def)

definition sample_policy :: retry_policy where
  "sample_policy = \<lparr>tp_max_attempts = 3, tp_max_elapsed_seconds = Some 3600, tp_max_total_tokens = Some 1000,
     tp_max_estimated_cost = Some 5, tp_cost_currency = ''USD'', tp_initial_backoff_seconds = 1,
     tp_backoff_multiplier = 2, tp_max_backoff_seconds = 60\<rparr>"

theorem backoff_is_capped_geometric_witness: "task_retry_backoff_seconds sample_policy 4 = 8"
proof -
  have "retry_policy_valid sample_policy" by code_simp
  from backoff_is_capped_geometric [OF this, of 4] show ?thesis by (simp add: sample_policy_def)
qed

lemma backoff_bounds:
  assumes "retry_policy_valid p" "1 \<le> attempt"
  shows "0 \<le> task_retry_backoff_seconds p attempt" "task_retry_backoff_seconds p attempt \<le> 86400"
  using assms by (auto simp: task_retry_backoff_seconds_def backoff_loop_closed retry_policy_valid_def)

lemma round_half_even_bounds:
  "of_int m \<le> x \<Longrightarrow> m \<le> round_half_even x"
  "x \<le> of_int n \<Longrightarrow> round_half_even x \<le> n"
proof -
  assume "of_int m \<le> x"
  then have "m \<le> \<lfloor>x\<rfloor>" by (simp add: le_floor_iff)
  then show "m \<le> round_half_even x" by (simp add: round_half_even_def Let_def)
next
  assume le: "x \<le> of_int n"
  then have f: "\<lfloor>x\<rfloor> \<le> n" by (metis floor_mono floor_of_int)
  moreover have "\<lfloor>x\<rfloor> < n" if "\<not> x - of_int \<lfloor>x\<rfloor> < 1 / 2"
    using that le f by (metis diff_gt_0_iff_gt diff_self half_gt_zero_iff linorder_not_less of_int_floor_le order_antisym_conv
        order_less_le zero_less_one)
  ultimately show "round_half_even x \<le> n" by (force simp: round_half_even_def Let_def)
qed

lemma timedelta_us_day: "0 \<le> x \<Longrightarrow> x \<le> 86400 \<Longrightarrow> 0 \<le> timedelta_us x \<and> timedelta_us x \<le> seconds 86400"
  unfolding timedelta_us_def seconds_def
  by (intro conjI round_half_even_bounds) simp_all

section \<open>Classification\<close>

text \<open>The refusals for which a failed attempt can be settled: none, or exhaustion of the event's budget.\<close>

definition settleable_refusal :: "retry_series_disposition option \<Rightarrow> bool" where
  "settleable_refusal r \<longleftrightarrow> r \<in> {None, Some ATTEMPTS_EXHAUSTED, Some ELAPSED_EXHAUSTED}"

definition retry_delay_us :: "retry_series \<Rightarrow> retry_settlement_request \<Rightarrow> int" where
  "retry_delay_us s q = timedelta_us (max (task_retry_backoff_seconds (rs_policy s) (rs_attempt s))
     (case sq_retry_after_seconds q of None \<Rightarrow> 0 | Some x \<Rightarrow> x))"

lemma retry_delay_bounds:
  assumes "retry_series_valid s" "settlement_request_valid q"
  shows "0 \<le> retry_delay_us s q" "retry_delay_us s q \<le> seconds 86400"
proof -
  have "retry_policy_valid (rs_policy s)" "1 \<le> rs_attempt s" using assms(1) by (simp_all add: retry_series_valid_def)
  note b = backoff_bounds [OF this]
  have r: "0 \<le> (case sq_retry_after_seconds q of None \<Rightarrow> 0 | Some x \<Rightarrow> x)"
    "(case sq_retry_after_seconds q of None \<Rightarrow> 0 | Some x \<Rightarrow> x) \<le> 86400"
    using assms(2) by (auto simp: settlement_request_valid_def opt_holds_def split: option.splits)
  from b r show "0 \<le> retry_delay_us s q" "retry_delay_us s q \<le> seconds 86400"
    unfolding retry_delay_us_def using timedelta_us_day by (auto simp: le_max_iff_disj)
qed

lemma retry_disposition_scheduled:
  "retry_disposition_of s None next tokens cost = RETRY_SCHEDULED \<longleftrightarrow>
     rs_attempt s < tp_max_attempts (rs_policy s) \<and> \<not> deadline_passed (rs_elapsed_deadline s) next \<and>
     opt_holds (\<lambda>n. tokens < n) (tp_max_total_tokens (rs_policy s)) \<and>
     opt_holds (\<lambda>c. cost < c) (tp_max_estimated_cost (rs_policy s))"
  by (auto simp: retry_disposition_of_def opt_holds_def not_le split: option.splits)

lemma retry_disposition_not_special:
  "settleable_refusal r \<Longrightarrow> expected_settled_status (retry_disposition_of s r next tokens cost) = FAILED"
  by (auto simp: settleable_refusal_def retry_disposition_of_def expected_settled_status_def)

lemma classify_scheduled:
  assumes "classify_attempt s q cancelling series_now refusal = Inr out" "ao_next_eligible_at out = Some next"
  shows "ao_status out = FAILED" "ao_disposition out = RETRY_SCHEDULED" "next = series_now + retry_delay_us s q"
    "in_dt_range next" "rs_attempt s < tp_max_attempts (rs_policy s)" "\<not> deadline_passed (rs_elapsed_deadline s) next"
    "opt_holds (\<lambda>n. attempt_total s q < n) (tp_max_total_tokens (rs_policy s))"
    "opt_holds (\<lambda>c. attempt_spent s q < c) (tp_max_estimated_cost (rs_policy s))"
    "sq_disposition q = RETRYABLE_FAILURE" "refusal = None"
proof -
  from assms obtain "sq_disposition q = RETRYABLE_FAILURE" "refusal = None" "ao_status out = FAILED"
    "ao_disposition out = RETRY_SCHEDULED" "add_duration series_now (retry_delay_us s q) = Inr next"
    "retry_disposition_of s None next (attempt_total s q)
       (attempt_spent s q) = RETRY_SCHEDULED"
    by (auto simp: classify_attempt_def exhausted_def Let_def res_simps retry_delay_us_def
        split: if_splits attempt_disposition.splits)
  then show "ao_status out = FAILED" "ao_disposition out = RETRY_SCHEDULED" "next = series_now + retry_delay_us s q"
    "in_dt_range next" "rs_attempt s < tp_max_attempts (rs_policy s)" "\<not> deadline_passed (rs_elapsed_deadline s) next"
    "opt_holds (\<lambda>n. attempt_total s q < n) (tp_max_total_tokens (rs_policy s))"
    "opt_holds (\<lambda>c. attempt_spent s q < c) (tp_max_estimated_cost (rs_policy s))"
    "sq_disposition q = RETRYABLE_FAILURE" "refusal = None"
    by (simp_all add: retry_disposition_scheduled add_duration_def split: if_splits)
qed

lemma classify_status:
  assumes "classify_attempt s q cancelling series_now refusal = Inr out" "settleable_refusal refusal"
  shows "ao_status out = expected_settled_status (ao_disposition out)"
    "ao_disposition out = RETRY_SCHEDULED \<longleftrightarrow> ao_next_eligible_at out \<noteq> None"
    "ao_status out \<in> {COMPLETED, FAILED, CANCELLED}"
    "ao_disposition out \<noteq> SERIES_ACTIVE"
proof -
  have d: "retry_disposition_of s refusal n t c \<noteq> SERIES_ACTIVE"
    "refusal \<noteq> None \<Longrightarrow> retry_disposition_of s refusal n t c \<noteq> RETRY_SCHEDULED" for n t c
    using assms(2) by (auto simp: settleable_refusal_def retry_disposition_of_def)
  show "ao_status out = expected_settled_status (ao_disposition out)"
    using assms(1) retry_disposition_not_special [OF assms(2)]
    by (auto simp: classify_attempt_def exhausted_def Let_def res_simps expected_settled_status_def
        split: if_splits attempt_disposition.splits)
  show "ao_status out \<in> {COMPLETED, FAILED, CANCELLED}" "ao_disposition out \<noteq> SERIES_ACTIVE"
    using assms(1) d(1)
    by (auto simp: classify_attempt_def exhausted_def Let_def res_simps split: if_splits attempt_disposition.splits)
  show "ao_disposition out = RETRY_SCHEDULED \<longleftrightarrow> ao_next_eligible_at out \<noteq> None"
    using assms(1) d(2)
    by (auto simp: classify_attempt_def exhausted_def Let_def res_simps split: if_splits attempt_disposition.splits)
qed

lemma classify_total:
  assumes "in_dt_range (series_now + retry_delay_us s q)"
  shows "\<exists>out. classify_attempt s q cancelling series_now refusal = Inr out"
  using assms by (auto simp: classify_attempt_def Let_def add_duration_def retry_delay_us_def split: attempt_disposition.splits)

section \<open>Snapshots and identities\<close>

lemma series_snapshot_Inr:
  assumes "task_retry_series_snapshot series_id budget authority attempt policy started_at tokens cost
     disposition predecessor successor next_eligible_at = Inr s"
  shows "retry_series_valid s" "rs_series_id s = series_id" "rs_causal_budget_id s = budget" "rs_authority_sha256 s = authority"
    "rs_attempt s = attempt" "rs_policy s = policy" "rs_started_at s = started_at" "rs_cumulative_tokens s = tokens"
    "rs_cumulative_estimated_cost s = cost" "rs_disposition s = disposition" "rs_predecessor_task_id s = predecessor"
    "rs_successor_task_id s = successor" "rs_next_eligible_at s = next_eligible_at"
  using assms by (auto simp: task_retry_series_snapshot_def Let_def res_simps split: if_splits)

lemma series_snapshot_derived:
  assumes "retry_series_valid a" "retry_series_valid b" "rs_policy a = rs_policy b" "rs_started_at a = rs_started_at b"
    "rs_cumulative_tokens a = rs_cumulative_tokens b" "rs_cumulative_estimated_cost a = rs_cumulative_estimated_cost b"
  shows "rs_tokens_remaining a = rs_tokens_remaining b" "rs_estimated_cost_remaining a = rs_estimated_cost_remaining b"
    "rs_elapsed_deadline a = rs_elapsed_deadline b"
  using assms by (simp_all add: retry_series_valid_def)

text \<open>A computed cost within bounds is within the bounds of a given one, and so is what is left of a ceiling.\<close>

lemma computed_cost_given:
  assumes "computed_cost_ok x"
  shows "given_cost_ok 64 x" "given_cost_ok 128 x"
proof -
  have "(10 ^ 92 - 5 * 10 ^ 63 :: int) \<le> 10 ^ 128" "(10 ^ 92 - 5 * 10 ^ 63 :: int) \<le> 10 ^ 192" by simp_all
  then have "rat_of_int (10 ^ 92 - 5 * 10 ^ 63) \<le> of_int (10 ^ 128)" "rat_of_int (10 ^ 92 - 5 * 10 ^ 63) \<le> of_int (10 ^ 192)"
    by (simp_all only: of_int_le_iff)
  moreover have "(64 + 64 :: nat) = 128" "(128 + 64 :: nat) = 192" by simp_all
  ultimately show "given_cost_ok 64 x" "given_cost_ok 128 x"
    using assms unfolding given_cost_ok_def computed_cost_ok_def by (auto simp only:)
qed

lemma computed_cost_left:
  assumes "computed_cost_ok c" "computed_cost_ok x"
  shows "computed_cost_ok (max 0 (c - x))"
  using assms unfolding computed_cost_ok_def max_def by (auto simp only: split: if_splits)

lemma series_snapshot_total:
  assumes "retry_series_valid s" "opt_holds in_dt_range (rs_elapsed_deadline s)" "is_sha256_text authority"
    "1 \<le> attempt" "attempt \<le> 100" "0 \<le> tokens" "tokens \<le> max_durable_json_integer" "computed_cost_ok cost"
    "opt_holds computed_cost_ok (tp_max_estimated_cost (rs_policy s))"
    "opt_holds durable_clean predecessor" "opt_holds durable_clean successor"
    "disposition = RETRY_SCHEDULED \<longleftrightarrow> successor \<noteq> None" "successor = None \<longleftrightarrow> next_eligible_at = None"
  shows "\<exists>s'. task_retry_series_snapshot (rs_series_id s) (rs_causal_budget_id s) authority attempt (rs_policy s)
     (rs_started_at s) tokens cost disposition predecessor successor next_eligible_at = Inr s'"
proof -
  have left: "opt_holds computed_cost_ok (map_option (\<lambda>c. max 0 (c - cost)) (tp_max_estimated_cost (rs_policy s)))"
    using assms(9) computed_cost_left [OF _ assms(8)] by (auto simp: opt_holds_def split: option.splits)
  then have given: "opt_holds (given_cost_ok 64) (map_option (\<lambda>c. max 0 (c - cost)) (tp_max_estimated_cost (rs_policy s)))"
    "given_cost_ok 128 cost"
    using computed_cost_given assms(8) by (auto simp: opt_holds_def split: option.splits)
  show ?thesis
  proof (cases "tp_max_elapsed_seconds (rs_policy s)")
    case None
    with assms left given show ?thesis by (simp add: task_retry_series_snapshot_def Let_def retry_series_valid_def)
  next
    case (Some x)
    then have "in_dt_range (rs_started_at s + timedelta_us x)" using assms(1,2) by (simp add: retry_series_valid_def opt_holds_def)
    with Some assms left given show ?thesis
      by (simp add: task_retry_series_snapshot_def Let_def retry_series_valid_def add_duration_def)
  qed
qed

lemma clean_text:
  assumes "s \<noteq> []" "list_all (\<lambda>c. \<not> py_space c \<and> c \<noteq> CHR 0x00) s"
  shows "durable_clean s"
proof -
  have "py_strip s = s"
  proof -
    have drop: "dropWhile py_space xs = xs" if "list_all (\<lambda>c. \<not> py_space c \<and> c \<noteq> CHR 0x00) xs" for xs
      using that by (cases xs) auto
    have "list_all (\<lambda>c. \<not> py_space c \<and> c \<noteq> CHR 0x00) (rev s)" using assms(2) by simp
    with drop assms(2) show ?thesis by (simp add: py_strip_def)
  qed
  moreover have "CHR 0x00 \<notin> set s" using assms(2) by (auto simp: list_all_iff)
  ultimately show ?thesis
    using assms(1) by (simp add: durable_clean_def require_durable_clean_nonblank_def require_clean_nonblank_def)
qed

lemma hex_clean: "list_all hex_char s \<Longrightarrow> list_all (\<lambda>c. \<not> py_space c \<and> c \<noteq> CHR 0x00) s"
  by (induction s) (auto simp: hex_char_def py_space_def)

lemma hex_utf8: "list_all hex_char s \<Longrightarrow> utf8_bytes s = length s"
  by (induction s) (auto simp: utf8_bytes_def hex_char_def)

lemma successor_id_clean:
  assumes "\<And>j. is_sha256_text (digest j)"
  shows "durable_clean (task_retry_successor_id digest series_id attempt)"
    "utf8_bytes (task_retry_successor_id digest series_id attempt) \<le> 1024"
proof -
  let ?d = "digest (JObj (fmap_of_list [(''schema'', JStr ''cayu.task-retry-attempt.v1''), (''series_id'', JStr series_id),
     (''attempt'', JInt attempt)]))"
  have hex: "list_all hex_char ?d" "length ?d = 64" using assms by (simp_all add: is_sha256_text_def)
  have id: "task_retry_successor_id digest series_id attempt = ''task-retry-attempt:v1:'' @ ?d"
    by (simp add: task_retry_successor_id_def)
  have "list_all (\<lambda>c. \<not> py_space c \<and> c \<noteq> CHR 0x00) ''task-retry-attempt:v1:''" by code_simp
  with hex_clean [OF hex(1)] show "durable_clean (task_retry_successor_id digest series_id attempt)"
    unfolding id by (intro clean_text) simp_all
  have "utf8_bytes (''task-retry-attempt:v1:'' @ ?d) = utf8_bytes ''task-retry-attempt:v1:'' + utf8_bytes ?d"
    by (simp add: utf8_bytes_def)
  moreover have "utf8_bytes ''task-retry-attempt:v1:'' = 22" by code_simp
  ultimately show "utf8_bytes (task_retry_successor_id digest series_id attempt) \<le> 1024"
    using hex by (simp add: id hex_utf8)
qed

section \<open>Settlements\<close>

lemma successor_attempt_Inr:
  assumes "successor_attempt digest t s q next now = Inr u"
  obtains ns where "u = (successor_task t (next_attempt_id digest s) (Some next) now s)\<lparr>tk_retry_series := Some ns\<rparr>"
    "retry_series_valid ns" "rs_series_id ns = rs_series_id s" "rs_causal_budget_id ns = rs_causal_budget_id s"
    "rs_attempt ns = rs_attempt s + 1" "rs_policy ns = rs_policy s" "rs_started_at ns = rs_started_at s"
    "rs_cumulative_tokens ns = attempt_total s q" "rs_cumulative_estimated_cost ns = attempt_spent s q"
    "rs_disposition ns = SERIES_ACTIVE" "rs_predecessor_task_id ns = Some (tk_id t)" "task_valid digest u"
  using assms that by (auto simp: successor_attempt_def Let_def res_simps dest: series_snapshot_Inr)

lemma settled_series_Inr:
  assumes "settled_series_of digest t s q out = Inr ss"
  shows "retry_series_valid ss" "rs_series_id ss = rs_series_id s" "rs_causal_budget_id ss = rs_causal_budget_id s"
    "rs_attempt ss = rs_attempt s" "rs_policy ss = rs_policy s" "rs_started_at ss = rs_started_at s"
    "rs_cumulative_tokens ss = attempt_total s q" "rs_cumulative_estimated_cost ss = attempt_spent s q"
    "rs_disposition ss = ao_disposition out" "rs_next_eligible_at ss = ao_next_eligible_at out"
    "rs_successor_task_id ss = map_option (\<lambda>_. next_attempt_id digest s) (ao_next_eligible_at out)"
  using series_snapshot_Inr [OF assms [unfolded settled_series_of_def]] by simp_all

text \<open>Inversion of a successful settlement: the outcome, the settled series and, for a retry, the successor.\<close>

lemma settled_attempt_cases:
  assumes "settled_task_retry_attempt digest t q now series_now refusal = Inr (settled, successor)"
  obtains s requested out ss where
    "tk_retry_series t = Some s" "rs_disposition s = SERIES_ACTIVE" "sq_causal_budget_id q = rs_causal_budget_id s"
    "requested \<Longrightarrow> retry_cancellation_requested t" "classify_attempt s q requested series_now refusal = Inr out"
    "settled_series_of digest t s q out = Inr ss" "settled = settled_attempt t s (sq_idempotency_key q) out now ss"
    "ao_next_eligible_at out = None \<and> successor = None \<or>
     (\<exists>nx u. ao_next_eligible_at out = Some nx \<and> successor_attempt digest t s q nx now = Inr u \<and> successor = Some u)"
proof -
  from assms obtain s requested out ss where *: "tk_retry_series t = Some s" "rs_disposition s = SERIES_ACTIVE"
    "sq_causal_budget_id q = rs_causal_budget_id s"
    "task_retry_requested_cancellation_settlement digest t (sq_worker_id q) (sq_token_count q) (sq_estimated_cost q) = Inr requested"
    "classify_attempt s q (requested \<noteq> None) series_now refusal = Inr out"
    "settled_series_of digest t s q out = Inr ss" "settled = settled_attempt t s (sq_idempotency_key q) out now ss"
    "ao_next_eligible_at out = None \<and> successor = None \<or>
     (\<exists>nx u. ao_next_eligible_at out = Some nx \<and> successor_attempt digest t s q nx now = Inr u \<and> successor = Some u)"
    by (fastforce simp: settled_task_retry_attempt_def Let_def res_simps split: option.splits if_splits)
  have "requested \<noteq> None \<Longrightarrow> retry_cancellation_requested t"
    using *(4) by (auto simp: task_retry_requested_cancellation_settlement_def split: if_splits)
  from that [OF *(1-3) this *(5-8)] show thesis .
qed

text \<open>
  C38. A successor attempt stays within the policy of its series: its number is the next one and at
  most the maximum, tokens and cost are the cumulative sums and strictly below their budgets, it becomes
  eligible after its backoff and strictly before the elapsed deadline, and it repeats the work of the
  failed attempt (type, input, metadata, invocation, agent) in a fresh pending task.
\<close>
theorem successor_within_policy:
  assumes "settled_task_retry_attempt digest t q now series_now refusal = Inr (settled, Some u)"
    and "tk_retry_series t = Some s"
  shows "\<exists>n nx. tk_retry_series u = Some n \<and> rs_policy n = rs_policy s \<and> rs_series_id n = rs_series_id s \<and>
    rs_causal_budget_id n = rs_causal_budget_id s \<and> rs_started_at n = rs_started_at s \<and>
    rs_attempt n = rs_attempt s + 1 \<and> rs_attempt n \<le> tp_max_attempts (rs_policy s) \<and>
    rs_cumulative_tokens n = attempt_total s q \<and>
    opt_holds (\<lambda>b. rs_cumulative_tokens n < b) (tp_max_total_tokens (rs_policy s)) \<and>
    rs_cumulative_estimated_cost n = attempt_spent s q \<and>
    opt_holds (\<lambda>b. rs_cumulative_estimated_cost n < b) (tp_max_estimated_cost (rs_policy s)) \<and>
    tk_available_at u = Some nx \<and> nx = series_now + retry_delay_us s q \<and>
    \<not> deadline_passed (rs_elapsed_deadline s) nx \<and>
    tk_status u = PENDING \<and> tk_type u = tk_type t \<and> tk_input u = tk_input t \<and> tk_metadata u = tk_metadata t \<and>
    tk_invocation u = tk_invocation t \<and> tk_assigned_agent_name u = tk_assigned_agent_name t \<and>
    tk_worker_id u = None \<and> tk_session_id u = None"
  using assms(1)
proof (cases rule: settled_attempt_cases)
  case (1 s' requested out ss)
  with assms(2) have [simp]: "s' = s" by simp
  from 1(8) obtain nx where n: "ao_next_eligible_at out = Some nx" "successor_attempt digest t s q nx now = Inr u"
    by auto
  note c = classify_scheduled [OF 1(5) n(1)]
  from n(2) show ?thesis
  proof (cases rule: successor_attempt_Inr)
    case (1 ns)
    with c show ?thesis by (intro exI [of _ ns] exI [of _ nx]) (simp add: successor_task_def)
  qed
qed

section \<open>Receipts\<close>

lemma attempt_authority_series:
  "rs_authority_sha256 s' = attempt_authority digest t s tokens cost \<Longrightarrow> rs_series_id s' = rs_series_id s \<Longrightarrow>
   rs_causal_budget_id s' = rs_causal_budget_id s \<Longrightarrow> rs_attempt s' = rs_attempt s \<Longrightarrow> rs_policy s' = rs_policy s \<Longrightarrow>
   rs_started_at s' = rs_started_at s \<Longrightarrow> rs_cumulative_tokens s' = tokens \<Longrightarrow> rs_cumulative_estimated_cost s' = cost \<Longrightarrow>
   rs_predecessor_task_id s' = rs_predecessor_task_id s \<Longrightarrow>
   rs_authority_sha256 s' = task_retry_attempt_authority_sha256 digest t s'"
  by (simp add: attempt_authority_def task_retry_attempt_authority_sha256_def)

lemma authority_ignores_series:
  "task_retry_attempt_authority_sha256 digest (t\<lparr>tk_retry_series := x\<rparr>) s = task_retry_attempt_authority_sha256 digest t s"
  by (simp add: task_retry_attempt_authority_sha256_def)

lemma digest_authority: "(\<And>j. is_sha256_text (digest j)) \<Longrightarrow> is_sha256_text (attempt_authority digest t s tokens cost)"
  by (simp add: attempt_authority_def task_retry_attempt_authority_sha256_def)

lemma task_valid_series:
  "task_valid digest t \<Longrightarrow> tk_retry_series t = Some s \<Longrightarrow> retry_series_valid s"
  by (simp add: task_valid_def retry_and_contract_ok_def)

lemma attempt_sums_nonneg:
  assumes "retry_series_valid s" "settlement_request_valid q"
  shows "0 \<le> attempt_total s q" "0 \<le> attempt_spent s q"
  using assms
  by (simp_all add: retry_series_valid_def settlement_request_valid_def attempt_total_def attempt_spent_def given_cost_ok_def)

lemma successor_attempt_total:
  assumes digest: "\<And>j. is_sha256_text (digest j)"
    and t: "task_valid digest t" "tk_retry_series t = Some s" and q: "settlement_request_valid q"
    and bounds: "attempt_total s q \<le> max_durable_json_integer" "opt_holds in_dt_range (rs_elapsed_deadline s)"
      "rs_attempt s < tp_max_attempts (rs_policy s)" "computed_cost_ok (attempt_spent s q)"
      "opt_holds computed_cost_ok (tp_max_estimated_cost (rs_policy s))"
  shows "\<exists>u. successor_attempt digest t s q nx now = Inr u"
proof -
  have s: "retry_series_valid s" using t by (rule task_valid_series)
  have attempt: "1 \<le> rs_attempt s + 1" "rs_attempt s + 1 \<le> 100"
    using s bounds(3) by (auto simp: retry_series_valid_def retry_policy_valid_def)
  have tid: "opt_holds durable_clean (Some (tk_id t))" using t(1) by (simp add: task_valid_def task_texts_ok_def opt_holds_def)
  let ?draft = "successor_task t (next_attempt_id digest s) (Some nx) now s"
  let ?base = "s\<lparr>rs_attempt := rs_attempt s + 1, rs_predecessor_task_id := Some (tk_id t)\<rparr>"
  have sha: "is_sha256_text (attempt_authority digest ?draft ?base (attempt_total s q) (attempt_spent s q))"
    using digest by (rule digest_authority)
  obtain ns where ns: "task_retry_series_snapshot (rs_series_id s) (rs_causal_budget_id s)
      (attempt_authority digest ?draft ?base (attempt_total s q) (attempt_spent s q)) (rs_attempt s + 1) (rs_policy s)
      (rs_started_at s) (attempt_total s q) (attempt_spent s q) SERIES_ACTIVE (Some (tk_id t)) None None = Inr ns"
    using series_snapshot_total [OF s bounds(2) sha attempt attempt_sums_nonneg(1) [OF s q] bounds(1,4,5) tid, of None SERIES_ACTIVE None] by (auto simp: opt_holds_def)
  note f = series_snapshot_Inr [OF ns]
  have auth: "rs_authority_sha256 ns = task_retry_attempt_authority_sha256 digest ?draft ns"
    by (rule attempt_authority_series [where s = ?base]) (use f in simp_all)
  let ?u = "?draft\<lparr>tk_retry_series := Some ns\<rparr>"
  have texts: "task_texts_ok t" using t(1) by (simp add: task_valid_def)
  have "task_texts_ok ?u" using texts successor_id_clean [OF digest]
    by (simp add: task_texts_ok_def successor_task_def next_attempt_id_def)
  moreover have "restart_policy_ok ?u" "graph_membership_ok ?u" "schedule_ok ?u"
    by (simp_all add: restart_policy_ok_def graph_membership_ok_def schedule_ok_def successor_task_def)
  moreover have "retry_and_contract_ok digest ?u"
    unfolding retry_and_contract_ok_def authority_ignores_series
    using f(1) auth successor_id_clean [OF digest] by (simp add: successor_task_def next_attempt_id_def)
  ultimately have "task_valid digest ?u" by (simp add: task_valid_def)
  with ns show ?thesis by (simp add: successor_attempt_def Let_def copy_task_def)
qed

lemma settled_receipt_valid:
  assumes run: "settled_task_retry_attempt digest t q now series_now refusal = Inr (settled, successor)"
    and refusal: "settleable_refusal refusal" and q: "settlement_request_valid q" "sq_task_id q = tk_id t"
    and sha: "is_sha256_text sha"
  shows "\<exists>r. settlement_receipt digest q sha settled successor now = Inr r \<and> sr_task r = settled \<and> sr_successor r = successor"
  using run
proof (cases rule: settled_attempt_cases)
  case (1 s requested out ss)
  note c = classify_status [OF 1(5) refusal] and f = settled_series_Inr [OF 1(6)]
  have settled: "tk_retry_series settled = Some ss" "tk_id settled = tk_id t" "tk_worker_id settled = None"
    "tk_lease_expires_at settled = None" "tk_status settled = ao_status out"
    by (simp_all add: 1(7) settled_attempt_def)
  have status: "settled_status_ok settled ss"
    using c settled f(9) by (auto simp: settled_status_ok_def)
  have succ: "(rs_disposition ss = RETRY_SCHEDULED \<longleftrightarrow> successor \<noteq> None)" using 1(8) c(2) f(9) by auto
  have "opt_holds (successor_ok settled ss now) successor"
  proof (cases successor)
    case (Some u)
    with 1(8) obtain nx where n: "ao_next_eligible_at out = Some nx" "successor_attempt digest t s q nx now = Inr u" by auto
    from n(2) show ?thesis
    proof (cases rule: successor_attempt_Inr)
      case (1 ns)
      have "rs_policy ns = rs_policy ss" "rs_started_at ns = rs_started_at ss" "rs_cumulative_tokens ns = rs_cumulative_tokens ss"
        "rs_cumulative_estimated_cost ns = rs_cumulative_estimated_cost ss" using 1 f by simp_all
      note d = series_snapshot_derived [OF 1(2) f(1) this]
      show ?thesis using 1 n f d Some settled
        by (simp add: opt_holds_def successor_ok_def successor_task_def \<open>settled = _\<close> settled_attempt_def)
    qed
  qed (simp add: opt_holds_def)
  moreover have "durable_clean (sq_task_id q)" "idempotency_key_ok (sq_idempotency_key q)"
    using q(1) by (simp_all add: settlement_request_valid_def)
  ultimately show ?thesis using settled status succ sha q(2)
    by (simp add: settlement_receipt_def task_retry_events_def check_settlement_def settlement_valid_def retry_event_ok_def retry_event_of_def)
qed

lemma settlement_total:
  assumes digest: "\<And>j. is_sha256_text (digest j)"
    and t: "task_valid digest t" "tk_retry_series t = Some s" "rs_disposition s = SERIES_ACTIVE" "\<not> retry_cancellation_requested t"
    and q: "settlement_request_valid q" "sq_causal_budget_id q = rs_causal_budget_id s"
    and refusal: "settleable_refusal refusal"
    and bounds: "attempt_total s q \<le> max_durable_json_integer" "opt_holds in_dt_range (rs_elapsed_deadline s)"
      "in_dt_range series_now" "in_dt_range (series_now + seconds 86400)" "computed_cost_ok (attempt_spent s q)"
      "opt_holds computed_cost_ok (tp_max_estimated_cost (rs_policy s))"
  obtains out ss successor where "classify_attempt s q False series_now refusal = Inr out"
    "settled_task_retry_attempt digest t q now series_now refusal
      = Inr (settled_attempt t s (sq_idempotency_key q) out now ss, successor)"
    "successor = None \<longleftrightarrow> ao_next_eligible_at out = None" "settled_series_of digest t s q out = Inr ss"
proof -
  have s: "retry_series_valid s" using t(1,2) by (rule task_valid_series)
  have "in_dt_range (series_now + retry_delay_us s q)"
    using retry_delay_bounds [OF s q(1)] bounds(3,4) by (simp add: in_dt_range_def)
  then obtain out where out: "classify_attempt s q False series_now refusal = Inr out" using classify_total by blast
  have succ_clean: "opt_holds durable_clean (map_option (\<lambda>_. next_attempt_id digest s) (ao_next_eligible_at out))"
    using successor_id_clean(1) [OF digest] by (simp add: opt_holds_def next_attempt_id_def split: option.split)
  have "\<exists>ss. settled_series_of digest t s q out = Inr ss"
    unfolding settled_series_of_def
    using s bounds attempt_sums_nonneg [OF s q(1)] succ_clean classify_status(2) [OF out refusal]
    by (intro series_snapshot_total digest_authority digest) (auto simp: retry_series_valid_def)
  then obtain ss where ss: "settled_series_of digest t s q out = Inr ss" ..
  show thesis
  proof (cases "ao_next_eligible_at out")
    case None
    show thesis by (rule that [OF out _ _ ss, of None])
      (use None t q out ss bounds(1,5) in \<open>simp_all add: settled_task_retry_attempt_def task_retry_requested_cancellation_settlement_def\<close>)
  next
    case (Some nx)
    then have "rs_attempt s < tp_max_attempts (rs_policy s)" using classify_scheduled [OF out] by simp
    from successor_attempt_total [OF digest t(1,2) q(1) bounds(1,2) this bounds(5,6)]
    obtain u where u: "successor_attempt digest t s q nx now = Inr u" by blast
    show thesis by (rule that [OF out _ _ ss, of "Some u"])
      (use u Some t q out ss bounds(1,5) in \<open>simp_all add: settled_task_retry_attempt_def task_retry_requested_cancellation_settlement_def\<close>)
  qed
qed

text \<open>
  C4. When settling an attempt succeeds: for a valid active attempt with no cancellation pending and a
  valid request for it, the settlement returns, its receipt passes its own validator, and a successor is
  created exactly when the disposition is a scheduled retry.  This needs four things of the surroundings.
  The event of the attempt must not refuse it for any reason but an exhausted budget (a cancelled refusal
  never settles a retryable failure).  The token total must fit a durable integer, the cost total
  and the policy's cost ceiling must fit the bounded decimals, and the deadline and the latest next instant
  must be representable.
\<close>
theorem settlement_always_produces_receipt:
  assumes digest: "\<And>j. is_sha256_text (digest j)"
    and t: "task_valid digest t" "tk_retry_series t = Some s" "rs_disposition s = SERIES_ACTIVE" "\<not> retry_cancellation_requested t"
    and q: "prepare_task_retry_settlement digest q = Inr (q, sha)" "sq_task_id q = tk_id t" "sq_causal_budget_id q = rs_causal_budget_id s"
    and refusal: "refusal \<in> {None, Some ATTEMPTS_EXHAUSTED, Some ELAPSED_EXHAUSTED}"
    and bounds: "attempt_total s q \<le> max_durable_json_integer" "opt_holds in_dt_range (rs_elapsed_deadline s)"
      "in_dt_range series_now" "in_dt_range (series_now + seconds 86400)" "computed_cost_ok (attempt_spent s q)"
      "opt_holds computed_cost_ok (tp_max_estimated_cost (rs_policy s))"
  shows "\<exists>settled successor r. settled_task_retry_attempt digest t q now series_now refusal = Inr (settled, successor) \<and>
    settlement_receipt digest q sha settled successor now = Inr r \<and>
    (successor \<noteq> None \<longleftrightarrow> (\<exists>ss. tk_retry_series settled = Some ss \<and> rs_disposition ss = RETRY_SCHEDULED)) \<and>
    tk_status settled \<in> {COMPLETED, FAILED, CANCELLED}"
proof -
  from q(1) have qv: "settlement_request_valid q" and sha: "is_sha256_text sha"
    using digest by (auto simp: prepare_task_retry_settlement_def split: if_splits)
  have ref: "settleable_refusal refusal" using refusal by (simp add: settleable_refusal_def)
  from digest t qv q(3) ref bounds show ?thesis
  proof (rule settlement_total [where now = now])
    fix out ss successor
    assume out: "classify_attempt s q False series_now refusal = Inr out"
      and run: "settled_task_retry_attempt digest t q now series_now refusal
        = Inr (settled_attempt t s (sq_idempotency_key q) out now ss, successor)"
      and succ: "successor = None \<longleftrightarrow> ao_next_eligible_at out = None" and ss: "settled_series_of digest t s q out = Inr ss"
    from settled_receipt_valid [OF run ref qv q(2) sha] obtain r where
      r: "settlement_receipt digest q sha (settled_attempt t s (sq_idempotency_key q) out now ss) successor now = Inr r" by blast
    have "successor \<noteq> None \<longleftrightarrow> rs_disposition ss = RETRY_SCHEDULED"
      using succ classify_status(2) [OF out ref] settled_series_Inr(9) [OF ss] by auto
    with run r classify_status(3) [OF out ref] show ?thesis
      by (intro exI [of _ "settled_attempt t s (sq_idempotency_key q) out now ss"] exI [of _ successor] exI [of _ r])
        (simp add: settled_attempt_def)
  qed
qed

definition zero_digest :: "json \<Rightarrow> string" where
  "zero_digest j = replicate 64 (CHR ''0'')"

lemma zero_digest_sha: "is_sha256_text (zero_digest j)"
  by (simp add: is_sha256_text_def zero_digest_def hex_char_def list_all_iff)

definition sample_series :: retry_series where
  "sample_series = \<lparr>rs_series_id = ''series'', rs_causal_budget_id = ''budget'', rs_authority_sha256 = replicate 64 (CHR ''0''),
     rs_attempt = 1, rs_policy = sample_policy, rs_started_at = 0, rs_cumulative_tokens = 0, rs_cumulative_estimated_cost = 0,
     rs_attempts_remaining = 2, rs_tokens_remaining = Some 1000, rs_estimated_cost_remaining = Some 5,
     rs_elapsed_deadline = Some 3600000000, rs_disposition = SERIES_ACTIVE, rs_predecessor_task_id = None,
     rs_successor_task_id = None, rs_next_eligible_at = None\<rparr>"

definition sample_attempt :: task where
  "sample_attempt = (sample_event_task ''t1'' RUNNING)\<lparr>tk_retry_series := Some sample_series, tk_worker_id := Some ''w'',
     tk_lease_expires_at := Some 100\<rparr>"

definition sample_failure :: retry_settlement_request where
  "sample_failure = \<lparr>sq_task_id = ''t1'', sq_worker_id = ''w'', sq_lease_expires_at = Some 100, sq_idempotency_key = ''k'',
     sq_causal_budget_id = ''budget'', sq_disposition = RETRYABLE_FAILURE, sq_result = None, sq_error = Some fmempty,
     sq_token_count = 10, sq_estimated_cost = 1, sq_retry_after_seconds = None\<rparr>"

lemma sample_attempt_facts:
  "task_valid zero_digest sample_attempt" "tk_retry_series sample_attempt = Some sample_series"
  "rs_disposition sample_series = SERIES_ACTIVE" "\<not> retry_cancellation_requested sample_attempt"
  "prepare_task_retry_settlement zero_digest sample_failure = Inr (sample_failure, replicate 64 (CHR ''0''))"
  "sq_task_id sample_failure = tk_id sample_attempt" "sq_causal_budget_id sample_failure = rs_causal_budget_id sample_series"
  "attempt_total sample_series sample_failure \<le> max_durable_json_integer"
  "opt_holds in_dt_range (rs_elapsed_deadline sample_series)"
  "in_dt_range 5" "in_dt_range (5 + seconds 86400)" "computed_cost_ok (attempt_spent sample_series sample_failure)"
  "opt_holds computed_cost_ok (tp_max_estimated_cost (rs_policy sample_series))"
  by code_simp+

theorem settlement_always_produces_receipt_witness:
  "\<exists>settled successor r. settled_task_retry_attempt zero_digest sample_attempt sample_failure 7 5 None = Inr (settled, successor) \<and>
    settlement_receipt zero_digest sample_failure (replicate 64 (CHR ''0'')) settled successor 7 = Inr r"
proof -
  have "None \<in> {None, Some ATTEMPTS_EXHAUSTED, Some ELAPSED_EXHAUSTED}" by simp
  from settlement_always_produces_receipt [OF zero_digest_sha sample_attempt_facts(1-7) this sample_attempt_facts(8-13), of 7]
  show ?thesis by blast
qed

definition sample_settled :: "task \<times> task option" where
  "sample_settled = (case settled_task_retry_attempt zero_digest sample_attempt sample_failure 7 5 None of
     Inr r \<Rightarrow> r | Inl _ \<Rightarrow> (sample_attempt, None))"

definition sample_successor :: task where
  "sample_successor = (case snd sample_settled of Some u \<Rightarrow> u | None \<Rightarrow> sample_attempt)"

lemma sample_settlement:
  "settled_task_retry_attempt zero_digest sample_attempt sample_failure 7 5 None = Inr (fst sample_settled, Some sample_successor)"
proof -
  have ref: "settleable_refusal None" by (simp add: settleable_refusal_def)
  have qv: "settlement_request_valid sample_failure" by code_simp
  have due: "case classify_attempt sample_series sample_failure False 5 None of
      Inr out \<Rightarrow> ao_next_eligible_at out \<noteq> None | Inl _ \<Rightarrow> False" by code_simp
  from zero_digest_sha sample_attempt_facts(1-4) qv sample_attempt_facts(7) ref sample_attempt_facts(8-13)
  show ?thesis
  proof (rule settlement_total [where now = 7])
    fix out ss successor
    assume "classify_attempt sample_series sample_failure False 5 None = Inr out"
      "settled_task_retry_attempt zero_digest sample_attempt sample_failure 7 5 None
        = Inr (settled_attempt sample_attempt sample_series (sq_idempotency_key sample_failure) out 7 ss, successor)"
      "successor = None \<longleftrightarrow> ao_next_eligible_at out = None"
    with due show ?thesis unfolding sample_successor_def sample_settled_def by auto
  qed
qed

theorem successor_within_policy_witness:
  "\<exists>n. tk_retry_series sample_successor = Some n \<and> rs_attempt n = 2 \<and> rs_cumulative_tokens n = 10"
proof -
  have a: "rs_attempt sample_series = 1" and tok: "attempt_total sample_series sample_failure = 10" by code_simp+
  obtain n where "tk_retry_series sample_successor = Some n" "rs_attempt n = rs_attempt sample_series + 1"
      "rs_cumulative_tokens n = attempt_total sample_series sample_failure"
    using successor_within_policy [OF sample_settlement sample_attempt_facts(2)] by blast
  with a tok show ?thesis by (intro exI [of _ n]) simp
qed

section \<open>Chains of attempts\<close>

text \<open>\<open>u\<close> is the successor some settlement creates for the attempt \<open>t\<close>.\<close>

inductive next_attempt :: "(json \<Rightarrow> string) \<Rightarrow> task \<Rightarrow> task \<Rightarrow> bool" for digest where
  next_attemptI: "settled_task_retry_attempt digest t q now series_now refusal = Inr (settled, Some u) \<Longrightarrow>
    settlement_request_valid q \<Longrightarrow> next_attempt digest t u"

inductive_cases next_attemptE: "next_attempt digest t u"

lemma next_attempt_series:
  assumes "next_attempt digest t u" "tk_retry_series t = Some s"
  obtains n where "tk_retry_series u = Some n" "rs_policy n = rs_policy s" "rs_series_id n = rs_series_id s"
    "rs_causal_budget_id n = rs_causal_budget_id s" "rs_started_at n = rs_started_at s" "rs_attempt n = rs_attempt s + 1"
    "rs_attempt n \<le> tp_max_attempts (rs_policy s)" "rs_cumulative_tokens s \<le> rs_cumulative_tokens n"
    "rs_cumulative_estimated_cost s \<le> rs_cumulative_estimated_cost n"
    "opt_holds (\<lambda>b. rs_cumulative_tokens n < b) (tp_max_total_tokens (rs_policy s))"
    "opt_holds (\<lambda>b. rs_cumulative_estimated_cost n < b) (tp_max_estimated_cost (rs_policy s))"
    "tk_type u = tk_type t" "tk_input u = tk_input t" "tk_invocation u = tk_invocation t"
  using assms(1)
proof (cases rule: next_attempt.cases)
  case (next_attemptI q now series_now refusal settled)
  from next_attemptI(1) show thesis
  proof (cases rule: settled_attempt_cases)
    case (1 s' requested out ss)
    with assms(2) have [simp]: "s' = s" by simp
    from 1(8) obtain nx where n: "ao_next_eligible_at out = Some nx" "successor_attempt digest t s q nx now = Inr u" by auto
    note c = classify_scheduled [OF 1(5) n(1)]
    have q: "0 \<le> sq_token_count q" "0 \<le> sq_estimated_cost q" using next_attemptI(2) by (simp_all add: settlement_request_valid_def given_cost_ok_def)
    from n(2) show thesis
    proof (cases rule: successor_attempt_Inr)
      case (1 ns)
      with c q that show thesis by (simp add: successor_task_def attempt_total_def attempt_spent_def)
    qed
  qed
qed

text \<open>
  C21. A retry series ends: along any chain of successors the attempt number grows by one each time while
  policy, series, causal budget, start and the work itself stay the same, so a chain is never longer than
  the attempts the policy leaves, and the accumulated tokens and cost never decrease or reach their budgets.
\<close>
theorem retry_chain_is_bounded:
  assumes "(next_attempt digest ^^ k) t u" and "tk_retry_series t = Some s"
  shows "\<exists>n. tk_retry_series u = Some n \<and> rs_policy n = rs_policy s \<and> rs_series_id n = rs_series_id s \<and>
    rs_causal_budget_id n = rs_causal_budget_id s \<and> rs_started_at n = rs_started_at s \<and>
    rs_attempt n = rs_attempt s + int k \<and> int k \<le> max 0 (tp_max_attempts (rs_policy s) - rs_attempt s) \<and>
    rs_cumulative_tokens s \<le> rs_cumulative_tokens n \<and> rs_cumulative_estimated_cost s \<le> rs_cumulative_estimated_cost n \<and>
    (0 < k \<longrightarrow> opt_holds (\<lambda>b. rs_cumulative_tokens n < b) (tp_max_total_tokens (rs_policy s)) \<and>
      opt_holds (\<lambda>b. rs_cumulative_estimated_cost n < b) (tp_max_estimated_cost (rs_policy s))) \<and>
    tk_type u = tk_type t \<and> tk_input u = tk_input t \<and> tk_invocation u = tk_invocation t"
  using assms(1)
proof (induction k arbitrary: u)
  case 0
  with assms(2) show ?case by simp
next
  case (Suc k)
  then obtain v where v: "(next_attempt digest ^^ k) t v" "next_attempt digest v u" by auto
  from Suc.IH [OF v(1)] obtain m where m: "tk_retry_series v = Some m" "rs_policy m = rs_policy s"
    "rs_series_id m = rs_series_id s" "rs_causal_budget_id m = rs_causal_budget_id s" "rs_started_at m = rs_started_at s"
    "rs_attempt m = rs_attempt s + int k" "rs_cumulative_tokens s \<le> rs_cumulative_tokens m"
    "rs_cumulative_estimated_cost s \<le> rs_cumulative_estimated_cost m"
    "tk_type v = tk_type t" "tk_input v = tk_input t" "tk_invocation v = tk_invocation t" by blast
  from v(2) m(1) show ?case
  proof (cases rule: next_attempt_series)
    case (1 n)
    with m show ?thesis by (intro exI [of _ n]) simp
  qed
qed

theorem retry_chain_is_bounded_witness:
  "\<exists>n. tk_retry_series sample_successor = Some n \<and> rs_attempt n = 2"
proof -
  have "settlement_request_valid sample_failure" by code_simp
  with sample_settlement have "next_attempt zero_digest sample_attempt sample_successor" by (blast intro: next_attemptI)
  then have "(next_attempt zero_digest ^^ 1) sample_attempt sample_successor" by (simp only: relpowp_1)
  from retry_chain_is_bounded [OF this sample_attempt_facts(2)] obtain n where
    "tk_retry_series sample_successor = Some n" "rs_attempt n = rs_attempt sample_series + int 1" by blast
  moreover have "rs_attempt sample_series = 1" by code_simp
  ultimately show ?thesis by simp
qed

section \<open>Events that already succeeded\<close>



end
