(* ===== verification/Task_Lifecycle.thy ===== *)
theory Task_Lifecycle
  imports Task_Retry
begin

text \<open>
  Lifecycle of one task: the transition and lease guards of \<open>src/cayu/tasks/_lifecycle.py\<close>, the attachment
  checks of \<open>creation.py\<close>, the requests to drain a cancellation of \<open>_cancellation.py\<close>, and the schedule
  mutations and events of \<open>_scheduling.py\<close>.
\<close>

section \<open>Transitions\<close>

definition ensure_task_status_can_transition :: "task_status \<Rightarrow> task_status \<Rightarrow> unit result" where
  "ensure_task_status_can_transition st next_status =
     (if st \<in> terminal_task_statuses then Inl ValueError
      else if next_status = RUNNING \<and> st \<noteq> PENDING then Inl ValueError
      else Inr ())"

definition ensure_can_transition :: "task \<Rightarrow> task_status \<Rightarrow> unit result" where
  "ensure_can_transition t next_status =
     (if tk_concurrency_key t \<noteq> None \<and> next_status = RUNNING then Inl TaskClaimLost
      else if tk_restartable t \<and> next_status = RUNNING then Inl TaskClaimLost
      else if (case tk_schedule t of None \<Rightarrow> False | Some s \<Rightarrow> ss_admitted_at s = None) \<and> next_status = RUNNING
      then Inl TaskScheduleConflict
      else ensure_task_status_can_transition (tk_status t) next_status)"

definition ensure_retry_series_queue_attempt :: "task \<Rightarrow> unit result" where
  "ensure_retry_series_queue_attempt t = raise_if (tk_retry_series t \<noteq> None) ValueError"

definition ensure_can_hold_task :: "task \<Rightarrow> task_status \<Rightarrow> unit result" where
  "ensure_can_hold_task t next_status =
     (if next_status \<notin> held_task_statuses then Inl ValueError
      else if tk_status t \<in> terminal_task_statuses then Inl ValueError
      else if tk_concurrency_key t \<noteq> None \<and> tk_worker_id t \<noteq> None then Inl TaskTerminalizationConflict
      else if retry_cancellation_requested t \<or> task_cancellation_requested t then Inl TaskTerminalizationConflict
      else if tk_status t = RUNNING \<and> tk_session_id t \<noteq> None then Inl ValueError
      else if tk_status t \<notin> {PENDING, WAITING_DEPENDENCIES, WAITING_GROUP, CLAIMED, RUNNING} \<union> held_task_statuses
      then Inl ValueError
      else Inr ())"

definition ensure_can_resume_task :: "task \<Rightarrow> unit result" where
  "ensure_can_resume_task t =
     (if tk_status t \<in> terminal_task_statuses then Inl ValueError
      else if tk_status t \<notin> held_task_statuses then Inl ValueError
      else Inr ())"

section \<open>Leases\<close>

definition live_lease :: "task \<Rightarrow> datetime \<Rightarrow> bool" where
  "live_lease t now = (case tk_lease_expires_at t of None \<Rightarrow> False | Some e \<Rightarrow> e > now)"

definition can_attach_claimed_task :: "task \<Rightarrow> string \<Rightarrow> datetime \<Rightarrow> bool" where
  "can_attach_claimed_task t worker now \<longleftrightarrow>
     tk_status t = CLAIMED \<and> tk_worker_id t = Some worker \<and> tk_session_id t = None \<and> live_lease t now"

definition ensure_active_task_lease :: "task \<Rightarrow> datetime \<Rightarrow> unit result" where
  "ensure_active_task_lease t now = (case tk_lease_expires_at t of
       None \<Rightarrow> Inl TaskClaimLost
     | Some e \<Rightarrow> if e \<le> now then Inl TaskClaimLost else Inr ())"

definition ensure_owned_active_task_lease :: "task \<Rightarrow> string \<Rightarrow> datetime \<Rightarrow> unit result" where
  "ensure_owned_active_task_lease t worker now =
     (if tk_status t \<notin> {CLAIMED, RUNNING} then Inl TaskClaimLost
      else if tk_worker_id t \<noteq> Some worker then Inl TaskClaimLost
      else ensure_active_task_lease t now)"

definition ensure_exact_owned_active_task_lease :: "task \<Rightarrow> string \<Rightarrow> datetime \<Rightarrow> datetime \<Rightarrow> unit result" where
  "ensure_exact_owned_active_task_lease t worker expected now =
     bind_res (ensure_owned_active_task_lease t worker now) (\<lambda>_.
       if tk_lease_expires_at t \<noteq> Some expected then Inl TaskClaimLost else Inr ())"

definition ensure_task_handoff_authority :: "task \<Rightarrow> string option \<Rightarrow> unit result" where
  "ensure_task_handoff_authority t handoff = raise_if (tk_interrupted_handoff_id t \<noteq> handoff) TaskClaimLost"

text \<open>The error of an attachment that the claim does not allow; it never returns.\<close>

definition task_claim_attach_error :: "task \<Rightarrow> string \<Rightarrow> datetime \<Rightarrow> err" where
  "task_claim_attach_error t worker now =
     (if tk_status t \<notin> {CLAIMED, RUNNING} then TaskClaimLost
      else case ensure_owned_active_task_lease t worker now of
        Inl e \<Rightarrow> e
      | Inr _ \<Rightarrow> if tk_status t = RUNNING \<or> tk_session_id t \<noteq> None then ValueError else RuntimeError)"

lemma owned_lease_Inr [res_simps]:
  "ensure_owned_active_task_lease t worker now = Inr u \<longleftrightarrow>
     tk_status t \<in> {CLAIMED, RUNNING} \<and> tk_worker_id t = Some worker \<and> live_lease t now"
  by (auto simp: ensure_owned_active_task_lease_def ensure_active_task_lease_def live_lease_def split: option.splits)

lemma exact_lease_Inr [res_simps]:
  "ensure_exact_owned_active_task_lease t worker expected now = Inr u \<longleftrightarrow>
     tk_status t \<in> {CLAIMED, RUNNING} \<and> tk_worker_id t = Some worker \<and> live_lease t now \<and> tk_lease_expires_at t = Some expected"
  by (auto simp: ensure_exact_owned_active_task_lease_def res_simps)

section \<open>Attachment to a session\<close>

record session_binding =
  sb_id :: string
  sb_session_instance_id :: string
  sb_origin :: json
  sb_root_invocation_id :: string
  sb_root_session_id :: string
  sb_source :: string

text \<open>A binding is copied through its validators wherever it enters an operation.\<close>

definition session_binding_valid :: "session_binding \<Rightarrow> bool" where
  "session_binding_valid b \<longleftrightarrow> durable_clean (sb_id b) \<and> is_uuid4 (sb_session_instance_id b) \<and>
     is_uuid4 (sb_root_invocation_id b) \<and> durable_clean (sb_root_session_id b)"

definition copy_session_binding :: "session_binding \<Rightarrow> session_binding result" where
  "copy_session_binding b = (if session_binding_valid b then Inr b else Inl ValueError)"

definition copy_optional_session_binding :: "session_binding option \<Rightarrow> session_binding option result" where
  "copy_optional_session_binding binding = (case binding of
       None \<Rightarrow> Inr None | Some b \<Rightarrow> bind_res (copy_session_binding b) (\<lambda>b. Inr (Some b)))"

lemma copy_session_binding_Inr [res_simps]: "copy_session_binding b = Inr x \<longleftrightarrow> x = b \<and> session_binding_valid b"
  by (auto simp: copy_session_binding_def)

lemma copy_optional_session_binding_Inr [res_simps]:
  "copy_optional_session_binding binding = Inr x \<longleftrightarrow> x = binding \<and> opt_holds session_binding_valid binding"
  by (auto simp: copy_optional_session_binding_def res_simps split: option.splits)

definition invocation_origin :: "task_invocation \<Rightarrow> json" where
  "invocation_origin i = (case fmlookup (ti_document i) ''origin'' of None \<Rightarrow> JNull | Some j \<Rightarrow> j)"

definition task_invocation_for_attachment :: "task_invocation \<Rightarrow> string option \<Rightarrow> session_binding option \<Rightarrow> task_invocation result" where
  "task_invocation_for_attachment invocation session_id binding = (case session_id of
       None \<Rightarrow> if binding \<noteq> None then Inl ValueError else Inr invocation
     | Some sid \<Rightarrow> (case binding of
           None \<Rightarrow> Inl ValueError
         | Some b \<Rightarrow>
             if sb_id b \<noteq> sid then Inl ValueError
             else if invocation_origin invocation \<noteq> sb_origin b \<or> ti_root_invocation_id invocation \<noteq> sb_root_invocation_id b then Inl ValueError
             else if ti_root_session_id invocation \<noteq> None \<and> ti_root_session_id invocation \<noteq> Some (sb_root_session_id b) then Inl ValueError
             else Inr invocation))"

definition task_session_instance_for_attachment :: "string option \<Rightarrow> string option \<Rightarrow> session_binding option \<Rightarrow> string option result" where
  "task_session_instance_for_attachment stored session_id binding = (case session_id of
       None \<Rightarrow> if binding \<noteq> None \<or> stored \<noteq> None then Inl ValueError else Inr None
     | Some sid \<Rightarrow> (case binding of
           None \<Rightarrow> Inl ValueError
         | Some b \<Rightarrow>
             if sb_id b \<noteq> sid then Inl ValueError
             else if stored \<noteq> None \<and> stored \<noteq> Some (sb_session_instance_id b) then Inl ValueError
             else Inr (Some (sb_session_instance_id b))))"

definition task_session_id_for_start :: "string option \<Rightarrow> string option \<Rightarrow> string option result" where
  "task_session_id_for_start stored requested =
     (if stored \<noteq> None \<and> requested \<noteq> None \<and> stored \<noteq> requested then Inl ValueError
      else Inr (if stored \<noteq> None then stored else requested))"

section \<open>Requested cancellation\<close>

definition reconciliation_identity_ok :: "string \<Rightarrow> bool" where
  "reconciliation_identity_ok s \<longleftrightarrow> durable_clean s \<and> utf8_bytes s \<le> 1024"

text \<open>The event of an ordinary cancellation request, with the text of its time.\<close>

definition task_cancellation_requested_event :: "(json \<Rightarrow> string) \<Rightarrow> task \<Rightarrow> string \<Rightarrow> string \<Rightarrow> json \<Rightarrow> json_object" where
  "task_cancellation_requested_event digest t worker key occurred_at = fmap_of_list
     [(''id'', JStr (''task-reconciliation-event:v1:'' @ digest (JObj (fmap_of_list
         [(''schema'', JStr ''cayu.task-cancellation-reconciliation-event.v1''),
          (''type'', JStr ''task.cancellation_requested''), (''task_id'', JStr (tk_id t)),
          (''cancellation_idempotency_key'', JStr key), (''request_sha256'', JNull),
          (''reconciliation_idempotency_key'', JNull), (''evidence_sha256'', JNull)])))),
      (''type'', JStr ''task.cancellation_requested''), (''task_id'', JStr (tk_id t)),
      (''original_worker_id_sha256'', JStr (digest (JStr worker))),
      (''cancellation_idempotency_key_sha256'', JStr (digest (JStr key))),
      (''request_sha256'', JNull), (''reconciliation_idempotency_key_sha256'', JNull),
      (''evidence_sha256'', JNull), (''actor_sha256'', JNull), (''outcome'', JNull),
      (''occurred_at'', occurred_at)]"

definition payload_at :: "json_object \<Rightarrow> string \<Rightarrow> json" where
  "payload_at p k = (case fmlookup p k of None \<Rightarrow> JNull | Some j \<Rightarrow> j)"

definition task_cancellation_requested_task :: "(json \<Rightarrow> string) \<Rightarrow> task \<Rightarrow> json_object option \<Rightarrow> datetime \<Rightarrow> task result" where
  "task_cancellation_requested_task digest t error updated_at = (case tk_worker_id t of
       None \<Rightarrow> Inl TaskTerminalizationConflict
     | Some worker \<Rightarrow>
         if tk_retry_series t \<noteq> None \<or> tk_status t \<notin> {CLAIMED, RUNNING} \<or> tk_lease_expires_at t = None
         then Inl TaskTerminalizationConflict
         else if \<not> reconciliation_identity_ok (tk_id t) \<or> \<not> reconciliation_identity_ok worker then Inl ValueError
         else if task_cancellation_requested t then
           (case tk_status_payload t of
              None \<Rightarrow> Inl TaskTerminalizationConflict
            | Some p \<Rightarrow> (case (payload_at p ''terminalization_idempotency_key'', payload_at p ''event'') of
                  (JStr key, JObj event) \<Rightarrow>
                    if fmdom' p \<noteq> {''terminalization_idempotency_key'', ''error'', ''event''}
                       \<or> event \<noteq> task_cancellation_requested_event digest t worker key (payload_at event ''occurred_at'')
                    then Inl TaskTerminalizationConflict
                    else Inr t
                | _ \<Rightarrow> Inl TaskTerminalizationConflict))
         else
           let key = ''task-cancellation:v1:'' @ digest (JObj (fmap_of_list
                 [(''schema'', JStr ''cayu.task-cancellation.v1''), (''task_id'', JStr (tk_id t)), (''worker_id'', JStr worker)]))
           in Inr (t\<lparr>tk_status_reason := Some ''cancellation_requested'',
                tk_status_payload := Some (fmap_of_list
                  [(''terminalization_idempotency_key'', JStr key),
                   (''error'', JObj (case error of None \<Rightarrow> error_code ''cancelled'' | Some e \<Rightarrow> e)),
                   (''event'', JObj (task_cancellation_requested_event digest t worker key (json_instant updated_at)))]),
                tk_updated_at := updated_at\<rparr>))"

definition task_retry_cancellation_requested_task :: "(json \<Rightarrow> string) \<Rightarrow> task \<Rightarrow> json_object option \<Rightarrow> datetime \<Rightarrow> task result" where
  "task_retry_cancellation_requested_task digest t error updated_at = (case (tk_retry_series t, tk_worker_id t) of
       (Some s, Some worker) \<Rightarrow>
         if rs_disposition s \<noteq> SERIES_ACTIVE \<or> tk_status t \<notin> {CLAIMED, RUNNING} \<or> tk_lease_expires_at t = None
         then Inl TaskTerminalizationConflict
         else bind_res (task_retry_runtime_idempotency_key digest t ''cancellation'') (\<lambda>key.
           if retry_cancellation_requested t then
             (case tk_status_payload t of
                None \<Rightarrow> Inl TaskTerminalizationConflict
              | Some p \<Rightarrow>
                  if fmdom' p = {''settlement_idempotency_key'', ''error'', ''event''} then Inr t
                  else if fmdom' p \<noteq> {''settlement_idempotency_key'', ''error''}
                     \<or> payload_at p ''settlement_idempotency_key'' \<noteq> JStr key
                     \<or> (case payload_at p ''error'' of JObj _ \<Rightarrow> False | _ \<Rightarrow> True)
                  then Inl TaskTerminalizationConflict
                  else Inr (t\<lparr>tk_status_payload := Some (fmap_of_list
                    [(''settlement_idempotency_key'', JStr key), (''error'', payload_at p ''error''),
                     (''event'', JObj (cancellation_requested_event digest t s key worker (json_instant (tk_updated_at t))))])\<rparr>))
           else Inr (t\<lparr>tk_status_reason := Some ''retry_cancellation_requested'',
                tk_status_payload := Some (fmap_of_list
                  [(''settlement_idempotency_key'', JStr key),
                   (''error'', JObj (case error of None \<Rightarrow> error_code ''cancelled'' | Some e \<Rightarrow> e)),
                   (''event'', JObj (cancellation_requested_event digest t s key worker (json_instant updated_at)))]),
                tk_updated_at := updated_at\<rparr>))
     | _ \<Rightarrow> Inl TaskTerminalizationConflict)"

definition expired_dispatched_task_cancellation :: "(json \<Rightarrow> string) \<Rightarrow> task \<Rightarrow> datetime \<Rightarrow> json_object option \<Rightarrow> task result" where
  "expired_dispatched_task_cancellation digest t updated_at error =
     (if tk_started_at t = None then Inl TaskTerminalizationConflict
      else
        let e = Some (case error of None \<Rightarrow> error_code ''task_worker_lease_expired_after_dispatch'' | Some e \<Rightarrow> e)
        in if tk_retry_series t \<noteq> None then task_retry_cancellation_requested_task digest t e updated_at
           else task_cancellation_requested_task digest t e updated_at)"

section \<open>Schedules\<close>

definition require_schedule :: "task \<Rightarrow> (schedule_state \<times> datetime) result" where
  "require_schedule t = (case (tk_schedule t, tk_available_at t) of
       (Some s, Some a) \<Rightarrow> if schedule_state_valid s then Inr (s, a) else Inl ValueError
     | _ \<Rightarrow> Inl TaskScheduleConflict)"

definition schedule_revision_after :: "schedule_state \<Rightarrow> int result" where
  "schedule_revision_after s =
     (if ss_revision s \<ge> max_portable_json_integer then Inl TaskScheduleConflict else Inr (ss_revision s + 1))"

definition require_schedule_mutation :: "task \<Rightarrow> int \<Rightarrow> schedule_state result" where
  "require_schedule_mutation t expected = bind_res (require_schedule t) (\<lambda>(s, _).
     if ss_revision s \<noteq> expected then Inl TaskScheduleConflict
     else if tk_status t \<in> terminal_task_statuses then Inl TaskScheduleConflict
     else if task_cancellation_requested t \<or> retry_cancellation_requested t then Inl TaskScheduleConflict
     else bind_res (schedule_revision_after s) (\<lambda>_. Inr s))"

definition rescheduled_initial_task_retry_series :: "(json \<Rightarrow> string) \<Rightarrow> task \<Rightarrow> datetime \<Rightarrow> retry_series option result" where
  "rescheduled_initial_task_retry_series digest t available_at = (case tk_retry_series t of
       None \<Rightarrow> Inr None
     | Some s \<Rightarrow>
         if rs_attempt s \<noteq> 1 \<or> rs_predecessor_task_id s \<noteq> None \<or> rs_disposition s \<noteq> SERIES_ACTIVE \<or> tk_started_at t \<noteq> None
         then Inl TaskScheduleConflict
         else Inr (Some (s\<lparr>rs_authority_sha256 :=
           task_retry_attempt_authority_sha256 digest (t\<lparr>tk_available_at := Some available_at\<rparr>) s\<rparr>)))"

record reschedule_request =
  rr_task_id :: string
  rr_operation_id :: string
  rr_expected_revision :: int
  rr_available_at :: datetime
  rr_policy :: schedule_policy

definition schedule_identity_ok :: "string \<Rightarrow> bool" where
  "schedule_identity_ok s \<longleftrightarrow> durable_clean s \<and> utf8_bytes s \<le> 256"

definition reschedule_request_valid :: "reschedule_request \<Rightarrow> bool" where
  "reschedule_request_valid r \<longleftrightarrow> schedule_identity_ok (rr_task_id r) \<and> schedule_identity_ok (rr_operation_id r) \<and>
     1 \<le> rr_expected_revision r \<and> rr_expected_revision r \<le> max_portable_json_integer \<and>
     validate_task_schedule_window (rr_available_at r) (rr_policy r) = Inr ()"

definition rescheduled_task :: "(json \<Rightarrow> string) \<Rightarrow> task \<Rightarrow> reschedule_request \<Rightarrow> datetime \<Rightarrow> task result" where
  "rescheduled_task digest t r now = bind_res (require_schedule_mutation t (rr_expected_revision r)) (\<lambda>s.
     if ss_admitted_at s \<noteq> None \<or> tk_worker_id t \<noteq> None \<or> tk_session_id t \<noteq> None then Inl TaskScheduleConflict
     else if tk_status t \<notin> {PENDING, WAITING_DEPENDENCIES, WAITING_GROUP, PAUSED, BLOCKED, NEEDS_ATTENTION}
     then Inl TaskScheduleConflict
     else bind_res (rescheduled_initial_task_retry_series digest t (rr_available_at r)) (\<lambda>series.
       bind_res (schedule_revision_after s) (\<lambda>revision.
         Inr (t\<lparr>tk_available_at := Some (rr_available_at r), tk_retry_series := series, tk_updated_at := now,
           tk_schedule := Some (s\<lparr>ss_revision := revision, ss_policy := rr_policy r\<rparr>)\<rparr>))))"

definition admitted_schedule :: "task \<Rightarrow> datetime \<Rightarrow> schedule_state option result" where
  "admitted_schedule t now = (if tk_schedule t = None then Inr None
     else bind_res (require_schedule t) (\<lambda>(s, a).
       if ss_admitted_at s \<noteq> None then Inr (Some s)
       else bind_res (task_schedule_eligibility a (ss_policy s) now) (\<lambda>phase.
         if phase \<notin> {SCHEDULE_ELIGIBLE, SCHEDULE_MISFIRED} then Inl TaskScheduleConflict
         else bind_res (schedule_revision_after s) (\<lambda>revision.
           Inr (Some (s\<lparr>ss_revision := revision, ss_admitted_at := Some now\<rparr>))))))"

definition scheduled_task_nonexecution :: "(json \<Rightarrow> string) \<Rightarrow> task \<Rightarrow> schedule_eligibility \<Rightarrow> datetime
    \<Rightarrow> (task \<times> retry_settlement option) result" where
  "scheduled_task_nonexecution digest t phase now = bind_res (require_schedule t) (\<lambda>(s, _).
     if ss_admitted_at s \<noteq> None \<or> tk_worker_id t \<noteq> None \<or> tk_session_id t \<noteq> None then Inl TaskScheduleConflict
     else if phase \<notin> {SCHEDULE_EXPIRED, SCHEDULE_SKIPPED} then Inl TaskScheduleConflict
     else
       let reason = (if phase = SCHEDULE_EXPIRED then ''schedule_expired'' else ''schedule_skipped'')
       in bind_res (if tk_retry_series t = None then Inr None
            else bind_res (cancelled_task_retry_settlement digest t (Some (error_code reason)) now) (\<lambda>r. Inr (Some r))) (\<lambda>settlement.
          bind_res (schedule_revision_after s) (\<lambda>revision.
            let terminal = (case settlement of None \<Rightarrow> t | Some r \<Rightarrow> sr_task r)\<lparr>tk_status := CANCELLED,
                  tk_status_reason := Some reason, tk_error := Some (error_code reason), tk_completed_at := Some now,
                  tk_updated_at := now, tk_schedule := Some (s\<lparr>ss_revision := revision\<rparr>)\<rparr>
            in Inr (terminal, map_option (\<lambda>r. r\<lparr>sr_task := terminal\<rparr>) settlement))))"

section \<open>Schedule events\<close>

datatype schedule_event_type =
    EV_SCHEDULED | EV_RESCHEDULED | EV_ELIGIBLE | EV_MISFIRED | EV_EXPIRED | EV_SKIPPED | EV_DEPENDENCY_SKIPPED
  | EV_CLAIMED | EV_CANCELLATION_REQUESTED | EV_CANCELLED | EV_STARTED | EV_HELD | EV_RESUMED | EV_COMPLETED | EV_FAILED

record schedule_event =
  se_task_id :: string
  se_sequence :: int
  se_type :: schedule_event_type
  se_revision :: int
  se_occurred_at :: datetime
  se_available_at :: datetime
  se_policy :: schedule_policy
  se_invocation_id :: string
  se_operation_id :: "string option"

definition schedule_event_valid :: "schedule_event \<Rightarrow> bool" where
  "schedule_event_valid e \<longleftrightarrow> schedule_identity_ok (se_task_id e) \<and> schedule_identity_ok (se_invocation_id e) \<and>
     opt_holds schedule_identity_ok (se_operation_id e) \<and>
     1 \<le> se_sequence e \<and> se_sequence e \<le> max_portable_json_integer \<and>
     1 \<le> se_revision e \<and> se_revision e \<le> max_portable_json_integer \<and> schedule_policy_valid (se_policy e)"

definition creation_or_change_event :: "(task \<times> schedule_state) option \<Rightarrow> task \<Rightarrow> schedule_state \<Rightarrow> schedule_event_type list" where
  "creation_or_change_event prior t s = (case prior of
       None \<Rightarrow> [EV_SCHEDULED]
     | Some (p, ps) \<Rightarrow>
         if tk_available_at p \<noteq> tk_available_at t \<or> ss_policy ps \<noteq> ss_policy s
            \<or> (ss_revision ps \<noteq> ss_revision s \<and> tk_status p = tk_status t \<and> tk_status_reason p = tk_status_reason t
               \<and> ss_admitted_at ps = ss_admitted_at s)
         then [EV_RESCHEDULED] else [])"

definition admission_event :: "(task \<times> schedule_state) option \<Rightarrow> datetime \<Rightarrow> schedule_state \<Rightarrow> schedule_event_type list result" where
  "admission_event prior available_at s = (case ss_admitted_at s of
       None \<Rightarrow> Inr []
     | Some a \<Rightarrow>
         if (case prior of None \<Rightarrow> True | Some (_, ps) \<Rightarrow> ss_admitted_at ps = None)
         then bind_res (task_schedule_eligibility available_at (ss_policy s) a) (\<lambda>phase.
           Inr [if phase = SCHEDULE_MISFIRED then EV_MISFIRED else EV_ELIGIBLE])
         else Inr [])"

definition cancellation_event :: "task option \<Rightarrow> task \<Rightarrow> schedule_event_type list" where
  "cancellation_event prior t =
     (if (task_cancellation_requested t \<or> retry_cancellation_requested t)
         \<and> (case prior of None \<Rightarrow> True | Some p \<Rightarrow> tk_status_reason p \<noteq> tk_status_reason t)
      then [EV_CANCELLATION_REQUESTED] else [])"

definition start_event :: "task option \<Rightarrow> task \<Rightarrow> schedule_event_type list" where
  "start_event prior t = (case prior of
       None \<Rightarrow> []
     | Some p \<Rightarrow> if tk_status t \<in> {CLAIMED, RUNNING} \<and> tk_started_at p = None \<and> tk_started_at t \<noteq> None then [EV_STARTED] else [])"

definition status_event :: "task option \<Rightarrow> task \<Rightarrow> schedule_event_type list" where
  "status_event prior t = (case prior of
       None \<Rightarrow> []
     | Some p \<Rightarrow>
         if tk_status p = tk_status t then []
         else if tk_status_reason t = Some ''schedule_expired'' then [EV_EXPIRED]
         else if tk_status_reason t = Some ''schedule_skipped'' then [EV_SKIPPED]
         else if tk_status t \<in> {WAITING_DEPENDENCIES, WAITING_GROUP} \<and> tk_status p \<in> {PAUSED, BLOCKED, NEEDS_ATTENTION}
         then [EV_RESUMED]
         else (case tk_status t of
             CLAIMED \<Rightarrow> [EV_CLAIMED] | COMPLETED \<Rightarrow> [EV_COMPLETED] | FAILED \<Rightarrow> [EV_FAILED] | CANCELLED \<Rightarrow> [EV_CANCELLED]
           | DEPENDENCY_SKIPPED \<Rightarrow> [EV_DEPENDENCY_SKIPPED] | PAUSED \<Rightarrow> [EV_HELD] | BLOCKED \<Rightarrow> [EV_HELD]
           | NEEDS_ATTENTION \<Rightarrow> [EV_HELD] | PENDING \<Rightarrow> [EV_RESUMED] | _ \<Rightarrow> []))"

text \<open>The events of one stored change of a scheduled task, validated and numbered.\<close>

definition schedule_transition_events :: "task option \<Rightarrow> task \<Rightarrow> int \<Rightarrow> string option \<Rightarrow> schedule_event list result" where
  "schedule_transition_events prior t first_sequence operation_id =
     (if tk_schedule t = None then Inr []
      else bind_res (require_schedule t) (\<lambda>(s, a).
        bind_res (case prior of None \<Rightarrow> Inr None | Some p \<Rightarrow> bind_res (require_schedule p) (\<lambda>(ps, _). Inr (Some (p, ps)))) (\<lambda>previous.
        bind_res (admission_event previous a s) (\<lambda>admission.
          let kinds = creation_or_change_event previous t s @ admission @ cancellation_event prior t @ start_event prior t
                @ status_event prior t;
              events = map (\<lambda>(k, kind). \<lparr>se_task_id = tk_id t, se_sequence = first_sequence + int k, se_type = kind,
                se_revision = ss_revision s, se_occurred_at = tk_updated_at t, se_available_at = a, se_policy = ss_policy s,
                se_invocation_id = ti_root_invocation_id (tk_invocation t), se_operation_id = operation_id\<rparr>)
                (zip [0..<length kinds] kinds)
          in if list_all schedule_event_valid events then Inr events else Inl ValueError))))"

record schedule_receipt =
  sc_task_id :: string
  sc_operation_id :: string
  sc_request_sha256 :: string
  sc_expected_revision :: int
  sc_schedule :: schedule_state
  sc_available_at :: datetime
  sc_committed_at :: datetime
  sc_type :: schedule_event_type

definition schedule_receipt_valid :: "schedule_receipt \<Rightarrow> bool" where
  "schedule_receipt_valid r \<longleftrightarrow> schedule_identity_ok (sc_task_id r) \<and> schedule_identity_ok (sc_operation_id r) \<and>
     is_sha256_text (sc_request_sha256 r) \<and> schedule_state_valid (sc_schedule r) \<and>
     sc_type r \<in> {EV_RESCHEDULED, EV_CANCELLATION_REQUESTED, EV_CANCELLED} \<and>
     1 \<le> sc_expected_revision r \<and> sc_expected_revision r \<le> max_portable_json_integer \<and>
     ss_revision (sc_schedule r) = sc_expected_revision r + 1 \<and>
     validate_task_schedule_window (sc_available_at r) (ss_policy (sc_schedule r)) = Inr ()"

definition schedule_receipt_of :: "task \<Rightarrow> string \<Rightarrow> int \<Rightarrow> string \<Rightarrow> datetime \<Rightarrow> schedule_event_type \<Rightarrow> schedule_receipt result" where
  "schedule_receipt_of t operation_id expected_revision request_sha256 now kind = bind_res (require_schedule t) (\<lambda>(s, a).
     let r = \<lparr>sc_task_id = tk_id t, sc_operation_id = operation_id, sc_request_sha256 = request_sha256,
        sc_expected_revision = expected_revision, sc_schedule = s, sc_available_at = a, sc_committed_at = now, sc_type = kind\<rparr>
     in if schedule_receipt_valid r then Inr r else Inl ValueError)"

end
