(* ===== verification/Task_Authority.thy ===== *)
theory Task_Authority
  imports Task_Lifecycle
begin

text \<open>
  Requests that carry the authority of a worker over one task: terminalization requests and receipts
  (\<open>src/cayu/tasks/terminalization.py\<close>, \<open>_lifecycle.py\<close>, \<open>_cancellation.py\<close>), hand-over of an interrupted
  attached task (\<open>handoff.py\<close>, \<open>continuation_claims.py\<close>) and restarts (\<open>restart.py\<close>).
\<close>

section \<open>Terminalization\<close>

datatype terminal_kind = KIND_COMPLETED | KIND_FAILED | KIND_CANCELLED

fun terminal_kind_value :: "terminal_kind \<Rightarrow> string" where
  "terminal_kind_value KIND_COMPLETED = ''completed''"
| "terminal_kind_value KIND_FAILED = ''failed''"
| "terminal_kind_value KIND_CANCELLED = ''cancelled''"

fun terminal_kind_status :: "terminal_kind \<Rightarrow> task_status" where
  "terminal_kind_status KIND_COMPLETED = COMPLETED"
| "terminal_kind_status KIND_FAILED = FAILED"
| "terminal_kind_status KIND_CANCELLED = CANCELLED"

record terminalization_request =
  tq_task_id :: string
  tq_worker_id :: string
  tq_lease_expires_at :: "datetime option"
  tq_handoff_id :: "string option"
  tq_kind :: terminal_kind
  tq_result :: "json_object option"
  tq_error :: "json_object option"
  tq_idempotency_key :: string

record terminalization_receipt =
  tr_task_id :: string
  tr_idempotency_key :: string
  tr_worker_id :: string
  tr_kind :: terminal_kind
  tr_request_sha256 :: string
  tr_task :: task
  tr_committed_at :: datetime

definition terminalization_request_valid :: "terminalization_request \<Rightarrow> bool" where
  "terminalization_request_valid q \<longleftrightarrow> durable_clean (tq_task_id q) \<and> durable_clean (tq_worker_id q) \<and>
     opt_holds durable_clean (tq_handoff_id q) \<and> idempotency_key_ok (tq_idempotency_key q) \<and>
     (if tq_kind q = KIND_COMPLETED then tq_result q \<noteq> None \<and> tq_error q = None
      else tq_error q \<noteq> None \<and> tq_result q = None)"

definition terminalization_items :: "terminalization_request \<Rightarrow> (string \<times> json) list" where
  "terminalization_items q =
     [(''task_id'', JStr (tq_task_id q)), (''idempotency_key'', JStr (tq_idempotency_key q)),
      (''worker_id'', JStr (tq_worker_id q)), (''kind'', JStr (terminal_kind_value (tq_kind q))),
      (''result'', json_opt JObj (tq_result q)), (''error'', json_opt JObj (tq_error q))] @
     (case tq_handoff_id q of None \<Rightarrow> [] | Some h \<Rightarrow> [(''handoff_id'', JStr h)])"

definition prepare_task_terminalization ::
    "(json \<Rightarrow> string) \<Rightarrow> terminalization_request \<Rightarrow> (terminalization_request \<times> string) result" where
  "prepare_task_terminalization digest q =
     (if \<not> terminalization_request_valid q then Inl ValueError
      else Inr (q, digest (JObj (fmap_of_list ([(''schema'', JStr ''cayu.task-terminalization.v3''),
        (''lease_expires_at'', json_opt (\<lambda>t. JStr (isoformat t)) (tq_lease_expires_at q))] @ terminalization_items q)))))"

definition legacy_terminalization_sha256 :: "(json \<Rightarrow> string) \<Rightarrow> terminalization_request \<Rightarrow> string" where
  "legacy_terminalization_sha256 digest q = digest (JObj (fmap_of_list ((''schema'',
     JStr (if tq_handoff_id q = None then ''cayu.task-terminalization.v1'' else ''cayu.task-terminalization.v2''))
     # terminalization_items q)))"

definition terminalization_matches_sha256 :: "(json \<Rightarrow> string) \<Rightarrow> terminalization_request \<Rightarrow> string \<Rightarrow> string \<Rightarrow> bool" where
  "terminalization_matches_sha256 digest q request_sha256 candidate \<longleftrightarrow>
     candidate \<in> {request_sha256, legacy_terminalization_sha256 digest q}"

definition terminalization_receipt_valid :: "(json \<Rightarrow> string) \<Rightarrow> terminalization_receipt \<Rightarrow> bool" where
  "terminalization_receipt_valid digest r \<longleftrightarrow> durable_clean (tr_task_id r) \<and> durable_clean (tr_worker_id r) \<and>
     idempotency_key_ok (tr_idempotency_key r) \<and> is_sha256_text (tr_request_sha256 r) \<and> task_valid digest (tr_task r) \<and>
     tk_id (tr_task r) = tr_task_id r \<and> tk_status (tr_task r) = terminal_kind_status (tr_kind r) \<and>
     tk_worker_id (tr_task r) = None \<and> tk_lease_expires_at (tr_task r) = None"

definition replay_task_terminalization_receipt :: "(json \<Rightarrow> string) \<Rightarrow> terminalization_request \<Rightarrow> string
    \<Rightarrow> terminalization_receipt \<Rightarrow> task option \<Rightarrow> task result" where
  "replay_task_terminalization_receipt digest q request_sha256 r current =
     (if \<not> terminalization_matches_sha256 digest q request_sha256 (tr_request_sha256 r) then Inl TaskTerminalizationConflict
      else if current \<noteq> Some (tr_task r) then Inl TaskTerminalizationConflict
      else Inr (tr_task r))"

definition ensure_task_terminalization_lease_authority :: "task \<Rightarrow> terminalization_request \<Rightarrow> datetime \<Rightarrow> unit result" where
  "ensure_task_terminalization_lease_authority t q now =
     bind_res (ensure_owned_active_task_lease t (tq_worker_id q) now) (\<lambda>_.
       case tq_lease_expires_at q of
         Some lease \<Rightarrow> ensure_exact_owned_active_task_lease t (tq_worker_id q) lease now
       | None \<Rightarrow> raise_if (tk_status t = CLAIMED \<and> tk_session_id t = None) TaskClaimLost)"

text \<open>The terminalization a requested cancellation asks its worker to make.\<close>

definition task_cancellation_terminalization_request ::
    "(json \<Rightarrow> string) \<Rightarrow> task \<Rightarrow> string \<Rightarrow> terminalization_request option result" where
  "task_cancellation_terminalization_request digest t worker =
     (if \<not> task_cancellation_requested t then Inr None
      else if tk_worker_id t \<noteq> Some worker \<or> tk_lease_expires_at t = None then Inl TaskClaimLost
      else case tk_status_payload t of
        None \<Rightarrow> Inl TaskTerminalizationConflict
      | Some p \<Rightarrow>
          if fmdom' p \<noteq> {''terminalization_idempotency_key'', ''error'', ''event''} then Inl TaskTerminalizationConflict
          else (case (payload_at p ''terminalization_idempotency_key'', payload_at p ''error'', payload_at p ''event'') of
             (JStr key, JObj error, JObj event) \<Rightarrow>
               if tk_retry_series t \<noteq> None
                  \<or> event \<noteq> task_cancellation_requested_event digest t worker key (payload_at event ''occurred_at'')
               then Inl TaskTerminalizationConflict
               else
                 let q = \<lparr>tq_task_id = tk_id t, tq_worker_id = worker, tq_lease_expires_at = tk_lease_expires_at t,
                    tq_handoff_id = tk_interrupted_handoff_id t, tq_kind = KIND_CANCELLED, tq_result = None,
                    tq_error = Some error, tq_idempotency_key = key\<rparr>
                 in if terminalization_request_valid q then Inr (Some q) else Inl ValueError
           | _ \<Rightarrow> Inl TaskTerminalizationConflict))"

definition validate_terminalization_against_cancellation ::
    "(json \<Rightarrow> string) \<Rightarrow> task \<Rightarrow> terminalization_request \<Rightarrow> unit result" where
  "validate_terminalization_against_cancellation digest t q =
     bind_res (task_cancellation_terminalization_request digest t (tq_worker_id q)) (\<lambda>cancellation.
       case cancellation of
         None \<Rightarrow> raise_if (tq_kind q = KIND_CANCELLED) TaskTerminalizationConflict
       | Some c \<Rightarrow> raise_if (c \<noteq> q) TaskTerminalizationConflict)"

definition ensure_recovered_attached_task_session :: "task \<Rightarrow> string \<Rightarrow> string \<Rightarrow> unit result" where
  "ensure_recovered_attached_task_session t session_id instance_id =
     raise_if (tk_session_id t \<noteq> Some session_id \<or> tk_session_instance_id t \<noteq> Some instance_id) TaskClaimLost"

definition ensure_recovered_attached_task_failure_authority ::
    "(json \<Rightarrow> string) \<Rightarrow> task \<Rightarrow> terminalization_request \<Rightarrow> string \<Rightarrow> string \<Rightarrow> datetime \<Rightarrow> unit result" where
  "ensure_recovered_attached_task_failure_authority digest t q session_id instance_id now =
     bind_res (ensure_recovered_attached_task_session t session_id instance_id) (\<lambda>_.
       if tq_kind q \<noteq> KIND_FAILED then Inl ValueError
       else if tk_retry_series t \<noteq> None then Inl ValueError
       else if tk_status t \<noteq> RUNNING then Inl TaskClaimLost
       else if tk_worker_id t \<noteq> Some (tq_worker_id q) \<or> tk_lease_expires_at t = None \<or> tq_lease_expires_at q = None
          \<or> tk_lease_expires_at t \<noteq> tq_lease_expires_at q
       then Inl TaskClaimLost
       else bind_res (ensure_task_handoff_authority t (tq_handoff_id q)) (\<lambda>_.
         if live_lease t now then Inl TaskClaimLost
         else validate_terminalization_against_cancellation digest t q))"

section \<open>Hand-over of an interrupted attached task\<close>

datatype parked_kind = SESSION_WAKE | EXTERNAL_WAIT

record parked_wait =
  pk_kind :: parked_kind
  pk_wait_id :: string
  pk_session_id :: "string option"

record handoff_request =
  hq_task_id :: string
  hq_worker_id :: string
  hq_lease_expires_at :: datetime
  hq_session_id :: string
  hq_session_instance_id :: string
  hq_session_run_epoch :: int
  hq_handoff_id :: string
  hq_parked :: "parked_wait option"

record handoff_receipt =
  hr_request :: handoff_request
  hr_request_sha256 :: string
  hr_task :: task
  hr_committed_at :: datetime

definition handoff_request_valid :: "handoff_request \<Rightarrow> bool" where
  "handoff_request_valid q \<longleftrightarrow> durable_clean (hq_task_id q) \<and> durable_clean (hq_worker_id q) \<and>
     durable_clean (hq_session_id q) \<and> durable_clean (hq_handoff_id q) \<and> is_uuid4 (hq_session_instance_id q) \<and>
     0 \<le> hq_session_run_epoch q \<and> hq_session_run_epoch q \<le> max_durable_json_integer \<and>
     opt_holds (\<lambda>p. durable_clean (pk_wait_id p) \<and> opt_holds durable_clean (pk_session_id p)) (hq_parked q)"

definition parked_json :: "parked_wait \<Rightarrow> json" where
  "parked_json p = JObj (fmap_of_list (
     [(''kind'', JStr (case pk_kind p of SESSION_WAKE \<Rightarrow> ''session_wake'' | EXTERNAL_WAIT \<Rightarrow> ''external_wait'')),
      (''wait_id'', JStr (pk_wait_id p))] @ (case pk_session_id p of None \<Rightarrow> [] | Some s \<Rightarrow> [(''session_id'', JStr s)])))"

definition handoff_request_sha256 :: "(json \<Rightarrow> string) \<Rightarrow> handoff_request \<Rightarrow> string" where
  "handoff_request_sha256 digest q = digest (JObj (fmap_of_list (
     [(''schema'', JStr ''cayu.task-interrupted-handoff.v1''), (''task_id'', JStr (hq_task_id q)),
      (''worker_id'', JStr (hq_worker_id q)), (''lease_expires_at'', json_instant (hq_lease_expires_at q)),
      (''session_id'', JStr (hq_session_id q)), (''session_instance_id'', JStr (hq_session_instance_id q)),
      (''session_run_epoch'', JInt (hq_session_run_epoch q)), (''handoff_id'', JStr (hq_handoff_id q))] @
     (case hq_parked q of None \<Rightarrow> [] | Some p \<Rightarrow> [(''parked'', parked_json p)]))))"

definition prepare_interrupted_task_handoff :: "(json \<Rightarrow> string) \<Rightarrow> handoff_request \<Rightarrow> (handoff_request \<times> string) result" where
  "prepare_interrupted_task_handoff digest q =
     (if \<not> handoff_request_valid q then Inl ValueError else Inr (q, handoff_request_sha256 digest q))"

definition handoff_receipt_valid :: "(json \<Rightarrow> string) \<Rightarrow> handoff_receipt \<Rightarrow> bool" where
  "handoff_receipt_valid digest r \<longleftrightarrow>
     (let q = hr_request r; t = hr_task r in
       handoff_request_valid q \<and> is_sha256_text (hr_request_sha256 r) \<and> task_valid digest t \<and>
       hr_request_sha256 r = handoff_request_sha256 digest q \<and> tk_id t = hq_task_id q \<and> tk_status t = RUNNING \<and>
       tk_session_id t = Some (hq_session_id q) \<and> tk_session_instance_id t = Some (hq_session_instance_id q) \<and>
       tk_interrupted_handoff_id t = Some (hq_handoff_id q) \<and> tk_worker_id t = None \<and> tk_lease_expires_at t = None)"

definition check_handoff_receipt :: "(json \<Rightarrow> string) \<Rightarrow> handoff_receipt \<Rightarrow> handoff_receipt result" where
  "check_handoff_receipt digest r = (if handoff_receipt_valid digest r then Inr r else Inl ValueError)"

definition replay_interrupted_task_handoff_receipt :: "(json \<Rightarrow> string) \<Rightarrow> handoff_request \<Rightarrow> string \<Rightarrow> handoff_receipt
    \<Rightarrow> handoff_receipt result" where
  "replay_interrupted_task_handoff_receipt digest q request_sha256 r =
     (if hr_request r \<noteq> q \<or> hr_request_sha256 r \<noteq> request_sha256 then Inl TaskInterruptedHandoffConflict
      else check_handoff_receipt digest r)"

definition require_interrupted_task_handoff_authority :: "task \<Rightarrow> handoff_request \<Rightarrow> datetime \<Rightarrow> bool \<Rightarrow> unit result" where
  "require_interrupted_task_handoff_authority t q now recover_expired =
     (if tk_id t \<noteq> hq_task_id q \<or> tk_status t \<noteq> RUNNING \<or> tk_session_id t \<noteq> Some (hq_session_id q)
         \<or> tk_session_instance_id t \<noteq> Some (hq_session_instance_id q) \<or> tk_worker_id t \<noteq> Some (hq_worker_id q)
         \<or> tk_lease_expires_at t \<noteq> Some (hq_lease_expires_at q)
      then Inl TaskInterruptedHandoffConflict
      else if task_cancellation_requested t \<or> retry_cancellation_requested t then Inl TaskInterruptedHandoffConflict
      else raise_if (recover_expired \<noteq> (hq_lease_expires_at q \<le> now)) TaskInterruptedHandoffConflict)"

definition handed_over_task :: "task \<Rightarrow> string \<Rightarrow> datetime \<Rightarrow> task" where
  "handed_over_task t handoff now = t\<lparr>tk_worker_id := None, tk_lease_expires_at := None,
     tk_interrupted_handoff_id := Some handoff, tk_updated_at := now\<rparr>"

record continuation_expectation =
  ce_task_id :: string
  ce_session_id :: string
  ce_session_instance_id :: string
  ce_prior_handoff_id :: string
  ce_operation_sha256 :: string
  ce_parked_wait :: "parked_wait option"

definition continuation_expectation_valid :: "continuation_expectation \<Rightarrow> bool" where
  "continuation_expectation_valid e \<longleftrightarrow> durable_clean (ce_task_id e) \<and> durable_clean (ce_session_id e) \<and>
     durable_clean (ce_prior_handoff_id e) \<and> is_uuid4 (ce_session_instance_id e) \<and> is_sha256_text (ce_operation_sha256 e) \<and>
     opt_holds (\<lambda>p. durable_clean (pk_wait_id p) \<and> opt_holds durable_clean (pk_session_id p)) (ce_parked_wait e)"

definition prepare_continuation_expectation :: "(json \<Rightarrow> string) \<Rightarrow> continuation_expectation option \<Rightarrow> string option
    \<Rightarrow> string option result" where
  "prepare_continuation_expectation digest expected task_id = (case expected of
       None \<Rightarrow> Inr None
     | Some e \<Rightarrow>
         if \<not> continuation_expectation_valid e \<or> task_id \<noteq> Some (ce_task_id e) then Inl ValueError
         else Inr (Some (digest (JObj (fmap_of_list (
           [(''schema'', JStr ''cayu.task-continuation-expectation.v1''), (''task_id'', JStr (ce_task_id e)),
            (''session_id'', JStr (ce_session_id e)), (''session_instance_id'', JStr (ce_session_instance_id e)),
            (''prior_handoff_id'', JStr (ce_prior_handoff_id e)), (''operation_sha256'', JStr (ce_operation_sha256 e))] @
           (case ce_parked_wait e of None \<Rightarrow> [] | Some p \<Rightarrow> [(''parked_wait'', parked_json p)])))))))"

definition require_expected_continuation :: "task \<Rightarrow> continuation_expectation option \<Rightarrow> unit result" where
  "require_expected_continuation t expected = (case expected of
       None \<Rightarrow> Inr ()
     | Some e \<Rightarrow> raise_if (tk_id t \<noteq> ce_task_id e \<or> tk_session_id t \<noteq> Some (ce_session_id e)
         \<or> tk_session_instance_id t \<noteq> Some (ce_session_instance_id e)
         \<or> tk_interrupted_handoff_id t \<noteq> Some (ce_prior_handoff_id e)) TaskClaimLost)"

definition require_parked_continuation_trigger :: "handoff_receipt \<Rightarrow> parked_wait option \<Rightarrow> unit result" where
  "require_parked_continuation_trigger r wait = raise_if (hq_parked (hr_request r) \<noteq> wait) TaskClaimLost"

section \<open>Restarts\<close>

definition default_max_abandoned_restarts :: int where "default_max_abandoned_restarts = 2"

record abandoned_restart_request =
  ar_task_id :: string
  ar_original_worker_id :: string
  ar_original_lease_expires_at :: datetime
  ar_validator_id :: string
  ar_validator_version :: string
  ar_evidence_id :: string
  ar_max_restarts :: int

definition abandoned_restart_request_valid :: "abandoned_restart_request \<Rightarrow> bool" where
  "abandoned_restart_request_valid r \<longleftrightarrow> reconciliation_identity_ok (ar_task_id r) \<and>
     reconciliation_identity_ok (ar_original_worker_id r) \<and> reconciliation_identity_ok (ar_validator_id r) \<and>
     reconciliation_identity_ok (ar_validator_version r) \<and> reconciliation_identity_ok (ar_evidence_id r) \<and>
     0 \<le> ar_max_restarts r \<and> ar_max_restarts r \<le> 100"

definition restart_record_valid :: "restart_record \<Rightarrow> bool" where
  "restart_record_valid r \<longleftrightarrow> reconciliation_identity_ok (rst_previous_worker_id r) \<and>
     reconciliation_identity_ok (rst_validator_id r) \<and> reconciliation_identity_ok (rst_validator_version r) \<and>
     reconciliation_identity_ok (rst_evidence_id r) \<and> opt_holds durable_clean (rst_previous_session_id r)"

definition task_restart_limit :: "task \<Rightarrow> int \<Rightarrow> int" where
  "task_restart_limit t dflt = (case tk_max_restarts t of None \<Rightarrow> dflt | Some n \<Rightarrow> n)"

definition worker_loss_fence_codes :: "string set" where
  "worker_loss_fence_codes = {''task_worker_lease_expired_after_dispatch'', ''task_worker_owner_cancelled'',
     ''task_worker_lease_authority_lost''}"

definition fenced_by_worker_loss :: "task \<Rightarrow> bool" where
  "fenced_by_worker_loss t =
     (let payload = (case tk_status_payload t of None \<Rightarrow> fmempty | Some p \<Rightarrow> p);
          error = (case payload_at payload ''error'' of
              JNull \<Rightarrow> if tk_status t = CANCELLED \<and> fmlookup payload ''cancellation_reconciliation'' \<noteq> None
                then json_opt JObj (tk_error t) else JNull
            | j \<Rightarrow> j)
      in (case error of
            JObj e \<Rightarrow> (case payload_at e ''code'' of JStr c \<Rightarrow> c \<in> worker_loss_fence_codes | _ \<Rightarrow> False)
          | _ \<Rightarrow> False))"

definition requeued_task :: "task \<Rightarrow> datetime \<Rightarrow> (string \<times> json) list \<Rightarrow> task" where
  "requeued_task t now restart = t\<lparr>tk_status := PENDING, tk_session_id := None, tk_session_instance_id := None,
     tk_worker_id := None, tk_lease_expires_at := None, tk_started_at := None, tk_completed_at := None,
     tk_result := None, tk_error := None, tk_status_reason := None,
     tk_status_payload := Some (fmap_of_list [(''restart'', JObj (fmap_of_list (
       [(''count'', JInt (tk_restart_count t + 1)), (''previous_session_id'', json_opt JStr (tk_session_id t))] @ restart)))]),
     tk_restart_count := tk_restart_count t + 1, tk_updated_at := now\<rparr>"

definition restarted_task :: "(json \<Rightarrow> string) \<Rightarrow> task \<Rightarrow> string \<Rightarrow> datetime \<Rightarrow> datetime \<Rightarrow> task result" where
  "restarted_task digest t worker lease now =
     bind_res (ensure_exact_owned_active_task_lease t worker lease now) (\<lambda>_.
       if \<not> tk_restartable t \<or> tk_interrupted_handoff_id t \<noteq> None then Inl ValueError
       else if task_cancellation_requested t \<or> retry_cancellation_requested t then Inl TaskTerminalizationConflict
       else copy_task digest (requeued_task t now []))"

definition same_evidence :: "abandoned_restart_request \<Rightarrow> restart_record \<Rightarrow> bool" where
  "same_evidence q r \<longleftrightarrow> rst_validator_id r = ar_validator_id q \<and> rst_validator_version r = ar_validator_version q \<and>
     rst_evidence_id r = ar_evidence_id q"

definition new_restart_record :: "abandoned_restart_request \<Rightarrow> datetime \<Rightarrow> restart_record" where
  "new_restart_record q now = \<lparr>rst_restarted_at = now, rst_previous_worker_id = ar_original_worker_id q,
     rst_previous_lease_expires_at = ar_original_lease_expires_at q, rst_previous_session_id = None,
     rst_validator_id = ar_validator_id q, rst_validator_version = ar_validator_version q,
     rst_evidence_id = ar_evidence_id q\<rparr>"

text \<open>
  The requeued task, or the task itself when this restart has already happened.
\<close>

definition abandoned_restarted_task :: "(json \<Rightarrow> string) \<Rightarrow> task \<Rightarrow> abandoned_restart_request \<Rightarrow> datetime \<Rightarrow> task result" where
  "abandoned_restarted_task digest t q now =
     (if tk_id t \<noteq> ar_task_id q then Inl TaskTerminalizationConflict
      else case filter (same_evidence q) (tk_restart_history t) of
        r # _ \<Rightarrow>
          if rst_previous_worker_id r = ar_original_worker_id q \<and> rst_previous_lease_expires_at r = ar_original_lease_expires_at q
          then Inr t else Inl TaskTerminalizationConflict
      | [] \<Rightarrow>
          if tk_retry_series t \<noteq> None \<or> tk_session_id t \<noteq> None then Inl TaskTerminalizationConflict
          else if \<not> tk_restartable t \<or> tk_interrupted_handoff_id t \<noteq> None then Inl TaskTerminalizationConflict
          else if tk_status t \<notin> {CLAIMED, RUNNING} \<or> tk_worker_id t \<noteq> Some (ar_original_worker_id q)
             \<or> tk_lease_expires_at t \<noteq> Some (ar_original_lease_expires_at q)
          then Inl TaskClaimLost
          else bind_res (task_cancellation_terminalization_request digest t (ar_original_worker_id q)) (\<lambda>c.
            if c = None then Inl TaskTerminalizationConflict
            else if \<not> fenced_by_worker_loss t then Inl TaskTerminalizationConflict
            else if ar_original_lease_expires_at q > now then Inl TaskClaimLost
            else if int (length (tk_restart_history t)) \<ge> task_restart_limit t (ar_max_restarts q)
            then Inl TaskRestartLimitReached
            else
              let r = new_restart_record q now;
                  u = requeued_task t now
                    [(''reason'', JStr ''worker_lost''), (''previous_worker_id'', JStr (rst_previous_worker_id r)),
                     (''previous_lease_expires_at'', JStr (isoformat (rst_previous_lease_expires_at r))),
                     (''validator_id'', JStr (rst_validator_id r)), (''validator_version'', JStr (rst_validator_version r)),
                     (''evidence_id'', JStr (rst_evidence_id r))]
              in if \<not> restart_record_valid r then Inl ValueError
                 else copy_task digest (u\<lparr>tk_restart_history := tk_restart_history t @ [r]\<rparr>)))"

end
