(* ===== verification/Task_Graphs.thy ===== *)
theory Task_Graphs
  imports Task_Retry
begin

text \<open>
  Task graphs (\<open>src/cayu/tasks/graphs.py\<close>, \<open>_graphs.py\<close>): dependency graphs of tasks, the cycle check of a
  submission, graph events and snapshots with their validation, and the planning of one change of one
  member with every release and skip that follows from it.  The request of a node is its identity and its
  prerequisites; the byte limit of graph documents is not modelled.
\<close>

section \<open>Cycle check\<close>

text \<open>The loop that peels off the nodes without prerequisites; the dictionary is a list of pairs.\<close>

definition ready_nodes :: "(string \<times> string list) list \<Rightarrow> string list" where
  "ready_nodes remaining = map fst (filter (\<lambda>(i, ps). ps = []) remaining)"

definition peel_ready :: "(string \<times> string list) list \<Rightarrow> (string \<times> string list) list" where
  "peel_ready remaining = map (\<lambda>(i, ps). (i, filter (\<lambda>p. p \<notin> set (ready_nodes remaining)) ps))
     (filter (\<lambda>(i, ps). i \<notin> set (ready_nodes remaining)) remaining)"

lemma peel_ready_shorter:
  assumes "ready_nodes remaining \<noteq> []"
  shows "length (peel_ready remaining) < length remaining"
proof -
  obtain i where i: "i \<in> set (ready_nodes remaining)" using assms by (cases "ready_nodes remaining") auto
  then obtain ps where "(i, ps) \<in> set remaining" by (auto simp: ready_nodes_def)
  with i show ?thesis by (auto simp: peel_ready_def intro: length_filter_less)
qed

function cycle_free :: "(string \<times> string list) list \<Rightarrow> bool" where
  "cycle_free remaining =
     (if remaining = [] then True
      else if ready_nodes remaining = [] then False
      else cycle_free (peel_ready remaining))"
  by pat_completeness auto
termination
  by (relation "measure length") (simp_all add: peel_ready_shorter)

declare cycle_free.simps [simp del]

text \<open>\<open>TaskGraphCreate.validate_graph\<close> on the identities and prerequisites of the nodes.\<close>

definition validate_graph :: "(string \<times> string list) list \<Rightarrow> unit result" where
  "validate_graph nodes =
     (if \<not> distinct (map fst nodes) then Inl ValueError
      else if sum_list (map (length \<circ> snd) nodes) > task_graph_max_edges then Inl ValueError
      else if \<not> list_all (\<lambda>(i, ps). set ps \<subseteq> fst ` set nodes) nodes then Inl ValueError
      else if \<not> cycle_free nodes then Inl ValueError
      else Inr ())"

section \<open>Events, members and snapshots\<close>

datatype graph_event_type = GROUP_WAITING_EVENT | GRAPH_CREATED | WAITING_EVENT | READY_EVENT | SKIPPED_EVENT | TERMINAL_EVENT

record graph_event =
  ge_graph_id :: string
  ge_sequence :: int
  ge_type :: graph_event_type
  ge_occurred_at :: datetime
  ge_task_id :: "string option"
  ge_status :: "task_status option"
  ge_prerequisite_task_ids :: "string list"

definition canonical_identifiers :: "string list \<Rightarrow> bool" where
  "canonical_identifiers ids \<longleftrightarrow> length ids \<le> task_graph_max_nodes \<and> list_all is_graph_identifier ids \<and> sorted_wrt (<) ids"

fun expected_event_status :: "graph_event_type \<Rightarrow> task_status option" where
  "expected_event_status GROUP_WAITING_EVENT = Some WAITING_GROUP"
| "expected_event_status WAITING_EVENT = Some WAITING_DEPENDENCIES"
| "expected_event_status READY_EVENT = Some PENDING"
| "expected_event_status SKIPPED_EVENT = Some DEPENDENCY_SKIPPED"
| "expected_event_status _ = None"

definition graph_event_valid :: "graph_event \<Rightarrow> bool" where
  "graph_event_valid e \<longleftrightarrow> is_graph_identifier (ge_graph_id e) \<and>
     1 \<le> ge_sequence e \<and> ge_sequence e \<le> max_portable_json_integer \<and>
     opt_holds is_graph_identifier (ge_task_id e) \<and> canonical_identifiers (ge_prerequisite_task_ids e) \<and>
     (if ge_type e = GRAPH_CREATED
      then ge_sequence e = 1 \<and> ge_task_id e = None \<and> ge_status e = None \<and> ge_prerequisite_task_ids e = []
      else ge_task_id e \<noteq> None \<and> ge_status e \<noteq> None \<and> ge_sequence e \<noteq> 1 \<and>
        opt_holds (\<lambda>st. ge_status e = Some st) (expected_event_status (ge_type e)) \<and>
        (ge_type e = TERMINAL_EVENT \<longrightarrow> ge_status e \<in> {Some COMPLETED, Some FAILED, Some CANCELLED}) \<and>
        (ge_type e \<in> {WAITING_EVENT, SKIPPED_EVENT} \<longrightarrow> ge_prerequisite_task_ids e \<noteq> []))"

record graph_member =
  gm_task_id :: string
  gm_prerequisite_task_ids :: "string list"
  gm_status :: task_status
  gm_failed_prerequisite_task_ids :: "string list"

definition graph_member_valid :: "graph_member \<Rightarrow> bool" where
  "graph_member_valid m \<longleftrightarrow> is_graph_identifier (gm_task_id m) \<and>
     canonical_identifiers (gm_prerequisite_task_ids m) \<and> canonical_identifiers (gm_failed_prerequisite_task_ids m) \<and>
     gm_task_id m \<notin> set (gm_prerequisite_task_ids m) \<and>
     set (gm_failed_prerequisite_task_ids m) \<subseteq> set (gm_prerequisite_task_ids m) \<and>
     (gm_status m = DEPENDENCY_SKIPPED \<longleftrightarrow> gm_failed_prerequisite_task_ids m \<noteq> [])"

record graph_receipt =
  gr_graph_id :: string
  gr_request_sha256 :: string
  gr_submitted_request_sha256 :: string
  gr_task_ids :: "string list"
  gr_accepted_at :: datetime

record graph_snapshot =
  gs_receipt :: graph_receipt
  gs_members :: "graph_member list"
  gs_last_sequence :: int

definition graph_receipt_valid :: "graph_receipt \<Rightarrow> bool" where
  "graph_receipt_valid r \<longleftrightarrow> is_graph_identifier (gr_graph_id r) \<and> is_sha256_text (gr_request_sha256 r) \<and>
     is_sha256_text (gr_submitted_request_sha256 r) \<and> gr_task_ids r \<noteq> [] \<and> canonical_identifiers (gr_task_ids r)"

definition graph_failure_statuses :: "task_status set" where
  "graph_failure_statuses = {FAILED, CANCELLED, DEPENDENCY_SKIPPED}"

text \<open>The checks \<open>validate_snapshot\<close> makes on one member against the statuses of the members.\<close>

definition snapshot_member_ok :: "(string \<Rightarrow> task_status option) \<Rightarrow> graph_member \<Rightarrow> bool" where
  "snapshot_member_ok status m =
     (let ready = list_all (\<lambda>p. status p = Some COMPLETED) (gm_prerequisite_task_ids m);
          failed = filter (\<lambda>p. case status p of None \<Rightarrow> False | Some st \<Rightarrow> st \<in> graph_failure_statuses) (gm_prerequisite_task_ids m)
      in \<not> (gm_status m \<in> {PENDING, CLAIMED, RUNNING, COMPLETED} \<and> \<not> ready) \<and>
         \<not> (gm_status m = WAITING_DEPENDENCIES \<and> (ready \<or> failed \<noteq> [])) \<and>
         set (gm_failed_prerequisite_task_ids m) \<subseteq> set failed \<and>
         \<not> (failed \<noteq> [] \<and> gm_status m \<notin> graph_failure_statuses \<union> {COMPLETED}))"

definition member_status :: "graph_member list \<Rightarrow> string \<Rightarrow> task_status option" where
  "member_status ms i = map_option gm_status (map_of (map (\<lambda>m. (gm_task_id m, m)) ms) i)"

definition graph_snapshot_valid :: "graph_snapshot \<Rightarrow> bool" where
  "graph_snapshot_valid s \<longleftrightarrow> graph_receipt_valid (gs_receipt s) \<and>
     gs_members s \<noteq> [] \<and> length (gs_members s) \<le> task_graph_max_nodes \<and> list_all graph_member_valid (gs_members s) \<and>
     1 \<le> gs_last_sequence s \<and> gs_last_sequence s \<le> max_portable_json_integer \<and>
     map gm_task_id (gs_members s) = gr_task_ids (gs_receipt s) \<and>
     sum_list (map (length \<circ> gm_prerequisite_task_ids) (gs_members s)) \<le> task_graph_max_edges \<and>
     list_all (\<lambda>m. set (gm_prerequisite_task_ids m) \<subseteq> gm_task_id ` set (gs_members s)) (gs_members s) \<and>
     cycle_free (map (\<lambda>m. (gm_task_id m, gm_prerequisite_task_ids m)) (gs_members s)) \<and>
     gs_last_sequence s \<ge> int (length (gs_members s)) + 1 \<and>
     list_all (snapshot_member_ok (member_status (gs_members s))) (gs_members s)"

definition json_texts :: "json option \<Rightarrow> string list option" where
  "json_texts j = (case j of
       None \<Rightarrow> Some []
     | Some (JList js) \<Rightarrow> if list_all (\<lambda>x. json_text x \<noteq> None) js then Some (map (\<lambda>x. the (json_text x)) js) else None
     | Some _ \<Rightarrow> None)"

definition member_from_task :: "task \<Rightarrow> graph_member result" where
  "member_from_task t =
     (case (if tk_status t = DEPENDENCY_SKIPPED
            then json_texts (case tk_status_payload t of None \<Rightarrow> None | Some p \<Rightarrow> fmlookup p ''failed_prerequisite_task_ids'')
            else Some []) of
        None \<Rightarrow> Inl ValueError
      | Some failed \<Rightarrow>
          let m = \<lparr>gm_task_id = tk_id t, gm_prerequisite_task_ids = tk_prerequisite_task_ids t, gm_status = tk_status t,
             gm_failed_prerequisite_task_ids = failed\<rparr>
          in if graph_member_valid m then Inr m else Inl ValueError)"

definition require_graph_membership :: "string \<Rightarrow> graph_receipt \<Rightarrow> (string, string list) dict \<Rightarrow> unit result" where
  "require_graph_membership graph_id receipt prerequisites =
     (if gr_graph_id receipt \<noteq> graph_id \<or> sort (map fst prerequisites) \<noteq> gr_task_ids receipt
      then Inl TaskGraphUnavailable else Inr ())"

definition require_member_authority :: "string \<Rightarrow> task \<Rightarrow> string list \<Rightarrow> unit result" where
  "require_member_authority graph_id t prerequisites =
     (if tk_graph_id t \<noteq> Some graph_id \<or> tk_prerequisite_task_ids t \<noteq> prerequisites
      then Inl TaskGraphUnavailable else Inr ())"

section \<open>Planning a transition\<close>

definition executing_statuses :: "task_status set" where
  "executing_statuses = {CLAIMED, RUNNING, COMPLETED}"

record graph_context =
  gc_digest :: "json \<Rightarrow> string"
  gc_graph_id :: string
  gc_prerequisites :: "(string, string list) dict"
  gc_first_sequence :: int
  gc_now :: datetime
  gc_group_waiting_task_id :: "string option"

record graph_plan =
  gp_tasks :: "(string, task) dict"
  gp_events :: "graph_event list"
  gp_settlements :: "retry_settlement list"

definition status_in :: "(string, task) dict \<Rightarrow> string \<Rightarrow> task_status option" where
  "status_in tasks i = map_option tk_status (dict_get tasks i)"

definition deps_of :: "graph_context \<Rightarrow> string \<Rightarrow> string list" where
  "deps_of c i = (case dict_get (gc_prerequisites c) i of None \<Rightarrow> [] | Some ps \<Rightarrow> ps)"

definition deps_completed :: "(string, task) dict \<Rightarrow> string list \<Rightarrow> bool" where
  "deps_completed tasks deps = list_all (\<lambda>p. status_in tasks p = Some COMPLETED) deps"

definition failed_deps :: "(string, task) dict \<Rightarrow> string list \<Rightarrow> string list" where
  "failed_deps tasks deps = filter (\<lambda>p. case status_in tasks p of None \<Rightarrow> False | Some st \<Rightarrow> st \<in> graph_failure_statuses) deps"

text \<open>The nested function \<open>event\<close>: append one validated event with the next sequence number.\<close>

definition plan_event :: "graph_context \<Rightarrow> graph_event_type \<Rightarrow> string list \<Rightarrow> task \<Rightarrow> graph_plan \<Rightarrow> graph_plan result" where
  "plan_event c kind causes t p =
     (let e = \<lparr>ge_graph_id = gc_graph_id c, ge_sequence = gc_first_sequence c + int (length (gp_events p)), ge_type = kind,
         ge_occurred_at = gc_now c, ge_task_id = Some (tk_id t), ge_status = Some (tk_status t),
         ge_prerequisite_task_ids = causes\<rparr>
      in if graph_event_valid e then Inr (p\<lparr>gp_events := gp_events p @ [e]\<rparr>) else Inl ValueError)"

definition dependency_failed_error :: "string list \<Rightarrow> json_object" where
  "dependency_failed_error failed = fmap_of_list
     [(''code'', JStr ''dependency_failed''), (''failed_prerequisite_task_ids'', JList (map JStr failed))]"

definition dependency_skip_payload :: "string list \<Rightarrow> json_object option \<Rightarrow> json_object" where
  "dependency_skip_payload failed payload =
     fmupd ''failed_prerequisite_task_ids'' (JList (map JStr failed)) (case payload of None \<Rightarrow> fmempty | Some p \<Rightarrow> p)"

text \<open>A skipped task; \<open>settled\<close> is the settlement of its retry series, if it has one.\<close>

definition skipped_task :: "task \<Rightarrow> string list \<Rightarrow> datetime \<Rightarrow> retry_settlement option \<Rightarrow> task" where
  "skipped_task t failed now settled =
     (let base = (case settled of None \<Rightarrow> t | Some r \<Rightarrow> sr_task r);
          payload = (case settled of None \<Rightarrow> None | Some r \<Rightarrow> tk_status_payload (sr_task r))
      in base\<lparr>tk_status := DEPENDENCY_SKIPPED, tk_status_reason := Some ''dependency_failed'',
           tk_status_payload := Some (dependency_skip_payload failed payload),
           tk_error := Some (dependency_failed_error failed), tk_completed_at := Some now,
           tk_started_at := tk_started_at t, tk_updated_at := now, tk_worker_id := None,
           tk_lease_expires_at := None, tk_interrupted_handoff_id := None\<rparr>)"

definition skip_settlement :: "graph_context \<Rightarrow> task \<Rightarrow> string list \<Rightarrow> retry_settlement option result" where
  "skip_settlement c t failed = (case tk_retry_series t of
       None \<Rightarrow> Inr None
     | Some _ \<Rightarrow> bind_res (runtime_task_retry_terminal_settlement (gc_digest c) t ''dependency-skip''
           ATTEMPT_NON_RETRYABLE_FAILURE NON_RETRYABLE_FAILURE FAILED (dependency_failed_error failed) (gc_now c) 0 0)
         (\<lambda>r. Inr (Some r)))"

definition skip_member :: "graph_context \<Rightarrow> string \<Rightarrow> task \<Rightarrow> string list \<Rightarrow> graph_plan \<Rightarrow> graph_plan result" where
  "skip_member c i t failed p =
     (if tk_status t \<in> executing_statuses \<or> tk_worker_id t \<noteq> None then Inl TaskGraphUnavailable
      else bind_res (skip_settlement c t failed) (\<lambda>settled.
        bind_res (copy_task (gc_digest c) (skipped_task t failed (gc_now c) settled)) (\<lambda>u.
        bind_res (case settled of None \<Rightarrow> Inr [] | Some r \<Rightarrow> bind_res (check_settlement (r\<lparr>sr_task := u\<rparr>)) (\<lambda>r. Inr [r])) (\<lambda>receipts.
          plan_event c SKIPPED_EVENT failed u
            (p\<lparr>gp_tasks := dict_put i u (gp_tasks p), gp_settlements := gp_settlements p @ receipts\<rparr>)))))"

definition release_member :: "graph_context \<Rightarrow> string \<Rightarrow> task \<Rightarrow> graph_plan \<Rightarrow> graph_plan result" where
  "release_member c i t p =
     (let group = (gc_group_waiting_task_id c = Some i)
      in bind_res (copy_task (gc_digest c) (t\<lparr>tk_status := if group then WAITING_GROUP else PENDING, tk_updated_at := gc_now c\<rparr>)) (\<lambda>u.
           plan_event c (if group then GROUP_WAITING_EVENT else READY_EVENT) (deps_of c i) u
             (p\<lparr>gp_tasks := dict_put i u (gp_tasks p)\<rparr>)))"

text \<open>The body of the sweep for one member: the plan afterwards and whether it changed.\<close>

definition visit_member :: "graph_context \<Rightarrow> string \<Rightarrow> graph_plan \<Rightarrow> (graph_plan \<times> bool) result" where
  "visit_member c i p = (case dict_get (gp_tasks p) i of
       None \<Rightarrow> Inl KeyError
     | Some t \<Rightarrow>
         if tk_status t \<in> terminal_task_statuses then Inr (p, False)
         else
           let deps = deps_of c i; failed = failed_deps (gp_tasks p) deps
           in if failed \<noteq> [] then bind_res (skip_member c i t failed p) (\<lambda>p. Inr (p, True))
              else if tk_status t = WAITING_DEPENDENCIES \<and> deps_completed (gp_tasks p) deps
              then bind_res (release_member c i t p) (\<lambda>p. Inr (p, True))
              else Inr (p, False))"

fun sweep_members :: "graph_context \<Rightarrow> string list \<Rightarrow> graph_plan \<Rightarrow> (graph_plan \<times> bool) result" where
  "sweep_members c [] p = Inr (p, False)"
| "sweep_members c (i # is) p = bind_res (visit_member c i p) (\<lambda>(p, a).
     bind_res (sweep_members c is p) (\<lambda>(p, b). Inr (p, a \<or> b)))"

text \<open>Every change of a sweep lowers this measure, so the loop ends.\<close>

definition status_rank :: "task_status \<Rightarrow> nat" where
  "status_rank st = (if st \<in> terminal_task_statuses then 0 else if st = WAITING_DEPENDENCIES then 2 else 1)"

definition plan_rank :: "graph_plan \<Rightarrow> nat" where
  "plan_rank p = sum_list (map (\<lambda>(i, t). status_rank (tk_status t)) (gp_tasks p))"

lemma rank_put:
  assumes "dict_get d i = Some t" "f u < f t"
  shows "sum_list (map (\<lambda>(i, t). f t) (dict_put i u d)) < (sum_list (map (\<lambda>(i, t). f t) d) :: nat)"
  using assms by (induction d) (auto split: if_splits)

lemma plan_event_tasks:
  "plan_event c kind causes t p = Inr p' \<Longrightarrow> gp_tasks p' = gp_tasks p \<and> gp_settlements p' = gp_settlements p"
  by (auto simp: plan_event_def Let_def split: if_splits)

lemma skip_member_cases:
  assumes "skip_member c i t failed p = Inr p'"
  obtains u where "gp_tasks p' = dict_put i u (gp_tasks p)" "tk_status u = DEPENDENCY_SKIPPED" "task_valid (gc_digest c) u"
    "\<exists>settled. skip_settlement c t failed = Inr settled \<and> u = skipped_task t failed (gc_now c) settled"
    "tk_status t \<notin> executing_statuses"
proof -
  from assms obtain settled receipts where *: "tk_status t \<notin> executing_statuses" "skip_settlement c t failed = Inr settled"
    "task_valid (gc_digest c) (skipped_task t failed (gc_now c) settled)"
    "plan_event c SKIPPED_EVENT failed (skipped_task t failed (gc_now c) settled)
      (p\<lparr>gp_tasks := dict_put i (skipped_task t failed (gc_now c) settled) (gp_tasks p), gp_settlements := gp_settlements p @ receipts\<rparr>) = Inr p'"
    by (auto simp: skip_member_def res_simps split: if_splits)
  have "tk_status (skipped_task t failed (gc_now c) settled) = DEPENDENCY_SKIPPED"
    by (simp add: skipped_task_def Let_def)
  with * plan_event_tasks [OF *(4)] that show thesis by fastforce
qed

lemma release_member_cases:
  assumes "release_member c i t p = Inr p'"
  obtains u where "gp_tasks p' = dict_put i u (gp_tasks p)" "task_valid (gc_digest c) u"
    "u = t\<lparr>tk_status := if gc_group_waiting_task_id c = Some i then WAITING_GROUP else PENDING, tk_updated_at := gc_now c\<rparr>"
  using assms that by (auto simp: release_member_def Let_def res_simps dest!: plan_event_tasks)

lemma visit_member_rank:
  assumes "visit_member c i p = Inr (p', changed)"
  shows "if changed then plan_rank p' < plan_rank p else p' = p"
proof -
  from assms obtain t where t: "dict_get (gp_tasks p) i = Some t" by (auto simp: visit_member_def split: option.splits)
  consider "p' = p" "\<not> changed"
    | "changed" "tk_status t \<notin> terminal_task_statuses" "skip_member c i t (failed_deps (gp_tasks p) (deps_of c i)) p = Inr p'"
    | "changed" "tk_status t = WAITING_DEPENDENCIES" "release_member c i t p = Inr p'"
    using assms t by (auto simp: visit_member_def Let_def res_simps split: if_splits)
  then show ?thesis
  proof cases
    case 2
    from 2(3) show ?thesis
    proof (cases rule: skip_member_cases)
      case (1 u)
      have "status_rank (tk_status u) < status_rank (tk_status t)"
        using 1 2(2) by (simp add: status_rank_def terminal_task_statuses_def)
      with 1 2(1) rank_put [OF t] show ?thesis by (simp add: plan_rank_def)
    qed
  next
    case 3
    from 3(3) show ?thesis
    proof (cases rule: release_member_cases)
      case (1 u)
      have "status_rank (tk_status u) < status_rank (tk_status t)"
        using 1 3(2) by (simp add: status_rank_def terminal_task_statuses_def)
      with 1 3(1) rank_put [OF t] show ?thesis by (simp add: plan_rank_def)
    qed
  qed simp
qed

lemma sweep_members_rank:
  "sweep_members c is p = Inr (p', changed) \<Longrightarrow> if changed then plan_rank p' < plan_rank p else p' = p"
proof (induction "is" arbitrary: p changed)
  case (Cons i "is")
  then obtain q a b where v: "visit_member c i p = Inr (q, a)" and s: "sweep_members c is q = Inr (p', b)" "changed = (a \<or> b)"
    by (auto simp: res_simps)
  from visit_member_rank [OF v] Cons.IH [OF s(1)] s(2) show ?case by (cases a; cases b) auto
qed simp

lemma bind_res_cong [fundef_cong]:
  "r = r' \<Longrightarrow> (\<And>x. r' = Inr x \<Longrightarrow> f x = g x) \<Longrightarrow> bind_res r f = bind_res r' g"
  by (cases r') auto

function settle_members :: "graph_context \<Rightarrow> graph_plan \<Rightarrow> graph_plan result" where
  "settle_members c p = bind_res (sweep_members c (sort (map fst (gp_tasks p))) p)
     (\<lambda>(p', changed). if changed then settle_members c p' else Inr p')"
  by pat_completeness auto
termination
  by (relation "measure (plan_rank \<circ> snd)") (auto dest: sweep_members_rank)

declare settle_members.simps [simp del]

text \<open>
  The checks on the proposed change of one member; the result is the member as it will be stored.
  A member waiting for its group stays so, and a pending member waits for unfinished prerequisites.
\<close>

definition group_adjusted :: "graph_context \<Rightarrow> task \<Rightarrow> task result" where
  "group_adjusted c proposed =
     (if gc_group_waiting_task_id c = Some (tk_id proposed)
      then (if tk_status proposed \<in> executing_statuses then Inl TaskGraphConflict
            else Inr (if tk_status proposed = PENDING then proposed\<lparr>tk_status := WAITING_GROUP\<rparr> else proposed))
      else Inr proposed)"

definition member_authority_ok :: "graph_context \<Rightarrow> string \<Rightarrow> task \<Rightarrow> bool" where
  "member_authority_ok c i t \<longleftrightarrow> tk_graph_id t = Some (gc_graph_id c) \<and> tk_prerequisite_task_ids t = deps_of c i"

definition waiting_unless_ready :: "bool \<Rightarrow> task \<Rightarrow> task" where
  "waiting_unless_ready ready t = (if tk_status t = PENDING \<and> \<not> ready then t\<lparr>tk_status := WAITING_DEPENDENCIES\<rparr> else t)"

definition check_proposed :: "graph_context \<Rightarrow> (string, task) dict \<Rightarrow> task \<Rightarrow> (task \<times> task) result" where
  "check_proposed c current proposed =
     (if set (map fst current) \<noteq> set (map fst (gc_prerequisites c)) then Inl TaskGraphUnavailable
      else if \<not> list_all (\<lambda>(i, ps). set ps \<subseteq> set (map fst current)) (gc_prerequisites c) then Inl TaskGraphUnavailable
      else case dict_get current (tk_id proposed) of
        None \<Rightarrow> Inl TaskGraphUnavailable
      | Some prior \<Rightarrow> bind_res (group_adjusted c proposed) (\<lambda>proposed.
          if tk_status prior \<in> terminal_task_statuses \<and> proposed \<noteq> prior then Inl TaskGraphConflict
          else if \<not> list_all (\<lambda>(i, t). member_authority_ok c i t) current then Inl TaskGraphUnavailable
          else if \<not> member_authority_ok c (tk_id proposed) proposed then Inl TaskGraphConflict
          else
            let ready = deps_completed current (deps_of c (tk_id proposed))
            in if tk_status proposed \<in> executing_statuses \<and> \<not> ready then Inl TaskGraphConflict
               else if tk_status proposed = DEPENDENCY_SKIPPED \<and> tk_status prior \<noteq> tk_status proposed then Inl TaskGraphConflict
               else bind_res (copy_task (gc_digest c) (waiting_unless_ready ready proposed)) (\<lambda>proposed. Inr (prior, proposed))))"

text \<open>The events of the direct change itself, before anything is propagated.\<close>

definition direct_events :: "graph_context \<Rightarrow> (string, task) dict \<Rightarrow> task \<Rightarrow> task \<Rightarrow> bool \<Rightarrow> graph_plan \<Rightarrow> graph_plan result" where
  "direct_events c current prior proposed readiness_recorded p =
     bind_res (if tk_status prior \<notin> terminal_task_statuses \<and> tk_status proposed \<in> terminal_task_statuses
               then plan_event c TERMINAL_EVENT [] proposed p else Inr p) (\<lambda>p.
       if tk_status prior \<in> {PAUSED, BLOCKED, NEEDS_ATTENTION, WAITING_GROUP} \<and> tk_status proposed = PENDING
          \<and> deps_completed current (deps_of c (tk_id proposed)) \<and> \<not> readiness_recorded
       then plan_event c READY_EVENT (deps_of c (tk_id proposed)) proposed p else Inr p)"

definition plan_graph_transition :: "graph_context \<Rightarrow> (string, task) dict \<Rightarrow> task \<Rightarrow> bool \<Rightarrow> graph_plan result" where
  "plan_graph_transition c current proposed readiness_recorded =
     bind_res (check_proposed c current proposed) (\<lambda>(prior, proposed).
       bind_res (direct_events c current prior proposed readiness_recorded
           \<lparr>gp_tasks = dict_put (tk_id proposed) proposed current, gp_events = [], gp_settlements = []\<rparr>)
         (settle_members c))"

text \<open>The tasks a transition writes: those that differ from the current ones, in order of identity.\<close>

definition transition_tasks :: "(string, task) dict \<Rightarrow> graph_plan \<Rightarrow> task list" where
  "transition_tasks current p = concat (map (\<lambda>i. case dict_get (gp_tasks p) i of
       None \<Rightarrow> [] | Some t \<Rightarrow> if dict_get current i = Some t then [] else [t]) (sort (map fst (gp_tasks p))))"

end
