(* ===== verification/Task_Store.thy ===== *)
theory Task_Store
  imports Task_Authority Retry_Budget Task_Graphs
begin

text \<open>
  The state of \<open>InMemoryTaskStore\<close> (\<open>src/cayu/tasks/memory.py\<close>) and the writes every operation ends in:
  preparation and publication of one task (\<open>_prepare_task_write\<close>, \<open>_publish_prepared_task_write\<close>), the
  topology indices, and the transaction of a graph member (\<open>_memory_graphs.py\<close>).  Task groups are not
  modelled: the store has no groups, so the group branches of \<open>store_graph_task\<close> are absent.
\<close>

section \<open>State\<close>

text \<open>
  The two clocks of the store: the \<open>n\<close>-th reading of each is a function of \<open>n\<close>, and the store counts its
  readings.  \<open>digest\<close> is SHA-256 over canonical JSON.
\<close>

record store_env =
  te_digest :: "json \<Rightarrow> string"
  te_clock :: "nat \<Rightarrow> datetime"
  te_ownership_clock :: "nat \<Rightarrow> datetime"

text \<open>The fields of a local execution attempt the task store reads; its own operations are not modelled.\<close>

record local_attempt =
  la_task_id :: string
  la_retry_series_id :: "string option"
  la_retry_admissible :: bool

record task_store =
  ts_tasks :: "(string, task) dict"
  ts_creation_receipts :: "(string, string) dict"
  ts_retry_keys :: "(string, retry_key_state) dict"
  ts_retired_sessions :: "string list"
  ts_graph_receipts :: "(string, graph_receipt) dict"
  ts_graph_members :: "(string, (string, string list) dict) dict"
  ts_graph_events :: "(string, graph_event list) dict"
  ts_graph_by_task :: "(string, string) dict"
  ts_graph_terminal_members :: "(string, graph_member) dict"
  ts_schedule_receipts :: "(string \<times> string, schedule_receipt) dict"
  ts_schedule_events :: "(string, schedule_event list) dict"
  ts_closing_sessions :: "string list"
  ts_handoff_index :: "(string, string) dict"
  ts_continuation_claims :: "(string, string \<times> string \<times> string option) dict"
  ts_terminalization_receipts :: "(string \<times> string, terminalization_receipt) dict"
  ts_handoff_receipts :: "(string \<times> string, handoff_receipt) dict"
  ts_retry_settlements :: "(string \<times> string, retry_settlement) dict"
  ts_admissions :: "(string, string) dict"
  ts_retired_contract_bindings :: "string list"
  ts_local_attempts :: "local_attempt list"
  ts_ordinary_sessions :: "string list"
  ts_work_contracts :: "(string \<times> int, string) dict"
  ts_contracted_sessions :: "(string, string list) dict"
  ts_session_keys :: "(string, (datetime \<times> string) list) dict"
  ts_parent_keys :: "(string, (datetime \<times> string) list) dict"
  ts_clock_reads :: nat
  ts_lease_reads :: nat

definition new_task_store :: task_store where
  "new_task_store = \<lparr>ts_tasks = [], ts_creation_receipts = [], ts_retry_keys = [], ts_retired_sessions = [],
     ts_graph_receipts = [], ts_graph_members = [], ts_graph_events = [], ts_graph_by_task = [],
     ts_graph_terminal_members = [], ts_schedule_receipts = [], ts_schedule_events = [], ts_closing_sessions = [],
     ts_handoff_index = [], ts_continuation_claims = [], ts_terminalization_receipts = [], ts_handoff_receipts = [],
     ts_retry_settlements = [], ts_admissions = [], ts_retired_contract_bindings = [], ts_local_attempts = [],
     ts_ordinary_sessions = [], ts_work_contracts = [], ts_contracted_sessions = [], ts_session_keys = [], ts_parent_keys = [],
     ts_clock_reads = 0, ts_lease_reads = 0\<rparr>"

type_synonym 'a store_action = "(task_store, 'a) action"

definition read_clock :: "store_env \<Rightarrow> datetime store_action" where
  "read_clock env s = (Inr (te_clock env (ts_clock_reads s)), s\<lparr>ts_clock_reads := ts_clock_reads s + 1\<rparr>)"

definition read_ownership_clock :: "store_env \<Rightarrow> datetime store_action" where
  "read_ownership_clock env s = (Inr (te_ownership_clock env (ts_lease_reads s)), s\<lparr>ts_lease_reads := ts_lease_reads s + 1\<rparr>)"

definition require_task :: "string \<Rightarrow> task store_action" where
  "require_task task_id = query_act (\<lambda>s. case dict_get (ts_tasks s) task_id of None \<Rightarrow> Inl KeyError | Some t \<Rightarrow> Inr t)"

definition list_at :: "('k, 'v list) dict \<Rightarrow> 'k \<Rightarrow> 'v list" where
  "list_at d k = (case dict_get d k of None \<Rightarrow> [] | Some xs \<Rightarrow> xs)"

definition task_admitted :: "string \<Rightarrow> task_store \<Rightarrow> bool" where
  "task_admitted task_id s \<longleftrightarrow> dict_get (ts_admissions s) task_id \<noteq> None"

definition task_has_unsettled_local_execution_attempt :: "string \<Rightarrow> task_store \<Rightarrow> bool" where
  "task_has_unsettled_local_execution_attempt task_id s =
     (let series = (case dict_get (ts_tasks s) task_id of
          None \<Rightarrow> None | Some t \<Rightarrow> map_option rs_series_id (tk_retry_series t))
      in list_ex (\<lambda>a. \<not> la_retry_admissible a \<and>
           (la_task_id a = task_id \<or> series \<noteq> None \<and> la_retry_series_id a = series)) (ts_local_attempts s))"

section \<open>Topology indices\<close>

text \<open>Sorted lists of creation time and identity, one for every session and every parent.\<close>

type_synonym task_index = "(string, (datetime \<times> string) list) dict"

definition task_key :: "task \<Rightarrow> datetime \<times> string" where
  "task_key t = (tk_created_at t, tk_id t)"

definition index_has :: "task_index \<Rightarrow> string option \<Rightarrow> task \<Rightarrow> bool" where
  "index_has index scope t = (case scope of
       None \<Rightarrow> True
     | Some sc \<Rightarrow>
         let keys = list_at index sc; position = bisect_left keys (task_key t)
         in position < length keys \<and> keys ! position = task_key t)"

definition add_task_index_entry :: "string option \<Rightarrow> task \<Rightarrow> task_index \<Rightarrow> task_index" where
  "add_task_index_entry scope t index = (case scope of
       None \<Rightarrow> index
     | Some sc \<Rightarrow> dict_put sc (py_insort (task_key t) (list_at index sc)) index)"

definition remove_task_index_entry :: "string option \<Rightarrow> task \<Rightarrow> task_index \<Rightarrow> task_index result" where
  "remove_task_index_entry scope t index = (case scope of
       None \<Rightarrow> Inr index
     | Some sc \<Rightarrow> (case dict_get index sc of
           None \<Rightarrow> Inl TaskTopologyInconsistent
         | Some keys \<Rightarrow>
             let position = bisect_left keys (task_key t)
             in if position \<ge> length keys \<or> keys ! position \<noteq> task_key t then Inl TaskTopologyInconsistent
                else
                  let rest = take position keys @ drop (position + 1) keys
                  in Inr (if rest = [] then dict_del sc index else dict_put sc rest index)))"

definition contract_binding_retired :: "string \<Rightarrow> task_store \<Rightarrow> bool" where
  "contract_binding_retired task_id s \<longleftrightarrow> task_id \<in> set (ts_retired_contract_bindings s)"

definition contracted_scope :: "task \<Rightarrow> task_store \<Rightarrow> string option" where
  "contracted_scope t s = (if tk_work_contract t = None \<or> contract_binding_retired (tk_id t) s then None else tk_session_id t)"

definition add_contracted_session_index_entry :: "task \<Rightarrow> task_store \<Rightarrow> task_store" where
  "add_contracted_session_index_entry t s = (case contracted_scope t s of
       None \<Rightarrow> s
     | Some sc \<Rightarrow>
         let ids = list_at (ts_contracted_sessions s) sc
         in s\<lparr>ts_contracted_sessions := dict_put sc (if tk_id t \<in> set ids then ids else ids @ [tk_id t]) (ts_contracted_sessions s)\<rparr>)"

definition remove_contracted_session_index_entry :: "task \<Rightarrow> unit store_action" where
  "remove_contracted_session_index_entry t s = (case contracted_scope t s of
       None \<Rightarrow> (Inr (), s)
     | Some sc \<Rightarrow>
         let ids = list_at (ts_contracted_sessions s) sc
         in if tk_id t \<notin> set ids then (Inl TaskTopologyInconsistent, s)
            else (Inr (), s\<lparr>ts_contracted_sessions :=
              (if removeAll (tk_id t) ids = [] then dict_del sc (ts_contracted_sessions s)
               else dict_put sc (removeAll (tk_id t) ids) (ts_contracted_sessions s))\<rparr>))"

definition remove_session_key :: "task \<Rightarrow> unit store_action" where
  "remove_session_key t s = (case remove_task_index_entry (tk_session_id t) t (ts_session_keys s) of
       Inl e \<Rightarrow> (Inl e, s) | Inr index \<Rightarrow> (Inr (), s\<lparr>ts_session_keys := index\<rparr>))"

definition remove_parent_key :: "task \<Rightarrow> unit store_action" where
  "remove_parent_key t s = (case remove_task_index_entry (tk_parent_task_id t) t (ts_parent_keys s) of
       Inl e \<Rightarrow> (Inl e, s) | Inr index \<Rightarrow> (Inr (), s\<lparr>ts_parent_keys := index\<rparr>))"

section \<open>One task\<close>

record prepared_write =
  pw_task :: task
  pw_prior :: "task option"
  pw_events :: "schedule_event list"

definition session_closing :: "string option \<Rightarrow> task_store \<Rightarrow> bool" where
  "session_closing session s = (case session of None \<Rightarrow> False | Some x \<Rightarrow> x \<in> set (ts_closing_sessions s))"

definition topology_complete :: "task \<Rightarrow> task_store \<Rightarrow> bool" where
  "topology_complete prior s \<longleftrightarrow> index_has (ts_session_keys s) (tk_session_id prior) prior \<and>
     index_has (ts_parent_keys s) (tk_parent_task_id prior) prior \<and>
     (case contracted_scope prior s of None \<Rightarrow> True | Some sc \<Rightarrow> tk_id prior \<in> set (list_at (ts_contracted_sessions s) sc))"

definition handoff_taken :: "task \<Rightarrow> task_store \<Rightarrow> bool" where
  "handoff_taken t s = (case tk_interrupted_handoff_id t of
       None \<Rightarrow> False
     | Some h \<Rightarrow> (case dict_get (ts_handoff_index s) h of None \<Rightarrow> False | Some i \<Rightarrow> i \<noteq> tk_id t))"

definition prepare_task_write :: "store_env \<Rightarrow> task \<Rightarrow> string option \<Rightarrow> task_store \<Rightarrow> prepared_write result" where
  "prepare_task_write env t operation_id s =
     (let prior = dict_get (ts_tasks s) (tk_id t)
      in if prior = None \<and> dict_get (ts_creation_receipts s) (tk_id t) \<noteq> None then Inl TaskCreationConflict
         else if session_closing (tk_session_id t) s
           \<or> (case prior of None \<Rightarrow> False | Some p \<Rightarrow> session_closing (tk_session_id p) s) then Inl ValueError
         else bind_res (if tk_work_contract t \<noteq> None then copy_task (te_digest env) t else Inr t) (\<lambda>t.
           bind_res (schedule_transition_events prior t (int (length (list_at (ts_schedule_events s) (tk_id t))) + 1) operation_id) (\<lambda>events.
             if handoff_taken t s then Inl TaskClaimLost
             else if (case prior of None \<Rightarrow> False | Some p \<Rightarrow> \<not> topology_complete p s) then Inl TaskTopologyInconsistent
             else Inr \<lparr>pw_task = t, pw_prior = prior, pw_events = events\<rparr>)))"

text \<open>The accounting of the event a task was made for.\<close>

definition observe_event :: "store_env \<Rightarrow> prepared_write \<Rightarrow> datetime option \<Rightarrow> unit store_action" where
  "observe_event env w event_now s = (case ti_event_retry_key (tk_invocation (pw_task w)) of
       None \<Rightarrow> (Inr (), s)
     | Some key \<Rightarrow> (case dict_get (ts_retry_keys s) key of
           None \<Rightarrow> (Inr (), s)
         | Some state \<Rightarrow>
             bind_act (case event_now of None \<Rightarrow> read_clock env | Some now \<Rightarrow> return_act now) (\<lambda>now.
               bind_act (lift_res (observe_task_retry_key_transition state (pw_prior w) (pw_task w) now)) (\<lambda>state.
                 modify_act (\<lambda>s. s\<lparr>ts_retry_keys := dict_put key state (ts_retry_keys s)\<rparr>))) s))"

definition prior_handoff :: "task option \<Rightarrow> string option" where
  "prior_handoff prior = (case prior of None \<Rightarrow> None | Some p \<Rightarrow> tk_interrupted_handoff_id p)"

definition update_handoff_index :: "task option \<Rightarrow> task \<Rightarrow> (string, string) dict \<Rightarrow> (string, string) dict" where
  "update_handoff_index prior t index =
     (if prior_handoff prior = tk_interrupted_handoff_id t then index
      else
        let index = (case prior_handoff prior of None \<Rightarrow> index | Some h \<Rightarrow> dict_del h index)
        in (case tk_interrupted_handoff_id t of None \<Rightarrow> index | Some h \<Rightarrow> dict_put h (tk_id t) index))"

definition same_topology :: "task \<Rightarrow> task \<Rightarrow> bool" where
  "same_topology p t \<longleftrightarrow> tk_created_at p = tk_created_at t \<and> tk_session_id p = tk_session_id t \<and>
     tk_parent_task_id p = tk_parent_task_id t \<and> (tk_work_contract p = None \<longleftrightarrow> tk_work_contract t = None)"

definition put_task :: "task \<Rightarrow> task_store \<Rightarrow> task_store" where
  "put_task t s = s\<lparr>ts_tasks := dict_put (tk_id t) t (ts_tasks s)\<rparr>"

definition add_index_entries :: "task \<Rightarrow> task_store \<Rightarrow> task_store" where
  "add_index_entries t s = add_contracted_session_index_entry t
     (s\<lparr>ts_session_keys := add_task_index_entry (tk_session_id t) t (ts_session_keys s),
        ts_parent_keys := add_task_index_entry (tk_parent_task_id t) t (ts_parent_keys s)\<rparr>)"

definition append_schedule_events :: "string \<Rightarrow> schedule_event list \<Rightarrow> task_store \<Rightarrow> task_store" where
  "append_schedule_events task_id events s = (if events = [] then s
     else s\<lparr>ts_schedule_events := dict_put task_id (list_at (ts_schedule_events s) task_id @ events) (ts_schedule_events s)\<rparr>)"

definition publish_prepared_task_write :: "store_env \<Rightarrow> datetime option \<Rightarrow> prepared_write \<Rightarrow> unit store_action" where
  "publish_prepared_task_write env event_now w =
     (let t = pw_task w; prior = pw_prior w
      in bind_act (observe_event env w event_now) (\<lambda>_.
         bind_act (modify_act (\<lambda>s. s\<lparr>ts_handoff_index := update_handoff_index prior t (ts_handoff_index s)\<rparr>)) (\<lambda>_.
         if (case prior of None \<Rightarrow> False | Some p \<Rightarrow> same_topology p t)
         then modify_act (append_schedule_events (tk_id t) (pw_events w) \<circ> put_task t)
         else
           bind_act (case prior of
               None \<Rightarrow> return_act ()
             | Some p \<Rightarrow> bind_act (remove_session_key p) (\<lambda>_. bind_act (remove_parent_key p) (\<lambda>_.
                 remove_contracted_session_index_entry p))) (\<lambda>_.
             modify_act (append_schedule_events (tk_id t) (pw_events w) \<circ> add_index_entries t \<circ> put_task t)))))"

definition store_task_without_graph :: "store_env \<Rightarrow> task \<Rightarrow> string option \<Rightarrow> unit store_action" where
  "store_task_without_graph env t operation_id =
     bind_act (query_act (prepare_task_write env t operation_id)) (publish_prepared_task_write env None)"

section \<open>A member of a graph\<close>

definition graph_tasks :: "string \<Rightarrow> task_store \<Rightarrow> (string, task) dict result" where
  "graph_tasks graph_id s = (case (dict_get (ts_graph_receipts s) graph_id, dict_get (ts_graph_members s) graph_id) of
       (Some receipt, Some members) \<Rightarrow>
         bind_res (require_graph_membership graph_id receipt members) (\<lambda>_.
           traverse_res (\<lambda>(i, _). case dict_get (ts_tasks s) i of None \<Rightarrow> Inl TaskGraphUnavailable | Some t \<Rightarrow> Inr (i, t)) members)
     | _ \<Rightarrow> Inl KeyError)"

definition graph_context_of :: "store_env \<Rightarrow> string \<Rightarrow> datetime \<Rightarrow> task_store \<Rightarrow> graph_context" where
  "graph_context_of env graph_id now s =
     \<lparr>gc_digest = te_digest env, gc_graph_id = graph_id, gc_prerequisites = list_at (ts_graph_members s) graph_id,
      gc_first_sequence = int (length (list_at (ts_graph_events s) graph_id)) + 1, gc_now = now,
      gc_group_waiting_task_id = None\<rparr>"

definition readiness_recorded :: "string \<Rightarrow> string \<Rightarrow> task_store \<Rightarrow> bool" where
  "readiness_recorded graph_id task_id s \<longleftrightarrow>
     list_ex (\<lambda>e. ge_type e = READY_EVENT \<and> ge_task_id e = Some task_id) (list_at (ts_graph_events s) graph_id)"

text \<open>Everything a graph transition writes once it is planned.\<close>

record graph_writes =
  gw_writes :: "prepared_write list"
  gw_terminal :: "(string \<times> graph_member) list"

definition terminal_members_of :: "task list \<Rightarrow> (string, string list) dict \<Rightarrow> (string \<times> graph_member) list result" where
  "terminal_members_of ts members =
     traverse_res (\<lambda>u. bind_res (member_from_task u) (\<lambda>m. Inr (tk_id u, m)))
       (filter (\<lambda>u. tk_status u \<in> terminal_task_statuses \<and> dict_get members (tk_id u) \<noteq> None) ts)"

definition prepare_graph_writes :: "store_env \<Rightarrow> string \<Rightarrow> task \<Rightarrow> string option \<Rightarrow> task list \<Rightarrow> task_store \<Rightarrow> graph_writes result" where
  "prepare_graph_writes env graph_id t operation_id ts s =
     (if list_ex (\<lambda>u. session_closing (tk_session_id u) s) ts then Inl TaskGraphConflict
      else bind_res (traverse_res (\<lambda>u. prepare_task_write env u (if tk_id u = tk_id t then operation_id else None) s) ts) (\<lambda>writes.
        bind_res (terminal_members_of ts (list_at (ts_graph_members s) graph_id)) (\<lambda>terminal.
          Inr \<lparr>gw_writes = writes, gw_terminal = terminal\<rparr>)))"

definition put_settlement :: "retry_settlement \<Rightarrow> task_store \<Rightarrow> task_store" where
  "put_settlement r s = s\<lparr>ts_retry_settlements := dict_put (sr_task_id r, sr_idempotency_key r) r (ts_retry_settlements s)\<rparr>"

definition record_graph_transition :: "string \<Rightarrow> graph_plan \<Rightarrow> (string \<times> graph_member) list \<Rightarrow> task_store \<Rightarrow> task_store" where
  "record_graph_transition graph_id plan terminal s =
     (let s = fold put_settlement (gp_settlements plan) s
      in s\<lparr>ts_graph_terminal_members := dict_merge (ts_graph_terminal_members s) terminal,
           ts_graph_events := dict_put graph_id (list_at (ts_graph_events s) graph_id @ gp_events plan) (ts_graph_events s)\<rparr>)"

definition graph_transaction :: "store_env \<Rightarrow> string \<Rightarrow> task \<Rightarrow> string option \<Rightarrow> task option \<Rightarrow> unit store_action" where
  "graph_transaction env graph_id t operation_id successor =
     bind_act (query_act (graph_tasks graph_id)) (\<lambda>current.
     bind_act (read_ownership_clock env) (\<lambda>now.
     bind_act (query_act (\<lambda>s. plan_graph_transition (graph_context_of env graph_id now s) current t
         (readiness_recorded graph_id (tk_id t) s))) (\<lambda>plan.
     bind_act (query_act (prepare_graph_writes env graph_id t operation_id
         (transition_tasks current plan @ (case successor of None \<Rightarrow> [] | Some u \<Rightarrow> [u])))) (\<lambda>gw.
     bind_act (each_act (publish_prepared_task_write env None) (gw_writes gw)) (\<lambda>_.
     modify_act (record_graph_transition graph_id plan (gw_terminal gw)))))))"

definition store_graph_task :: "store_env \<Rightarrow> task \<Rightarrow> string option \<Rightarrow> task option \<Rightarrow> bool store_action" where
  "store_graph_task env t operation_id successor s = (case dict_get (ts_graph_by_task s) (tk_id t) of
       None \<Rightarrow> (if tk_graph_id t \<noteq> None \<or> tk_prerequisite_task_ids t \<noteq> [] then Inl TaskGraphUnavailable else Inr False, s)
     | Some graph_id \<Rightarrow>
         if dict_get (ts_tasks s) (tk_id t) = None then (Inl TaskGraphConflict, s)
         else bind_act (graph_transaction env graph_id t operation_id successor) (\<lambda>_. return_act True) s)"

definition store_task :: "store_env \<Rightarrow> task \<Rightarrow> string option \<Rightarrow> unit store_action" where
  "store_task env t operation_id = bind_act (store_graph_task env t operation_id None) (\<lambda>stored.
     if stored then return_act () else store_task_without_graph env t operation_id)"

end
