(* ===== verification/Task_Claims.thy ===== *)
theory Task_Claims
  imports Task_Store
begin

text \<open>
  The operations of \<open>InMemoryTaskStore\<close> that grant, extend and give back the lease of a worker over a task
  (\<open>src/cayu/tasks/memory.py\<close>), and the selection rules of \<open>queries.py\<close>.  The resource-access bounds of the
  caller are not modelled: every caller sees every task.
\<close>

section \<open>Queries\<close>

record task_query =
  qy_q :: "string option"
  qy_status :: "task_status option"
  qy_type :: "string option"
  qy_session_id :: "string option"
  qy_parent_task_id :: "string option"
  qy_assigned_agent_name :: "string option"
  qy_has_work_contract :: "bool option"
  qy_fenced_after_worker_loss :: "bool option"
  qy_limit :: int
  qy_offset :: int

definition any_task :: task_query where
  "any_task = \<lparr>qy_q = None, qy_status = None, qy_type = None, qy_session_id = None, qy_parent_task_id = None,
     qy_assigned_agent_name = None, qy_has_work_contract = None, qy_fenced_after_worker_loss = None,
     qy_limit = 100, qy_offset = 0\<rparr>"

definition task_query_valid :: "task_query \<Rightarrow> bool" where
  "task_query_valid y \<longleftrightarrow> opt_holds durable_clean (qy_q y) \<and> opt_holds durable_clean (qy_type y) \<and>
     opt_holds durable_clean (qy_session_id y) \<and> opt_holds durable_clean (qy_parent_task_id y) \<and>
     opt_holds durable_clean (qy_assigned_agent_name y) \<and> 1 \<le> qy_limit y \<and> qy_limit y \<le> 1000 \<and>
     0 \<le> qy_offset y \<and> qy_offset y \<le> max_durable_json_integer"

definition ensure_claim_query_supported :: "task_query \<Rightarrow> unit result" where
  "ensure_claim_query_supported y = raise_if (\<not> task_query_valid y \<or> qy_q y \<noteq> None \<or> qy_session_id y \<noteq> None
     \<or> qy_fenced_after_worker_loss y \<noteq> None \<or> qy_limit y \<noteq> qy_limit any_task \<or> qy_offset y \<noteq> qy_offset any_task) ValueError"

definition task_matches_claim_filter :: "task \<Rightarrow> task_query \<Rightarrow> bool" where
  "task_matches_claim_filter t y \<longleftrightarrow>
     opt_holds (\<lambda>b. (tk_work_contract t \<noteq> None) = b) (qy_has_work_contract y) \<and>
     opt_holds (\<lambda>x. tk_type t = x) (qy_type y) \<and>
     opt_holds (\<lambda>x. tk_parent_task_id t = Some x) (qy_parent_task_id y) \<and>
     opt_holds (\<lambda>x. tk_assigned_agent_name t = Some x) (qy_assigned_agent_name y)"

definition oldest_first :: "task list \<Rightarrow> task list" where
  "oldest_first = sort_key task_key"

definition stalest_first :: "task list \<Rightarrow> task list" where
  "stalest_first = sort_key (\<lambda>t. (tk_updated_at t, tk_id t))"

section \<open>Arguments\<close>

definition clean_arguments :: "string list \<Rightarrow> unit result" where
  "clean_arguments xs = raise_if (\<not> list_all durable_clean xs) ValueError"

definition positive_argument :: "int \<Rightarrow> unit result" where
  "positive_argument n = raise_if (n < 1) ValueError"

definition linked_id_ok :: "string \<Rightarrow> bool" where
  "linked_id_ok x \<longleftrightarrow> durable_clean x \<and> utf8_bytes x \<le> 2048"

definition require_owned_leased_task :: "string \<Rightarrow> string \<Rightarrow> datetime \<Rightarrow> task store_action" where
  "require_owned_leased_task task_id worker now = bind_act (require_task task_id) (\<lambda>t.
     bind_act (lift_res (ensure_owned_active_task_lease t worker now)) (\<lambda>_. return_act t))"

definition refuse_admitted :: "string \<Rightarrow> err \<Rightarrow> unit store_action" where
  "refuse_admitted task_id e = query_act (\<lambda>s. raise_if (task_admitted task_id s) e)"

definition ensure_contract_session_accepts_attachment :: "json_object option \<Rightarrow> string option \<Rightarrow> bool \<Rightarrow> unit store_action" where
  "ensure_contract_session_accepts_attachment contract session require_session = query_act (\<lambda>s.
     if contract = None then Inr ()
     else case session of
       None \<Rightarrow> raise_if require_session WorkCompletionConflict
     | Some sid \<Rightarrow>
         if \<not> linked_id_ok sid then Inl ValueError
         else raise_if (sid \<in> set (ts_ordinary_sessions s)) WorkCompletionConflict)"

text \<open>Store a task and return it.\<close>

definition store_and_return :: "store_env \<Rightarrow> task \<Rightarrow> task store_action" where
  "store_and_return env t = bind_act (store_task env t None) (\<lambda>_. return_act t)"

section \<open>Concurrency keys\<close>

definition holds_live_key_lease :: "task \<Rightarrow> datetime \<Rightarrow> bool" where
  "holds_live_key_lease t now \<longleftrightarrow> tk_concurrency_key t \<noteq> None \<and> tk_status t \<in> {CLAIMED, RUNNING} \<and>
     tk_worker_id t \<noteq> None \<and> live_lease t now"

definition live_concurrency_keys :: "datetime \<Rightarrow> task_store \<Rightarrow> string list" where
  "live_concurrency_keys now s =
     concat (map (\<lambda>t. case tk_concurrency_key t of None \<Rightarrow> [] | Some k \<Rightarrow> if holds_live_key_lease t now then [k] else [])
       (dict_values (ts_tasks s)))"

definition key_active :: "task \<Rightarrow> datetime \<Rightarrow> task_store \<Rightarrow> bool" where
  "key_active t now s = (case tk_concurrency_key t of None \<Rightarrow> False | Some k \<Rightarrow> k \<in> set (live_concurrency_keys now s))"

section \<open>Claim\<close>

definition expire_elapsed_attempt :: "store_env \<Rightarrow> datetime \<Rightarrow> datetime \<Rightarrow> task \<Rightarrow> unit store_action" where
  "expire_elapsed_attempt env availability_now now t s =
     (if task_retry_attempt_elapsed t availability_now \<and> \<not> task_has_unsettled_local_execution_attempt (tk_id t) s
      then bind_act (lift_res (expired_task_retry_settlement (te_digest env) t now availability_now)) (\<lambda>r.
        bind_act (store_task env (sr_task r) None) (\<lambda>_. modify_act (put_settlement r))) s
      else (Inr (), s))"

definition awaits_schedule :: "task \<Rightarrow> task_query \<Rightarrow> task_store \<Rightarrow> bool" where
  "awaits_schedule t y s \<longleftrightarrow> (case tk_schedule t of None \<Rightarrow> False | Some c \<Rightarrow> ss_admitted_at c = None) \<and>
     tk_status t \<in> {PENDING, WAITING_DEPENDENCIES, WAITING_GROUP, PAUSED, BLOCKED, NEEDS_ATTENTION} \<and>
     tk_session_id t = None \<and> task_matches_claim_filter t y \<and>
     \<not> task_has_unsettled_local_execution_attempt (tk_id t) s"

definition schedule_phase :: "task \<Rightarrow> datetime \<Rightarrow> schedule_eligibility result" where
  "schedule_phase t as_of = (case (tk_schedule t, tk_available_at t) of
       (Some c, Some a) \<Rightarrow> task_schedule_eligibility a (ss_policy c) as_of
     | _ \<Rightarrow> Inl AssertionError)"

definition settle_missed_schedule :: "store_env \<Rightarrow> task_query \<Rightarrow> datetime \<Rightarrow> datetime \<Rightarrow> string \<Rightarrow> unit store_action" where
  "settle_missed_schedule env y availability_now now task_id =
     bind_act (require_task task_id) (\<lambda>t s.
       if \<not> awaits_schedule t y s then (Inr (), s)
       else bind_act (lift_res (schedule_phase t availability_now)) (\<lambda>phase.
         if phase \<notin> {SCHEDULE_EXPIRED, SCHEDULE_SKIPPED} then return_act ()
         else bind_act (lift_res (scheduled_task_nonexecution (te_digest env) t phase now)) (\<lambda>(terminal, settlement).
           bind_act (store_task env terminal None) (\<lambda>_.
             case settlement of None \<Rightarrow> return_act ()
             | Some r \<Rightarrow> modify_act (\<lambda>s. s\<lparr>ts_retry_settlements :=
                 dict_put (tk_id terminal, sr_idempotency_key r) r (ts_retry_settlements s)\<rparr>)))) s)"

definition claimable :: "task_query \<Rightarrow> string \<Rightarrow> datetime \<Rightarrow> datetime \<Rightarrow> task_store \<Rightarrow> task \<Rightarrow> bool" where
  "claimable y worker availability_now now s t \<longleftrightarrow> tk_status t = PENDING \<and> tk_session_id t = None \<and>
     (case tk_available_at t of None \<Rightarrow> True | Some a \<Rightarrow> a \<le> availability_now) \<and>
     \<not> task_retry_attempt_elapsed t availability_now \<and>
     (tk_retry_series t = None \<or> utf8_bytes worker \<le> 1024) \<and>
     \<not> task_has_unsettled_local_execution_attempt (tk_id t) s \<and> task_matches_claim_filter t y \<and>
     \<not> key_active t now s"

definition claimed_task :: "task \<Rightarrow> string \<Rightarrow> int \<Rightarrow> datetime \<Rightarrow> datetime \<Rightarrow> task result" where
  "claimed_task t worker lease_seconds availability_now now =
     (if tk_work_contract t \<noteq> None \<and> \<not> linked_id_ok worker then Inl ValueError
      else bind_res (admitted_schedule t availability_now) (\<lambda>schedule.
        bind_res (add_duration now (seconds lease_seconds)) (\<lambda>lease.
          Inr (t\<lparr>tk_status := CLAIMED, tk_schedule := schedule, tk_worker_id := Some worker,
            tk_lease_expires_at := Some lease, tk_updated_at := now\<rparr>))))"

definition claim_oldest :: "store_env \<Rightarrow> string \<Rightarrow> task_query \<Rightarrow> int \<Rightarrow> datetime \<Rightarrow> datetime \<Rightarrow> task option store_action" where
  "claim_oldest env worker y lease_seconds availability_now now s =
     (case oldest_first (filter (claimable y worker availability_now now s) (dict_values (ts_tasks s))) of
        [] \<Rightarrow> (Inr None, s)
      | t # _ \<Rightarrow> bind_act (lift_res (claimed_task t worker lease_seconds availability_now now)) (\<lambda>u.
          bind_act (store_task env u None) (\<lambda>_. return_act (Some u))) s)"

definition claim_task :: "store_env \<Rightarrow> string \<Rightarrow> task_query \<Rightarrow> int \<Rightarrow> task option store_action" where
  "claim_task env worker y lease_seconds =
     bind_act (lift_res (clean_arguments [worker])) (\<lambda>_.
     bind_act (lift_res (ensure_claim_query_supported y)) (\<lambda>_.
     bind_act (lift_res (positive_argument lease_seconds)) (\<lambda>_.
       if qy_status y \<noteq> None \<and> qy_status y \<noteq> Some PENDING then return_act None
       else
         bind_act (read_clock env) (\<lambda>availability_now.
         bind_act (read_ownership_clock env) (\<lambda>now.
         bind_act (query_act (\<lambda>s. Inr (dict_values (ts_tasks s)))) (\<lambda>snapshot.
         bind_act (each_act (expire_elapsed_attempt env availability_now now) snapshot) (\<lambda>_.
         bind_act (query_act (\<lambda>s. Inr (dict_values (ts_tasks s)))) (\<lambda>snapshot.
         bind_act (each_act (settle_missed_schedule env y availability_now now) (map tk_id snapshot)) (\<lambda>_.
         claim_oldest env worker y lease_seconds availability_now now)))))))))"

section \<open>Keeping and giving back a lease\<close>

definition require_expected_lease :: "task \<Rightarrow> datetime \<Rightarrow> unit result" where
  "require_expected_lease t lease = raise_if (tk_lease_expires_at t \<noteq> Some lease) TaskClaimLost"

definition heartbeat_task :: "store_env \<Rightarrow> string \<Rightarrow> string \<Rightarrow> datetime \<Rightarrow> string option \<Rightarrow> int \<Rightarrow> task store_action" where
  "heartbeat_task env task_id worker lease handoff extend_seconds =
     bind_act (lift_res (clean_arguments [task_id, worker])) (\<lambda>_.
     bind_act (lift_res (positive_argument extend_seconds)) (\<lambda>_.
     bind_act (read_ownership_clock env) (\<lambda>now.
     bind_act (require_owned_leased_task task_id worker now) (\<lambda>t.
     bind_act (lift_res (require_expected_lease t lease)) (\<lambda>_.
     bind_act (lift_res (ensure_task_handoff_authority t handoff)) (\<lambda>_.
     bind_act (refuse_admitted task_id WorkAttemptExecutionClaimLost) (\<lambda>_.
     bind_act (lift_res (add_duration now (seconds extend_seconds))) (\<lambda>extended.
     store_and_return env (t\<lparr>tk_lease_expires_at := Some extended, tk_updated_at := now\<rparr>)))))))))"

definition release_task :: "store_env \<Rightarrow> string \<Rightarrow> string \<Rightarrow> datetime \<Rightarrow> task store_action" where
  "release_task env task_id worker lease =
     bind_act (lift_res (clean_arguments [task_id, worker])) (\<lambda>_.
     bind_act (read_ownership_clock env) (\<lambda>now.
     bind_act (require_owned_leased_task task_id worker now) (\<lambda>t.
     bind_act (lift_res (require_expected_lease t lease)) (\<lambda>_.
     bind_act (refuse_admitted task_id WorkAttemptExecutionClaimLost) (\<lambda>_.
     bind_act (lift_res (raise_if (tk_session_id t \<noteq> None \<or> tk_status t \<noteq> CLAIMED) ValueError)) (\<lambda>_.
     bind_act (lift_res (raise_if (retry_cancellation_requested t \<or> task_cancellation_requested t) TaskTerminalizationConflict)) (\<lambda>_.
     store_and_return env (t\<lparr>tk_status := PENDING, tk_worker_id := None, tk_lease_expires_at := None,
       tk_started_at := None, tk_updated_at := now\<rparr>))))))))"

definition release_attached_task_worker :: "store_env \<Rightarrow> string \<Rightarrow> string \<Rightarrow> datetime \<Rightarrow> task store_action" where
  "release_attached_task_worker env task_id worker lease =
     bind_act (lift_res (clean_arguments [task_id, worker])) (\<lambda>_.
     bind_act (read_ownership_clock env) (\<lambda>now.
     bind_act (require_owned_leased_task task_id worker now) (\<lambda>t.
     bind_act (lift_res (require_expected_lease t lease)) (\<lambda>_.
     bind_act (refuse_admitted task_id WorkAttemptExecutionClaimLost) (\<lambda>_.
     bind_act (lift_res (raise_if (tk_status t \<noteq> RUNNING \<or> tk_session_id t = None) ValueError)) (\<lambda>_.
     bind_act (lift_res (raise_if (tk_interrupted_handoff_id t \<noteq> None) TaskInterruptedHandoffConflict)) (\<lambda>_.
     bind_act (lift_res (raise_if (task_cancellation_requested t) TaskTerminalizationConflict)) (\<lambda>_.
     store_and_return env (t\<lparr>tk_worker_id := None, tk_lease_expires_at := None, tk_updated_at := now\<rparr>)))))))))"

definition reclaimable :: "task_query \<Rightarrow> datetime \<Rightarrow> task_store \<Rightarrow> task \<Rightarrow> bool" where
  "reclaimable y now s t \<longleftrightarrow> tk_status t = CLAIMED \<and> tk_session_id t = None \<and>
     \<not> retry_cancellation_requested t \<and> \<not> task_cancellation_requested t \<and>
     \<not> task_has_unsettled_local_execution_attempt (tk_id t) s \<and>
     (case tk_lease_expires_at t of None \<Rightarrow> False | Some e \<Rightarrow> e \<le> now) \<and> task_matches_claim_filter t y"

definition reclaimed_task :: "task \<Rightarrow> datetime \<Rightarrow> task" where
  "reclaimed_task t now = t\<lparr>tk_status := PENDING, tk_worker_id := None, tk_lease_expires_at := None, tk_updated_at := now\<rparr>"

text \<open>A dispatched claim is fenced for reconciliation; one that was not dispatched goes back to the queue.\<close>

definition reclaim_one :: "store_env \<Rightarrow> datetime \<Rightarrow> task \<Rightarrow> task list store_action" where
  "reclaim_one env now t =
     (if tk_started_at t \<noteq> None
      then bind_act (lift_res (expired_dispatched_task_cancellation (te_digest env) t now None)) (\<lambda>u.
        bind_act (store_task env u None) (\<lambda>_. return_act []))
      else bind_act (store_task env (reclaimed_task t now) None) (\<lambda>_. return_act [reclaimed_task t now]))"

fun reclaim_each :: "store_env \<Rightarrow> datetime \<Rightarrow> task list \<Rightarrow> task list store_action" where
  "reclaim_each env now [] = return_act []"
| "reclaim_each env now (t # ts) = bind_act (reclaim_one env now t) (\<lambda>xs.
     bind_act (reclaim_each env now ts) (\<lambda>ys. return_act (xs @ ys)))"

definition reclaim_expired :: "store_env \<Rightarrow> task_query \<Rightarrow> int \<Rightarrow> task list store_action" where
  "reclaim_expired env y max_reclaims =
     bind_act (lift_res (ensure_claim_query_supported y)) (\<lambda>_.
     bind_act (lift_res (positive_argument max_reclaims)) (\<lambda>_.
       if qy_status y \<noteq> None \<and> qy_status y \<noteq> Some CLAIMED then return_act []
       else
         bind_act (read_ownership_clock env) (\<lambda>now.
         bind_act (query_act (\<lambda>s. Inr (take (nat max_reclaims)
             (stalest_first (filter (reclaimable y now s) (dict_values (ts_tasks s))))))) (\<lambda>expired.
         reclaim_each env now expired))))"

section \<open>Start and attachment\<close>

definition require_binding_session :: "task \<Rightarrow> string option \<Rightarrow> session_binding option \<Rightarrow> string option result" where
  "require_binding_session t session binding =
     bind_res (task_invocation_for_attachment (tk_invocation t) session binding) (\<lambda>_.
       task_session_instance_for_attachment (tk_session_instance_id t) session binding)"

definition attached_task :: "task \<Rightarrow> string option \<Rightarrow> string option \<Rightarrow> datetime \<Rightarrow> task" where
  "attached_task t session instance_id now = t\<lparr>tk_status := RUNNING, tk_session_id := session,
     tk_session_instance_id := instance_id,
     tk_started_at := Some (case tk_started_at t of None \<Rightarrow> now | Some x \<Rightarrow> x), tk_updated_at := now\<rparr>"

definition start_task :: "store_env \<Rightarrow> string \<Rightarrow> string option \<Rightarrow> session_binding option \<Rightarrow> task store_action" where
  "start_task env task_id session binding =
     bind_act (lift_res (clean_arguments (task_id # (case session of None \<Rightarrow> [] | Some x \<Rightarrow> [x])))) (\<lambda>_.
     bind_act (lift_res (copy_optional_session_binding binding)) (\<lambda>binding.
     bind_act (require_task task_id) (\<lambda>t.
     bind_act (lift_res (ensure_retry_series_queue_attempt t)) (\<lambda>_.
     bind_act (read_ownership_clock env) (\<lambda>now.
     bind_act (lift_res (ensure_can_transition t RUNNING)) (\<lambda>_.
     bind_act (lift_res (task_session_id_for_start (tk_session_id t) session)) (\<lambda>effective.
     bind_act (ensure_contract_session_accepts_attachment (tk_work_contract t) effective True) (\<lambda>_.
     bind_act (lift_res (require_binding_session t effective binding)) (\<lambda>instance_id.
     store_and_return env (attached_task t effective instance_id now))))))))))"

definition attach_task :: "store_env \<Rightarrow> string \<Rightarrow> string \<Rightarrow> session_binding \<Rightarrow> string \<Rightarrow> datetime option \<Rightarrow> task store_action" where
  "attach_task env task_id session binding worker lease =
     bind_act (lift_res (clean_arguments [task_id, session, worker])) (\<lambda>_.
     bind_act (lift_res (copy_session_binding binding)) (\<lambda>binding.
     bind_act (require_task task_id) (\<lambda>t.
     bind_act (lift_res (ensure_retry_series_queue_attempt t)) (\<lambda>_.
     bind_act (read_ownership_clock env) (\<lambda>now.
     bind_act (lift_res (if can_attach_claimed_task t worker now then Inr () else Inl (task_claim_attach_error t worker now))) (\<lambda>_.
     bind_act (lift_res (case lease of None \<Rightarrow> Inl TaskClaimLost
         | Some l \<Rightarrow> ensure_exact_owned_active_task_lease t worker l now)) (\<lambda>_.
     bind_act (ensure_contract_session_accepts_attachment (tk_work_contract t) (Some session) False) (\<lambda>_.
     bind_act (lift_res (require_binding_session t (Some session) (Some binding))) (\<lambda>instance_id.
     store_and_return env (attached_task t (Some session) instance_id now))))))))))"

definition mark_claimed_task_execution_started :: "store_env \<Rightarrow> string \<Rightarrow> string \<Rightarrow> datetime \<Rightarrow> task store_action" where
  "mark_claimed_task_execution_started env task_id worker lease =
     bind_act (lift_res (clean_arguments [task_id, worker])) (\<lambda>_.
     bind_act (read_ownership_clock env) (\<lambda>now.
     bind_act (require_task task_id) (\<lambda>t.
     bind_act (lift_res (raise_if (tk_worker_id t \<noteq> Some worker \<or> tk_lease_expires_at t \<noteq> Some lease) TaskClaimLost)) (\<lambda>_.
     bind_act (lift_res (ensure_owned_active_task_lease t worker now)) (\<lambda>_.
     bind_act (lift_res (raise_if (tk_status t \<noteq> CLAIMED \<or> tk_session_id t \<noteq> None \<or> task_cancellation_requested t
         \<or> retry_cancellation_requested t) TaskTerminalizationConflict)) (\<lambda>_.
     if tk_started_at t \<noteq> None then return_act t
     else bind_act (store_task env (t\<lparr>tk_started_at := Some now, tk_updated_at := now\<rparr>) None) (\<lambda>_. require_task task_id)))))))"

section \<open>Restarts\<close>

definition restart_task :: "store_env \<Rightarrow> string \<Rightarrow> string \<Rightarrow> datetime \<Rightarrow> task store_action" where
  "restart_task env task_id worker lease =
     bind_act (lift_res (clean_arguments [task_id, worker])) (\<lambda>_.
     bind_act (require_task task_id) (\<lambda>t.
     bind_act (refuse_admitted task_id WorkAttemptExecutionClaimLost) (\<lambda>_.
     bind_act (read_ownership_clock env) (\<lambda>now.
     bind_act (lift_res (restarted_task (te_digest env) t worker lease now)) (\<lambda>u.
     bind_act (modify_act (\<lambda>s. case tk_session_id t of None \<Rightarrow> s
         | Some x \<Rightarrow> s\<lparr>ts_retired_sessions := List.insert x (ts_retired_sessions s)\<rparr>)) (\<lambda>_.
     store_and_return env u))))))"

definition restart_abandoned_task :: "store_env \<Rightarrow> abandoned_restart_request \<Rightarrow> task store_action" where
  "restart_abandoned_task env q =
     bind_act (lift_res (raise_if (\<not> abandoned_restart_request_valid q) ValueError)) (\<lambda>_.
     bind_act (require_task (ar_task_id q)) (\<lambda>t.
     bind_act (refuse_admitted (ar_task_id q) WorkAttemptExecutionClaimLost) (\<lambda>_.
     bind_act (read_ownership_clock env) (\<lambda>now.
     bind_act (lift_res (abandoned_restarted_task (te_digest env) t q now)) (\<lambda>u.
     if u = t then return_act u else store_and_return env u)))))"

end
