(* ===== verification/Task_Outcomes.thy ===== *)
theory Task_Outcomes
  imports Task_Claims
begin

text \<open>
  The operations of \<open>InMemoryTaskStore\<close> that end, hold, resume and cancel a task
  (\<open>src/cayu/tasks/memory.py\<close>): completion, failure and cancellation, terminalization with a receipt,
  recovery of the failure of an attached task, and settlement of retry attempts.  The bounds on the size
  of result and error documents are not modelled.
\<close>

section \<open>The lease a mutation runs under\<close>

text \<open>
  A handler that runs under a managed worker (\<open>runtime/_task_lease_authority.py\<close>) presents the lease it
  was started with; the mutation uses the latest lease its worker acknowledged.  The authority bound to
  the calling handler is an argument.
\<close>

record lease_authority =
  al_task_id :: "string option"
  al_worker_id :: "string option"
  al_initial_lease :: datetime
  al_lease :: datetime
  al_handoff_id :: "string option"

definition lease_authority_matches :: "lease_authority \<Rightarrow> string \<Rightarrow> string \<Rightarrow> string option \<Rightarrow> datetime option \<Rightarrow> bool" where
  "lease_authority_matches a task_id worker handoff presented \<longleftrightarrow>
     al_task_id a = Some task_id \<and> al_worker_id a = Some worker \<and> al_handoff_id a = handoff \<and>
     (case presented of None \<Rightarrow> True | Some l \<Rightarrow> l \<in> {al_initial_lease a, al_lease a})"

definition effective_lease :: "lease_authority option \<Rightarrow> string \<Rightarrow> string option \<Rightarrow> string option \<Rightarrow> datetime option \<Rightarrow> datetime option" where
  "effective_lease authority task_id worker handoff presented = (case (worker, authority) of
       (Some w, Some a) \<Rightarrow> if lease_authority_matches a task_id w handoff presented then Some (al_lease a) else presented
     | _ \<Rightarrow> presented)"

section \<open>Ending a task\<close>

definition ensure_finishing_authority :: "task \<Rightarrow> string option \<Rightarrow> datetime option \<Rightarrow> string option \<Rightarrow> datetime \<Rightarrow> unit result" where
  "ensure_finishing_authority t worker lease handoff now = (case worker of
       None \<Rightarrow> Inr ()
     | Some w \<Rightarrow> bind_res (case lease of
           None \<Rightarrow> ensure_owned_active_task_lease t w now
         | Some l \<Rightarrow> ensure_exact_owned_active_task_lease t w l now) (\<lambda>_.
         ensure_task_handoff_authority t handoff))"

definition finished_task :: "task \<Rightarrow> task_status \<Rightarrow> json_object option \<Rightarrow> json_object option \<Rightarrow> datetime \<Rightarrow> task" where
  "finished_task t status result error now = t\<lparr>tk_status := status, tk_status_reason := None, tk_status_payload := None,
     tk_result := result, tk_error := error, tk_worker_id := None, tk_lease_expires_at := None,
     tk_interrupted_handoff_id := None, tk_started_at := Some (case tk_started_at t of None \<Rightarrow> now | Some x \<Rightarrow> x),
     tk_completed_at := Some now, tk_updated_at := now, tk_retry_series := None\<rparr>"

text \<open>A live worker is asked to stop before its task is cancelled.\<close>

definition drains_cancellation :: "task \<Rightarrow> task_status \<Rightarrow> bool" where
  "drains_cancellation t status \<longleftrightarrow> tk_status t \<in> {CLAIMED, RUNNING} \<and> status = CANCELLED \<and>
     tk_worker_id t \<noteq> None \<and> tk_lease_expires_at t \<noteq> None \<and> \<not> task_cancellation_requested t"

definition prepare_finished_task :: "store_env \<Rightarrow> string \<Rightarrow> task_status \<Rightarrow> json_object option \<Rightarrow> json_object option
    \<Rightarrow> string option \<Rightarrow> datetime option \<Rightarrow> string option \<Rightarrow> string option \<Rightarrow> datetime \<Rightarrow> task_store
    \<Rightarrow> (task \<times> retry_settlement option) result" where
  "prepare_finished_task env task_id status result error worker lease handoff decision now s =
     (case dict_get (ts_tasks s) task_id of
        None \<Rightarrow> Inl KeyError
      | Some t \<Rightarrow>
          bind_res (ensure_finishing_authority t worker lease handoff now) (\<lambda>_.
            if task_admitted task_id s \<and> decision = None then Inl WorkAttemptExecutionClaimLost
            else if status = COMPLETED \<and> tk_work_contract t \<noteq> None \<and> decision = None then Inl TaskCompletionDecisionRequired
            else bind_res (ensure_can_transition t status) (\<lambda>_.
              if tk_retry_series t \<noteq> None then
                (if status \<noteq> CANCELLED then Inl ValueError
                 else if tk_status t \<in> {CLAIMED, RUNNING} then
                   bind_res (task_retry_cancellation_requested_task (te_digest env) t error now) (\<lambda>u. Inr (u, None))
                 else bind_res (cancelled_task_retry_settlement (te_digest env) t error now) (\<lambda>r. Inr (sr_task r, Some r)))
              else if drains_cancellation t status then
                bind_res (task_cancellation_requested_task (te_digest env) t error now) (\<lambda>u. Inr (u, None))
              else if task_cancellation_requested t \<and> \<not> (status = CANCELLED \<and> worker \<noteq> None)
              then Inl TaskTerminalizationConflict
              else Inr (finished_task t status result error now, None))))"

definition keep_settlement :: "string \<Rightarrow> retry_settlement option \<Rightarrow> unit store_action" where
  "keep_settlement task_id settlement = (case settlement of
       None \<Rightarrow> return_act ()
     | Some r \<Rightarrow> modify_act (\<lambda>s. s\<lparr>ts_retry_settlements :=
         dict_put (task_id, sr_idempotency_key r) r (ts_retry_settlements s)\<rparr>))"

definition finish_task_at :: "store_env \<Rightarrow> string \<Rightarrow> task_status \<Rightarrow> json_object option \<Rightarrow> json_object option
    \<Rightarrow> string option \<Rightarrow> datetime option \<Rightarrow> string option \<Rightarrow> datetime \<Rightarrow> task store_action" where
  "finish_task_at env task_id status result error worker lease handoff now =
     bind_act (query_act (prepare_finished_task env task_id status result error worker lease handoff None now)) (\<lambda>(u, settlement).
     bind_act (store_task env u None) (\<lambda>_.
     bind_act (keep_settlement (tk_id u) settlement) (\<lambda>_. return_act u)))"

definition finish_task :: "store_env \<Rightarrow> string \<Rightarrow> task_status \<Rightarrow> json_object option \<Rightarrow> json_object option
    \<Rightarrow> string option \<Rightarrow> datetime option \<Rightarrow> string option \<Rightarrow> task store_action" where
  "finish_task env task_id status result error worker lease handoff =
     bind_act (read_ownership_clock env) (finish_task_at env task_id status result error worker lease handoff)"

definition complete_task :: "store_env \<Rightarrow> lease_authority option \<Rightarrow> string \<Rightarrow> json_object \<Rightarrow> string option \<Rightarrow> datetime option
    \<Rightarrow> string option \<Rightarrow> task store_action" where
  "complete_task env authority task_id result worker lease handoff =
     bind_act (lift_res (clean_arguments [task_id])) (\<lambda>_.
     bind_act (lift_res (raise_if (worker \<noteq> None \<and> lease = None) TaskClaimLost)) (\<lambda>_.
     finish_task env task_id COMPLETED (Some result) None worker
       (effective_lease authority task_id worker handoff lease) handoff))"

definition fail_task :: "store_env \<Rightarrow> lease_authority option \<Rightarrow> string \<Rightarrow> json_object \<Rightarrow> string option \<Rightarrow> datetime option
    \<Rightarrow> string option \<Rightarrow> task store_action" where
  "fail_task env authority task_id error worker lease handoff =
     bind_act (lift_res (clean_arguments [task_id])) (\<lambda>_.
     bind_act (lift_res (raise_if (worker \<noteq> None \<and> lease = None) TaskClaimLost)) (\<lambda>_.
     finish_task env task_id FAILED None (Some error) worker
       (effective_lease authority task_id worker handoff lease) handoff))"

definition cancel_task :: "store_env \<Rightarrow> string \<Rightarrow> json_object option \<Rightarrow> task store_action" where
  "cancel_task env task_id error =
     bind_act (lift_res (clean_arguments [task_id])) (\<lambda>_.
     bind_act (require_task task_id) (\<lambda>t.
     bind_act (lift_res (raise_if (tk_schedule t \<noteq> None) TaskScheduleConflict)) (\<lambda>_.
     finish_task env task_id CANCELLED None error None None None)))"

definition request_claimed_task_cancellation :: "store_env \<Rightarrow> string \<Rightarrow> string \<Rightarrow> datetime \<Rightarrow> json_object option \<Rightarrow> task store_action" where
  "request_claimed_task_cancellation env task_id worker lease error =
     bind_act (lift_res (clean_arguments [task_id, worker])) (\<lambda>_.
     bind_act (require_task task_id) (\<lambda>t.
     bind_act (lift_res (raise_if (tk_worker_id t \<noteq> Some worker \<or> tk_lease_expires_at t \<noteq> Some lease) TaskClaimLost)) (\<lambda>_.
       if task_cancellation_requested t \<or> retry_cancellation_requested t then return_act t
       else if tk_started_at t \<noteq> None then
         bind_act (read_ownership_clock env) (\<lambda>now.
         bind_act (lift_res (expired_dispatched_task_cancellation (te_digest env) t now error)) (\<lambda>u.
         store_and_return env u))
       else finish_task env task_id CANCELLED None error (Some worker) (Some lease) None)))"

section \<open>Terminalization\<close>

definition terminalization_receipt_of :: "terminalization_request \<Rightarrow> string \<Rightarrow> task \<Rightarrow> datetime \<Rightarrow> terminalization_receipt" where
  "terminalization_receipt_of q sha t now = \<lparr>tr_task_id = tq_task_id q, tr_idempotency_key = tq_idempotency_key q,
     tr_worker_id = tq_worker_id q, tr_kind = tq_kind q, tr_request_sha256 = sha, tr_task = t, tr_committed_at = now\<rparr>"

text \<open>The receipt is validated after the task is stored.\<close>

definition keep_terminalization :: "store_env \<Rightarrow> terminalization_request \<Rightarrow> string \<Rightarrow> task \<Rightarrow> datetime \<Rightarrow> task store_action" where
  "keep_terminalization env q sha t now =
     (let r = terminalization_receipt_of q sha t now
      in bind_act (lift_res (raise_if (\<not> terminalization_receipt_valid (te_digest env) r) ValueError)) (\<lambda>_.
         bind_act (modify_act (\<lambda>s. s\<lparr>ts_terminalization_receipts :=
           dict_put (tq_task_id q, tq_idempotency_key q) r (ts_terminalization_receipts s)\<rparr>)) (\<lambda>_. return_act t)))"

definition terminalize_new :: "store_env \<Rightarrow> terminalization_request \<Rightarrow> string \<Rightarrow> task store_action" where
  "terminalize_new env q sha =
     bind_act (require_task (tq_task_id q)) (\<lambda>t.
     bind_act (refuse_admitted (tq_task_id q) WorkAttemptExecutionClaimLost) (\<lambda>_.
     bind_act (lift_res (raise_if (tk_retry_series t \<noteq> None) ValueError)) (\<lambda>_.
     bind_act (lift_res (raise_if (tk_status t \<in> {COMPLETED, FAILED, CANCELLED}) TaskTerminalizationConflict)) (\<lambda>_.
     bind_act (read_ownership_clock env) (\<lambda>now.
     bind_act (lift_res (ensure_task_terminalization_lease_authority t q now)) (\<lambda>_.
     bind_act (lift_res (ensure_task_handoff_authority t (tq_handoff_id q))) (\<lambda>_.
     bind_act (lift_res (validate_terminalization_against_cancellation (te_digest env) t q)) (\<lambda>_.
     bind_act (finish_task_at env (tq_task_id q) (terminal_kind_status (tq_kind q)) (tq_result q) (tq_error q)
       (Some (tq_worker_id q)) (tq_lease_expires_at q) (tq_handoff_id q) now) (\<lambda>u.
     keep_terminalization env q sha u now)))))))))"

definition terminalize_task :: "store_env \<Rightarrow> terminalization_request \<Rightarrow> task store_action" where
  "terminalize_task env q =
     bind_act (lift_res (prepare_task_terminalization (te_digest env) q)) (\<lambda>(q, sha) s.
       case dict_get (ts_terminalization_receipts s) (tq_task_id q, tq_idempotency_key q) of
         Some r \<Rightarrow> (replay_task_terminalization_receipt (te_digest env) q sha r (dict_get (ts_tasks s) (tq_task_id q)), s)
       | None \<Rightarrow> terminalize_new env q sha s)"

definition recover_new :: "store_env \<Rightarrow> terminalization_request \<Rightarrow> string \<Rightarrow> string \<Rightarrow> string \<Rightarrow> task store_action" where
  "recover_new env q sha session instance_id =
     bind_act (require_task (tq_task_id q)) (\<lambda>t.
     bind_act (refuse_admitted (tq_task_id q) WorkAttemptExecutionClaimLost) (\<lambda>_.
     bind_act (read_ownership_clock env) (\<lambda>now.
     bind_act (lift_res (ensure_recovered_attached_task_failure_authority (te_digest env) t q session instance_id now)) (\<lambda>_.
     bind_act (finish_task_at env (tq_task_id q) FAILED None (tq_error q) None None None now) (\<lambda>u.
     keep_terminalization env q sha u now)))))"

definition recover_attached_task_failure :: "store_env \<Rightarrow> terminalization_request \<Rightarrow> string \<Rightarrow> string \<Rightarrow> task store_action" where
  "recover_attached_task_failure env q session instance_id =
     bind_act (lift_res (prepare_task_terminalization (te_digest env) q)) (\<lambda>(q, sha).
     bind_act (lift_res (clean_arguments [session, instance_id])) (\<lambda>_ s.
       case dict_get (ts_terminalization_receipts s) (tq_task_id q, tq_idempotency_key q) of
         Some r \<Rightarrow> (bind_res (replay_task_terminalization_receipt (te_digest env) q sha r (dict_get (ts_tasks s) (tq_task_id q)))
           (\<lambda>t. bind_res (ensure_recovered_attached_task_session t session instance_id) (\<lambda>_. Inr t)), s)
       | None \<Rightarrow> recover_new env q sha session instance_id s))"

end
