(* ===== verification/Task_Handoffs.thy ===== *)
theory Task_Handoffs
  imports Task_Outcomes
begin

text \<open>
  Hand-over of an interrupted attached task and its continuation by another worker: the operations of
  \<open>InMemoryTaskStore\<close> in \<open>src/cayu/tasks/memory.py\<close> over the requests and receipts of \<open>handoff.py\<close>.
\<close>

section \<open>Hand-over\<close>

definition hand_over :: "store_env \<Rightarrow> handoff_request \<Rightarrow> string \<Rightarrow> bool \<Rightarrow> handoff_receipt store_action" where
  "hand_over env q sha recover_expired =
     bind_act (require_task (hq_task_id q)) (\<lambda>t.
     bind_act (refuse_admitted (tk_id t) TaskInterruptedHandoffConflict) (\<lambda>_.
     bind_act (read_ownership_clock env) (\<lambda>now.
     bind_act (lift_res (require_interrupted_task_handoff_authority t q now recover_expired)) (\<lambda>_.
     bind_act (lift_res (check_handoff_receipt (te_digest env) \<lparr>hr_request = q, hr_request_sha256 = sha,
         hr_task = handed_over_task t (hq_handoff_id q) now, hr_committed_at = now\<rparr>)) (\<lambda>r.
     bind_act (store_task env (handed_over_task t (hq_handoff_id q) now) None) (\<lambda>_.
     bind_act (modify_act (\<lambda>s. s\<lparr>ts_handoff_receipts :=
         dict_put (hq_task_id q, hq_handoff_id q) r (ts_handoff_receipts s)\<rparr>)) (\<lambda>_. return_act r)))))))"

definition settle_interrupted_task_handoff :: "store_env \<Rightarrow> handoff_request \<Rightarrow> bool \<Rightarrow> handoff_receipt store_action" where
  "settle_interrupted_task_handoff env q recover_expired =
     bind_act (lift_res (prepare_interrupted_task_handoff (te_digest env) q)) (\<lambda>(q, sha) s.
       case dict_get (ts_handoff_receipts s) (hq_task_id q, hq_handoff_id q) of
         Some r \<Rightarrow> (replay_interrupted_task_handoff_receipt (te_digest env) q sha r, s)
       | None \<Rightarrow> hand_over env q sha recover_expired s)"

definition release_interrupted_task_worker :: "store_env \<Rightarrow> handoff_request \<Rightarrow> handoff_receipt store_action" where
  "release_interrupted_task_worker env q = settle_interrupted_task_handoff env q False"

definition recover_interrupted_task_worker :: "store_env \<Rightarrow> handoff_request \<Rightarrow> handoff_receipt store_action" where
  "recover_interrupted_task_worker env q = settle_interrupted_task_handoff env q True"

section \<open>Listings\<close>

definition handoff_page_size :: int where "handoff_page_size = 100"

definition prepare_page :: "(datetime \<times> string) option \<Rightarrow> int \<Rightarrow> unit result" where
  "prepare_page after limit = raise_if (limit < 1 \<or> limit > handoff_page_size
     \<or> \<not> opt_holds (\<lambda>(_, i). durable_clean i) after) ValueError"

definition interrupted_owner :: "task \<Rightarrow> datetime \<Rightarrow> bool" where
  "interrupted_owner t now \<longleftrightarrow> tk_status t = RUNNING \<and> tk_session_id t \<noteq> None \<and> tk_session_instance_id t \<noteq> None \<and>
     tk_worker_id t \<noteq> None \<and> (case tk_lease_expires_at t of None \<Rightarrow> False | Some e \<Rightarrow> e \<le> now)"

definition lease_key :: "task \<Rightarrow> datetime \<times> string" where
  "lease_key t = (case tk_lease_expires_at t of None \<Rightarrow> 0 | Some e \<Rightarrow> e, tk_id t)"

definition list_expired_interrupted_task_handoff_candidates ::
    "store_env \<Rightarrow> (datetime \<times> string) option \<Rightarrow> int \<Rightarrow> task list store_action" where
  "list_expired_interrupted_task_handoff_candidates env after limit =
     bind_act (lift_res (prepare_page after limit)) (\<lambda>_.
     bind_act (read_ownership_clock env) (\<lambda>now.
     query_act (\<lambda>s. traverse_res (copy_task (te_digest env)) (take (nat limit) (sort_key lease_key
       (filter (\<lambda>t. interrupted_owner t now \<and> tk_status_reason t \<in> {None, Some ''cancellation_requested''} \<and>
          \<not> task_admitted (tk_id t) s \<and> (case after of None \<Rightarrow> True | Some a \<Rightarrow> lease_key t > a))
         (dict_values (ts_tasks s))))))))"

definition load_expired_interrupted_task_handoff_candidate :: "store_env \<Rightarrow> string \<Rightarrow> task option store_action" where
  "load_expired_interrupted_task_handoff_candidate env task_id =
     bind_act (lift_res (clean_arguments [task_id])) (\<lambda>_ s.
       case dict_get (ts_tasks s) task_id of
         None \<Rightarrow> (Inr None, s)
       | Some t \<Rightarrow> bind_act (read_ownership_clock env) (\<lambda>now.
           if interrupted_owner t now \<and> tk_status_reason t = None \<and> \<not> task_admitted (tk_id t) s
           then bind_act (lift_res (copy_task (te_digest env) t)) (\<lambda>u. return_act (Some u))
           else return_act None) s)"

definition parked_receipt :: "task \<Rightarrow> task_store \<Rightarrow> handoff_receipt option" where
  "parked_receipt t s = (case tk_interrupted_handoff_id t of
       None \<Rightarrow> None
     | Some h \<Rightarrow> (case dict_get (ts_handoff_receipts s) (tk_id t, h) of
           None \<Rightarrow> None
         | Some r \<Rightarrow> if hq_parked (hr_request r) = None then None else Some r))"

definition list_parked_interrupted_task_handoffs :: "store_env \<Rightarrow> string option \<Rightarrow> int \<Rightarrow> handoff_receipt list store_action" where
  "list_parked_interrupted_task_handoffs env after limit =
     bind_act (lift_res (raise_if (limit < 1 \<or> limit > handoff_page_size \<or> \<not> opt_holds durable_clean after) ValueError)) (\<lambda>_.
     query_act (\<lambda>s. bind_res (traverse_res (check_handoff_receipt (te_digest env))
         (concat (map (\<lambda>t. case parked_receipt t s of None \<Rightarrow> [] | Some r \<Rightarrow> [r])
           (filter (\<lambda>t. (case after of None \<Rightarrow> True | Some a \<Rightarrow> tk_id t > a) \<and> tk_status t = RUNNING \<and>
               tk_worker_id t = None \<and> tk_lease_expires_at t = None)
             (sort_key tk_id (dict_values (ts_tasks s)))))))
       (\<lambda>rs. Inr (take (nat limit) rs))))"

section \<open>Continuation\<close>

record continuation_page =
  cp_task :: "task option"
  cp_next_after :: "(datetime \<times> string) option"
  cp_scanned :: int
  cp_rejected :: int
  cp_filtered :: int
  cp_replayed :: bool
  cp_exhausted :: bool

definition continuation_page_valid :: "(json \<Rightarrow> string) \<Rightarrow> continuation_page \<Rightarrow> bool" where
  "continuation_page_valid digest p \<longleftrightarrow> opt_holds (task_valid digest) (cp_task p) \<and>
     opt_holds (\<lambda>(_, i). durable_clean i) (cp_next_after p) \<and>
     0 \<le> cp_scanned p \<and> cp_scanned p \<le> handoff_page_size \<and> 0 \<le> cp_rejected p \<and> cp_rejected p \<le> handoff_page_size \<and>
     0 \<le> cp_filtered p \<and> cp_filtered p \<le> handoff_page_size \<and>
     (let skipped = cp_rejected p + cp_filtered p; cursor = map_option task_key (cp_task p)
      in if cp_replayed p then cp_task p \<noteq> None \<and> cp_scanned p = 0 \<and> skipped = 0 \<and> cp_next_after p = cursor \<and> \<not> cp_exhausted p
         else skipped \<le> cp_scanned p \<and>
           (if cp_scanned p = 0 then cp_next_after p = None \<and> cp_exhausted p else cp_next_after p \<noteq> None) \<and>
           (if cp_task p = None then skipped = cp_scanned p else cp_next_after p = cursor \<and> skipped < cp_scanned p) \<and>
           (cp_exhausted p \<or> cp_next_after p \<noteq> None))"

definition check_page :: "(json \<Rightarrow> string) \<Rightarrow> continuation_page \<Rightarrow> continuation_page result" where
  "check_page digest p = (if continuation_page_valid digest p then Inr p else Inl ValueError)"

text \<open>A claim already made under the same generation is replayed while it is live.\<close>

definition continuation_live :: "string \<Rightarrow> task_query \<Rightarrow> string \<Rightarrow> string option \<Rightarrow> datetime \<Rightarrow> task \<Rightarrow> bool" where
  "continuation_live worker y handoff task_id now t \<longleftrightarrow> tk_interrupted_handoff_id t = Some handoff \<and>
     tk_worker_id t = Some worker \<and> tk_status t = RUNNING \<and> tk_session_id t \<noteq> None \<and> tk_session_instance_id t \<noteq> None \<and>
     live_lease t now \<and> (case task_id of None \<Rightarrow> True | Some i \<Rightarrow> tk_id t = i) \<and> task_matches_claim_filter t y"

definition replay_continuation :: "(json \<Rightarrow> string) \<Rightarrow> string \<Rightarrow> task_query \<Rightarrow> string \<Rightarrow> string option \<Rightarrow> string option
    \<Rightarrow> datetime \<Rightarrow> string \<times> string \<times> string option \<Rightarrow> task_store \<Rightarrow> continuation_page result" where
  "replay_continuation digest worker y handoff task_id expected_sha256 now prior s = (case prior of (i, w, x) \<Rightarrow>
     (case dict_get (ts_tasks s) i of
        None \<Rightarrow> Inl TaskClaimLost
      | Some t \<Rightarrow>
          if w \<noteq> worker \<or> x \<noteq> expected_sha256 \<or> \<not> continuation_live worker y handoff task_id now t then Inl TaskClaimLost
          else check_page digest \<lparr>cp_task = Some t, cp_next_after = Some (task_key t), cp_scanned = 0, cp_rejected = 0,
            cp_filtered = 0, cp_replayed = True, cp_exhausted = False\<rparr>))"

definition continuation_candidate :: "string option \<Rightarrow> (datetime \<times> string) option \<Rightarrow> bool \<Rightarrow> task_store \<Rightarrow> task \<Rightarrow> bool" where
  "continuation_candidate task_id after expecting s t \<longleftrightarrow> tk_interrupted_handoff_id t \<noteq> None \<and>
     (case task_id of None \<Rightarrow> True | Some i \<Rightarrow> tk_id t = i) \<and> tk_status t = RUNNING \<and> tk_session_id t \<noteq> None \<and>
     tk_session_instance_id t \<noteq> None \<and> tk_status_reason t = None \<and> tk_worker_id t = None \<and> tk_lease_expires_at t = None \<and>
     (case after of None \<Rightarrow> True | Some a \<Rightarrow> task_key t > a) \<and> (expecting \<or> parked_receipt t s = None)"

datatype continuation_verdict = CONT_FILTERED | CONT_REJECTED | CONT_CLAIMED

definition judge_continuation :: "task_query \<Rightarrow> continuation_expectation option \<Rightarrow> string list \<Rightarrow> task_store \<Rightarrow> task
    \<Rightarrow> continuation_verdict result" where
  "judge_continuation y expected active_keys s t =
     (if \<not> task_matches_claim_filter t y then Inr CONT_FILTERED
      else if task_admitted (tk_id t) s then Inr CONT_REJECTED
      else if (case tk_concurrency_key t of None \<Rightarrow> False | Some k \<Rightarrow> k \<in> set active_keys) then Inr CONT_FILTERED
      else bind_res (require_expected_continuation t expected) (\<lambda>_.
        case tk_interrupted_handoff_id t of
          None \<Rightarrow> Inr CONT_REJECTED
        | Some h \<Rightarrow> (case dict_get (ts_handoff_receipts s) (tk_id t, h) of
              None \<Rightarrow> Inr CONT_REJECTED
            | Some r \<Rightarrow>
                if hr_task r \<noteq> t then Inr CONT_REJECTED
                else bind_res (require_parked_continuation_trigger r (case expected of None \<Rightarrow> None | Some e \<Rightarrow> ce_parked_wait e)) (\<lambda>_.
                  Inr CONT_CLAIMED))))"

text \<open>The scan: the number of tasks rejected and filtered before the claimed one, if any.\<close>

fun scan_continuations :: "(task \<Rightarrow> continuation_verdict result) \<Rightarrow> task list \<Rightarrow> (int \<times> int \<times> task option) result" where
  "scan_continuations judge [] = Inr (0, 0, None)"
| "scan_continuations judge (t # ts) = bind_res (judge t) (\<lambda>v. case v of
     CONT_CLAIMED \<Rightarrow> Inr (0, 0, Some t)
   | CONT_REJECTED \<Rightarrow> bind_res (scan_continuations judge ts) (\<lambda>(r, f, found). Inr (r + 1, f, found))
   | CONT_FILTERED \<Rightarrow> bind_res (scan_continuations judge ts) (\<lambda>(r, f, found). Inr (r, f + 1, found)))"

definition continued_task :: "task \<Rightarrow> string \<Rightarrow> datetime \<Rightarrow> string \<Rightarrow> datetime \<Rightarrow> task" where
  "continued_task t worker lease handoff now = t\<lparr>tk_worker_id := Some worker, tk_lease_expires_at := Some lease,
     tk_interrupted_handoff_id := Some handoff, tk_updated_at := now\<rparr>"

definition empty_page :: "task list \<Rightarrow> int \<Rightarrow> int \<Rightarrow> int \<Rightarrow> continuation_page" where
  "empty_page page rejected filtered scan_limit = \<lparr>cp_task = None,
     cp_next_after = (if page = [] then None else Some (task_key (last page))), cp_scanned = int (length page),
     cp_rejected = rejected, cp_filtered = filtered, cp_replayed = False, cp_exhausted = int (length page) < scan_limit\<rparr>"

definition claim_page :: "task list \<Rightarrow> task \<Rightarrow> int \<Rightarrow> int \<Rightarrow> int \<Rightarrow> continuation_page" where
  "claim_page page claimed rejected filtered scan_limit = \<lparr>cp_task = Some claimed, cp_next_after = Some (task_key claimed),
     cp_scanned = rejected + filtered + 1, cp_rejected = rejected, cp_filtered = filtered, cp_replayed = False,
     cp_exhausted = (rejected + filtered = int (length page) - 1 \<and> int (length page) < scan_limit)\<rparr>"

definition continue_first :: "store_env \<Rightarrow> string \<Rightarrow> task_query \<Rightarrow> string \<Rightarrow> string option \<Rightarrow> continuation_expectation option
    \<Rightarrow> string option \<Rightarrow> int \<Rightarrow> (datetime \<times> string) option \<Rightarrow> int \<Rightarrow> datetime \<Rightarrow> continuation_page store_action" where
  "continue_first env worker y handoff task_id expected expected_sha256 lease_seconds after scan_limit now s =
     (let page = take (nat scan_limit) (oldest_first
            (filter (continuation_candidate task_id after (expected \<noteq> None) s) (dict_values (ts_tasks s))))
      in bind_act (lift_res (scan_continuations (judge_continuation y expected (live_concurrency_keys now s) s) page)) (\<lambda>(rejected, filtered, found).
         case found of
           None \<Rightarrow> lift_res (check_page (te_digest env) (empty_page page rejected filtered scan_limit))
         | Some t \<Rightarrow>
             bind_act (lift_res (add_duration now (seconds lease_seconds))) (\<lambda>lease.
             let claimed = continued_task t worker lease handoff now
             in bind_act (store_task env claimed None) (\<lambda>_.
                bind_act (modify_act (\<lambda>s. s\<lparr>ts_continuation_claims :=
                    dict_put (te_digest env (JStr handoff)) (tk_id claimed, worker, expected_sha256) (ts_continuation_claims s)\<rparr>)) (\<lambda>_.
                lift_res (check_page (te_digest env) (claim_page page claimed rejected filtered scan_limit)))))) s)"

definition claim_interrupted_task_continuation :: "store_env \<Rightarrow> string \<Rightarrow> task_query \<Rightarrow> string \<Rightarrow> string option
    \<Rightarrow> continuation_expectation option \<Rightarrow> int \<Rightarrow> (datetime \<times> string) option \<Rightarrow> int \<Rightarrow> continuation_page store_action" where
  "claim_interrupted_task_continuation env worker y handoff task_id expected lease_seconds after scan_limit =
     bind_act (lift_res (clean_arguments ([worker, handoff] @ (case task_id of None \<Rightarrow> [] | Some i \<Rightarrow> [i])))) (\<lambda>_.
     bind_act (lift_res (prepare_continuation_expectation (te_digest env) expected task_id)) (\<lambda>expected_sha256.
     bind_act (lift_res (ensure_claim_query_supported y)) (\<lambda>_.
     bind_act (lift_res (positive_argument lease_seconds)) (\<lambda>_.
     bind_act (lift_res (prepare_page after scan_limit)) (\<lambda>_.
     bind_act (read_ownership_clock env) (\<lambda>now s.
       case dict_get (ts_continuation_claims s) (te_digest env (JStr handoff)) of
         Some prior \<Rightarrow> (replay_continuation (te_digest env) worker y handoff task_id expected_sha256 now prior s, s)
       | None \<Rightarrow>
           if dict_get (ts_handoff_index s) handoff \<noteq> None then (Inl TaskClaimLost, s)
           else if qy_status y \<noteq> None \<and> qy_status y \<noteq> Some RUNNING
           then (check_page (te_digest env) (empty_page [] 0 0 1), s)
           else continue_first env worker y handoff task_id expected expected_sha256 lease_seconds after scan_limit now s))))))"

end
