(* ===== verification/Task_Mutations.thy ===== *)
theory Task_Mutations
  imports Task_Handoffs
begin

text \<open>
  The remaining mutations of \<open>InMemoryTaskStore\<close> (\<open>src/cayu/tasks/memory.py\<close>): settlement of retry
  attempts, the deadline of a claimed attempt, holds, schedule mutations, the event budgets, and the
  admission of ordinary sessions.
\<close>

section \<open>Retry attempts\<close>

definition copy_settlement :: "(json \<Rightarrow> string) \<Rightarrow> retry_settlement \<Rightarrow> retry_settlement result" where
  "copy_settlement digest r = bind_res (copy_task digest (sr_task r)) (\<lambda>_.
     bind_res (case sr_successor r of None \<Rightarrow> Inr () | Some u \<Rightarrow> bind_res (copy_task digest u) (\<lambda>_. Inr ())) (\<lambda>_.
     check_settlement r))"

definition replay_task_retry_settlement :: "(json \<Rightarrow> string) \<Rightarrow> retry_settlement_request \<Rightarrow> string \<Rightarrow> retry_settlement
    \<Rightarrow> task option \<Rightarrow> retry_settlement result" where
  "replay_task_retry_settlement digest q request_sha256 r current =
     bind_res (copy_settlement digest r) (\<lambda>r.
     bind_res (case current of None \<Rightarrow> Inr None | Some t \<Rightarrow> bind_res (copy_task digest t) (\<lambda>t. Inr (Some t))) (\<lambda>current.
       if \<not> request_matches_sha256 digest q request_sha256 (sr_request_sha256 r) then Inl TaskTerminalizationConflict
       else if current \<noteq> Some (sr_task r) then Inl TaskTerminalizationConflict
       else Inr r))"

definition retry_key_of :: "task \<Rightarrow> task_store \<Rightarrow> retry_key_state option" where
  "retry_key_of t s = dict_get (ts_retry_keys s) (case ti_event_retry_key (tk_invocation t) of None \<Rightarrow> [] | Some k \<Rightarrow> k)"

definition successor_occupied :: "task option \<Rightarrow> task_store \<Rightarrow> bool" where
  "successor_occupied successor s = (case successor of
       None \<Rightarrow> False
     | Some u \<Rightarrow> dict_get (ts_tasks s) (tk_id u) \<noteq> None \<or> dict_get (ts_graph_by_task s) (tk_id u) \<noteq> None)"

text \<open>
  The settled attempt and its successor are prepared before either is published; a member of a graph is
  settled by the graph transaction.
\<close>

definition store_settled_attempt :: "store_env \<Rightarrow> task \<Rightarrow> task option \<Rightarrow> datetime \<Rightarrow> unit store_action" where
  "store_settled_attempt env settled successor series_now =
     bind_act (store_graph_task env settled None successor) (\<lambda>stored.
       if stored then return_act ()
       else bind_act (query_act (\<lambda>s. traverse_res (\<lambda>u. prepare_task_write env u None s)
           (settled # (case successor of None \<Rightarrow> [] | Some u \<Rightarrow> [u])))) (\<lambda>writes.
         each_act (publish_prepared_task_write env (Some series_now)) writes))"

definition settle_new_attempt :: "store_env \<Rightarrow> retry_settlement_request \<Rightarrow> string \<Rightarrow> retry_settlement store_action" where
  "settle_new_attempt env q sha =
     bind_act (require_task (sq_task_id q)) (\<lambda>t.
     bind_act (read_ownership_clock env) (\<lambda>now.
     bind_act (lift_res (case sq_lease_expires_at q of
         None \<Rightarrow> Inl TaskClaimLost
       | Some lease \<Rightarrow> ensure_exact_owned_active_task_lease t (sq_worker_id q) lease now)) (\<lambda>_.
     bind_act (lift_res (raise_if (tk_retry_series t = None) ValueError)) (\<lambda>_.
     bind_act (read_clock env) (\<lambda>series_now.
     bind_act (query_act (\<lambda>s. task_event_retry_refusal (retry_key_of t s) series_now)) (\<lambda>refusal.
     bind_act (lift_res (settled_task_retry_attempt (te_digest env) t q now series_now refusal)) (\<lambda>(settled, successor).
     bind_act (query_act (\<lambda>s. raise_if (successor_occupied successor s) TaskTerminalizationConflict)) (\<lambda>_.
     bind_act (lift_res (settlement_receipt (te_digest env) q sha settled successor now)) (\<lambda>r.
     bind_act (store_settled_attempt env settled successor series_now) (\<lambda>_.
     bind_act (modify_act (\<lambda>s. s\<lparr>ts_retry_settlements :=
         dict_put (sq_task_id q, sq_idempotency_key q) r (ts_retry_settlements s)\<rparr>)) (\<lambda>_. return_act r)))))))))))"

definition settle_task_retry_attempt :: "store_env \<Rightarrow> retry_settlement_request \<Rightarrow> retry_settlement store_action" where
  "settle_task_retry_attempt env q =
     bind_act (lift_res (prepare_task_retry_settlement (te_digest env) q)) (\<lambda>(q, sha) s.
       case dict_get (ts_retry_settlements s) (sq_task_id q, sq_idempotency_key q) of
         Some r \<Rightarrow> (replay_task_retry_settlement (te_digest env) q sha r (dict_get (ts_tasks s) (sq_task_id q)), s)
       | None \<Rightarrow> settle_new_attempt env q sha s)"

definition claimed_task_retry_attempt_elapsed :: "task \<Rightarrow> datetime \<Rightarrow> bool" where
  "claimed_task_retry_attempt_elapsed t series_now \<longleftrightarrow> tk_status t \<in> {CLAIMED, RUNNING} \<and> tk_session_id t = None \<and>
     \<not> retry_cancellation_requested t \<and>
     (case tk_retry_series t of
        None \<Rightarrow> False
      | Some s \<Rightarrow> rs_disposition s = SERIES_ACTIVE \<and>
          (case rs_elapsed_deadline s of None \<Rightarrow> False | Some d \<Rightarrow> d \<le> series_now))"

definition elapsed_claimed_task_retry_settlement :: "(json \<Rightarrow> string) \<Rightarrow> task \<Rightarrow> datetime \<Rightarrow> int \<Rightarrow> rat \<Rightarrow> retry_settlement result" where
  "elapsed_claimed_task_retry_settlement digest t committed_at tokens cost =
     runtime_task_retry_terminal_settlement digest t ''elapsed'' RETRYABLE_FAILURE ELAPSED_EXHAUSTED FAILED
       (error_code ''elapsed_exhausted'') committed_at tokens cost"

definition terminal_accounting_ok :: "int \<Rightarrow> rat \<Rightarrow> bool" where
  "terminal_accounting_ok tokens cost \<longleftrightarrow> 0 \<le> tokens \<and> tokens \<le> max_durable_json_integer div 100 \<and> 0 \<le> cost"

definition enforce_task_retry_deadline :: "store_env \<Rightarrow> string \<Rightarrow> string \<Rightarrow> datetime \<Rightarrow> int \<Rightarrow> rat
    \<Rightarrow> retry_settlement option store_action" where
  "enforce_task_retry_deadline env task_id worker lease tokens cost =
     bind_act (lift_res (clean_arguments [task_id, worker])) (\<lambda>_.
     bind_act (lift_res (raise_if (\<not> terminal_accounting_ok tokens cost) ValueError)) (\<lambda>_.
     bind_act (require_task task_id) (\<lambda>t.
     bind_act (read_ownership_clock env) (\<lambda>now.
     bind_act (lift_res (ensure_exact_owned_active_task_lease t worker lease now)) (\<lambda>_.
     bind_act (read_clock env) (\<lambda>series_now.
       if \<not> claimed_task_retry_attempt_elapsed t series_now then return_act None
       else bind_act (lift_res (elapsed_claimed_task_retry_settlement (te_digest env) t now tokens cost)) (\<lambda>r.
         bind_act (store_task env (sr_task r) None) (\<lambda>_.
         bind_act (modify_act (put_settlement r)) (\<lambda>_. return_act (Some r))))))))))"

definition task_retry_deadline_elapsed :: "store_env \<Rightarrow> string \<Rightarrow> string \<Rightarrow> datetime \<Rightarrow> bool store_action" where
  "task_retry_deadline_elapsed env task_id worker lease =
     bind_act (lift_res (clean_arguments [task_id, worker])) (\<lambda>_.
     bind_act (require_task task_id) (\<lambda>t.
     bind_act (read_ownership_clock env) (\<lambda>now.
     bind_act (lift_res (ensure_exact_owned_active_task_lease t worker lease now)) (\<lambda>_.
     bind_act (read_clock env) (\<lambda>series_now. return_act (claimed_task_retry_attempt_elapsed t series_now))))))"

section \<open>Holds\<close>

definition held_task :: "task \<Rightarrow> task_status \<Rightarrow> string option \<Rightarrow> json_object option \<Rightarrow> datetime \<Rightarrow> task" where
  "held_task t status reason payload now = t\<lparr>tk_status := status, tk_status_reason := reason, tk_status_payload := payload,
     tk_worker_id := None, tk_lease_expires_at := None, tk_updated_at := now\<rparr>"

definition hold_task :: "store_env \<Rightarrow> string \<Rightarrow> task_status \<Rightarrow> string option \<Rightarrow> json_object option \<Rightarrow> task store_action" where
  "hold_task env task_id status reason payload =
     bind_act (lift_res (clean_arguments [task_id])) (\<lambda>_.
     bind_act (lift_res (raise_if (\<not> opt_holds durable_nonblank reason) ValueError)) (\<lambda>_.
     bind_act (require_task task_id) (\<lambda>t.
     bind_act (refuse_admitted task_id WorkAttemptExecutionClaimLost) (\<lambda>_.
     bind_act (lift_res (ensure_can_hold_task t status)) (\<lambda>_.
     bind_act (read_ownership_clock env) (\<lambda>now.
     store_and_return env (held_task t status reason payload now)))))))"

definition pause_task :: "store_env \<Rightarrow> string \<Rightarrow> string option \<Rightarrow> json_object option \<Rightarrow> task store_action" where
  "pause_task env task_id reason payload = hold_task env task_id PAUSED reason payload"

definition block_task :: "store_env \<Rightarrow> string \<Rightarrow> string option \<Rightarrow> json_object option \<Rightarrow> task store_action" where
  "block_task env task_id reason payload = hold_task env task_id BLOCKED reason payload"

definition mark_task_needs_attention :: "store_env \<Rightarrow> string \<Rightarrow> string option \<Rightarrow> json_object option \<Rightarrow> task store_action" where
  "mark_task_needs_attention env task_id reason payload = hold_task env task_id NEEDS_ATTENTION reason payload"

definition resume_task :: "store_env \<Rightarrow> string \<Rightarrow> task store_action" where
  "resume_task env task_id =
     bind_act (lift_res (clean_arguments [task_id])) (\<lambda>_.
     bind_act (require_task task_id) (\<lambda>t.
     bind_act (refuse_admitted task_id WorkAttemptExecutionClaimLost) (\<lambda>_.
     bind_act (lift_res (ensure_can_resume_task t)) (\<lambda>_.
     bind_act (read_ownership_clock env) (\<lambda>now.
     bind_act (store_task env (held_task t PENDING None None now) None) (\<lambda>_. require_task task_id))))))"

section \<open>Schedule mutations\<close>

record schedule_cancel_request =
  xc_task_id :: string
  xc_operation_id :: string
  xc_expected_revision :: int

definition schedule_cancel_request_valid :: "schedule_cancel_request \<Rightarrow> bool" where
  "schedule_cancel_request_valid q \<longleftrightarrow> schedule_identity_ok (xc_task_id q) \<and> schedule_identity_ok (xc_operation_id q) \<and>
     1 \<le> xc_expected_revision q \<and> xc_expected_revision q \<le> max_portable_json_integer"

definition schedule_policy_json :: "schedule_policy \<Rightarrow> json" where
  "schedule_policy_json p = JObj (fmap_of_list
     [(''expires_at'', json_opt json_instant (sp_expires_at p)),
      (''misfire_policy'', JStr (if sp_misfire_policy p = SKIP then ''skip'' else ''fire_once'')),
      (''misfire_grace_seconds'', JInt (sp_misfire_grace_seconds p))])"

definition schedule_request_sha256 :: "(json \<Rightarrow> string) \<Rightarrow> string \<Rightarrow> (string \<times> json) list \<Rightarrow> string" where
  "schedule_request_sha256 digest kind items = digest (JObj (fmap_of_list
     [(''kind'', JStr kind), (''request'', JObj (fmap_of_list items))]))"

definition reschedule_sha256 :: "(json \<Rightarrow> string) \<Rightarrow> reschedule_request \<Rightarrow> string" where
  "reschedule_sha256 digest q = schedule_request_sha256 digest ''reschedule''
     [(''task_id'', JStr (rr_task_id q)), (''operation_id'', JStr (rr_operation_id q)),
      (''expected_revision'', JInt (rr_expected_revision q)), (''available_at'', json_instant (rr_available_at q)),
      (''policy'', schedule_policy_json (rr_policy q))]"

definition schedule_cancel_sha256 :: "(json \<Rightarrow> string) \<Rightarrow> schedule_cancel_request \<Rightarrow> string" where
  "schedule_cancel_sha256 digest q = schedule_request_sha256 digest ''cancel''
     [(''task_id'', JStr (xc_task_id q)), (''operation_id'', JStr (xc_operation_id q)),
      (''expected_revision'', JInt (xc_expected_revision q))]"

definition replay_schedule_receipt :: "string \<Rightarrow> schedule_receipt \<Rightarrow> schedule_receipt result" where
  "replay_schedule_receipt sha r = (if sc_request_sha256 r \<noteq> sha then Inl TaskScheduleConflict else Inr r)"

definition keep_schedule_receipt :: "schedule_receipt \<Rightarrow> schedule_receipt store_action" where
  "keep_schedule_receipt r = bind_act (modify_act (\<lambda>s. s\<lparr>ts_schedule_receipts :=
     dict_put (sc_task_id r, sc_operation_id r) r (ts_schedule_receipts s)\<rparr>)) (\<lambda>_. return_act r)"

definition reschedule_new :: "store_env \<Rightarrow> reschedule_request \<Rightarrow> string \<Rightarrow> schedule_receipt store_action" where
  "reschedule_new env q sha =
     bind_act (require_task (rr_task_id q)) (\<lambda>t.
     bind_act (query_act (\<lambda>s. raise_if (task_has_unsettled_local_execution_attempt (tk_id t) s) TaskScheduleConflict)) (\<lambda>_.
     bind_act (read_clock env) (\<lambda>now.
     bind_act (lift_res (rescheduled_task (te_digest env) t q now)) (\<lambda>u.
     bind_act (lift_res (schedule_receipt_of u (rr_operation_id q) (rr_expected_revision q) sha now EV_RESCHEDULED)) (\<lambda>r.
     bind_act (store_task env u (Some (rr_operation_id q))) (\<lambda>_. keep_schedule_receipt r))))))"

definition reschedule_task :: "store_env \<Rightarrow> reschedule_request \<Rightarrow> schedule_receipt store_action" where
  "reschedule_task env q =
     bind_act (lift_res (raise_if (\<not> reschedule_request_valid q) ValueError)) (\<lambda>_ s.
       let sha = reschedule_sha256 (te_digest env) q
       in case dict_get (ts_schedule_receipts s) (rr_task_id q, rr_operation_id q) of
            Some r \<Rightarrow> (replay_schedule_receipt sha r, s)
          | None \<Rightarrow> reschedule_new env q sha s)"

definition advance_schedule :: "task \<Rightarrow> schedule_state \<Rightarrow> task result" where
  "advance_schedule t c = bind_res (schedule_revision_after c) (\<lambda>revision. Inr (t\<lparr>tk_schedule := Some (c\<lparr>ss_revision := revision\<rparr>)\<rparr>))"

definition cancel_scheduled_new :: "store_env \<Rightarrow> schedule_cancel_request \<Rightarrow> string \<Rightarrow> schedule_receipt store_action" where
  "cancel_scheduled_new env q sha =
     bind_act (require_task (xc_task_id q)) (\<lambda>t.
     bind_act (lift_res (require_schedule_mutation t (xc_expected_revision q))) (\<lambda>c.
     bind_act (read_ownership_clock env) (\<lambda>now.
     bind_act (query_act (prepare_finished_task env (tk_id t) CANCELLED None None None None None None now)) (\<lambda>(finished, settlement).
     bind_act (lift_res (advance_schedule finished c)) (\<lambda>u.
     bind_act (lift_res (schedule_receipt_of u (xc_operation_id q) (xc_expected_revision q) sha now
         (if tk_status u = CANCELLED then EV_CANCELLED else EV_CANCELLATION_REQUESTED))) (\<lambda>r.
     bind_act (store_task env u (Some (xc_operation_id q))) (\<lambda>_.
     bind_act (keep_settlement (tk_id u) (map_option (\<lambda>x. x\<lparr>sr_task := u\<rparr>) settlement)) (\<lambda>_.
     keep_schedule_receipt r))))))))"

definition cancel_scheduled_task :: "store_env \<Rightarrow> schedule_cancel_request \<Rightarrow> schedule_receipt store_action" where
  "cancel_scheduled_task env q =
     bind_act (lift_res (raise_if (\<not> schedule_cancel_request_valid q) ValueError)) (\<lambda>_ s.
       let sha = schedule_cancel_sha256 (te_digest env) q
       in case dict_get (ts_schedule_receipts s) (xc_task_id q, xc_operation_id q) of
            Some r \<Rightarrow> (replay_schedule_receipt sha r, s)
          | None \<Rightarrow> cancel_scheduled_new env q sha s)"

definition list_task_schedule_events :: "string \<Rightarrow> int \<Rightarrow> int \<Rightarrow> schedule_event list store_action" where
  "list_task_schedule_events task_id after_sequence limit =
     bind_act (lift_res (clean_arguments [task_id])) (\<lambda>_.
     bind_act (lift_res (raise_if (after_sequence < 0 \<or> after_sequence > max_portable_json_integer \<or> limit < 1 \<or> limit > 1000) ValueError)) (\<lambda>_.
     query_act (\<lambda>s. Inr (take (nat limit) (drop (nat after_sequence) (list_at (ts_schedule_events s) task_id))))))"

section \<open>The next wake-up of a worker\<close>

record schedule_wakeup =
  sw_as_of :: datetime
  sw_next_available_at :: "datetime option"
  sw_next_expiry_at :: "datetime option"
  sw_maintenance_required :: bool

definition earlier :: "datetime option \<Rightarrow> datetime \<Rightarrow> datetime option" where
  "earlier due candidate = Some (case due of None \<Rightarrow> candidate | Some d \<Rightarrow> min d candidate)"

definition wakeup_relevant :: "task_query \<Rightarrow> task_store \<Rightarrow> task \<Rightarrow> bool" where
  "wakeup_relevant y s t \<longleftrightarrow> tk_session_id t = None \<and> tk_status t \<in> {PENDING, PAUSED, BLOCKED, NEEDS_ATTENTION} \<and>
     task_matches_claim_filter t y \<and> \<not> task_has_unsettled_local_execution_attempt (tk_id t) s"

definition unadmitted :: "task \<Rightarrow> bool" where
  "unadmitted t = (case tk_schedule t of None \<Rightarrow> True | Some c \<Rightarrow> ss_admitted_at c = None)"

definition awaited_instant :: "task \<Rightarrow> datetime \<Rightarrow> datetime option" where
  "awaited_instant t now = (case tk_available_at t of
       None \<Rightarrow> None
     | Some a \<Rightarrow> if tk_status t = PENDING \<and> a > now \<and> unadmitted t \<and> \<not> task_retry_attempt_elapsed t now then Some a else None)"

definition observe_wakeup :: "datetime \<Rightarrow> task \<Rightarrow> schedule_wakeup \<Rightarrow> schedule_wakeup result" where
  "observe_wakeup now t w =
     (let w = (case awaited_instant t now of None \<Rightarrow> w | Some a \<Rightarrow> w\<lparr>sw_next_available_at := earlier (sw_next_available_at w) a\<rparr>)
      in case tk_schedule t of
           None \<Rightarrow> Inr w
         | Some c \<Rightarrow>
             if ss_admitted_at c \<noteq> None then Inr w
             else
               let w = (case sp_expires_at (ss_policy c) of
                     None \<Rightarrow> w
                   | Some e \<Rightarrow> if e > now then w\<lparr>sw_next_expiry_at := earlier (sw_next_expiry_at w) e\<rparr> else w)
               in bind_res (schedule_phase t now) (\<lambda>phase.
                    Inr (w\<lparr>sw_maintenance_required := sw_maintenance_required w \<or> phase \<in> {SCHEDULE_EXPIRED, SCHEDULE_SKIPPED}\<rparr>)))"

fun observe_wakeups :: "datetime \<Rightarrow> task list \<Rightarrow> schedule_wakeup \<Rightarrow> schedule_wakeup result" where
  "observe_wakeups now [] w = Inr w"
| "observe_wakeups now (t # ts) w = bind_res (observe_wakeup now t w) (observe_wakeups now ts)"

definition no_wakeup :: "datetime \<Rightarrow> schedule_wakeup" where
  "no_wakeup now = \<lparr>sw_as_of = now, sw_next_available_at = None, sw_next_expiry_at = None, sw_maintenance_required = False\<rparr>"

definition next_task_schedule_wakeup :: "store_env \<Rightarrow> task_query \<Rightarrow> schedule_wakeup store_action" where
  "next_task_schedule_wakeup env y =
     bind_act (lift_res (ensure_claim_query_supported y)) (\<lambda>_.
     bind_act (read_clock env) (\<lambda>now.
       if qy_status y \<noteq> None \<and> qy_status y \<noteq> Some PENDING then return_act (no_wakeup now)
       else query_act (\<lambda>s. observe_wakeups now (filter (wakeup_relevant y s) (dict_values (ts_tasks s))) (no_wakeup now))))"

section \<open>Event budgets\<close>

definition refresh_task_retry_key :: "store_env \<Rightarrow> string \<Rightarrow> retry_key_state option store_action" where
  "refresh_task_retry_key env key =
     bind_act (lift_res (validate_task_retry_key key)) (\<lambda>key s.
       case dict_get (ts_retry_keys s) key of
         None \<Rightarrow> (Inr None, s)
       | Some state \<Rightarrow> bind_act (read_clock env) (\<lambda>now.
           bind_act (lift_res (expire_task_retry_key state now)) (\<lambda>state.
           bind_act (modify_act (\<lambda>s. s\<lparr>ts_retry_keys := dict_put key state (ts_retry_keys s)\<rparr>)) (\<lambda>_. return_act (Some state)))) s)"

definition event_expired :: "retry_key_state \<Rightarrow> datetime \<Rightarrow> bool result" where
  "event_expired state now = (if ks_status state \<noteq> KEY_ACTIVE then Inr True
     else bind_res (key_elapsed_deadline state) (\<lambda>deadline. Inr (deadline_passed deadline now)))"

fun expired_events :: "datetime \<Rightarrow> nat \<Rightarrow> task_store \<Rightarrow> task list \<Rightarrow> string list result" where
  "expired_events now n s [] = Inr []"
| "expired_events now n s (t # ts) = (case retry_key_of t s of
     None \<Rightarrow> expired_events now n s ts
   | Some state \<Rightarrow>
       if tk_status t \<in> {COMPLETED, FAILED, CANCELLED} \<or> task_cancellation_requested t \<or> retry_cancellation_requested t
       then expired_events now n s ts
       else bind_res (event_expired state now) (\<lambda>expired.
         if \<not> expired then expired_events now n s ts
         else if n \<le> 1 then Inr [tk_id t]
         else bind_res (expired_events now (n - 1) s ts) (\<lambda>ids. Inr (tk_id t # ids))))"

definition expired_task_event_ids :: "store_env \<Rightarrow> int \<Rightarrow> string list store_action" where
  "expired_task_event_ids env limit =
     bind_act (lift_res (positive_argument limit)) (\<lambda>_.
     bind_act (read_clock env) (\<lambda>now.
     query_act (\<lambda>s. expired_events now (nat limit) s (dict_values (ts_tasks s)))))"

section \<open>Ordinary sessions\<close>

definition active_work_contract_task_for_session :: "string \<Rightarrow> task_store \<Rightarrow> task option result" where
  "active_work_contract_task_for_session session s = (case list_at (ts_contracted_sessions s) session of
       [] \<Rightarrow> Inr None
     | i # _ \<Rightarrow> (case dict_get (ts_tasks s) i of
           None \<Rightarrow> Inl TaskTopologyInconsistent
         | Some t \<Rightarrow> if tk_session_id t \<noteq> Some session \<or> tk_work_contract t = None then Inl TaskTopologyInconsistent else Inr (Some t)))"

definition admit_ordinary_session :: "string \<Rightarrow> bool \<Rightarrow> unit store_action" where
  "admit_ordinary_session session cleanup_only =
     bind_act (lift_res (clean_arguments [session])) (\<lambda>_.
     bind_act (query_act (\<lambda>s. raise_if (\<not> cleanup_only \<and> session \<in> set (ts_retired_sessions s)) TaskClaimLost)) (\<lambda>_.
     bind_act (query_act (active_work_contract_task_for_session session)) (\<lambda>t.
     bind_act (lift_res (raise_if (t \<noteq> None) TaskCompletionDecisionRequired)) (\<lambda>_.
     modify_act (\<lambda>s. s\<lparr>ts_ordinary_sessions := List.insert session (ts_ordinary_sessions s)\<rparr>)))))"

definition require_unretired_task_session :: "string \<Rightarrow> unit store_action" where
  "require_unretired_task_session session =
     bind_act (lift_res (clean_arguments [session])) (\<lambda>_.
     query_act (\<lambda>s. raise_if (session \<in> set (ts_retired_sessions s)) TaskClaimLost))"

end
