(* ===== verification/Task_Creation.thy ===== *)
theory Task_Creation
  imports Task_Mutations
begin

text \<open>
  Creation of tasks and graphs: requests and provenance of \<open>src/cayu/tasks/creation.py\<close> and
  \<open>sessions/invocation.py\<close>, event keys of \<open>retry_budgets.py\<close>, admission of a graph
  (\<open>_graph_admission.py\<close>) and the entrances of \<open>memory.py\<close>.  The caller has no resource-access scope;
  declared operations and task groups are not modelled, and neither are the size bounds of contracted tasks.
\<close>

section \<open>Provenance\<close>

datatype execution_source = SRC_HTTP_RUN | SRC_HTTP_TASK | SRC_PRODUCT_OPERATION | SRC_SCHEDULED | SRC_SDK_TASK
  | SRC_TASK_DISPATCH | SRC_WEBHOOK

fun execution_source_value :: "execution_source \<Rightarrow> string" where
  "execution_source_value SRC_HTTP_RUN = ''http_run''"
| "execution_source_value SRC_HTTP_TASK = ''http_task''"
| "execution_source_value SRC_PRODUCT_OPERATION = ''product_operation''"
| "execution_source_value SRC_SCHEDULED = ''scheduled''"
| "execution_source_value SRC_SDK_TASK = ''sdk_task''"
| "execution_source_value SRC_TASK_DISPATCH = ''task_dispatch''"
| "execution_source_value SRC_WEBHOOK = ''webhook''"

text \<open>An origin as pydantic dumps it.\<close>

definition origin_json :: "string \<Rightarrow> string option \<Rightarrow> string option \<Rightarrow> json" where
  "origin_json trust subject tenant = JObj (fmap_of_list
     [(''trust'', JStr trust), (''subject'', json_opt JStr subject), (''tenant'', json_opt JStr tenant)])"

definition root_task_invocation :: "json \<Rightarrow> string \<Rightarrow> string option \<Rightarrow> execution_source \<Rightarrow> task_invocation" where
  "root_task_invocation origin root_invocation_id root_session_id source =
     \<lparr>ti_root_invocation_id = root_invocation_id, ti_root_session_id = root_session_id, ti_event_retry_key = None,
      ti_document = fmap_of_list
        [(''schema_version'', JInt 1), (''origin'', origin), (''root_invocation_id'', JStr root_invocation_id),
         (''root_session_id'', json_opt JStr root_session_id), (''source'', JStr (execution_source_value source))]\<rparr>"

text \<open>A child keeps the root, the origin and the access of its parent, but not its event key.\<close>

definition inherited_task_invocation :: "task_invocation \<Rightarrow> execution_source \<Rightarrow> string option \<Rightarrow> task_invocation result" where
  "inherited_task_invocation p source root_session_id =
     (if root_session_id \<noteq> None \<and> \<not> opt_holds durable_clean root_session_id then Inl ValueError
      else if root_session_id \<noteq> None \<and> ti_root_session_id p \<noteq> None \<and> ti_root_session_id p \<noteq> root_session_id then Inl ValueError
      else
        let root = (if root_session_id = None then ti_root_session_id p else root_session_id)
        in Inr (p\<lparr>ti_root_session_id := root, ti_event_retry_key := None,
             ti_document := fmdrop ''event_retry_key'' (fmupd ''source'' (JStr (execution_source_value source))
               (fmupd ''root_session_id'' (json_opt JStr root) (ti_document p)))\<rparr>))"

definition invocation_with_event_key :: "task_invocation \<Rightarrow> string \<Rightarrow> task_invocation" where
  "invocation_with_event_key i key =
     i\<lparr>ti_event_retry_key := Some key, ti_document := fmupd ''event_retry_key'' (JStr key) (ti_document i)\<rparr>"

section \<open>Requests\<close>

record task_create =
  tc_task_id :: "string option"
  tc_type :: string
  tc_title :: "string option"
  tc_description :: "string option"
  tc_session_id :: "string option"
  tc_parent_task_id :: "string option"
  tc_assigned_agent_name :: "string option"
  tc_available_at :: "datetime option"
  tc_schedule_policy :: "schedule_policy option"
  tc_input :: json_object
  tc_metadata :: json_object
  tc_retry_policy :: "retry_policy option"
  tc_event_id :: "string option"
  tc_retry_key :: "string option"
  tc_retry_budget :: "retry_budget option"
  tc_concurrency_key :: "string option"
  tc_restartable :: bool
  tc_max_restarts :: "int option"
  tc_work_contract :: "json_object option"
  tc_invocation_origin :: "(string \<times> string option) option"
  tc_verified_origin :: "json option"
  tc_source :: "execution_source option"
  tc_session_binding :: "session_binding option"

text \<open>The validators of \<open>TaskCreate\<close>, in groups.\<close>

definition create_texts_ok :: "task_create \<Rightarrow> bool" where
  "create_texts_ok q \<longleftrightarrow> durable_clean (tc_type q) \<and> opt_holds durable_clean (tc_task_id q) \<and>
     opt_holds durable_nonblank (tc_title q) \<and> opt_holds durable_nonblank (tc_description q) \<and>
     opt_holds durable_clean (tc_session_id q) \<and> opt_holds durable_clean (tc_parent_task_id q) \<and>
     opt_holds durable_clean (tc_assigned_agent_name q) \<and> opt_holds durable_clean (tc_event_id q) \<and>
     opt_holds concurrency_key_ok (tc_concurrency_key q) \<and>
     opt_holds (\<lambda>k. validate_task_retry_key k = Inr k) (tc_retry_key q) \<and>
     opt_holds retry_budget_valid (tc_retry_budget q) \<and> opt_holds retry_policy_valid (tc_retry_policy q) \<and>
     opt_holds (\<lambda>n. 0 \<le> n \<and> n \<le> 100) (tc_max_restarts q)"

definition create_restartable_ok :: "task_create \<Rightarrow> bool" where
  "create_restartable_ok q \<longleftrightarrow> \<not> (tc_concurrency_key q \<noteq> None \<and> tc_session_id q \<noteq> None) \<and>
     \<not> (tc_restartable q \<and> (tc_session_id q \<noteq> None \<or> tc_parent_task_id q \<noteq> None \<or> tc_retry_policy q \<noteq> None
         \<or> tc_work_contract q \<noteq> None \<or> tc_schedule_policy q \<noteq> None)) \<and>
     \<not> (tc_max_restarts q \<noteq> None \<and> \<not> tc_restartable q)"

definition create_event_ok :: "task_create \<Rightarrow> bool" where
  "create_event_ok q \<longleftrightarrow> tc_retry_key q = None \<and> tc_event_id q = None \<and> tc_retry_budget q = None \<or>
     tc_session_id q = None \<and> tc_work_contract q = None \<and>
     \<not> (tc_retry_key q = None \<and> (tc_parent_task_id q \<noteq> None \<or> tc_schedule_policy q \<noteq> None))"

definition create_schedule_ok :: "task_create \<Rightarrow> bool" where
  "create_schedule_ok q = (case tc_schedule_policy q of
       None \<Rightarrow> True
     | Some p \<Rightarrow> (case tc_available_at q of
           None \<Rightarrow> False
         | Some a \<Rightarrow> tc_task_id q \<noteq> None \<and> tc_session_id q = None \<and> validate_task_schedule_window a p = Inr ()))"

definition create_contract_ok :: "task_create \<Rightarrow> bool" where
  "create_contract_ok q \<longleftrightarrow>
     (tc_retry_policy q = None \<or> opt_holds reconciliation_identity_ok (tc_task_id q) \<and> tc_session_id q = None \<and> tc_work_contract q = None) \<and>
     (tc_work_contract q = None \<or> opt_holds linked_id_ok (tc_task_id q) \<and> opt_holds linked_id_ok (tc_session_id q))"

definition task_create_valid :: "task_create \<Rightarrow> bool" where
  "task_create_valid q \<longleftrightarrow> create_texts_ok q \<and> create_restartable_ok q \<and> create_event_ok q \<and> create_schedule_ok q \<and>
     create_contract_ok q \<and>
     opt_holds (\<lambda>(subject, tenant). durable_clean subject \<and> length subject \<le> 512 \<and>
        opt_holds (\<lambda>x. durable_clean x \<and> length x \<le> 512) tenant) (tc_invocation_origin q)"

definition copy_task_create :: "task_create \<Rightarrow> task_create result" where
  "copy_task_create q = (if task_create_valid q \<and> opt_holds session_binding_valid (tc_session_binding q) then Inr q else Inl ValueError)"

text \<open>A request as pydantic dumps it; absent optional fields of some kinds are left out.\<close>

definition json_field :: "string \<Rightarrow> ('a \<Rightarrow> json) \<Rightarrow> 'a option \<Rightarrow> (string \<times> json) list" where
  "json_field name f x = (case x of None \<Rightarrow> [] | Some y \<Rightarrow> [(name, f y)])"

definition retry_budget_json :: "retry_budget \<Rightarrow> json" where
  "retry_budget_json b = JObj (fmap_of_list
     [(''max_attempts'', json_opt JInt (tb_max_attempts b)), (''max_elapsed_seconds'', json_opt JNum (tb_max_elapsed_seconds b))])"

definition task_create_items :: "task_create \<Rightarrow> (string \<times> json) list" where
  "task_create_items q =
     [(''task_id'', json_opt JStr (tc_task_id q)), (''type'', JStr (tc_type q)), (''title'', json_opt JStr (tc_title q)),
      (''description'', json_opt JStr (tc_description q)), (''session_id'', json_opt JStr (tc_session_id q)),
      (''parent_task_id'', json_opt JStr (tc_parent_task_id q)),
      (''assigned_agent_name'', json_opt JStr (tc_assigned_agent_name q)),
      (''available_at'', json_opt json_instant (tc_available_at q)),
      (''schedule_policy'', json_opt schedule_policy_json (tc_schedule_policy q)),
      (''input'', JObj (tc_input q)), (''metadata'', JObj (tc_metadata q)),
      (''retry_policy'', json_opt retry_policy_json (tc_retry_policy q)),
      (''work_contract'', json_opt JObj (tc_work_contract q)),
      (''invocation_origin'', json_opt (\<lambda>(subject, tenant). JObj (fmap_of_list
         [(''subject'', JStr subject), (''tenant'', json_opt JStr tenant)])) (tc_invocation_origin q))] @
     json_field ''event_id'' JStr (tc_event_id q) @ json_field ''retry_key'' JStr (tc_retry_key q) @
     json_field ''retry_budget'' retry_budget_json (tc_retry_budget q) @
     json_field ''concurrency_key'' JStr (tc_concurrency_key q) @
     (if tc_restartable q then [(''restartable'', JBool True)] else []) @
     json_field ''max_restarts'' JInt (tc_max_restarts q)"

definition session_binding_json :: "session_binding \<Rightarrow> json" where
  "session_binding_json b = JObj (fmap_of_list
     [(''id'', JStr (sb_id b)), (''session_instance_id'', JStr (sb_session_instance_id b)),
      (''invocation'', JObj (fmap_of_list [(''schema_version'', JInt 1), (''origin'', sb_origin b),
        (''root_invocation_id'', JStr (sb_root_invocation_id b)), (''root_session_id'', JStr (sb_root_session_id b)),
        (''source'', JStr (sb_source b))]))])"

definition schedule_creation_digest :: "(json \<Rightarrow> string) \<Rightarrow> task_create \<Rightarrow> string" where
  "schedule_creation_digest digest q = digest (JObj (fmap_of_list (task_create_items q @
     [(''runtime_source'', json_opt (\<lambda>x. JStr (execution_source_value x)) (tc_source q)),
      (''verified_origin'', json_opt id (tc_verified_origin q)),
      (''runtime_session_binding'', json_opt session_binding_json (tc_session_binding q))])))"

section \<open>Provenance of a new task\<close>

definition source_of :: "task_create \<Rightarrow> execution_source" where
  "source_of q = (case tc_source q of None \<Rightarrow> SRC_SDK_TASK | Some x \<Rightarrow> x)"

definition host_sources :: "execution_source set" where
  "host_sources = {SRC_SDK_TASK, SRC_SCHEDULED, SRC_WEBHOOK}"

definition root_origin :: "task_create \<Rightarrow> json result" where
  "root_origin q = (case (tc_verified_origin q, tc_invocation_origin q) of
       (Some origin, _) \<Rightarrow>
         if source_of q \<in> {SRC_HTTP_RUN, SRC_HTTP_TASK, SRC_PRODUCT_OPERATION} then Inr origin else Inl ValueError
     | (None, Some (subject, tenant)) \<Rightarrow>
         if source_of q \<in> host_sources then Inr (origin_json ''host_asserted'' (Some subject) tenant) else Inl ValueError
     | (None, None) \<Rightarrow>
         if source_of q \<in> insert SRC_HTTP_TASK host_sources then Inr (origin_json ''unattributed'' None None) else Inl ValueError)"

definition binding_conflicts :: "task_create \<Rightarrow> session_binding option \<Rightarrow> bool" where
  "binding_conflicts q binding = (case binding of
       None \<Rightarrow> False
     | Some b \<Rightarrow> tc_session_id q \<noteq> None \<and> tc_session_id q \<noteq> Some (sb_id b))"

text \<open>\<open>uuid\<close> is the fresh root invocation.\<close>

definition task_invocation_for_create :: "task_create \<Rightarrow> (string \<times> task_invocation) option \<Rightarrow> session_binding option \<Rightarrow> string
    \<Rightarrow> task_invocation result" where
  "task_invocation_for_create q parent supplied uuid =
     (if (case (tc_session_binding q, supplied) of (Some a, Some b) \<Rightarrow> a \<noteq> b | _ \<Rightarrow> False) then Inl ValueError
      else
        let binding = (case supplied of None \<Rightarrow> tc_session_binding q | Some b \<Rightarrow> Some b);
            claimed = tc_invocation_origin q \<noteq> None \<or> tc_verified_origin q \<noteq> None
        in if tc_invocation_origin q \<noteq> None \<and> tc_verified_origin q \<noteq> None then Inl ValueError
           else case parent of
             Some (parent_id, p) \<Rightarrow>
               if tc_parent_task_id q \<noteq> Some parent_id then Inl ValueError
               else if claimed then Inl ValueError
               else if binding_conflicts q binding then Inl ValueError
               else if (case binding of None \<Rightarrow> False | Some b \<Rightarrow> invocation_origin p \<noteq> sb_origin b
                    \<or> ti_root_invocation_id p \<noteq> sb_root_invocation_id b) then Inl ValueError
               else inherited_task_invocation p (source_of q) (map_option sb_root_session_id binding)
           | None \<Rightarrow>
               if tc_parent_task_id q \<noteq> None then Inl ValueError
               else (case binding of
                 Some b \<Rightarrow>
                   if claimed then Inl ValueError
                   else if binding_conflicts q binding then Inl ValueError
                   else Inr (root_task_invocation (sb_origin b) (sb_root_invocation_id b) (Some (sb_root_session_id b)) (source_of q))
               | None \<Rightarrow>
                   if source_of q = SRC_TASK_DISPATCH then Inl ValueError
                   else bind_res (root_origin q) (\<lambda>origin.
                     Inr (root_task_invocation origin uuid (tc_session_id q) (source_of q)))))"

section \<open>Event keys\<close>

definition task_event_applies :: "task_create \<Rightarrow> bool" where
  "task_event_applies q \<longleftrightarrow> tc_retry_key q \<noteq> None \<or> tc_session_id q = None \<and> tc_parent_task_id q = None \<and>
     tc_work_contract q = None \<and> tc_schedule_policy q = None"

definition declared_event_id :: "task_create \<Rightarrow> string option" where
  "declared_event_id q = (case tc_event_id q of
       Some e \<Rightarrow> Some e
     | None \<Rightarrow> (case fmlookup (tc_input q) ''event_id'' of
           Some (JStr e) \<Rightarrow> if py_strip e = [] then None else Some e
         | _ \<Rightarrow> None))"

definition access_identity :: "task_invocation \<Rightarrow> json" where
  "access_identity i = (case fmlookup (ti_document i) ''resource_access'' of
       Some (JObj a) \<Rightarrow> JObj (fmap_of_list [(''authority'', payload_at a ''authority''), (''subject'', payload_at a ''subject'')])
     | _ \<Rightarrow> JNull)"

definition task_event_key :: "(json \<Rightarrow> string) \<Rightarrow> task_create \<Rightarrow> string \<Rightarrow> task_invocation \<Rightarrow> string option" where
  "task_event_key digest q task_id i = (case tc_retry_key q of
       Some k \<Rightarrow> Some k
     | None \<Rightarrow>
         if \<not> task_event_applies q then None
         else Some (''event:'' @ digest (JObj (fmap_of_list
           [(''type'', JStr (tc_type q)), (''event_id'', json_opt JStr (declared_event_id q)),
            (''independent_task_id'', if declared_event_id q = None then JStr task_id else JNull),
            (''origin'', invocation_origin i), (''resource_access'', access_identity i),
            (''access_labels'', case fmlookup (ti_document i) ''access_labels'' of Some j \<Rightarrow> j | None \<Rightarrow> JObj fmempty)]))))"

definition budget_of_request :: "task_create \<Rightarrow> retry_budget" where
  "budget_of_request q = (case (tc_retry_budget q, tc_retry_policy q) of
       (Some b, _) \<Rightarrow> b
     | (None, Some p) \<Rightarrow> \<lparr>tb_max_attempts = Some (tp_max_attempts p), tb_max_elapsed_seconds = tp_max_elapsed_seconds p\<rparr>
     | (None, None) \<Rightarrow> default_task_retry_budget)"

definition task_retry_key_request :: "task_create \<Rightarrow> task \<Rightarrow> (string \<times> retry_budget) option" where
  "task_retry_key_request q t = (case ti_event_retry_key (tk_invocation t) of
       None \<Rightarrow> None | Some key \<Rightarrow> Some (key, budget_of_request q))"

section \<open>The new task\<close>

text \<open>What creation reads from outside the store: fresh identities and the system clock.\<close>

record fresh_inputs =
  fi_task_id :: string
  fi_root_invocation_id :: string
  fi_now :: datetime

definition draft_task :: "task_create \<Rightarrow> string \<Rightarrow> session_binding option \<Rightarrow> task_invocation \<Rightarrow> datetime \<Rightarrow> task" where
  "draft_task q task_id binding invocation now =
     \<lparr>tk_id = task_id, tk_type = tc_type q, tk_concurrency_key = tc_concurrency_key q, tk_restartable = tc_restartable q,
      tk_restart_count = 0, tk_max_restarts = tc_max_restarts q, tk_restart_history = [], tk_title = tc_title q,
      tk_description = tc_description q, tk_status = PENDING, tk_session_id = tc_session_id q,
      tk_session_instance_id = (if tc_session_id q = None then None else map_option sb_session_instance_id binding),
      tk_parent_task_id = tc_parent_task_id q, tk_assigned_agent_name = tc_assigned_agent_name q, tk_graph_id = None,
      tk_prerequisite_task_ids = [], tk_available_at = tc_available_at q, tk_worker_id = None,
      tk_lease_expires_at = None, tk_interrupted_handoff_id = None, tk_status_reason = None,
      tk_status_payload = None, tk_input = tc_input q, tk_result = None, tk_error = None,
      tk_metadata = tc_metadata q, tk_created_at = now, tk_updated_at = now, tk_started_at = None,
      tk_completed_at = None, tk_invocation = invocation, tk_schedule = None,
      tk_retry_series = None, tk_work_contract = tc_work_contract q\<rparr>"

definition first_attempt :: "string \<Rightarrow> retry_policy \<Rightarrow> datetime \<Rightarrow> retry_series" where
  "first_attempt series_id p started_at = \<lparr>rs_series_id = series_id, rs_causal_budget_id = series_id, rs_authority_sha256 = [],
     rs_attempt = 1, rs_policy = p, rs_started_at = started_at, rs_cumulative_tokens = 0, rs_cumulative_estimated_cost = 0,
     rs_attempts_remaining = 0, rs_tokens_remaining = None, rs_estimated_cost_remaining = None, rs_elapsed_deadline = None,
     rs_disposition = SERIES_ACTIVE, rs_predecessor_task_id = None, rs_successor_task_id = None, rs_next_eligible_at = None\<rparr>"

definition initial_retry_series :: "(json \<Rightarrow> string) \<Rightarrow> task \<Rightarrow> retry_policy option \<Rightarrow> datetime \<Rightarrow> retry_series option result" where
  "initial_retry_series digest draft policy started_at = (case policy of
       None \<Rightarrow> Inr None
     | Some p \<Rightarrow>
         let sid = task_retry_series_id digest (tk_id draft)
         in bind_res (task_retry_series_snapshot sid sid
              (task_retry_attempt_authority_sha256 digest draft (first_attempt sid p started_at)) 1 p started_at 0 0
              SERIES_ACTIVE None None None) (\<lambda>s. Inr (Some s)))"

definition initial_schedule :: "(json \<Rightarrow> string) \<Rightarrow> task_create \<Rightarrow> schedule_state option result" where
  "initial_schedule digest q = (case tc_schedule_policy q of
       None \<Rightarrow> Inr None
     | Some p \<Rightarrow>
         let c = \<lparr>ss_revision = 1, ss_policy = p, ss_creation_sha256 = schedule_creation_digest digest q, ss_admitted_at = None\<rparr>
         in if schedule_state_valid c then Inr (Some c) else Inl ValueError)"

definition creation_event_key :: "(json \<Rightarrow> string) \<Rightarrow> task_create \<Rightarrow> string \<Rightarrow> bool \<Rightarrow> task_invocation \<Rightarrow> task_invocation" where
  "creation_event_key digest q task_id event_budget i =
     (if \<not> event_budget then i
      else case task_event_key digest q task_id i of None \<Rightarrow> i | Some k \<Rightarrow> invocation_with_event_key i k)"

definition task_from_create :: "(json \<Rightarrow> string) \<Rightarrow> task_create \<Rightarrow> string \<Rightarrow> (string \<times> task_invocation) option
    \<Rightarrow> session_binding option \<Rightarrow> datetime \<Rightarrow> bool \<Rightarrow> fresh_inputs \<Rightarrow> task result" where
  "task_from_create digest q task_id parent supplied retry_started_at event_budget fresh =
     (let now = (if tc_schedule_policy q = None then fi_now fresh else retry_started_at)
      in bind_res (task_invocation_for_create q parent supplied (fi_root_invocation_id fresh)) (\<lambda>invocation.
         let draft = draft_task q task_id (case supplied of None \<Rightarrow> tc_session_binding q | Some b \<Rightarrow> Some b)
               (creation_event_key digest q task_id event_budget invocation) now
         in bind_res (initial_retry_series digest draft (tc_retry_policy q) retry_started_at) (\<lambda>series.
            bind_res (copy_task digest (draft\<lparr>tk_retry_series := series\<rparr>)) (\<lambda>t.
            bind_res (initial_schedule digest q) (\<lambda>schedule. Inr (t\<lparr>tk_schedule := schedule\<rparr>))))))"

definition running_task_from_create :: "(json \<Rightarrow> string) \<Rightarrow> task_create \<Rightarrow> string \<Rightarrow> (string \<times> task_invocation) option
    \<Rightarrow> session_binding \<Rightarrow> datetime \<Rightarrow> fresh_inputs \<Rightarrow> task result" where
  "running_task_from_create digest q task_id parent binding retry_started_at fresh =
     bind_res (task_from_create digest q task_id parent (Some binding) retry_started_at False fresh) (\<lambda>t.
       if tk_session_id t = None then Inl ValueError
       else
         let running = t\<lparr>tk_status := RUNNING, tk_started_at := Some (tk_created_at t)\<rparr>
         in if tk_work_contract t = None then Inr running else copy_task digest running)"

section \<open>Creation of one task\<close>

definition require_work_contract :: "json_object \<Rightarrow> unit store_action" where
  "require_work_contract ref = query_act (\<lambda>s.
     case (payload_at ref ''contract_id'', payload_at ref ''version'') of
       (JStr i, JInt v) \<Rightarrow> (case dict_get (ts_work_contracts s) (i, v) of
           None \<Rightarrow> Inl WorkContractConflict
         | Some fingerprint \<Rightarrow> raise_if (payload_at ref ''fingerprint'' \<noteq> JStr fingerprint) WorkContractConflict)
     | _ \<Rightarrow> Inl WorkContractConflict)"

definition check_contract :: "task_create \<Rightarrow> unit store_action" where
  "check_contract q = (case tc_work_contract q of
       None \<Rightarrow> return_act ()
     | Some ref \<Rightarrow> bind_act (require_work_contract ref) (\<lambda>_.
         ensure_contract_session_accepts_attachment (Some ref) (tc_session_id q) False))"

definition task_parent_for_create :: "task_create \<Rightarrow> string \<Rightarrow> task_store \<Rightarrow> task option result" where
  "task_parent_for_create q task_id s = (case tc_parent_task_id q of
       None \<Rightarrow> Inr None
     | Some p \<Rightarrow>
         if p = task_id then Inl ValueError
         else (case dict_get (ts_tasks s) p of None \<Rightarrow> Inl ValueError | Some t \<Rightarrow> Inr (Some t)))"

definition provenance_of :: "task \<Rightarrow> string \<times> task_invocation" where
  "provenance_of t = (tk_id t, tk_invocation t)"

definition put_retry_key :: "retry_key_state \<Rightarrow> task_store \<Rightarrow> task_store" where
  "put_retry_key k s = s\<lparr>ts_retry_keys := dict_put (ks_retry_key k) k (ts_retry_keys s)\<rparr>"

definition closed_key_error :: "retry_key_state \<Rightarrow> err" where
  "closed_key_error k = (if ks_status k = KEY_SUCCEEDED then TaskEventAlreadyCompleted else TaskRetryBudgetExhausted)"

text \<open>Admit a new task of an event, before it is stored; a refusal is recorded.\<close>

definition admit_created_task :: "store_env \<Rightarrow> task_create \<Rightarrow> task \<Rightarrow> retry_key_state option store_action" where
  "admit_created_task env q t = (case task_retry_key_request q t of
       None \<Rightarrow> return_act None
     | Some (key, budget) \<Rightarrow>
         bind_act (read_clock env) (\<lambda>now.
         bind_act (query_act (\<lambda>s. admit_task_retry_key (dict_get (ts_retry_keys s) key) key budget (tk_id t) now
             (tc_retry_budget q \<noteq> None) (tc_retry_budget q = None \<and> tc_retry_policy q = None))) (\<lambda>(state, admitted).
           if admitted then return_act (Some state)
           else bind_act (modify_act (\<lambda>s. s\<lparr>ts_retry_keys := dict_put key state (ts_retry_keys s)\<rparr>)) (\<lambda>_.
             lift_res (Inl (closed_key_error state))))))"

definition create_new :: "store_env \<Rightarrow> task_create \<Rightarrow> string \<Rightarrow> fresh_inputs \<Rightarrow> task store_action" where
  "create_new env q task_id fresh =
     bind_act (query_act (task_parent_for_create q task_id)) (\<lambda>parent.
     bind_act (check_contract q) (\<lambda>_.
     bind_act (read_clock env) (\<lambda>admission_now.
     bind_act (lift_res (task_from_create (te_digest env) q task_id (map_option provenance_of parent) None admission_now True fresh)) (\<lambda>t.
     bind_act (query_act (\<lambda>s. raise_if (dict_get (ts_tasks s) (tk_id t) \<noteq> None) ValueError)) (\<lambda>_.
     bind_act (admit_created_task env q t) (\<lambda>state.
     bind_act (query_act (prepare_task_write env t None)) (\<lambda>w.
     bind_act (case state of None \<Rightarrow> return_act () | Some k \<Rightarrow> modify_act (put_retry_key k)) (\<lambda>_.
     bind_act (publish_prepared_task_write env (Some admission_now) w) (\<lambda>_. return_act t)))))))))"

definition create_task :: "store_env \<Rightarrow> task_create \<Rightarrow> fresh_inputs \<Rightarrow> task store_action" where
  "create_task env q fresh =
     bind_act (lift_res (copy_task_create q)) (\<lambda>q s.
       let task_id = (case tc_task_id q of None \<Rightarrow> fi_task_id fresh | Some i \<Rightarrow> i)
       in if dict_get (ts_creation_receipts s) task_id \<noteq> None then (Inl TaskCreationConflict, s)
          else if dict_get (ts_graph_by_task s) task_id \<noteq> None then (Inl TaskGraphConflict, s)
          else case (tc_schedule_policy q, dict_get (ts_tasks s) task_id) of
            (Some _, Some t) \<Rightarrow>
              (case tk_schedule t of
                 None \<Rightarrow> Inl TaskScheduleConflict
               | Some c \<Rightarrow> if ss_creation_sha256 c \<noteq> schedule_creation_digest (te_digest env) q then Inl TaskScheduleConflict else Inr t, s)
          | _ \<Rightarrow> create_new env q task_id fresh s)"

definition create_running_task :: "store_env \<Rightarrow> task_create \<Rightarrow> session_binding \<Rightarrow> fresh_inputs \<Rightarrow> task store_action" where
  "create_running_task env q binding fresh =
     bind_act (lift_res (copy_task_create q)) (\<lambda>q.
     bind_act (lift_res (copy_session_binding binding)) (\<lambda>binding.
     let task_id = (case tc_task_id q of None \<Rightarrow> fi_task_id fresh | Some i \<Rightarrow> i)
     in bind_act (query_act (task_parent_for_create q task_id)) (\<lambda>parent.
        bind_act (check_contract q) (\<lambda>_.
        bind_act (read_clock env) (\<lambda>now.
        bind_act (lift_res (running_task_from_create (te_digest env) q task_id (map_option provenance_of parent) binding now fresh)) (\<lambda>t.
        bind_act (query_act (\<lambda>s. raise_if (dict_get (ts_tasks s) (tk_id t) \<noteq> None) ValueError)) (\<lambda>_.
        store_and_return env t)))))))"

end
