(* ===== verification/Graph_Creation.thy ===== *)
theory Graph_Creation
  imports Task_Creation
begin

text \<open>
  Creation of a task graph: the request of \<open>src/cayu/tasks/graphs.py\<close>, its admission in
  \<open>_graph_admission.py\<close> and the transaction of \<open>_memory_graphs.py\<close>.  The byte limit of a graph document and
  the size reserves of contracted members are not modelled; there are no groups and no access scopes.
\<close>

section \<open>Requests\<close>

record parent_snapshot =
  ps_id :: string
  ps_session_id :: "string option"
  ps_session_instance_id :: "string option"
  ps_invocation :: task_invocation

definition parent_snapshot_valid :: "parent_snapshot \<Rightarrow> bool" where
  "parent_snapshot_valid p \<longleftrightarrow> durable_clean (ps_id p) \<and> opt_holds durable_clean (ps_session_id p) \<and>
     opt_holds is_uuid4 (ps_session_instance_id p) \<and> \<not> (ps_session_instance_id p \<noteq> None \<and> ps_session_id p = None)"

definition snapshot_of :: "task \<Rightarrow> parent_snapshot" where
  "snapshot_of t = \<lparr>ps_id = tk_id t, ps_session_id = tk_session_id t, ps_session_instance_id = tk_session_instance_id t,
     ps_invocation = tk_invocation t\<rparr>"

record graph_node =
  gn_task :: task_create
  gn_prerequisites :: "string list"

definition node_id :: "graph_node \<Rightarrow> string" where
  "node_id n = (case tc_task_id (gn_task n) of None \<Rightarrow> [] | Some i \<Rightarrow> i)"

definition graph_node_valid :: "graph_node \<Rightarrow> bool" where
  "graph_node_valid n \<longleftrightarrow> copy_task_create (gn_task n) = Inr (gn_task n) \<and> \<not> tc_restartable (gn_task n) \<and>
     tc_retry_key (gn_task n) = None \<and> tc_event_id (gn_task n) = None \<and> tc_retry_budget (gn_task n) = None \<and>
     opt_holds is_graph_identifier (tc_task_id (gn_task n)) \<and> tc_task_id (gn_task n) \<noteq> None \<and>
     length (gn_prerequisites n) \<le> task_graph_max_nodes \<and> list_all is_graph_identifier (gn_prerequisites n) \<and>
     distinct (gn_prerequisites n)"

definition copied_node :: "graph_node \<Rightarrow> graph_node" where
  "copied_node n = n\<lparr>gn_prerequisites := sort (gn_prerequisites n)\<rparr>"

record graph_create =
  gq_graph_id :: string
  gq_nodes :: "graph_node list"
  gq_submitted_sha256 :: "string option"
  gq_parents :: "parent_snapshot list"

definition node_edges :: "graph_node list \<Rightarrow> (string \<times> string list) list" where
  "node_edges nodes = map (\<lambda>n. (node_id n, gn_prerequisites n)) nodes"

definition copy_task_graph_create :: "graph_create \<Rightarrow> graph_create result" where
  "copy_task_graph_create q =
     (if \<not> is_graph_identifier (gq_graph_id q) then Inl ValueError
      else if gq_nodes q = [] \<or> length (gq_nodes q) > task_graph_max_nodes \<or> \<not> list_all graph_node_valid (gq_nodes q)
      then Inl ValueError
      else
        let nodes = sort_key node_id (map copied_node (gq_nodes q))
        in bind_res (validate_graph (node_edges nodes)) (\<lambda>_.
             if \<not> opt_holds is_sha256_text (gq_submitted_sha256 q) \<or> length (gq_parents q) > task_graph_max_nodes
                \<or> \<not> list_all parent_snapshot_valid (gq_parents q) \<or> \<not> sorted_wrt (<) (map ps_id (gq_parents q))
             then Inl ValueError
             else Inr (q\<lparr>gq_nodes := nodes\<rparr>)))"

section \<open>The digest of an admission\<close>

definition parent_snapshot_json :: "parent_snapshot \<Rightarrow> json" where
  "parent_snapshot_json p = JObj (fmap_of_list
     [(''id'', JStr (ps_id p)), (''session_id'', json_opt JStr (ps_session_id p)),
      (''session_instance_id'', json_opt JStr (ps_session_instance_id p)), (''invocation'', JObj (ti_document (ps_invocation p)))])"

definition node_json :: "graph_node \<Rightarrow> json" where
  "node_json n = JObj (fmap_of_list
     [(''task'', JObj (fmap_of_list (task_create_items (gn_task n)))),
      (''prerequisite_task_ids'', JList (map JStr (gn_prerequisites n)))])"

definition authority_json :: "graph_node \<Rightarrow> json" where
  "authority_json n = JObj (fmap_of_list
     [(''verified_origin'', json_opt id (tc_verified_origin (gn_task n))),
      (''runtime_source'', json_opt (\<lambda>x. JStr (execution_source_value x)) (tc_source (gn_task n))),
      (''session_binding'', json_opt session_binding_json (tc_session_binding (gn_task n)))])"

definition task_graph_request_sha256 :: "(json \<Rightarrow> string) \<Rightarrow> graph_create \<Rightarrow> string" where
  "task_graph_request_sha256 digest q = digest (JObj (fmap_of_list
     [(''graph_id'', JStr (gq_graph_id q)), (''nodes'', JList (map node_json (gq_nodes q))),
      (''submitted_request_sha256'', json_opt JStr (gq_submitted_sha256 q)),
      (''parent_invocations'', JList (map parent_snapshot_json (gq_parents q))),
      (''invocation_authorities'', JList (map authority_json (gq_nodes q)))]))"

section \<open>Admission\<close>

text \<open>Everything the members are built from: the digest, the clock, the parents outside the graph, fresh inputs.\<close>

record admission_context =
  ac_digest :: "json \<Rightarrow> string"
  ac_graph_id :: string
  ac_ids :: "string list"
  ac_now :: datetime
  ac_parents :: "(string, task) dict"
  ac_check :: "task_create \<Rightarrow> unit result"
  ac_fresh :: "string \<Rightarrow> fresh_inputs"

definition external_parents :: "graph_create \<Rightarrow> string list" where
  "external_parents q = concat (map (\<lambda>n. case tc_parent_task_id (gn_task n) of
       None \<Rightarrow> [] | Some p \<Rightarrow> if p \<in> node_id ` set (gq_nodes q) then [] else [p]) (gq_nodes q))"

definition check_parent_authority :: "graph_create \<Rightarrow> (string, task) dict \<Rightarrow> unit result" where
  "check_parent_authority q parents =
     (if gq_submitted_sha256 q \<noteq> None \<and> set (map ps_id (gq_parents q)) \<noteq> set (external_parents q) then Inl TaskGraphConflict
      else raise_if (\<not> list_all (\<lambda>e. case dict_get parents (ps_id e) of None \<Rightarrow> False | Some t \<Rightarrow> snapshot_of t = e) (gq_parents q))
        TaskGraphConflict)"

definition parent_of_node :: "admission_context \<Rightarrow> (string, task) dict \<Rightarrow> graph_node \<Rightarrow> task option" where
  "parent_of_node c prepared n = (case tc_parent_task_id (gn_task n) of
       None \<Rightarrow> None
     | Some p \<Rightarrow> (case dict_get prepared p of None \<Rightarrow> dict_get (ac_parents c) p | Some t \<Rightarrow> Some t))"

definition admitted_member :: "admission_context \<Rightarrow> (string, task) dict \<Rightarrow> graph_node \<Rightarrow> task result" where
  "admitted_member c prepared n =
     (let q = gn_task n; parent = parent_of_node c prepared n
      in if tc_parent_task_id q \<noteq> None \<and> parent = None then Inl TaskGraphConflict
         else bind_res (ac_check c q) (\<lambda>_.
           bind_res (task_from_create (ac_digest c) q (node_id n) (map_option provenance_of parent) None (ac_now c) False
               (ac_fresh c (node_id n))) (\<lambda>t.
             copy_task (ac_digest c) (t\<lparr>tk_graph_id := Some (ac_graph_id c), tk_prerequisite_task_ids := gn_prerequisites n,
               tk_status := (if gn_prerequisites n = [] then PENDING else WAITING_DEPENDENCIES)\<rparr>))))"

text \<open>One pass over the remaining nodes: a node waits while its parent is a member that is not built yet.\<close>

definition awaits_parent :: "admission_context \<Rightarrow> (string, task) dict \<Rightarrow> graph_node \<Rightarrow> bool" where
  "awaits_parent c prepared n = (case tc_parent_task_id (gn_task n) of
       None \<Rightarrow> False | Some p \<Rightarrow> p \<in> set (ac_ids c) \<and> dict_get prepared p = None)"

fun admit_pass :: "admission_context \<Rightarrow> graph_node list \<Rightarrow> (string, task) dict \<Rightarrow> ((string, task) dict \<times> graph_node list) result" where
  "admit_pass c [] prepared = Inr (prepared, [])"
| "admit_pass c (n # ns) prepared =
     (if awaits_parent c prepared n
      then bind_res (admit_pass c ns prepared) (\<lambda>(prepared, left). Inr (prepared, n # left))
      else bind_res (admitted_member c prepared n) (\<lambda>t. admit_pass c ns (dict_put (tk_id t) t prepared)))"

lemma admit_pass_length: "admit_pass c ns prepared = Inr (p, left) \<Longrightarrow> length left \<le> length ns"
proof (induction c ns prepared arbitrary: p left rule: admit_pass.induct)
  case (2 c n ns prepared)
  then show ?case by (cases "awaits_parent c prepared n") (fastforce simp: res_simps)+
qed simp

text \<open>Passes until every node is built; a pass that builds none means a cycle of parents.\<close>

function admit_nodes :: "admission_context \<Rightarrow> graph_node list \<Rightarrow> (string, task) dict \<Rightarrow> (string, task) dict result" where
  "admit_nodes c remaining prepared =
     (if remaining = [] then Inr prepared
      else case admit_pass c remaining prepared of
        Inl e \<Rightarrow> Inl e
      | Inr (prepared, left) \<Rightarrow>
          if length left < length remaining then admit_nodes c left prepared else Inl TaskGraphConflict)"
  by pat_completeness auto
termination
  by (relation "measure (\<lambda>(c, remaining, prepared). length remaining)") simp_all

declare admit_nodes.simps [simp del]

definition admission_receipt :: "graph_create \<Rightarrow> string \<Rightarrow> datetime \<Rightarrow> (string, task) dict \<Rightarrow> graph_receipt" where
  "admission_receipt q sha now prepared = \<lparr>gr_graph_id = gq_graph_id q, gr_request_sha256 = sha,
     gr_submitted_request_sha256 = (case gq_submitted_sha256 q of None \<Rightarrow> sha | Some x \<Rightarrow> x),
     gr_task_ids = sort (map fst prepared), gr_accepted_at = now\<rparr>"

definition member_event :: "string \<Rightarrow> datetime \<Rightarrow> int \<Rightarrow> task \<Rightarrow> graph_event" where
  "member_event graph_id now k t = \<lparr>ge_graph_id = graph_id, ge_sequence = k,
     ge_type = (if tk_prerequisite_task_ids t = [] then READY_EVENT else WAITING_EVENT), ge_occurred_at = now,
     ge_task_id = Some (tk_id t), ge_status = Some (tk_status t), ge_prerequisite_task_ids = tk_prerequisite_task_ids t\<rparr>"

definition admission_events :: "string \<Rightarrow> datetime \<Rightarrow> string list \<Rightarrow> (string, task) dict \<Rightarrow> graph_event list" where
  "admission_events graph_id now ids prepared =
     \<lparr>ge_graph_id = graph_id, ge_sequence = 1, ge_type = GRAPH_CREATED, ge_occurred_at = now, ge_task_id = None,
       ge_status = None, ge_prerequisite_task_ids = []\<rparr>
     # map (\<lambda>(k, i). member_event graph_id now (int k + 2) (the (dict_get prepared i))) (zip [0..<length ids] ids)"

definition prepare_graph_admission :: "admission_context \<Rightarrow> graph_create \<Rightarrow> string
    \<Rightarrow> (graph_receipt \<times> (string, task) dict \<times> graph_event list) result" where
  "prepare_graph_admission c q sha =
     bind_res (check_parent_authority q (ac_parents c)) (\<lambda>_.
     bind_res (admit_nodes c (gq_nodes q) []) (\<lambda>prepared.
       let receipt = admission_receipt q sha (ac_now c) prepared;
           events = admission_events (gq_graph_id q) (ac_now c) (gr_task_ids receipt) prepared
       in if graph_receipt_valid receipt \<and> list_all graph_event_valid events then Inr (receipt, prepared, events) else Inl ValueError))"

section \<open>The transaction\<close>

text \<open>The checks of one member against the store, before anything is written.\<close>

definition member_request_ok :: "task_store \<Rightarrow> task_create \<Rightarrow> unit result" where
  "member_request_ok s q = bind_res (fst (check_contract q s)) (\<lambda>_.
     raise_if (session_closing (tc_session_id q) s) TaskGraphConflict)"

definition graph_parents :: "graph_create \<Rightarrow> task_store \<Rightarrow> (string, task) dict result" where
  "graph_parents q s = bind_res (traverse_res (\<lambda>n.
       case tc_parent_task_id (gn_task n) of
         None \<Rightarrow> Inr None
       | Some p \<Rightarrow> if p \<in> node_id ` set (gq_nodes q) then Inr None else task_parent_for_create (gn_task n) (node_id n) s) (gq_nodes q))
     (\<lambda>parents. Inr (fold (\<lambda>p d. case p of None \<Rightarrow> d | Some t \<Rightarrow> dict_put (tk_id t) t d) parents []))"

definition publish_graph :: "string \<Rightarrow> graph_receipt \<Rightarrow> (string, task) dict \<Rightarrow> graph_event list \<Rightarrow> task_store \<Rightarrow> task_store" where
  "publish_graph graph_id receipt prepared events s =
     s\<lparr>ts_graph_members := dict_put graph_id (map (\<lambda>(i, t). (i, tk_prerequisite_task_ids t)) prepared) (ts_graph_members s),
       ts_graph_receipts := dict_put graph_id receipt (ts_graph_receipts s),
       ts_graph_events := dict_put graph_id events (ts_graph_events s),
       ts_graph_by_task := dict_merge (ts_graph_by_task s) (map (\<lambda>(i, _). (i, graph_id)) prepared)\<rparr>"

definition replay_graph :: "graph_create \<Rightarrow> string \<Rightarrow> graph_receipt \<Rightarrow> task_store \<Rightarrow> graph_receipt result" where
  "replay_graph q sha r s = bind_res (require_graph_membership (gq_graph_id q) r (list_at (ts_graph_members s) (gq_graph_id q))) (\<lambda>_.
     if gr_request_sha256 r \<noteq> sha \<or> gr_submitted_request_sha256 r \<noteq> (case gq_submitted_sha256 q of None \<Rightarrow> sha | Some x \<Rightarrow> x)
     then Inl TaskGraphConflict else Inr r)"

definition graph_occupied :: "graph_create \<Rightarrow> task_store \<Rightarrow> bool" where
  "graph_occupied q s = list_ex (\<lambda>n. dict_get (ts_tasks s) (node_id n) \<noteq> None \<or> dict_get (ts_graph_by_task s) (node_id n) \<noteq> None) (gq_nodes q)"

definition admission_context_of :: "store_env \<Rightarrow> (string \<Rightarrow> fresh_inputs) \<Rightarrow> graph_create \<Rightarrow> datetime \<Rightarrow> (string, task) dict
    \<Rightarrow> task_store \<Rightarrow> admission_context" where
  "admission_context_of env fresh q now parents s = \<lparr>ac_digest = te_digest env, ac_graph_id = gq_graph_id q,
     ac_ids = map node_id (gq_nodes q), ac_now = now, ac_parents = parents, ac_check = member_request_ok s, ac_fresh = fresh\<rparr>"

definition create_graph_new :: "store_env \<Rightarrow> (string \<Rightarrow> fresh_inputs) \<Rightarrow> graph_create \<Rightarrow> string \<Rightarrow> graph_receipt store_action" where
  "create_graph_new env fresh q sha =
     bind_act (query_act (\<lambda>s. raise_if (graph_occupied q s) TaskGraphConflict)) (\<lambda>_.
     bind_act (query_act (graph_parents q)) (\<lambda>parents.
     bind_act (read_clock env) (\<lambda>now.
     bind_act (query_act (\<lambda>s. prepare_graph_admission (admission_context_of env fresh q now parents s) q sha)) (\<lambda>(receipt, prepared, events).
     bind_act (query_act (\<lambda>s. traverse_res (\<lambda>t. prepare_task_write env t None s) (dict_values prepared))) (\<lambda>writes.
     bind_act (each_act (publish_prepared_task_write env None) writes) (\<lambda>_.
     bind_act (modify_act (publish_graph (gq_graph_id q) receipt prepared events)) (\<lambda>_. return_act receipt)))))))"

definition create_task_graph :: "store_env \<Rightarrow> (string \<Rightarrow> fresh_inputs) \<Rightarrow> graph_create \<Rightarrow> graph_receipt store_action" where
  "create_task_graph env fresh q =
     bind_act (lift_res (copy_task_graph_create q)) (\<lambda>q s.
       let sha = task_graph_request_sha256 (te_digest env) q
       in case dict_get (ts_graph_receipts s) (gq_graph_id q) of
            Some r \<Rightarrow> (replay_graph q sha r s, s)
          | None \<Rightarrow> create_graph_new env fresh q sha s)"

end
