(* ===== verification/Graph_Proofs.thy ===== *)
theory Graph_Proofs
  imports Task_Graphs Retry_Series
begin

text \<open>
  Proofs about task graphs: the cycle check decides acyclicity, propagation computes the closure of
  failed dependencies, a planned transition keeps the graph consistent and never changes a terminal
  member, and a graph that is not finished always has a member whose prerequisites are complete.
\<close>

section \<open>Cycle check\<close>

definition edges_of :: "(string \<times> string list) list \<Rightarrow> (string \<times> string) set" where
  "edges_of nodes = {(p, i). \<exists>ps. (i, ps) \<in> set nodes \<and> p \<in> set ps}"

definition closed_nodes :: "(string \<times> string list) list \<Rightarrow> bool" where
  "closed_nodes nodes \<longleftrightarrow> distinct (map fst nodes) \<and> (\<forall>(i, ps) \<in> set nodes. set ps \<subseteq> fst ` set nodes)"

lemma in_ready_nodes: "i \<in> set (ready_nodes nodes) \<longleftrightarrow> (i, []) \<in> set nodes"
  by (force simp: ready_nodes_def)

lemma distinct_lookup: "distinct (map fst nodes) \<Longrightarrow> (i, a) \<in> set nodes \<Longrightarrow> (i, b) \<in> set nodes \<Longrightarrow> a = b"
  by (meson eq_key_imp_eq_value)

lemma in_peel_ready:
  "(i, qs) \<in> set (peel_ready nodes) \<longleftrightarrow> (\<exists>ps. (i, ps) \<in> set nodes \<and> (i, []) \<notin> set nodes \<and>
     qs = filter (\<lambda>p. (p, []) \<notin> set nodes) ps)"
  by (auto simp: peel_ready_def in_ready_nodes image_iff)

lemma peel_closed:
  assumes "closed_nodes nodes"
  shows "closed_nodes (peel_ready nodes)"
proof -
  have d: "distinct (map fst nodes)" using assms by (simp add: closed_nodes_def)
  have "map fst (peel_ready nodes) = filter (\<lambda>i. i \<notin> set (ready_nodes nodes)) (map fst nodes)"
    by (simp add: peel_ready_def filter_map comp_def split_def)
  with d have "distinct (map fst (peel_ready nodes))" by simp
  moreover have "set qs \<subseteq> fst ` set (peel_ready nodes)" if qs: "(i, qs) \<in> set (peel_ready nodes)" for i qs
  proof
    fix p assume p: "p \<in> set qs"
    with qs obtain ps where ps: "(i, ps) \<in> set nodes" "p \<in> set ps" "(p, []) \<notin> set nodes" by (auto simp: in_peel_ready)
    then obtain rs where "(p, rs) \<in> set nodes" using assms by (fastforce simp: closed_nodes_def)
    with ps(3) have "(p, filter (\<lambda>x. (x, []) \<notin> set nodes) rs) \<in> set (peel_ready nodes)" by (auto simp: in_peel_ready)
    then show "p \<in> fst ` set (peel_ready nodes)" by force
  qed
  ultimately show ?thesis by (auto simp: closed_nodes_def)
qed

lemma peel_edges:
  assumes "distinct (map fst nodes)"
  shows "edges_of (peel_ready nodes) = {(p, i) \<in> edges_of nodes. (p, []) \<notin> set nodes}"
proof (intro set_eqI, clarify, rule iffI)
  fix p i assume "(p, i) \<in> edges_of (peel_ready nodes)"
  then show "(p, i) \<in> {(p, i) \<in> edges_of nodes. (p, []) \<notin> set nodes}"
    by (auto simp: edges_of_def in_peel_ready)
next
  fix p i assume "(p, i) \<in> {(p, i) \<in> edges_of nodes. (p, []) \<notin> set nodes}"
  then obtain ps where ps: "(i, ps) \<in> set nodes" "p \<in> set ps" "(p, []) \<notin> set nodes" by (auto simp: edges_of_def)
  have "(i, []) \<notin> set nodes" using distinct_lookup [OF assms ps(1), of "[]"] ps(2) by auto
  with ps have "(i, filter (\<lambda>x. (x, []) \<notin> set nodes) ps) \<in> set (peel_ready nodes)" by (auto simp: in_peel_ready)
  with ps show "(p, i) \<in> edges_of (peel_ready nodes)" by (auto simp: edges_of_def)
qed

lemma ready_of_acyclic:
  assumes "acyclic (edges_of nodes)" "closed_nodes nodes" "nodes \<noteq> []"
  shows "ready_nodes nodes \<noteq> []"
proof -
  have "edges_of nodes \<subseteq> (fst ` set nodes) \<times> (fst ` set nodes)"
  proof clarify
    fix p i assume "(p, i) \<in> edges_of nodes"
    then obtain ps where ps: "(i, ps) \<in> set nodes" "p \<in> set ps" by (auto simp: edges_of_def)
    moreover have "set ps \<subseteq> fst ` set nodes" using assms(2) ps(1) by (auto simp: closed_nodes_def)
    ultimately show "p \<in> fst ` set nodes \<and> i \<in> fst ` set nodes" by force
  qed
  then have "wf (edges_of nodes)"
    using assms(1) by (meson List.finite_set finite_SigmaI finite_imageI finite_acyclic_wf finite_subset)
  moreover from assms(3) obtain x where "x \<in> fst ` set nodes" by (cases nodes) auto
  ultimately obtain m where m: "m \<in> fst ` set nodes" "\<And>p. (p, m) \<in> edges_of nodes \<Longrightarrow> p \<notin> fst ` set nodes"
    by (meson wfE_min)
  then obtain ps where ps: "(m, ps) \<in> set nodes" by auto
  have "ps = []"
  proof (rule ccontr)
    assume "ps \<noteq> []"
    then obtain p where p: "p \<in> set ps" by (cases ps) auto
    have "set ps \<subseteq> fst ` set nodes" using assms(2) ps by (auto simp: closed_nodes_def)
    with p have "p \<in> fst ` set nodes" by blast
    moreover have "(p, m) \<in> edges_of nodes" using ps p by (auto simp: edges_of_def)
    ultimately show False using m(2) by blast
  qed
  with ps show ?thesis using in_ready_nodes by (metis empty_iff list.set(1))
qed

lemma acyclic_of_peel:
  assumes d: "distinct (map fst nodes)" and acyclic: "acyclic (edges_of (peel_ready nodes))"
  shows "acyclic (edges_of nodes)"
proof (rule acyclicI, rule allI, rule notI)
  have not_ready: "(i, []) \<notin> set nodes" if "(p, i) \<in> edges_of nodes" for p i
    using that distinct_lookup [OF d] by (fastforce simp: edges_of_def)
  have lift: "(x, y) \<in> (edges_of (peel_ready nodes))\<^sup>+" if "(x, y) \<in> (edges_of nodes)\<^sup>+" "(x, []) \<notin> set nodes" for x y
    using that
  proof (induction rule: trancl_induct)
    case (base y)
    then show ?case by (auto simp: peel_edges [OF d])
  next
    case (step y z)
    from step.hyps(1) have "(y, []) \<notin> set nodes" by (metis not_ready tranclE)
    with step.hyps(2) have "(y, z) \<in> edges_of (peel_ready nodes)" by (simp add: peel_edges [OF d])
    with step.IH [OF step.prems] show ?case by (rule trancl_into_trancl)
  qed
  fix x assume "(x, x) \<in> (edges_of nodes)\<^sup>+"
  moreover from this have "(x, []) \<notin> set nodes" by (metis not_ready tranclE)
  ultimately have "(x, x) \<in> (edges_of (peel_ready nodes))\<^sup>+" by (rule lift)
  with acyclic show False by (simp add: acyclic_def)
qed

lemma cycle_free_acyclic: "closed_nodes nodes \<Longrightarrow> cycle_free nodes \<longleftrightarrow> acyclic (edges_of nodes)"
proof (induction nodes rule: cycle_free.induct)
  case (1 nodes)
  have d: "distinct (map fst nodes)" using "1.prems" by (simp add: closed_nodes_def)
  consider "nodes = []" | "nodes \<noteq> []" "ready_nodes nodes = []" | "nodes \<noteq> []" "ready_nodes nodes \<noteq> []" by blast
  then show ?case
  proof cases
    case 1
    then show ?thesis by (simp add: cycle_free.simps [of "[]"] edges_of_def acyclic_def)
  next
    case 2
    with ready_of_acyclic "1.prems" show ?thesis by (auto simp: cycle_free.simps [of nodes])
  next
    case 3
    have "acyclic (edges_of (peel_ready nodes)) \<longleftrightarrow> acyclic (edges_of nodes)"
      using acyclic_of_peel [OF d] by (auto simp: peel_edges [OF d] intro: acyclic_subset)
    with 3 "1.IH" [OF 3] peel_closed [OF "1.prems"] show ?thesis by (simp add: cycle_free.simps [of nodes])
  qed
qed

text \<open>
  C37. A graph submission is accepted exactly when its identities are distinct, its edges are within the
  bound, every prerequisite is a node of the submission, and the dependency relation has no cycle: the
  peeling loop decides acyclicity.
\<close>
theorem validate_graph_decides_acyclicity:
  "validate_graph nodes = Inr () \<longleftrightarrow>
     distinct (map fst nodes) \<and> sum_list (map (length \<circ> snd) nodes) \<le> task_graph_max_edges \<and>
     fst ` {(p, i). \<exists>ps. (i, ps) \<in> set nodes \<and> p \<in> set ps} \<subseteq> fst ` set nodes \<and>
     acyclic {(p, i). \<exists>ps. (i, ps) \<in> set nodes \<and> p \<in> set ps}"
proof -
  have sources: "list_all (\<lambda>(i, ps). set ps \<subseteq> fst ` set nodes) nodes \<longleftrightarrow> fst ` edges_of nodes \<subseteq> fst ` set nodes"
  proof -
    have "list_all (\<lambda>(i, ps). set ps \<subseteq> K) nodes \<longleftrightarrow> fst ` edges_of nodes \<subseteq> K" for K
      unfolding list_all_iff edges_of_def image_subset_iff by (auto simp: subset_iff)
    then show ?thesis .
  qed
  have "closed_nodes nodes \<longleftrightarrow> distinct (map fst nodes) \<and> list_all (\<lambda>(i, ps). set ps \<subseteq> fst ` set nodes) nodes"
    by (simp add: closed_nodes_def list_all_iff)
  then show ?thesis using cycle_free_acyclic [of nodes] unfolding validate_graph_def edges_of_def [symmetric] sources
    by (cases "distinct (map fst nodes)"; cases "fst ` edges_of nodes \<subseteq> fst ` set nodes"; cases "cycle_free nodes") simp_all
qed

section \<open>Propagation\<close>

text \<open>
  The members that cannot run any more, as a closure over the statuses before propagation: some
  prerequisite has failed, or is itself doomed.
\<close>

inductive doomed :: "graph_context \<Rightarrow> (string, task) dict \<Rightarrow> string \<Rightarrow> bool" for c T where
  failed_prerequisite: "p \<in> set (deps_of c i) \<Longrightarrow> status_in T p = Some st \<Longrightarrow> st \<in> graph_failure_statuses \<Longrightarrow> doomed c T i"
| doomed_prerequisite: "p \<in> set (deps_of c i) \<Longrightarrow> status_in T p = Some st \<Longrightarrow> st \<notin> terminal_task_statuses \<Longrightarrow> doomed c T p \<Longrightarrow>
    doomed c T i"

definition frozen_terminal :: "(string, task) dict \<Rightarrow> (string, task) dict \<Rightarrow> bool" where
  "frozen_terminal T T' \<longleftrightarrow> (\<forall>i t. dict_get T i = Some t \<longrightarrow> tk_status t \<in> terminal_task_statuses \<longrightarrow> dict_get T' i = Some t)"

definition released_status :: "graph_context \<Rightarrow> string \<Rightarrow> task_status" where
  "released_status c i = (if gc_group_waiting_task_id c = Some i then WAITING_GROUP else PENDING)"

definition propagated_task :: "graph_context \<Rightarrow> (string, task) dict \<Rightarrow> string \<Rightarrow> task \<Rightarrow> task \<Rightarrow> bool" where
  "propagated_task c T0 i t0 t \<longleftrightarrow> tk_status t = tk_status t0 \<or> tk_status t = DEPENDENCY_SKIPPED \<and> doomed c T0 i \<or>
     tk_status t0 = WAITING_DEPENDENCIES \<and> deps_completed T0 (deps_of c i) \<and> tk_status t = released_status c i"

definition propagated :: "graph_context \<Rightarrow> (string, task) dict \<Rightarrow> (string, task) dict \<Rightarrow> bool" where
  "propagated c T0 T \<longleftrightarrow> map fst T = map fst T0 \<and> frozen_terminal T0 T \<and>
     (\<forall>i t0 t. dict_get T0 i = Some t0 \<longrightarrow> tk_status t0 \<notin> terminal_task_statuses \<longrightarrow> dict_get T i = Some t \<longrightarrow> propagated_task c T0 i t0 t)"

lemma released_status_cases: "released_status c i \<in> {WAITING_GROUP, PENDING}"
  by (simp add: released_status_def)

lemma dict_get_keys: "map fst T = map fst T0 \<Longrightarrow> dict_get T i = Some t \<Longrightarrow> \<exists>t0. dict_get T0 i = Some t0"
  by (metis map_of_eq_None_iff not_None_eq option.distinct(1) set_map)

lemma propagated_lookup:
  assumes "propagated c T0 T" "dict_get T i = Some t"
  obtains t0 where "dict_get T0 i = Some t0" "tk_status t0 \<in> terminal_task_statuses" "t = t0"
  | t0 where "dict_get T0 i = Some t0" "tk_status t0 \<notin> terminal_task_statuses" "propagated_task c T0 i t0 t"
proof -
  obtain t0 where t0: "dict_get T0 i = Some t0" using assms dict_get_keys by (metis propagated_def)
  show thesis
  proof (cases "tk_status t0 \<in> terminal_task_statuses")
    case True
    then have "dict_get T i = Some t0" using assms(1) t0 by (simp add: propagated_def frozen_terminal_def)
    with assms(2) True t0 that(1) show thesis by simp
  next
    case False
    with assms t0 that(2) show thesis by (simp add: propagated_def)
  qed
qed

lemma propagated_refl: "propagated c T T"
  by (simp add: propagated_def frozen_terminal_def propagated_task_def)

lemma propagated_failed:
  assumes "propagated c T0 T" "failed_deps T (deps_of c i) \<noteq> []"
  shows "doomed c T0 i"
proof -
  obtain p st where p: "p \<in> set (deps_of c i)" "status_in T p = Some st" "st \<in> graph_failure_statuses"
    using assms(2) by (auto simp: failed_deps_def filter_empty_conv split: option.splits)
  then obtain t where t: "dict_get T p = Some t" "tk_status t = st" by (auto simp: status_in_def)
  from assms(1) t(1) show ?thesis
  proof (cases rule: propagated_lookup)
    case (1 t0)
    with t p show ?thesis by (auto simp: status_in_def intro: failed_prerequisite)
  next
    case (2 t0)
    have "tk_status t \<noteq> tk_status t0" "tk_status t \<noteq> released_status c p"
      using 2(2) t(2) p(3) released_status_cases [of c p] by (auto simp: graph_failure_statuses_def terminal_task_statuses_def)
    with 2 have "doomed c T0 p" by (simp add: propagated_task_def)
    with 2 p(1) show ?thesis by (auto simp: status_in_def intro: doomed_prerequisite)
  qed
qed

lemma propagated_completed:
  assumes "propagated c T0 T" "deps_completed T ps"
  shows "deps_completed T0 ps"
proof -
  have "status_in T0 p = Some COMPLETED" if st: "status_in T p = Some COMPLETED" for p
  proof -
    obtain t where t: "dict_get T p = Some t" "tk_status t = COMPLETED" using st by (auto simp: status_in_def)
    from assms(1) t(1) show ?thesis
    proof (cases rule: propagated_lookup)
      case (2 t0)
      with t(2) released_status_cases [of c p] show ?thesis by (auto simp: propagated_task_def terminal_task_statuses_def)
    qed (use t in \<open>simp add: status_in_def\<close>)
  qed
  with assms(2) show ?thesis by (auto simp: deps_completed_def list_all_iff)
qed

lemma propagated_put:
  assumes prp: "propagated c T0 T" and t: "dict_get T i = Some t" "tk_status t \<notin> terminal_task_statuses"
    and u: "\<And>t0. dict_get T0 i = Some t0 \<Longrightarrow> propagated_task c T0 i t0 t \<Longrightarrow> propagated_task c T0 i t0 u"
  shows "propagated c T0 (dict_put i u T)"
proof -
  have keys: "i \<in> fst ` set T" using t(1) by (metis map_of_eq_None_iff option.distinct(1))
  from prp t(1) obtain t0 where t0: "dict_get T0 i = Some t0" "tk_status t0 \<notin> terminal_task_statuses" "propagated_task c T0 i t0 t"
    by (cases rule: propagated_lookup) (use t(2) in auto)
  show ?thesis unfolding propagated_def
  proof (intro conjI allI impI)
    show "map fst (dict_put i u T) = map fst T0" using prp keys by (simp add: dict_keys_put propagated_def)
    show "frozen_terminal T0 (dict_put i u T)"
      using prp t0 by (auto simp: frozen_terminal_def propagated_def dict_get_put)
    fix j x y assume "dict_get T0 j = Some x" "tk_status x \<notin> terminal_task_statuses" "dict_get (dict_put i u T) j = Some y"
    then show "propagated_task c T0 j x y"
      using prp t0 u by (cases "j = i") (auto simp: propagated_def dict_get_put)
  qed
qed

lemma visit_member_cases:
  assumes "visit_member c i p = Inr (p', changed)"
  obtains t where "dict_get (gp_tasks p) i = Some t" "p' = p" "\<not> changed"
      "tk_status t \<in> terminal_task_statuses \<or> failed_deps (gp_tasks p) (deps_of c i) = [] \<and>
        \<not> (tk_status t = WAITING_DEPENDENCIES \<and> deps_completed (gp_tasks p) (deps_of c i))"
  | t where "dict_get (gp_tasks p) i = Some t" "changed" "tk_status t \<notin> terminal_task_statuses"
      "failed_deps (gp_tasks p) (deps_of c i) \<noteq> []" "skip_member c i t (failed_deps (gp_tasks p) (deps_of c i)) p = Inr p'"
  | t where "dict_get (gp_tasks p) i = Some t" "changed" "tk_status t = WAITING_DEPENDENCIES"
      "deps_completed (gp_tasks p) (deps_of c i)" "failed_deps (gp_tasks p) (deps_of c i) = []" "release_member c i t p = Inr p'"
  using assms by (auto simp: visit_member_def Let_def res_simps split: if_splits option.splits)

lemma visit_propagates:
  assumes "visit_member c i p = Inr (p', changed)" "propagated c T0 (gp_tasks p)"
  shows "propagated c T0 (gp_tasks p')"
  using assms(1)
proof (cases rule: visit_member_cases)
  case (2 t)
  from 2(5) show ?thesis
  proof (cases rule: skip_member_cases)
    case (1 u)
    have "doomed c T0 i" using assms(2) 2(4) by (rule propagated_failed)
    with 1 2 assms(2) show ?thesis by (auto simp: propagated_task_def intro!: propagated_put)
  qed
next
  case (3 t)
  from 3(6) show ?thesis
  proof (cases rule: release_member_cases)
    case (1 u)
    have done_deps: "deps_completed T0 (deps_of c i)" using assms(2) 3(4) by (rule propagated_completed)
    have "propagated_task c T0 i t0 u" if "propagated_task c T0 i t0 t" for t0
      using that 3(3) 1(3) done_deps released_status_cases [of c i] by (auto simp: propagated_task_def released_status_def)
    with 1(1) 3 assms(2) show ?thesis by (simp add: propagated_put terminal_task_statuses_def)
  qed
qed (use assms(2) in simp)

lemma sweep_propagates:
  "sweep_members c is p = Inr (p', changed) \<Longrightarrow> propagated c T0 (gp_tasks p) \<Longrightarrow> propagated c T0 (gp_tasks p')"
proof (induction "is" arbitrary: p changed)
  case (Cons i "is")
  then obtain q a b where v: "visit_member c i p = Inr (q, a)" and s: "sweep_members c is q = Inr (p', b)"
    by (auto simp: res_simps)
  from Cons.IH [OF s visit_propagates [OF v Cons.prems(2)]] show ?case .
qed simp

lemma sweep_unchanged:
  "sweep_members c is p = Inr (p', False) \<Longrightarrow> p' = p \<and> (\<forall>i \<in> set is. visit_member c i p = Inr (p, False))"
proof (induction "is" arbitrary: p)
  case (Cons i "is")
  then obtain q where v: "visit_member c i p = Inr (q, False)" and s: "sweep_members c is q = Inr (p', False)"
    by (auto simp: res_simps)
  have "q = p" using visit_member_rank [OF v] by simp
  with v Cons.IH [OF s] show ?case by auto
qed simp

text \<open>A plan with nothing left to skip or release.\<close>

definition settled_plan :: "graph_context \<Rightarrow> graph_plan \<Rightarrow> bool" where
  "settled_plan c p \<longleftrightarrow> (\<forall>i t. dict_get (gp_tasks p) i = Some t \<longrightarrow> tk_status t \<notin> terminal_task_statuses \<longrightarrow>
     failed_deps (gp_tasks p) (deps_of c i) = [] \<and>
     \<not> (tk_status t = WAITING_DEPENDENCIES \<and> deps_completed (gp_tasks p) (deps_of c i)))"

lemma visit_idle:
  assumes "visit_member c i p = Inr (p, False)" "dict_get (gp_tasks p) i = Some t" "tk_status t \<notin> terminal_task_statuses"
  shows "failed_deps (gp_tasks p) (deps_of c i) = [] \<and> \<not> (tk_status t = WAITING_DEPENDENCIES \<and> deps_completed (gp_tasks p) (deps_of c i))"
  using assms(1) by (cases rule: visit_member_cases) (use assms(2,3) in auto)

lemma settle_members_settles:
  "settle_members c p = Inr p' \<Longrightarrow> propagated c T0 (gp_tasks p) \<Longrightarrow> propagated c T0 (gp_tasks p') \<and> settled_plan c p'"
proof (induction c p rule: settle_members.induct)
  case (1 c p)
  from "1.prems"(1) obtain q changed where q: "sweep_members c (sort (map fst (gp_tasks p))) p = Inr (q, changed)"
    and r: "(if changed then settle_members c q else Inr q) = Inr p'"
    by (auto simp: settle_members.simps [of c p] res_simps)
  show ?case
  proof (cases changed)
    case True
    with "1.IH" [OF q refl] r sweep_propagates [OF q "1.prems"(2)] show ?thesis by simp
  next
    case False
    with sweep_unchanged q r have p': "p' = p" "\<forall>i \<in> set (map fst (gp_tasks p)). visit_member c i p = Inr (p, False)"
      by fastforce+
    have "settled_plan c p" unfolding settled_plan_def
    proof (intro allI impI)
      fix i t assume t: "dict_get (gp_tasks p) i = Some t" "tk_status t \<notin> terminal_task_statuses"
      have "i \<in> set (map fst (gp_tasks p))" using t(1) by (metis list.set_map map_of_eq_None_iff option.distinct(1))
      with p'(2) t visit_idle show "failed_deps (gp_tasks p) (deps_of c i) = [] \<and>
        \<not> (tk_status t = WAITING_DEPENDENCIES \<and> deps_completed (gp_tasks p) (deps_of c i))" by blast
    qed
    with p'(1) "1.prems"(2) show ?thesis by simp
  qed
qed

lemma settled_skips:
  assumes prp: "propagated c T0 (gp_tasks p)" and settled: "settled_plan c p"
    and t0: "dict_get T0 i = Some t0" "tk_status t0 \<notin> terminal_task_statuses"
    and failed: "failed_deps (gp_tasks p) (deps_of c i) \<noteq> []"
  shows "status_in (gp_tasks p) i = Some DEPENDENCY_SKIPPED"
proof -
  have "map fst (gp_tasks p) = map fst T0" using prp by (simp add: propagated_def)
  then obtain t where t: "dict_get (gp_tasks p) i = Some t" using t0(1) dict_get_keys by metis
  have "tk_status t \<in> terminal_task_statuses" using settled t failed by (auto simp: settled_plan_def)
  moreover have "propagated_task c T0 i t0 t" using prp t0 t by (simp add: propagated_def)
  ultimately have "tk_status t = DEPENDENCY_SKIPPED"
    using t0(2) released_status_cases [of c i] by (auto simp: propagated_task_def terminal_task_statuses_def)
  with t show ?thesis by (simp add: status_in_def)
qed

lemma failed_depsI:
  "p \<in> set ps \<Longrightarrow> status_in T p = Some st \<Longrightarrow> st \<in> graph_failure_statuses \<Longrightarrow> failed_deps T ps \<noteq> []"
  by (auto simp: failed_deps_def filter_empty_conv intro!: bexI [of _ p])

lemma settled_doomed:
  assumes prp: "propagated c T0 (gp_tasks p)" and settled: "settled_plan c p"
    and "doomed c T0 i" "dict_get T0 i = Some t0" "tk_status t0 \<notin> terminal_task_statuses"
  shows "status_in (gp_tasks p) i = Some DEPENDENCY_SKIPPED"
  using assms(3-5)
proof (induction arbitrary: t0 rule: doomed.induct)
  case (failed_prerequisite q i st)
  then have "status_in (gp_tasks p) q = Some st"
    using prp by (auto simp: propagated_def frozen_terminal_def status_in_def graph_failure_statuses_def terminal_task_statuses_def)
  with failed_prerequisite failed_depsI have "failed_deps (gp_tasks p) (deps_of c i) \<noteq> []" by blast
  with failed_prerequisite.prems show ?case by (rule settled_skips [OF prp settled])
next
  case (doomed_prerequisite q i st)
  then have "status_in (gp_tasks p) q = Some DEPENDENCY_SKIPPED" by (auto simp: status_in_def)
  moreover have "DEPENDENCY_SKIPPED \<in> graph_failure_statuses" by (simp add: graph_failure_statuses_def)
  ultimately have "failed_deps (gp_tasks p) (deps_of c i) \<noteq> []" using doomed_prerequisite(1) failed_depsI by blast
  with doomed_prerequisite.prems show ?case by (rule settled_skips [OF prp settled])
qed

lemma settled_completed:
  assumes "propagated c T0 T" "deps_completed T0 ps"
  shows "deps_completed T ps"
  using assms by (auto simp: deps_completed_def list_all_iff propagated_def frozen_terminal_def status_in_def terminal_task_statuses_def)

lemma settled_status:
  assumes prp: "propagated c T0 (gp_tasks p)" and settled: "settled_plan c p"
    and t0: "dict_get T0 i = Some t0" "tk_status t0 \<notin> terminal_task_statuses" and t: "dict_get (gp_tasks p) i = Some t"
  shows "tk_status t = (if doomed c T0 i then DEPENDENCY_SKIPPED
    else if tk_status t0 = WAITING_DEPENDENCIES \<and> deps_completed T0 (deps_of c i) then released_status c i else tk_status t0)"
proof (cases "doomed c T0 i")
  case True
  with settled_doomed [OF prp settled True t0] t show ?thesis by (simp add: status_in_def)
next
  case False
  have step: "propagated_task c T0 i t0 t" using prp t0 t by (simp add: propagated_def)
  have "\<not> (tk_status t = WAITING_DEPENDENCIES \<and> deps_completed T0 (deps_of c i))"
  proof
    assume w: "tk_status t = WAITING_DEPENDENCIES \<and> deps_completed T0 (deps_of c i)"
    then have "deps_completed (gp_tasks p) (deps_of c i)" by (intro settled_completed [OF prp]) simp
    moreover have "tk_status t \<notin> terminal_task_statuses" using w by (simp add: terminal_task_statuses_def)
    ultimately show False using settled t w by (auto simp: settled_plan_def)
  qed
  with step False show ?thesis by (auto simp: propagated_task_def)
qed

text \<open>
  C17. Propagation computes a closure.  Whatever the order of the sweeps, when it returns: terminal members
  are unchanged; a member is skipped exactly when some prerequisite failed or is itself doomed; a waiting
  member whose prerequisites have all completed is released; and every other member keeps its status.
\<close>
theorem propagation_computes_closure:
  assumes "settle_members c p = Inr p'" and "dict_get (gp_tasks p) i = Some t0"
  shows "\<exists>t. dict_get (gp_tasks p') i = Some t \<and>
    (if tk_status t0 \<in> terminal_task_statuses then t = t0
     else tk_status t = (if doomed c (gp_tasks p) i then DEPENDENCY_SKIPPED
       else if tk_status t0 = WAITING_DEPENDENCIES \<and> deps_completed (gp_tasks p) (deps_of c i)
       then (if gc_group_waiting_task_id c = Some i then WAITING_GROUP else PENDING)
       else tk_status t0))"
proof -
  from settle_members_settles [OF assms(1) propagated_refl]
  have prp: "propagated c (gp_tasks p) (gp_tasks p')" and settled: "settled_plan c p'" by simp_all
  obtain t where t: "dict_get (gp_tasks p') i = Some t"
    using dict_get_keys [of "gp_tasks p" "gp_tasks p'", OF _ assms(2)] prp by (auto simp: propagated_def)
  show ?thesis
  proof (cases "tk_status t0 \<in> terminal_task_statuses")
    case True
    then show ?thesis using prp assms(2) by (simp add: propagated_def frozen_terminal_def)
  next
    case False
    with settled_status [OF prp settled assms(2) False t] t show ?thesis by (simp add: released_status_def)
  qed
qed

section \<open>Consistency\<close>

text \<open>
  A consistent graph: complete membership with its admission authority, valid tasks, and for every member
  the checks a snapshot of the graph makes.
\<close>

definition member_consistent :: "graph_context \<Rightarrow> (string, task) dict \<Rightarrow> string \<Rightarrow> task \<Rightarrow> bool" where
  "member_consistent c T i t \<longleftrightarrow> tk_id t = i \<and> member_authority_ok c i t \<and> task_valid (gc_digest c) t \<and>
     (case member_from_task t of Inl _ \<Rightarrow> False | Inr m \<Rightarrow> snapshot_member_ok (status_in T) m)"

definition membership_complete :: "graph_context \<Rightarrow> (string, task) dict \<Rightarrow> bool" where
  "membership_complete c T \<longleftrightarrow> dict_ok T \<and> set (map fst T) = set (map fst (gc_prerequisites c)) \<and>
     list_all (\<lambda>(i, ps). set ps \<subseteq> set (map fst T)) (gc_prerequisites c)"

definition graph_consistent :: "graph_context \<Rightarrow> (string, task) dict \<Rightarrow> bool" where
  "graph_consistent c T \<longleftrightarrow> membership_complete c T \<and> list_all (\<lambda>(i, t). member_consistent c T i t) T"

definition skip_causes :: "task \<Rightarrow> string list option" where
  "skip_causes t = json_texts (case tk_status_payload t of None \<Rightarrow> None | Some p \<Rightarrow> fmlookup p ''failed_prerequisite_task_ids'')"

text \<open>What holds of every member between two visits of the sweep, before skips and releases are exhausted.\<close>

definition member_sound :: "graph_context \<Rightarrow> (string, task) dict \<Rightarrow> string \<Rightarrow> task \<Rightarrow> bool" where
  "member_sound c T i t \<longleftrightarrow> tk_id t = i \<and> member_authority_ok c i t \<and> task_valid (gc_digest c) t \<and>
     (tk_status t \<in> {PENDING, CLAIMED, RUNNING, COMPLETED} \<longrightarrow> deps_completed T (deps_of c i)) \<and>
     (tk_status t = DEPENDENCY_SKIPPED \<longrightarrow> (\<exists>causes. skip_causes t = Some causes \<and> causes \<noteq> [] \<and> sorted_wrt (<) causes \<and>
        set causes \<subseteq> set (failed_deps T (deps_of c i))))"

definition graph_sound :: "graph_context \<Rightarrow> (string, task) dict \<Rightarrow> bool" where
  "graph_sound c T \<longleftrightarrow> membership_complete c T \<and> (\<forall>i t. dict_get T i = Some t \<longrightarrow> member_sound c T i t)"

lemma frozen_status: "frozen_terminal T T' \<Longrightarrow> status_in T p = Some st \<Longrightarrow> st \<in> terminal_task_statuses \<Longrightarrow> status_in T' p = Some st"
  by (auto simp: frozen_terminal_def status_in_def)

lemma frozen_completed: "frozen_terminal T T' \<Longrightarrow> deps_completed T ps \<Longrightarrow> deps_completed T' ps"
  by (auto simp: deps_completed_def list_all_iff terminal_task_statuses_def intro: frozen_status)

lemma in_failed_deps: "p \<in> set (failed_deps T ps) \<longleftrightarrow> p \<in> set ps \<and> (\<exists>st. status_in T p = Some st \<and> st \<in> graph_failure_statuses)"
  by (auto simp: failed_deps_def split: option.splits)

lemma failure_terminal: "st \<in> graph_failure_statuses \<Longrightarrow> st \<in> terminal_task_statuses"
  by (auto simp: graph_failure_statuses_def terminal_task_statuses_def)

lemma frozen_failed: "frozen_terminal T T' \<Longrightarrow> set (failed_deps T ps) \<subseteq> set (failed_deps T' ps)"
  using frozen_status failure_terminal by (fastforce simp: in_failed_deps)

lemma frozen_put: "dict_get T i = Some t \<Longrightarrow> tk_status t \<notin> terminal_task_statuses \<or> u = t \<Longrightarrow> frozen_terminal T (dict_put i u T)"
  by (auto simp: frozen_terminal_def dict_get_put)

lemma frozen_trans: "frozen_terminal A B \<Longrightarrow> frozen_terminal B C \<Longrightarrow> frozen_terminal A C"
  by (auto simp: frozen_terminal_def)

lemma member_sound_mono: "frozen_terminal T T' \<Longrightarrow> member_sound c T i t \<Longrightarrow> member_sound c T' i t"
proof -
  assume fr: "frozen_terminal T T'" and m: "member_sound c T i t"
  show "member_sound c T' i t"
    using m frozen_completed [OF fr, of "deps_of c i"] frozen_failed [OF fr, of "deps_of c i"]
    unfolding member_sound_def by (intro conjI impI) (blast dest: order_trans)+
qed

lemma membership_put: "membership_complete c T \<Longrightarrow> dict_get T i = Some t \<Longrightarrow> membership_complete c (dict_put i u T)"
proof -
  assume m: "membership_complete c T" and t: "dict_get T i = Some t"
  have "i \<in> fst ` set T" using t by (metis map_of_eq_None_iff option.distinct(1))
  then have "map fst (dict_put i u T) = map fst T" by (simp add: dict_keys_put)
  with m show ?thesis unfolding membership_complete_def dict_ok_def by metis
qed

lemma graph_sound_put:
  assumes sound: "graph_sound c T" and t: "dict_get T i = Some t" "tk_status t \<notin> terminal_task_statuses \<or> u = t"
    and u: "member_sound c (dict_put i u T) i u"
  shows "graph_sound c (dict_put i u T)"
  unfolding graph_sound_def
proof (intro conjI allI impI)
  show "membership_complete c (dict_put i u T)" using sound t(1) by (auto simp: graph_sound_def intro: membership_put)
  fix j x assume "dict_get (dict_put i u T) j = Some x"
  then show "member_sound c (dict_put i u T) j x"
    using u sound member_sound_mono [OF frozen_put [OF t]] by (auto simp: dict_get_put graph_sound_def split: if_splits)
qed

lemma runtime_settlement_task:
  assumes "runtime_task_retry_terminal_settlement digest t op rd sd st error now tokens cost = Inr r"
  shows "tk_id (sr_task r) = tk_id t" "tk_graph_id (sr_task r) = tk_graph_id t"
    "tk_prerequisite_task_ids (sr_task r) = tk_prerequisite_task_ids t"
  using assms
  by (auto simp: runtime_task_retry_terminal_settlement_def res_simps Let_def check_settlement_def
      split: option.splits if_splits prod.splits)

lemma skipped_task_facts:
  assumes "skip_settlement c t failed = Inr settled"
  shows "tk_id (skipped_task t failed now settled) = tk_id t"
    "tk_graph_id (skipped_task t failed now settled) = tk_graph_id t"
    "tk_prerequisite_task_ids (skipped_task t failed now settled) = tk_prerequisite_task_ids t"
    "skip_causes (skipped_task t failed now settled) = Some failed"
proof -
  have "settled = None \<or> (\<exists>r. settled = Some r \<and> tk_id (sr_task r) = tk_id t \<and> tk_graph_id (sr_task r) = tk_graph_id t \<and>
      tk_prerequisite_task_ids (sr_task r) = tk_prerequisite_task_ids t)"
    using assms by (auto simp: skip_settlement_def res_simps dest: runtime_settlement_task split: option.splits)
  then show "tk_id (skipped_task t failed now settled) = tk_id t"
    "tk_graph_id (skipped_task t failed now settled) = tk_graph_id t"
    "tk_prerequisite_task_ids (skipped_task t failed now settled) = tk_prerequisite_task_ids t"
    by (auto simp: skipped_task_def Let_def)
  show "skip_causes (skipped_task t failed now settled) = Some failed"
    by (simp add: skip_causes_def skipped_task_def Let_def dependency_skip_payload_def json_texts_def json_text_def list_all_iff comp_def)
qed

lemma graph_prerequisites_sorted:
  "task_valid digest t \<Longrightarrow> tk_graph_id t = Some g \<Longrightarrow> sorted_wrt (<) (tk_prerequisite_task_ids t)"
  by (simp add: task_valid_def graph_membership_ok_def)

lemma visit_sound:
  assumes "visit_member c i p = Inr (p', changed)" "graph_sound c (gp_tasks p)"
  shows "graph_sound c (gp_tasks p')"
  using assms(1)
proof (cases rule: visit_member_cases)
  case (2 t)
  let ?failed = "failed_deps (gp_tasks p) (deps_of c i)"
  have t: "member_sound c (gp_tasks p) i t" using assms(2) 2(1) by (simp add: graph_sound_def)
  from 2(5) show ?thesis
  proof (cases rule: skip_member_cases)
    case (1 u)
    then obtain settled where s: "skip_settlement c t ?failed = Inr settled" "u = skipped_task t ?failed (gc_now c) settled" by blast
    note f = skipped_task_facts [OF s(1), of "gc_now c", folded s(2)]
    have fr: "frozen_terminal (gp_tasks p) (dict_put i u (gp_tasks p))" using frozen_put [OF 2(1)] 2(3) by blast
    have "sorted_wrt (<) (deps_of c i)"
      using t graph_prerequisites_sorted by (metis member_authority_ok_def member_sound_def)
    then have "sorted_wrt (<) ?failed" by (simp add: failed_deps_def sorted_wrt_filter)
    with t f 1(2,3) 2(4) frozen_failed [OF fr] have "member_sound c (dict_put i u (gp_tasks p)) i u"
      by (auto simp: member_sound_def member_authority_ok_def)
    with 1(1) 2(1,3) graph_sound_put [OF assms(2)] show ?thesis by simp
  qed
next
  case (3 t)
  have t: "member_sound c (gp_tasks p) i t" using assms(2) 3(1) by (simp add: graph_sound_def)
  from 3(6) show ?thesis
  proof (cases rule: release_member_cases)
    case (1 u)
    have nt: "tk_status t \<notin> terminal_task_statuses" using 3(3) by (simp add: terminal_task_statuses_def)
    have fr: "frozen_terminal (gp_tasks p) (dict_put i u (gp_tasks p))" using frozen_put [OF 3(1)] nt by blast
    have "member_sound c (dict_put i u (gp_tasks p)) i u"
      using t 1(2,3) frozen_completed [OF fr 3(4)] by (auto simp: member_sound_def member_authority_ok_def)
    with 1(1) 3(1) nt graph_sound_put [OF assms(2)] show ?thesis by simp
  qed
qed (use assms(2) in simp)

lemma sweep_sound:
  "sweep_members c is p = Inr (p', changed) \<Longrightarrow> graph_sound c (gp_tasks p) \<Longrightarrow> graph_sound c (gp_tasks p')"
proof (induction "is" arbitrary: p changed)
  case (Cons i "is")
  then obtain q a b where v: "visit_member c i p = Inr (q, a)" and s: "sweep_members c is q = Inr (p', b)"
    by (auto simp: res_simps)
  from Cons.IH [OF s visit_sound [OF v Cons.prems(2)]] show ?case .
qed simp

lemma settle_members_sound: "settle_members c p = Inr p' \<Longrightarrow> graph_sound c (gp_tasks p) \<Longrightarrow> graph_sound c (gp_tasks p')"
proof (induction c p rule: settle_members.induct)
  case (1 c p)
  from "1.prems"(1) obtain q changed where q: "sweep_members c (sort (map fst (gp_tasks p))) p = Inr (q, changed)"
    and r: "(if changed then settle_members c q else Inr q) = Inr p'"
    by (auto simp: settle_members.simps [of c p] res_simps)
  have "graph_sound c (gp_tasks q)" using q "1.prems"(2) by (rule sweep_sound)
  with "1.IH" [OF q refl] r show ?case by (cases changed) simp_all
qed

lemma consistent_all:
  "graph_consistent c T \<longleftrightarrow> membership_complete c T \<and> (\<forall>i t. dict_get T i = Some t \<longrightarrow> member_consistent c T i t)"
proof (cases "membership_complete c T")
  case True
  then have "dict_ok T" by (simp add: membership_complete_def)
  then have "list_all (\<lambda>(i, t). member_consistent c T i t) T \<longleftrightarrow> (\<forall>i t. dict_get T i = Some t \<longrightarrow> member_consistent c T i t)"
    by (auto simp: list_all_iff dict_in_set)
  with True show ?thesis by (simp add: graph_consistent_def)
qed (simp add: graph_consistent_def)

lemma snapshot_member_iff:
  assumes "gm_prerequisite_task_ids m = ps"
  shows "snapshot_member_ok (status_in T) m \<longleftrightarrow>
    (gm_status m \<in> {PENDING, CLAIMED, RUNNING, COMPLETED} \<longrightarrow> deps_completed T ps) \<and>
    (gm_status m = WAITING_DEPENDENCIES \<longrightarrow> \<not> deps_completed T ps \<and> failed_deps T ps = []) \<and>
    set (gm_failed_prerequisite_task_ids m) \<subseteq> set (failed_deps T ps) \<and>
    (failed_deps T ps \<noteq> [] \<longrightarrow> gm_status m \<in> terminal_task_statuses)"
proof -
  have "graph_failure_statuses \<union> {COMPLETED} = terminal_task_statuses"
    by (auto simp: graph_failure_statuses_def terminal_task_statuses_def)
  then show ?thesis
    unfolding snapshot_member_ok_def Let_def deps_completed_def [symmetric] failed_deps_def [symmetric] assms by blast
qed

lemma member_from_task_eq:
  "member_from_task t = Inr m \<longleftrightarrow> graph_member_valid m \<and> gm_task_id m = tk_id t \<and>
     gm_prerequisite_task_ids m = tk_prerequisite_task_ids t \<and> gm_status m = tk_status t \<and>
     (if tk_status t = DEPENDENCY_SKIPPED then skip_causes t = Some (gm_failed_prerequisite_task_ids m)
      else gm_failed_prerequisite_task_ids m = [])"
  by (cases m) (auto simp: member_from_task_def skip_causes_def [symmetric] Let_def split: option.splits if_splits)

lemma sorted_subset_length:
  assumes "sorted_wrt (<) (xs :: string list)" "set xs \<subseteq> set ys"
  shows "length xs \<le> length ys"
proof -
  have "length xs = card (set xs)" using assms(1) by (simp add: distinct_card strict_sorted_iff)
  also have "\<dots> \<le> card (set ys)" using assms(2) by (simp add: card_mono)
  also have "\<dots> \<le> length ys" by (rule card_length)
  finally show ?thesis .
qed

lemma sound_consistent:
  assumes "member_sound c T i t"
    and idle: "tk_status t \<notin> terminal_task_statuses \<Longrightarrow> failed_deps T (deps_of c i) = [] \<and>
      \<not> (tk_status t = WAITING_DEPENDENCIES \<and> deps_completed T (deps_of c i))"
  shows "member_consistent c T i t"
proof -
  have t: "tk_id t = i" "tk_graph_id t = Some (gc_graph_id c)" "tk_prerequisite_task_ids t = deps_of c i" "task_valid (gc_digest c) t"
    using assms(1) by (simp_all add: member_sound_def member_authority_ok_def)
  have g: "is_graph_identifier i" "length (deps_of c i) \<le> task_graph_max_nodes" "list_all is_graph_identifier (deps_of c i)"
    "sorted_wrt (<) (deps_of c i)" "i \<notin> set (deps_of c i)"
    using t by (auto simp: task_valid_def graph_membership_ok_def)
  obtain causes where causes: "tk_status t = DEPENDENCY_SKIPPED \<Longrightarrow> skip_causes t = Some causes"
    "tk_status t = DEPENDENCY_SKIPPED \<longleftrightarrow> causes \<noteq> []" "sorted_wrt (<) causes" "set causes \<subseteq> set (failed_deps T (deps_of c i))"
  proof (cases "tk_status t = DEPENDENCY_SKIPPED")
    case True
    with assms(1) obtain causes where "skip_causes t = Some causes" "causes \<noteq> []" "sorted_wrt (<) causes"
      "set causes \<subseteq> set (failed_deps T (deps_of c i))" unfolding member_sound_def by blast
    with True that show thesis by blast
  next
    case False
    with that [of "[]"] show thesis by simp
  qed
  have sub: "set causes \<subseteq> set (deps_of c i)" using causes(4) by (auto simp: in_failed_deps)
  have bound: "length causes \<le> length (deps_of c i)" using causes(3) sub by (rule sorted_subset_length)
  let ?m = "\<lparr>gm_task_id = i, gm_prerequisite_task_ids = deps_of c i, gm_status = tk_status t, gm_failed_prerequisite_task_ids = causes\<rparr>"
  have idents: "list_all is_graph_identifier causes" using g(3) sub by (auto simp: list_all_iff)
  have "graph_member_valid ?m"
    unfolding graph_member_valid_def canonical_identifiers_def using g causes(2,3) sub bound idents by simp
  then have "member_from_task t = Inr ?m" using t causes(1,2) by (simp add: member_from_task_eq)
  moreover have "snapshot_member_ok (status_in T) ?m"
    unfolding snapshot_member_iff [of ?m "deps_of c i", simplified]
    using assms(1) idle causes(4) by (auto simp: member_sound_def terminal_task_statuses_def)
  ultimately show ?thesis using t by (simp add: member_consistent_def member_authority_ok_def)
qed

lemma consistent_sound:
  assumes "member_consistent c T i t"
  shows "member_sound c T i t"
proof -
  from assms obtain m where m: "member_from_task t = Inr m" "snapshot_member_ok (status_in T) m" "tk_id t = i" "member_authority_ok c i t"
    "task_valid (gc_digest c) t" by (auto simp: member_consistent_def split: sum.splits)
  have ps: "gm_prerequisite_task_ids m = deps_of c i" using m(1,4) by (simp add: member_from_task_eq member_authority_ok_def)
  have skipped: "tk_status t = DEPENDENCY_SKIPPED \<Longrightarrow> skip_causes t = Some (gm_failed_prerequisite_task_ids m) \<and>
     gm_failed_prerequisite_task_ids m \<noteq> [] \<and> sorted_wrt (<) (gm_failed_prerequisite_task_ids m)"
    using m(1) by (auto simp: member_from_task_eq graph_member_valid_def canonical_identifiers_def)
  show ?thesis using m ps skipped unfolding member_sound_def snapshot_member_iff [OF ps]
    by (auto simp: member_from_task_eq)
qed

text \<open>The member a check returns, against its prior state: an unchanged terminal member or a change of another one.\<close>

lemma check_proposed_cases:
  assumes "check_proposed c current proposed = Inr (prior, u)"
  shows "dict_get current (tk_id u) = Some prior" "tk_status prior \<notin> terminal_task_statuses \<or> u = prior"
    "member_authority_ok c (tk_id u) u" "task_valid (gc_digest c) u"
    "tk_status u \<in> {PENDING, CLAIMED, RUNNING, COMPLETED} \<Longrightarrow> deps_completed current (deps_of c (tk_id u))"
    "tk_status u = DEPENDENCY_SKIPPED \<Longrightarrow> u = prior" "tk_id u = tk_id proposed"
proof -
  from assms obtain v where *: "dict_get current (tk_id proposed) = Some prior" "group_adjusted c proposed = Inr v"
      "\<not> (tk_status prior \<in> terminal_task_statuses \<and> v \<noteq> prior)" "member_authority_ok c (tk_id v) v"
      "\<not> (tk_status v \<in> executing_statuses \<and> \<not> deps_completed current (deps_of c (tk_id v)))"
      "\<not> (tk_status v = DEPENDENCY_SKIPPED \<and> tk_status prior \<noteq> tk_status v)"
      "copy_task (gc_digest c) (waiting_unless_ready (deps_completed current (deps_of c (tk_id v))) v) = Inr u"
    unfolding check_proposed_def
    by (simp only: Let_def res_simps(1) split: if_split_asm option.split_asm) blast+
  have v: "dict_get current (tk_id proposed) = Some prior" "group_adjusted c proposed = Inr v"
      "tk_status prior \<in> terminal_task_statuses \<Longrightarrow> v = prior" "member_authority_ok c (tk_id v) v"
      "tk_status v \<in> executing_statuses \<Longrightarrow> deps_completed current (deps_of c (tk_id v))"
      "tk_status v = DEPENDENCY_SKIPPED \<Longrightarrow> tk_status prior = DEPENDENCY_SKIPPED"
      "task_valid (gc_digest c) u"
      "u = (if tk_status v = PENDING \<and> \<not> deps_completed current (deps_of c (tk_id v)) then v\<lparr>tk_status := WAITING_DEPENDENCIES\<rparr> else v)"
    using * by (simp_all add: copy_task_Inr waiting_unless_ready_def)
  have id: "tk_id v = tk_id proposed" using v(2) by (auto simp: group_adjusted_def split: if_splits)
  have uid: "tk_id u = tk_id v" using v(8) by simp
  show "tk_id u = tk_id proposed" using uid id by simp
  show "dict_get current (tk_id u) = Some prior" using v(1) id uid by simp
  show "tk_status prior \<notin> terminal_task_statuses \<or> u = prior"
    using v(3,8) by (auto simp: terminal_task_statuses_def)
  show "member_authority_ok c (tk_id u) u" using v(4,8) by (auto simp: member_authority_ok_def)
  show "task_valid (gc_digest c) u" by (rule v(7))
  show "deps_completed current (deps_of c (tk_id u))" if "tk_status u \<in> {PENDING, CLAIMED, RUNNING, COMPLETED}"
    using that v(5,8) uid by (auto simp: executing_statuses_def split: if_splits)
  show "u = prior" if "tk_status u = DEPENDENCY_SKIPPED"
  proof -
    have st: "tk_status v = DEPENDENCY_SKIPPED" using that v(8) by (simp split: if_splits)
    then have "u = v" using v(8) by simp
    moreover have "tk_status prior \<in> terminal_task_statuses" using v(6) [OF st] by (simp add: terminal_task_statuses_def)
    then have "v = prior" by (rule v(3))
    ultimately show ?thesis by simp
  qed
qed

lemma plan_event_only: "plan_event c kind causes t p = Inr q \<Longrightarrow> gp_tasks q = gp_tasks p"
  by (simp add: plan_event_tasks)

lemma direct_events_tasks: "direct_events c current prior u r p = Inr q \<Longrightarrow> gp_tasks q = gp_tasks p"
  by (auto simp: direct_events_def res_simps dest!: plan_event_only split: if_splits)

lemma plan_cases:
  assumes "plan_graph_transition c current proposed recorded = Inr p"
  obtains prior u q where "check_proposed c current proposed = Inr (prior, u)" "gp_tasks q = dict_put (tk_id u) u current"
    "settle_members c q = Inr p"
    "direct_events c current prior u recorded \<lparr>gp_tasks = dict_put (tk_id u) u current, gp_events = [], gp_settlements = []\<rparr> = Inr q"
proof -
  from assms obtain prior u q where *: "check_proposed c current proposed = Inr (prior, u)"
    "direct_events c current prior u recorded \<lparr>gp_tasks = dict_put (tk_id u) u current, gp_events = [], gp_settlements = []\<rparr> = Inr q"
    "settle_members c q = Inr p" by (auto simp: plan_graph_transition_def res_simps)
  from direct_events_tasks [OF *(2)] have "gp_tasks q = dict_put (tk_id u) u current" by simp
  with * that show thesis by blast
qed

lemma direct_change_sound:
  assumes "graph_consistent c current" "check_proposed c current proposed = Inr (prior, u)"
  shows "graph_sound c (dict_put (tk_id u) u current)"
proof -
  note u = check_proposed_cases [OF assms(2)]
  have sound: "graph_sound c current" using assms(1) by (auto simp: consistent_all graph_sound_def intro: consistent_sound)
  have prior: "member_sound c current (tk_id u) prior" using sound u(1) by (simp add: graph_sound_def)
  have fr: "frozen_terminal current (dict_put (tk_id u) u current)" by (rule frozen_put [OF u(1,2)])
  have "member_sound c (dict_put (tk_id u) u current) (tk_id u) u"
  proof (cases "u = prior")
    case True
    with member_sound_mono [OF fr prior] show ?thesis by simp
  next
    case False
    with u frozen_completed [OF fr u(5)] show ?thesis by (auto simp: member_sound_def)
  qed
  with sound u(1,2) show ?thesis by (intro graph_sound_put) auto
qed

text \<open>
  C3. Planning a change of one member of a consistent graph yields a consistent graph: the complete
  membership with its authority, members executable only after their prerequisites, failures fully propagated,
  waiting members exactly those with unfinished prerequisites, and skip evidence naming failed prerequisites,
  as the validation of a snapshot demands.
\<close>
theorem plan_keeps_graph_consistent:
  assumes "graph_consistent c current" and "plan_graph_transition c current proposed recorded = Inr p"
  shows "graph_consistent c (gp_tasks p)"
  using assms(2)
proof (cases rule: plan_cases)
  case (1 prior u q)
  have "graph_sound c (gp_tasks q)" using direct_change_sound [OF assms(1) 1(1)] 1(2) by simp
  with 1(3) have sound: "graph_sound c (gp_tasks p)" by (rule settle_members_sound)
  have settled: "settled_plan c p" using settle_members_settles [OF 1(3) propagated_refl] ..
  have "member_consistent c (gp_tasks p) i t" if "dict_get (gp_tasks p) i = Some t" for i t
  proof (rule sound_consistent)
    show "member_sound c (gp_tasks p) i t" using sound that by (simp add: graph_sound_def)
  qed (use settled that in \<open>unfold settled_plan_def, blast\<close>)
  with sound show ?thesis by (simp add: consistent_all graph_sound_def)
qed

text \<open>
  A terminal member of a graph is final: no planned transition, whatever it proposes, changes any
  member that is completed, failed, cancelled or skipped.
\<close>
theorem terminal_members_never_change:
  assumes "plan_graph_transition c current proposed recorded = Inr p"
    and "dict_get current i = Some t" and "tk_status t \<in> terminal_task_statuses"
  shows "dict_get (gp_tasks p) i = Some t"
  using assms(1)
proof (cases rule: plan_cases)
  case (1 prior u q)
  note u = check_proposed_cases [OF 1(1)]
  have "frozen_terminal current (gp_tasks q)" unfolding 1(2) by (rule frozen_put [OF u(1,2)])
  moreover have "frozen_terminal (gp_tasks q) (gp_tasks p)"
    using settle_members_settles [OF 1(3) propagated_refl] by (simp add: propagated_def)
  ultimately have "frozen_terminal current (gp_tasks p)" by (rule frozen_trans)
  with assms(2,3) show ?thesis by (simp add: frozen_terminal_def)
qed

section \<open>Events\<close>

definition events_numbered :: "graph_context \<Rightarrow> graph_event list \<Rightarrow> bool" where
  "events_numbered c es \<longleftrightarrow> list_all graph_event_valid es \<and>
     map ge_sequence es = map (\<lambda>k. gc_first_sequence c + int k) [0..<length es]"

lemma plan_event_numbered:
  "plan_event c kind causes t p = Inr q \<Longrightarrow> events_numbered c (gp_events p) \<Longrightarrow> events_numbered c (gp_events q)"
  by (auto simp: plan_event_def Let_def events_numbered_def split: if_splits)

lemma visit_numbered:
  assumes "visit_member c i p = Inr (q, changed)" "events_numbered c (gp_events p)"
  shows "events_numbered c (gp_events q)"
  using assms(1)
proof (cases rule: visit_member_cases)
  case (2 t)
  with assms(2) show ?thesis
    by (auto simp: skip_member_def res_simps dest!: plan_event_numbered split: if_splits)
next
  case (3 t)
  with assms(2) show ?thesis
    by (auto simp: release_member_def Let_def res_simps dest!: plan_event_numbered)
qed (use assms(2) in simp)

lemma sweep_numbered:
  "sweep_members c is p = Inr (p', changed) \<Longrightarrow> events_numbered c (gp_events p) \<Longrightarrow> events_numbered c (gp_events p')"
proof (induction "is" arbitrary: p changed)
  case (Cons i "is")
  then obtain q a b where v: "visit_member c i p = Inr (q, a)" and s: "sweep_members c is q = Inr (p', b)"
    by (auto simp: res_simps)
  from Cons.IH [OF s visit_numbered [OF v Cons.prems(2)]] show ?case .
qed simp

lemma settle_numbered: "settle_members c p = Inr p' \<Longrightarrow> events_numbered c (gp_events p) \<Longrightarrow> events_numbered c (gp_events p')"
proof (induction c p rule: settle_members.induct)
  case (1 c p)
  from "1.prems"(1) obtain q changed where q: "sweep_members c (sort (map fst (gp_tasks p))) p = Inr (q, changed)"
    and r: "(if changed then settle_members c q else Inr q) = Inr p'"
    by (auto simp: settle_members.simps [of c p] res_simps)
  have "events_numbered c (gp_events q)" using q "1.prems"(2) by (rule sweep_numbered)
  with "1.IH" [OF q refl] r show ?case by (cases changed) simp_all
qed

text \<open>
  The events of a planned transition continue the graph's event log without gap or repetition: the
  k-th event carries the first sequence number plus k, and every event passes the validation of graph events.
\<close>
theorem plan_events_contiguous:
  assumes "plan_graph_transition c current proposed recorded = Inr p"
  shows "map ge_sequence (gp_events p) = map (\<lambda>k. gc_first_sequence c + int k) [0..<length (gp_events p)] \<and>
    list_all graph_event_valid (gp_events p)"
  using assms
proof (cases rule: plan_cases)
  case (1 prior u q)
  have "events_numbered c []" by (simp add: events_numbered_def)
  with 1(4) have "events_numbered c (gp_events q)"
    by (auto simp: direct_events_def res_simps dest!: plan_event_numbered split: if_splits)
  with 1(3) have "events_numbered c (gp_events p)" by (rule settle_numbered)
  then show ?thesis by (simp add: events_numbered_def)
qed

section \<open>Progress\<close>

text \<open>
  C25. A graph never stalls on its own dependencies: in every valid snapshot with an unfinished member there
  is an unfinished member that is not waiting for dependencies and whose prerequisites have all completed.
\<close>
theorem unfinished_graph_has_runnable_member:
  assumes "graph_snapshot_valid s" and "m \<in> set (gs_members s)" and "gm_status m \<notin> terminal_task_statuses"
  shows "\<exists>r \<in> set (gs_members s). gm_status r \<notin> terminal_task_statuses \<and> gm_status r \<noteq> WAITING_DEPENDENCIES \<and>
    (\<forall>p \<in> set (gm_prerequisite_task_ids r). member_status (gs_members s) p = Some COMPLETED)"
proof -
  let ?ms = "gs_members s"
  let ?nodes = "map (\<lambda>m. (gm_task_id m, gm_prerequisite_task_ids m)) ?ms"
  have ids: "map gm_task_id ?ms = gr_task_ids (gs_receipt s)" "sorted_wrt (<) (gr_task_ids (gs_receipt s))"
    using assms(1) by (simp_all add: graph_snapshot_valid_def graph_receipt_valid_def canonical_identifiers_def)
  then have d: "distinct (map gm_task_id ?ms)" using strict_sorted_iff by metis
  have dn: "distinct (map fst ?nodes)" using d by (simp add: comp_def)
  have "list_all (\<lambda>m. set (gm_prerequisite_task_ids m) \<subseteq> gm_task_id ` set ?ms) ?ms" "cycle_free ?nodes"
    using assms(1) by (simp_all add: graph_snapshot_valid_def)
  then have closed: "closed_nodes ?nodes"
    using dn by (auto simp: closed_nodes_def list_all_iff image_image subset_iff)
  with cycle_free_acyclic \<open>cycle_free ?nodes\<close> have "acyclic (edges_of ?nodes)" by blast
  moreover have "edges_of ?nodes \<subseteq> (\<Union>m \<in> set ?ms. set (gm_prerequisite_task_ids m)) \<times> gm_task_id ` set ?ms"
    by (auto simp: edges_of_def)
  then have "finite (edges_of ?nodes)" by (rule finite_subset) simp
  ultimately have wf: "wf (edges_of ?nodes)" by (simp add: finite_acyclic_wf)
  have status: "member_status ?ms (gm_task_id x) = Some (gm_status x)" if "x \<in> set ?ms" for x
    using that d by (auto simp: member_status_def map_of_eq_Some_iff comp_def intro!: exI [of _ x])
  let ?open = "{gm_task_id x |x. x \<in> set ?ms \<and> gm_status x \<notin> terminal_task_statuses}"
  have "gm_task_id m \<in> ?open" using assms(2,3) by blast
  then obtain i where i: "i \<in> ?open" "\<And>p. (p, i) \<in> edges_of ?nodes \<Longrightarrow> p \<notin> ?open" using wf by (meson wfE_min)
  then obtain r where r: "r \<in> set ?ms" "i = gm_task_id r" "gm_status r \<notin> terminal_task_statuses" by blast
  have ok: "snapshot_member_ok (member_status ?ms) r"
    using assms(1) r(1) by (simp add: graph_snapshot_valid_def list_all_iff)
  have done_prereqs: "member_status ?ms p = Some COMPLETED" if p: "p \<in> set (gm_prerequisite_task_ids r)" for p
  proof -
    have edge: "(p, i) \<in> edges_of ?nodes" using p r by (auto simp: edges_of_def)
    have "set (gm_prerequisite_task_ids r) \<subseteq> gm_task_id ` set ?ms"
      using assms(1) r(1) by (simp add: graph_snapshot_valid_def list_all_iff)
    with p obtain x where x: "x \<in> set ?ms" "p = gm_task_id x" by blast
    have "gm_status x \<in> terminal_task_statuses" using i(2) [OF edge] x by blast
    moreover have "gm_status x \<notin> graph_failure_statuses"
      using ok p r(3) status [OF x(1)] x(2)
      by (auto simp: snapshot_member_ok_def Let_def filter_empty_conv graph_failure_statuses_def terminal_task_statuses_def)
    ultimately show ?thesis using status [OF x(1)] x(2) by (auto simp: graph_failure_statuses_def terminal_task_statuses_def)
  qed
  then have "gm_status r \<noteq> WAITING_DEPENDENCIES" using ok by (auto simp: snapshot_member_ok_def Let_def list_all_iff)
  with r done_prereqs show ?thesis by blast
qed

section \<open>Unreachable failures\<close>

text \<open>Workers hold only members that execute.\<close>

definition workers_execute :: "(string, task) dict \<Rightarrow> bool" where
  "workers_execute T \<longleftrightarrow> (\<forall>i t. dict_get T i = Some t \<longrightarrow> tk_worker_id t \<noteq> None \<longrightarrow> tk_status t \<in> executing_statuses)"

lemma runtime_settlement_errors:
  assumes "runtime_task_retry_terminal_settlement digest t op rd sd st error now tokens cost = Inl e"
  shows "e \<noteq> TaskGraphUnavailable"
proof -
  have clean: "x \<noteq> TaskGraphUnavailable" if "require_durable_clean_nonblank s = Inl x" for s x
    using that by (auto simp: require_durable_clean_nonblank_def require_clean_nonblank_def split: if_splits)
  have snap: "task_retry_series_snapshot a b d f g h i j k l m n \<noteq> Inl TaskGraphUnavailable" for a b d f g h i j k l m n
    by (auto simp: task_retry_series_snapshot_def res_simps Let_def add_duration_def split: option.splits if_splits)
  have request: "task_retry_runtime_terminal_request digest t op rd error tokens cost \<noteq> Inl TaskGraphUnavailable"
    using clean
    by (auto simp: task_retry_runtime_terminal_request_def res_simps task_retry_runtime_idempotency_key_def
        prepare_task_retry_settlement_def split: option.splits if_splits)
  show ?thesis
    using assms snap request
    by (auto simp: runtime_task_retry_terminal_settlement_def res_simps Let_def task_retry_events_def check_settlement_def
        split: option.splits if_splits)
qed

lemma plan_event_error: "plan_event c kind causes t p = Inl e \<Longrightarrow> e = ValueError"
  by (auto simp: plan_event_def Let_def split: if_splits)

lemma skip_member_error:
  assumes "skip_member c i t failed p = Inl e" "tk_status t \<notin> executing_statuses" "tk_worker_id t = None"
  shows "e \<noteq> TaskGraphUnavailable"
proof -
  have "x \<noteq> TaskGraphUnavailable" if "skip_settlement c t failed = Inl x" for x
    using that runtime_settlement_errors by (auto simp: skip_settlement_def res_simps split: option.splits)
  with assms plan_event_error show ?thesis
    by (fastforce simp: skip_member_def res_simps copy_task_def check_settlement_def split: option.splits if_splits)
qed

lemma visit_available:
  assumes "visit_member c i p = Inl e" "graph_sound c (gp_tasks p)" "workers_execute (gp_tasks p)"
  shows "e \<noteq> TaskGraphUnavailable"
proof (cases "dict_get (gp_tasks p) i")
  case None
  with assms(1) show ?thesis by (simp add: visit_member_def)
next
  case (Some t)
  have sound: "member_sound c (gp_tasks p) i t" using assms(2) Some by (simp add: graph_sound_def)
  have worker: "tk_worker_id t = None" if "tk_status t \<notin> executing_statuses"
    using assms(3) Some that unfolding workers_execute_def by blast
  have free: "tk_status t \<notin> executing_statuses" if "failed_deps (gp_tasks p) (deps_of c i) \<noteq> []"
  proof
    assume "tk_status t \<in> executing_statuses"
    then have "deps_completed (gp_tasks p) (deps_of c i)" using sound by (auto simp: member_sound_def executing_statuses_def)
    with that show False
      by (auto simp: failed_deps_def filter_empty_conv deps_completed_def list_all_iff graph_failure_statuses_def split: option.splits)
  qed
  consider "failed_deps (gp_tasks p) (deps_of c i) \<noteq> []" "skip_member c i t (failed_deps (gp_tasks p) (deps_of c i)) p = Inl e"
    | "release_member c i t p = Inl e"
    using assms(1) Some by (auto simp: visit_member_def Let_def res_simps split: if_splits)
  then show ?thesis
  proof cases
    case 1
    with skip_member_error free worker show ?thesis by blast
  next
    case 2
    then show ?thesis using plan_event_error
      by (fastforce simp: release_member_def Let_def res_simps copy_task_def split: if_splits)
  qed
qed

lemma workers_put: "workers_execute T \<Longrightarrow> (tk_worker_id u \<noteq> None \<Longrightarrow> tk_status u \<in> executing_statuses) \<Longrightarrow> workers_execute (dict_put i u T)"
  by (auto simp: workers_execute_def dict_get_put)

lemma visit_workers:
  assumes "visit_member c i p = Inr (q, changed)" "workers_execute (gp_tasks p)"
  shows "workers_execute (gp_tasks q)"
  using assms(1)
proof (cases rule: visit_member_cases)
  case (2 t)
  from 2(5) show ?thesis
  proof (cases rule: skip_member_cases)
    case (1 u)
    then have "tk_worker_id u = None" by (auto simp: skipped_task_def Let_def)
    with assms(2) have "workers_execute (dict_put i u (gp_tasks p))" by (intro workers_put) simp_all
    with 1(1) show ?thesis by simp
  qed
next
  case (3 t)
  from 3(6) show ?thesis
  proof (cases rule: release_member_cases)
    case (1 u)
    have "tk_status t \<notin> executing_statuses" using 3(3) by (simp add: executing_statuses_def)
    with assms(2) 3(1) have "tk_worker_id t = None" unfolding workers_execute_def by blast
    then have "tk_worker_id u = None" using 1(3) by simp
    with assms(2) have "workers_execute (dict_put i u (gp_tasks p))" by (intro workers_put) simp_all
    with 1(1) show ?thesis by simp
  qed
qed (use assms(2) in simp)

lemma sweep_workers:
  "sweep_members c is p = Inr (p', changed) \<Longrightarrow> workers_execute (gp_tasks p) \<Longrightarrow> workers_execute (gp_tasks p')"
proof (induction "is" arbitrary: p changed)
  case (Cons i "is")
  then obtain q a b where v: "visit_member c i p = Inr (q, a)" and s: "sweep_members c is q = Inr (p', b)"
    by (auto simp: res_simps)
  from Cons.IH [OF s visit_workers [OF v Cons.prems(2)]] show ?case .
qed simp

lemma sweep_available:
  "sweep_members c is p = Inl e \<Longrightarrow> graph_sound c (gp_tasks p) \<Longrightarrow> workers_execute (gp_tasks p) \<Longrightarrow> e \<noteq> TaskGraphUnavailable"
proof (induction "is" arbitrary: p)
  case (Cons i "is")
  show ?case
  proof (cases "visit_member c i p")
    case (Inl x)
    with Cons.prems visit_available [OF Inl] show ?thesis by simp
  next
    case (Inr r)
    obtain q a where r: "r = (q, a)" by (cases r)
    with Inr Cons.prems(1) have "sweep_members c is q = Inl e" by (auto simp: res_simps)
    with Cons.IH visit_sound [OF Inr [unfolded r] Cons.prems(2)] visit_workers [OF Inr [unfolded r] Cons.prems(3)]
    show ?thesis by blast
  qed
qed simp

lemma settle_available:
  "settle_members c p = Inl e \<Longrightarrow> graph_sound c (gp_tasks p) \<Longrightarrow> workers_execute (gp_tasks p) \<Longrightarrow> e \<noteq> TaskGraphUnavailable"
proof (induction c p rule: settle_members.induct)
  case (1 c p)
  show ?case
  proof (cases "sweep_members c (sort (map fst (gp_tasks p))) p")
    case (Inl x)
    with "1.prems" sweep_available [OF Inl] show ?thesis by (simp add: settle_members.simps [of c p])
  next
    case (Inr r)
    obtain q changed where r: "r = (q, changed)" by (cases r)
    note q = Inr [unfolded r]
    have "settle_members c q = Inl e" changed
      using "1.prems"(1) q by (auto simp: settle_members.simps [of c p] split: if_splits)
    with "1.IH" [OF q refl] sweep_sound [OF q "1.prems"(2)] sweep_workers [OF q "1.prems"(3)] show ?thesis by blast
  qed
qed

text \<open>
  On a consistent graph whose workers hold only executing members, planning a change of a member never
  reports an unavailable graph: the branch for an executing member with failed prerequisites, and the checks
  for missing evidence, are unreachable.
\<close>
theorem consistent_graph_is_available:
  assumes "graph_consistent c current" and "workers_execute current"
    and "dict_get current (tk_id proposed) \<noteq> None"
    and "tk_worker_id proposed \<noteq> None \<Longrightarrow> tk_status proposed \<in> executing_statuses"
  shows "plan_graph_transition c current proposed recorded \<noteq> Inl TaskGraphUnavailable"
proof
  assume err: "plan_graph_transition c current proposed recorded = Inl TaskGraphUnavailable"
  have complete: "membership_complete c current" and members: "\<And>i t. dict_get current i = Some t \<Longrightarrow> member_consistent c current i t"
    using assms(1) by (simp_all add: consistent_all)
  have "list_all (\<lambda>(i, t). member_authority_ok c i t) current"
    using members complete by (auto simp: list_all_iff membership_complete_def dict_in_set member_consistent_def)
  then have check: "check_proposed c current proposed \<noteq> Inl TaskGraphUnavailable"
    using complete assms(3)
    by (auto simp: check_proposed_def membership_complete_def group_adjusted_def copy_task_def Let_def res_simps split: if_splits option.splits)
  with err obtain prior u where u: "check_proposed c current proposed = Inr (prior, u)"
    and rest: "bind_res (direct_events c current prior u recorded
           \<lparr>gp_tasks = dict_put (tk_id u) u current, gp_events = [], gp_settlements = []\<rparr>) (settle_members c) = Inl TaskGraphUnavailable"
    by (auto simp: plan_graph_transition_def res_simps)
  have "direct_events c current prior u recorded p \<noteq> Inl TaskGraphUnavailable" for p
    by (auto simp: direct_events_def res_simps dest!: plan_event_error split: if_splits)
  with rest obtain q where q: "direct_events c current prior u recorded
           \<lparr>gp_tasks = dict_put (tk_id u) u current, gp_events = [], gp_settlements = []\<rparr> = Inr q"
    and s: "settle_members c q = Inl TaskGraphUnavailable" by (auto simp: res_simps)
  have tasks: "gp_tasks q = dict_put (tk_id u) u current" using direct_events_tasks [OF q] by simp
  have "tk_worker_id u \<noteq> None \<Longrightarrow> tk_status u \<in> executing_statuses"
    using u assms(4)
    by (auto simp: check_proposed_def group_adjusted_def waiting_unless_ready_def copy_task_def Let_def res_simps executing_statuses_def
        split: if_splits option.splits)
  with assms(2) have "workers_execute (gp_tasks q)" unfolding tasks by (rule workers_put)
  with settle_available [OF s] direct_change_sound [OF assms(1) u] tasks show False by simp
qed

section \<open>Sample graph\<close>

text \<open>\<open>b\<close> depends on the root \<open>a\<close>, \<open>c\<close> on \<open>b\<close>.\<close>

definition sample_node :: "string \<Rightarrow> task_status \<Rightarrow> string list \<Rightarrow> task" where
  "sample_node i st deps = (sample_event_task i st)\<lparr>tk_graph_id := Some ''g'', tk_prerequisite_task_ids := deps\<rparr>"

definition sample_graph :: "(string, task) dict" where
  "sample_graph = [(''a'', (sample_node ''a'' RUNNING [])\<lparr>tk_worker_id := Some ''w''\<rparr>),
     (''b'', sample_node ''b'' WAITING_DEPENDENCIES [''a'']), (''c'', sample_node ''c'' WAITING_DEPENDENCIES [''b''])]"

definition sample_context :: graph_context where
  "sample_context = \<lparr>gc_digest = zero_digest, gc_graph_id = ''g'',
     gc_prerequisites = [(''a'', []), (''b'', [''a'']), (''c'', [''b''])], gc_first_sequence = 5, gc_now = 9,
     gc_group_waiting_task_id = None\<rparr>"

definition sample_failed :: task where
  "sample_failed = sample_node ''a'' FAILED []"

definition sample_plan :: graph_plan where
  "sample_plan = (case plan_graph_transition sample_context sample_graph sample_failed False of
     Inr p \<Rightarrow> p | Inl _ \<Rightarrow> \<lparr>gp_tasks = [], gp_events = [], gp_settlements = []\<rparr>)"

lemma sample_graph_consistent: "graph_consistent sample_context sample_graph" by code_simp

lemma sample_plan_run: "plan_graph_transition sample_context sample_graph sample_failed False = Inr sample_plan"
proof -
  have "case plan_graph_transition sample_context sample_graph sample_failed False of Inr _ \<Rightarrow> True | Inl _ \<Rightarrow> False" by code_simp
  then show ?thesis unfolding sample_plan_def by (simp split: sum.splits)
qed

theorem plan_keeps_graph_consistent_witness: "graph_consistent sample_context (gp_tasks sample_plan)"
  using plan_keeps_graph_consistent [OF sample_graph_consistent sample_plan_run] .

theorem plan_events_contiguous_witness: "map ge_sequence (gp_events sample_plan) = [5, 6, 7]"
proof -
  have "length (gp_events sample_plan) = 3" "gc_first_sequence sample_context = 5" by code_simp+
  with plan_events_contiguous [OF sample_plan_run] show ?thesis by (simp add: upt_rec)
qed

definition sample_late_failure :: task where
  "sample_late_failure = sample_node ''b'' COMPLETED [''a'']"

definition sample_half :: "(string, task) dict" where
  "sample_half = [(''a'', sample_node ''a'' COMPLETED []),
     (''b'', (sample_node ''b'' RUNNING [''a''])\<lparr>tk_worker_id := Some ''w''\<rparr>), (''c'', sample_node ''c'' WAITING_DEPENDENCIES [''b''])]"

theorem terminal_members_never_change_witness:
  "\<exists>p. plan_graph_transition sample_context sample_half sample_late_failure False = Inr p \<and>
     dict_get (gp_tasks p) ''a'' = Some (sample_node ''a'' COMPLETED [])"
proof -
  have "case plan_graph_transition sample_context sample_half sample_late_failure False of Inr _ \<Rightarrow> True | Inl _ \<Rightarrow> False" by code_simp
  then obtain p where p: "plan_graph_transition sample_context sample_half sample_late_failure False = Inr p" by (auto split: sum.splits)
  have "dict_get sample_half ''a'' = Some (sample_node ''a'' COMPLETED [])"
    "tk_status (sample_node ''a'' COMPLETED []) \<in> terminal_task_statuses"
    by (simp_all add: sample_half_def sample_node_def sample_event_task_def terminal_task_statuses_def)
  with terminal_members_never_change [OF p] p show ?thesis by blast
qed

lemma sample_workers: "workers_execute sample_graph"
  by (simp add: workers_execute_def sample_graph_def sample_node_def sample_event_task_def executing_statuses_def)

theorem consistent_graph_is_available_witness:
  "plan_graph_transition sample_context sample_graph sample_failed False \<noteq> Inl TaskGraphUnavailable"
proof (rule consistent_graph_is_available [OF sample_graph_consistent sample_workers])
  show "dict_get sample_graph (tk_id sample_failed) \<noteq> None" by code_simp
  show "tk_worker_id sample_failed \<noteq> None \<Longrightarrow> tk_status sample_failed \<in> executing_statuses"
    by (simp add: sample_failed_def sample_node_def sample_event_task_def)
qed

definition sample_before :: graph_plan where
  "sample_before = \<lparr>gp_tasks = dict_put ''a'' sample_failed sample_graph, gp_events = [], gp_settlements = []\<rparr>"

theorem propagation_computes_closure_witness:
  "\<exists>p t. settle_members (sample_context\<lparr>gc_first_sequence := 6\<rparr>) sample_before = Inr p \<and>
     dict_get (gp_tasks p) ''c'' = Some t \<and> tk_status t = DEPENDENCY_SKIPPED"
proof -
  let ?c = "sample_context\<lparr>gc_first_sequence := 6\<rparr>"
  have "case settle_members ?c sample_before of Inr _ \<Rightarrow> True | Inl _ \<Rightarrow> False" by code_simp
  then obtain p where p: "settle_members ?c sample_before = Inr p" by (auto split: sum.splits)
  have c: "dict_get (gp_tasks sample_before) ''c'' = Some (sample_node ''c'' WAITING_DEPENDENCIES [''b''])"
    by (simp add: sample_before_def sample_graph_def)
  have st: "status_in (gp_tasks sample_before) ''a'' = Some FAILED" "status_in (gp_tasks sample_before) ''b'' = Some WAITING_DEPENDENCIES"
    "deps_of ?c ''b'' = [''a'']" "deps_of ?c ''c'' = [''b'']"
    by code_simp+
  have "doomed ?c (gp_tasks sample_before) ''b''"
    using st by (intro failed_prerequisite [where p = "''a''" and st = FAILED]) (simp_all add: graph_failure_statuses_def)
  then have "doomed ?c (gp_tasks sample_before) ''c''"
    by (rule doomed_prerequisite [where p = "''b''" and st = WAITING_DEPENDENCIES, rotated 3]) (use st in \<open>simp_all add: terminal_task_statuses_def\<close>)
  moreover have "tk_status (sample_node ''c'' WAITING_DEPENDENCIES [''b'']) \<notin> terminal_task_statuses"
    by (simp add: sample_node_def sample_event_task_def terminal_task_statuses_def)
  moreover obtain t where "dict_get (gp_tasks p) ''c'' = Some t" and
    "if tk_status (sample_node ''c'' WAITING_DEPENDENCIES [''b'']) \<in> terminal_task_statuses then t = sample_node ''c'' WAITING_DEPENDENCIES [''b'']
     else tk_status t = (if doomed ?c (gp_tasks sample_before) ''c'' then DEPENDENCY_SKIPPED
       else if tk_status (sample_node ''c'' WAITING_DEPENDENCIES [''b'']) = WAITING_DEPENDENCIES \<and> deps_completed (gp_tasks sample_before) (deps_of ?c ''c'')
       then (if gc_group_waiting_task_id ?c = Some ''c'' then WAITING_GROUP else PENDING)
       else tk_status (sample_node ''c'' WAITING_DEPENDENCIES [''b'']))"
    using propagation_computes_closure [OF p c] by blast
  ultimately have "dict_get (gp_tasks p) ''c'' = Some t" "tk_status t = DEPENDENCY_SKIPPED" by (simp_all only: if_True if_False)
  with p show ?thesis by blast
qed

definition sample_snapshot :: graph_snapshot where
  "sample_snapshot = \<lparr>gs_receipt = \<lparr>gr_graph_id = ''g'', gr_request_sha256 = zero_digest JNull,
       gr_submitted_request_sha256 = zero_digest JNull, gr_task_ids = [''a'', ''b''], gr_accepted_at = 0\<rparr>,
     gs_members = [\<lparr>gm_task_id = ''a'', gm_prerequisite_task_ids = [], gm_status = COMPLETED, gm_failed_prerequisite_task_ids = []\<rparr>,
       \<lparr>gm_task_id = ''b'', gm_prerequisite_task_ids = [''a''], gm_status = PENDING, gm_failed_prerequisite_task_ids = []\<rparr>],
     gs_last_sequence = 3\<rparr>"

theorem unfinished_graph_has_runnable_member_witness:
  "\<exists>r. r \<in> set (gs_members sample_snapshot) \<and> gm_status r \<notin> terminal_task_statuses \<and> gm_status r \<noteq> WAITING_DEPENDENCIES"
proof -
  have "graph_snapshot_valid sample_snapshot" by code_simp
  moreover have "gs_members sample_snapshot ! 1 \<in> set (gs_members sample_snapshot)"
    "gm_status (gs_members sample_snapshot ! 1) \<notin> terminal_task_statuses"
    by (simp_all add: sample_snapshot_def terminal_task_statuses_def)
  ultimately show ?thesis using unfinished_graph_has_runnable_member by blast
qed

end
