(* ===== verification/Store_Steps.thy ===== *)
theory Store_Steps
  imports Graph_Creation Graph_Proofs
begin

text \<open>
  An abstract task store and the simulation that reduces every operation of the modelled store to it.
  A step of the abstract store writes one task, and may do so only as \<open>write_allowed\<close> says: a terminal
  task is never changed, the identity of a task is fixed when it is created, a valid task is replaced by
  a valid one, and a lease over a concurrency key is granted only while no other task holds one.
\<close>

section \<open>Abstract steps\<close>

text \<open>What creation fixes for the life of a task.\<close>

definition same_identity :: "task \<Rightarrow> task \<Rightarrow> bool" where
  "same_identity p u \<longleftrightarrow> tk_id u = tk_id p \<and> tk_type u = tk_type p \<and> tk_concurrency_key u = tk_concurrency_key p \<and>
     tk_restartable u = tk_restartable p \<and> tk_max_restarts u = tk_max_restarts p \<and> tk_title u = tk_title p \<and>
     tk_description u = tk_description p \<and> tk_parent_task_id u = tk_parent_task_id p \<and>
     tk_assigned_agent_name u = tk_assigned_agent_name p \<and> tk_graph_id u = tk_graph_id p \<and>
     tk_prerequisite_task_ids u = tk_prerequisite_task_ids p \<and> tk_input u = tk_input p \<and> tk_metadata u = tk_metadata p \<and>
     tk_created_at u = tk_created_at p \<and> tk_invocation u = tk_invocation p \<and> tk_work_contract u = tk_work_contract p"

text \<open>
  What every stored task satisfies: the validators of a task, and an attempt of a retry series is never
  attached to a session.
\<close>

definition series_detached :: "task \<Rightarrow> bool" where
  "series_detached t \<longleftrightarrow> tk_retry_series t = None \<or> tk_session_id t = None"

definition task_sound :: "(json \<Rightarrow> string) \<Rightarrow> task \<Rightarrow> bool" where
  "task_sound digest t \<longleftrightarrow> task_valid digest t \<and> series_detached t"

text \<open>A task that holds no lease over a key, now or later.\<close>

definition leaseless :: "task \<Rightarrow> bool" where
  "leaseless u \<longleftrightarrow> tk_status u \<notin> {CLAIMED, RUNNING} \<or> tk_worker_id u = None \<or> tk_concurrency_key u = None \<or> tk_lease_expires_at u = None"

lemma leaseless_holds: "leaseless u \<Longrightarrow> \<not> holds_live_key_lease u now"
  by (auto simp: leaseless_def holds_live_key_lease_def live_lease_def split: option.splits)

text \<open>
  The right to hold a lease over the key of \<open>u\<close>: the stored task holds it whenever \<open>u\<close> does, or, at some
  earlier reading \<open>now\<close> of the ownership clock, the lease has already ended or no other task with the key
  held one.
\<close>

definition key_guard :: "store_env \<Rightarrow> task_store \<Rightarrow> task \<Rightarrow> bool" where
  "key_guard env s u \<longleftrightarrow> leaseless u \<or>
     (\<exists>p. dict_get (ts_tasks s) (tk_id u) = Some p \<and> tk_concurrency_key p = tk_concurrency_key u \<and>
        (\<forall>now. holds_live_key_lease u now \<longrightarrow> holds_live_key_lease p now)) \<or>
     (\<exists>m \<le> ts_lease_reads s. let now = te_ownership_clock env m in
        \<not> holds_live_key_lease u now \<or>
        (\<forall>i v. dict_get (ts_tasks s) i = Some v \<longrightarrow> i \<noteq> tk_id u \<longrightarrow> tk_concurrency_key v = tk_concurrency_key u \<longrightarrow>
           \<not> holds_live_key_lease v now))"

definition change_allowed :: "store_env \<Rightarrow> task_store \<Rightarrow> task \<Rightarrow> task \<Rightarrow> bool" where
  "change_allowed env s p u \<longleftrightarrow> same_identity p u \<and> tk_status p \<notin> terminal_task_statuses \<and> key_guard env s u \<and>
     task_sound (te_digest env) u"

definition write_allowed :: "store_env \<Rightarrow> task_store \<Rightarrow> task \<Rightarrow> bool" where
  "write_allowed env s u = (case dict_get (ts_tasks s) (tk_id u) of
       None \<Rightarrow> leaseless u \<and> task_sound (te_digest env) u
     | Some p \<Rightarrow> u = p \<or> change_allowed env s p u)"

definition keyed :: "store_env \<Rightarrow> task_store \<Rightarrow> bool" where
  "keyed env s \<longleftrightarrow> dict_ok (ts_tasks s) \<and>
     (\<forall>i t. dict_get (ts_tasks s) i = Some t \<longrightarrow> tk_id t = i \<and> task_sound (te_digest env) t)"

text \<open>Every member of a graph is known to the index of graph members.\<close>

definition linked :: "task_store \<Rightarrow> bool" where
  "linked s \<longleftrightarrow> (\<forall>g ms i. dict_get (ts_graph_members s) g = Some ms \<longrightarrow> i \<in> fst ` set ms \<longrightarrow>
     dict_get (ts_graph_by_task s) i \<noteq> None)"

text \<open>Nothing but side tables changes: the graphs are the same and the ownership clock was only read.\<close>

definition same_graphs :: "task_store \<Rightarrow> task_store \<Rightarrow> bool" where
  "same_graphs s s' \<longleftrightarrow> ts_graph_members s' = ts_graph_members s \<and> ts_graph_by_task s' = ts_graph_by_task s \<and>
     ts_lease_reads s \<le> ts_lease_reads s'"

text \<open>One step, which writes and registers only identities of \<open>W\<close>.\<close>

definition member :: "task_store \<Rightarrow> string \<Rightarrow> bool" where
  "member s i \<longleftrightarrow> dict_get (ts_graph_by_task s) i \<noteq> None"

inductive store_step :: "store_env \<Rightarrow> string set \<Rightarrow> task_store \<Rightarrow> task_store \<Rightarrow> bool" for env W where
  idle: "ts_tasks s' = ts_tasks s \<Longrightarrow> same_graphs s s' \<Longrightarrow> store_step env W s s'"
| written: "write_allowed env s u \<Longrightarrow> tk_id u \<in> W \<Longrightarrow> ts_tasks s' = dict_put (tk_id u) u (ts_tasks s) \<Longrightarrow>
    same_graphs s s' \<Longrightarrow> store_step env W s s'"
| registered: "ts_tasks s' = ts_tasks s \<Longrightarrow> ts_lease_reads s' = ts_lease_reads s \<Longrightarrow> (linked s \<Longrightarrow> linked s') \<Longrightarrow>
    (\<And>i. member s i \<Longrightarrow> member s' i) \<Longrightarrow> (\<And>i. member s' i \<Longrightarrow> i \<notin> W \<Longrightarrow> member s i) \<Longrightarrow> store_step env W s s'"

inductive_cases store_stepE: "store_step env W s s'"

text \<open>
  What the store relies on outside itself: an ownership clock that never goes back, and a digest that is
  the text of a SHA-256 value.
\<close>

definition env_ok :: "store_env \<Rightarrow> bool" where
  "env_ok env \<longleftrightarrow> (\<forall>m n. m \<le> n \<longrightarrow> te_ownership_clock env m \<le> te_ownership_clock env n) \<and> (\<forall>j. is_sha256_text (te_digest env j))"

text \<open>At every later reading of the ownership clock, at most one task holds a live lease over a key.\<close>

definition sole_holders :: "store_env \<Rightarrow> task_store \<Rightarrow> bool" where
  "sole_holders env s \<longleftrightarrow> (\<forall>n i j t u. ts_lease_reads s \<le> n \<longrightarrow> dict_get (ts_tasks s) i = Some t \<longrightarrow>
     dict_get (ts_tasks s) j = Some u \<longrightarrow> tk_concurrency_key t = tk_concurrency_key u \<longrightarrow>
     holds_live_key_lease t (te_ownership_clock env n) \<longrightarrow> holds_live_key_lease u (te_ownership_clock env n) \<longrightarrow> i = j)"

definition store_shape :: "store_env \<Rightarrow> task_store \<Rightarrow> bool" where
  "store_shape env s \<longleftrightarrow> env_ok env \<and> keyed env s \<and> linked s \<and> sole_holders env s"

lemma same_graphs_refl [simp]: "same_graphs s s"
  by (simp add: same_graphs_def)

lemma same_graphs_linked: "same_graphs s s' \<Longrightarrow> linked s \<Longrightarrow> linked s'"
  by (simp add: same_graphs_def linked_def)

lemma written_keyed: "write_allowed env s u \<Longrightarrow> keyed env s \<Longrightarrow> task_sound (te_digest env) u"
  by (auto simp: write_allowed_def change_allowed_def keyed_def split: option.splits)

lemma holds_earlier: "holds_live_key_lease t b \<Longrightarrow> a \<le> b \<Longrightarrow> holds_live_key_lease t a"
  by (auto simp: holds_live_key_lease_def live_lease_def split: option.splits)

lemma sole_reads: "sole_holders env s \<Longrightarrow> ts_tasks s' = ts_tasks s \<Longrightarrow> ts_lease_reads s \<le> ts_lease_reads s' \<Longrightarrow> sole_holders env s'"
proof -
  assume sole: "sole_holders env s" and t: "ts_tasks s' = ts_tasks s" and le: "ts_lease_reads s \<le> ts_lease_reads s'"
  show "sole_holders env s'"
    unfolding sole_holders_def t
  proof (intro allI impI)
    fix n i j t u assume "ts_lease_reads s' \<le> n"
    with le have "ts_lease_reads s \<le> n" by simp
    moreover assume "dict_get (ts_tasks s) i = Some t" "dict_get (ts_tasks s) j = Some u" "tk_concurrency_key t = tk_concurrency_key u"
      "holds_live_key_lease t (te_ownership_clock env n)" "holds_live_key_lease u (te_ownership_clock env n)"
    ultimately show "i = j" using sole unfolding sole_holders_def by blast
  qed
qed

text \<open>An allowed write meets no other live lease over its key, at any later reading.\<close>

lemma written_alone:
  assumes w: "write_allowed env s u" and env: "env_ok env" and sole: "sole_holders env s" and n: "ts_lease_reads s \<le> n"
    and v: "dict_get (ts_tasks s) i = Some v" "i \<noteq> tk_id u" "tk_concurrency_key v = tk_concurrency_key u"
      "holds_live_key_lease v (te_ownership_clock env n)"
  shows "\<not> holds_live_key_lease u (te_ownership_clock env n)"
proof
  let ?now = "te_ownership_clock env n"
  assume u: "holds_live_key_lease u ?now"
  have alone: "\<not> holds_live_key_lease p ?now" if "dict_get (ts_tasks s) (tk_id u) = Some p" "tk_concurrency_key p = tk_concurrency_key u" for p
    using sole n v that unfolding sole_holders_def by metis
  from w obtain p where p: "dict_get (ts_tasks s) (tk_id u) = Some p" "u = p \<or> key_guard env s u"
    using leaseless_holds u by (auto simp: write_allowed_def change_allowed_def split: option.splits)
  from p(2) alone [OF p(1)] u have "key_guard env s u" by auto
  then show False
    unfolding key_guard_def Let_def
  proof (elim disjE exE conjE)
    assume "leaseless u"
    with u show False by (simp add: leaseless_holds)
  next
    fix p assume "dict_get (ts_tasks s) (tk_id u) = Some p" "tk_concurrency_key p = tk_concurrency_key u"
      "\<forall>now. holds_live_key_lease u now \<longrightarrow> holds_live_key_lease p now"
    with u show False using alone by simp
  next
    fix m assume m: "m \<le> ts_lease_reads s"
    have "te_ownership_clock env m \<le> ?now" using m n env by (simp add: env_ok_def)
    note earlier = holds_earlier [OF _ this]
    { assume "\<not> holds_live_key_lease u (te_ownership_clock env m)"
      with earlier [OF u] show False by simp }
    { assume "\<forall>i v. dict_get (ts_tasks s) i = Some v \<longrightarrow> i \<noteq> tk_id u \<longrightarrow> tk_concurrency_key v = tk_concurrency_key u \<longrightarrow>
         \<not> holds_live_key_lease v (te_ownership_clock env m)"
      with v(1-3) earlier [OF v(4)] show False by simp }
  qed
qed

lemma written_sole:
  assumes "write_allowed env s u" "env_ok env" "sole_holders env s" "ts_tasks s' = dict_put (tk_id u) u (ts_tasks s)"
    "ts_lease_reads s \<le> ts_lease_reads s'"
  shows "sole_holders env s'"
  unfolding sole_holders_def
proof (intro allI impI)
  fix n i j t v
  assume n: "ts_lease_reads s' \<le> n" and t: "dict_get (ts_tasks s') i = Some t" and v: "dict_get (ts_tasks s') j = Some v"
    and k: "tk_concurrency_key t = tk_concurrency_key v" "holds_live_key_lease t (te_ownership_clock env n)"
      "holds_live_key_lease v (te_ownership_clock env n)"
  from n assms(5) have n': "ts_lease_reads s \<le> n" by simp
  note alone = written_alone [OF assms(1-3) n']
  show "i = j"
  proof (rule ccontr)
    assume ne: "i \<noteq> j"
    show False
    proof (cases "i = tk_id u \<or> j = tk_id u")
      case True
      with ne t v k alone assms(4) show False by (auto simp: dict_simps split: if_splits)
    next
      case False
      with t v assms(4) have "dict_get (ts_tasks s) i = Some t" "dict_get (ts_tasks s) j = Some v" by (simp_all add: dict_simps)
      with assms(3) n' k ne show False unfolding sole_holders_def by metis
    qed
  qed
qed

lemma shape_step: "store_step env W s s' \<Longrightarrow> store_shape env s \<Longrightarrow> store_shape env s'"
  unfolding store_shape_def
proof (erule store_stepE)
  fix u
  assume w: "write_allowed env s u" and s: "env_ok env \<and> keyed env s \<and> linked s \<and> sole_holders env s"
    and put: "ts_tasks s' = dict_put (tk_id u) u (ts_tasks s)" "same_graphs s s'"
  have "task_sound (te_digest env) u" using written_keyed [OF w] s by simp
  with s put(1) have "keyed env s'" by (simp add: keyed_def dict_simps)
  moreover have "linked s'" using s same_graphs_linked [OF put(2)] by simp
  moreover have "sole_holders env s'" by (rule written_sole [OF w]) (use s put in \<open>simp_all add: same_graphs_def\<close>)
  ultimately show "env_ok env \<and> keyed env s' \<and> linked s' \<and> sole_holders env s'" using s by simp
next
  assume *: "env_ok env \<and> keyed env s \<and> linked s \<and> sole_holders env s" "ts_tasks s' = ts_tasks s" "same_graphs s s'"
  then show "env_ok env \<and> keyed env s' \<and> linked s' \<and> sole_holders env s'"
    using same_graphs_linked [OF *(3)] sole_reads [of env s s'] by (simp add: keyed_def) (simp add: same_graphs_def)
next
  assume "env_ok env \<and> keyed env s \<and> linked s \<and> sole_holders env s" "ts_tasks s' = ts_tasks s"
    "ts_lease_reads s' = ts_lease_reads s" "linked s \<Longrightarrow> linked s'"
  then show "env_ok env \<and> keyed env s' \<and> linked s' \<and> sole_holders env s'"
    using sole_reads [of env s s'] by (auto simp: keyed_def)
qed

interpretation store_keys: invariant_system "store_step env W" "store_shape env"
  by unfold_locales (rule shape_step)

lemma step_outside: "store_step env W s s' \<Longrightarrow> i \<notin> W \<Longrightarrow> dict_get (ts_tasks s') i = dict_get (ts_tasks s) i \<and> member s' i = member s i"
  by (erule store_stepE) (auto simp: same_graphs_def member_def dict_simps)

lemma step_member: "store_step env W s s' \<Longrightarrow> member s i \<Longrightarrow> member s' i"
  by (erule store_stepE) (auto simp: same_graphs_def member_def)

lemma step_reads: "store_step env W s s' \<Longrightarrow> ts_lease_reads s \<le> ts_lease_reads s'"
  by (erule store_stepE) (simp_all add: same_graphs_def)

section \<open>Moves of actions\<close>

named_theorems moves_intro \<open>one rule per way an operation continues\<close>

abbreviation steps :: "store_env \<Rightarrow> string set \<Rightarrow> 'a store_action \<Rightarrow> task_store \<Rightarrow> bool" where
  "steps env W m s \<equiv> moves (store_step env W) m s"

lemma steps_return [moves_intro]: "steps env W (return_act x) s" by simp

lemma steps_lift_end [moves_intro]: "steps env W (lift_res r) s" by simp

lemma steps_query_end [moves_intro]: "steps env W (query_act q) s" by simp

lemma steps_lift [moves_intro]:
  "(\<And>x. r = Inr x \<Longrightarrow> steps env W (f x) s) \<Longrightarrow> steps env W (bind_act (lift_res r) f) s"
  by (rule moves_bind) (auto simp: res_simps)

lemma steps_query [moves_intro]:
  "(\<And>x. q s = Inr x \<Longrightarrow> steps env W (f x) s) \<Longrightarrow> steps env W (bind_act (query_act q) f) s"
  by (rule moves_bind) (auto simp: res_simps)

lemma require_task_Inr [res_simps]:
  "require_task i s = (Inr t, s') \<longleftrightarrow> s' = s \<and> dict_get (ts_tasks s) i = Some t"
  by (auto simp: require_task_def res_simps split: option.splits)

lemma steps_require_end [moves_intro]: "steps env W (require_task i) s"
  by (simp add: require_task_def)

lemma steps_require [moves_intro]:
  "(\<And>t. dict_get (ts_tasks s) i = Some t \<Longrightarrow> steps env W (f t) s) \<Longrightarrow> steps env W (bind_act (require_task i) f) s"
  by (rule moves_bind) (auto simp: require_task_Inr intro: moves_intro)

lemma steps_refuse [moves_intro]:
  "(\<not> task_admitted i s \<Longrightarrow> steps env W (f ()) s) \<Longrightarrow> steps env W (bind_act (refuse_admitted i e) f) s"
  unfolding refuse_admitted_def by (rule steps_query) (simp add: res_simps)

lemma idle_modify: "ts_tasks (g s) = ts_tasks s \<Longrightarrow> same_graphs s (g s) \<Longrightarrow> steps env W (modify_act g) s"
  by (intro moves_modify store_step.idle)

lemma steps_modify [moves_intro]:
  assumes "ts_tasks (g s) = ts_tasks s" "same_graphs s (g s)" "steps env W (f ()) (g s)"
  shows "steps env W (bind_act (modify_act g) f) s"
  using assms by (intro moves_bind idle_modify) (auto simp: res_simps)

lemma steps_read_clock [moves_intro]:
  assumes "steps env W (f (te_clock env (ts_clock_reads s))) (s\<lparr>ts_clock_reads := ts_clock_reads s + 1\<rparr>)"
  shows "steps env W (bind_act (read_clock env) f) s"
proof (rule moves_bind)
  show "steps env W (read_clock env) s" by (rule moves_one) (simp add: read_clock_def same_graphs_def store_step.idle)
qed (use assms in \<open>auto simp: read_clock_def\<close>)

lemma steps_read_ownership_clock [moves_intro]:
  assumes "steps env W (f (te_ownership_clock env (ts_lease_reads s))) (s\<lparr>ts_lease_reads := ts_lease_reads s + 1\<rparr>)"
  shows "steps env W (bind_act (read_ownership_clock env) f) s"
proof (rule moves_bind)
  show "steps env W (read_ownership_clock env) s" by (rule moves_one) (simp add: read_ownership_clock_def same_graphs_def store_step.idle)
qed (use assms in \<open>auto simp: read_ownership_clock_def\<close>)

section \<open>Publication of one task\<close>

text \<open>An action that leaves the tasks and the ownership clock alone.\<close>

definition quiet :: "'a store_action \<Rightarrow> bool" where
  "quiet m \<longleftrightarrow> (\<forall>s. ts_tasks (snd (m s)) = ts_tasks s \<and> same_graphs s (snd (m s)))"

lemma quietD: "quiet m \<Longrightarrow> m s = (r, s') \<Longrightarrow> ts_tasks s' = ts_tasks s \<and> same_graphs s s'"
  unfolding quiet_def by (metis snd_conv)

lemma same_graphs_trans: "same_graphs a b \<Longrightarrow> same_graphs b c \<Longrightarrow> same_graphs a c"
  by (simp add: same_graphs_def)

lemma quiet_bind: "quiet m \<Longrightarrow> (\<And>x. quiet (f x)) \<Longrightarrow> quiet (bind_act m f)"
  unfolding quiet_def bind_act_def
  by (auto split: prod.split sum.split) (metis snd_conv, metis same_graphs_trans snd_conv)+

lemma quiet_pure [simp, intro]: "quiet (return_act x)" "quiet (lift_res r)" "quiet (query_act q)"
  by (simp_all add: quiet_def return_act_def lift_res_def query_act_def)

lemma quiet_modify: "(\<And>s. ts_tasks (g s) = ts_tasks s \<and> same_graphs s (g s)) \<Longrightarrow> quiet (modify_act g)"
  by (simp add: quiet_def modify_act_def)

lemma quiet_read_clock [simp, intro]: "quiet (read_clock env)"
  by (simp add: quiet_def read_clock_def same_graphs_def)

lemma quiet_observe: "quiet (observe_event env w now)"
proof -
  have "quiet (bind_act (case now of None \<Rightarrow> read_clock env | Some now \<Rightarrow> return_act now) (\<lambda>now.
      bind_act (lift_res (observe_task_retry_key_transition state (pw_prior w) (pw_task w) now)) (\<lambda>state.
        modify_act (\<lambda>s. s\<lparr>ts_retry_keys := dict_put key state (ts_retry_keys s)\<rparr>))))" for key state
    by (auto intro!: quiet_bind quiet_modify simp: same_graphs_def split: option.split)
  then show ?thesis
    unfolding quiet_def observe_event_def by (auto split: option.split)
qed

lemma quiet_remove: "quiet (remove_session_key p)" "quiet (remove_parent_key p)" "quiet (remove_contracted_session_index_entry p)"
  by (auto simp: quiet_def same_graphs_def remove_session_key_def remove_parent_key_def
      remove_contracted_session_index_entry_def Let_def
      split: sum.split option.split)

lemma add_index_entries_tasks [simp]:
  "ts_tasks (add_index_entries t s) = ts_tasks s" "same_graphs s0 (add_index_entries t s) = same_graphs s0 s"
  by (auto simp: same_graphs_def add_index_entries_def add_contracted_session_index_entry_def Let_def split: option.split)

lemma append_schedule_events_tasks [simp]:
  "ts_tasks (append_schedule_events i es s) = ts_tasks s" "same_graphs s0 (append_schedule_events i es s) = same_graphs s0 s"
  by (auto simp: same_graphs_def append_schedule_events_def)

lemma put_task_tasks [simp]:
  "ts_tasks (put_task t s) = dict_put (tk_id t) t (ts_tasks s)" "same_graphs s0 (put_task t s) = same_graphs s0 s"
  by (simp_all add: put_task_def same_graphs_def)

text \<open>Publication either puts the prepared task or raises before it does.\<close>

lemma publish_effect:
  assumes "publish_prepared_task_write env now w s = (r, s')"
  shows "same_graphs s s' \<and>
    (ts_tasks s' = dict_put (tk_id (pw_task w)) (pw_task w) (ts_tasks s) \<or> (\<exists>e. r = Inl e) \<and> ts_tasks s' = ts_tasks s)"
proof -
  let ?t = "pw_task w"
  define first where "first = (\<lambda>f :: unit \<Rightarrow> unit store_action. bind_act (observe_event env w now) (\<lambda>_.
     bind_act (modify_act (\<lambda>s. s\<lparr>ts_handoff_index := update_handoff_index (pw_prior w) ?t (ts_handoff_index s)\<rparr>)) f))"
  define clear where "clear = (case pw_prior w of None \<Rightarrow> return_act ()
     | Some p \<Rightarrow> bind_act (remove_session_key p) (\<lambda>_. bind_act (remove_parent_key p) (\<lambda>_. remove_contracted_session_index_entry p)))"
  have clear: "quiet clear"
    unfolding clear_def by (auto intro!: quiet_bind quiet_remove split: option.split)
  have eq: "publish_prepared_task_write env now w = first (\<lambda>_.
      if (case pw_prior w of None \<Rightarrow> False | Some p \<Rightarrow> same_topology p ?t)
      then modify_act (append_schedule_events (tk_id ?t) (pw_events w) \<circ> put_task ?t)
      else bind_act clear (\<lambda>_. modify_act (append_schedule_events (tk_id ?t) (pw_events w) \<circ> add_index_entries ?t \<circ> put_task ?t)))"
    unfolding publish_prepared_task_write_def first_def clear_def by (simp add: Let_def)
  obtain r1 s1 where o: "observe_event env w now s = (r1, s1)" by fastforce
  have q1: "ts_tasks s1 = ts_tasks s" "same_graphs s s1" using quietD [OF quiet_observe o] by auto
  show ?thesis
  proof (cases r1)
    case (Inl e)
    with assms o q1 show ?thesis by (auto simp: eq first_def bind_act_def)
  next
    case (Inr u)
    let ?s2 = "s1\<lparr>ts_handoff_index := update_handoff_index (pw_prior w) ?t (ts_handoff_index s1)\<rparr>"
    obtain r3 s3 where c: "clear ?s2 = (r3, s3)" by fastforce
    have g2: "same_graphs s ?s2" using q1(2) by (simp add: same_graphs_def)
    have q3: "ts_tasks s3 = ts_tasks s" "same_graphs s s3"
      using quietD [OF clear c] q1(1) same_graphs_trans [OF g2] by auto
    show ?thesis
      using assms o Inr c q1 q3 g2
      by (cases r3) (auto simp: eq first_def bind_act_def modify_act_def split: if_splits)
  qed
qed

lemma publish_moves:
  assumes "write_allowed env s (pw_task w)" "tk_id (pw_task w) \<in> W"
  shows "steps env W (publish_prepared_task_write env now w) s"
proof (rule moves_one)
  obtain r s' where p: "publish_prepared_task_write env now w s = (r, s')" by fastforce
  from publish_effect [OF p] assms show "store_step env W s (snd (publish_prepared_task_write env now w s))"
    by (auto simp: p intro: store_step.idle store_step.written)
qed

end
