(* ===== verification/Store_Writes.thy ===== *)
theory Store_Writes
  imports Store_Steps
begin

text \<open>
  Every write of the store is a sequence of abstract steps: single writes and the transaction of a graph
  member, whose plan may change many members at once.
\<close>

section \<open>How a plan changes the members of a graph\<close>

definition evolves :: "(json \<Rightarrow> string) \<Rightarrow> task \<Rightarrow> task \<Rightarrow> bool" where
  "evolves digest t0 t \<longleftrightarrow> t = t0 \<or> tk_status t0 \<notin> terminal_task_statuses \<and> same_identity t0 t \<and>
     tk_status t \<notin> {CLAIMED, RUNNING} \<and> task_valid digest t \<and> (series_detached t0 \<longrightarrow> series_detached t)"

lemma same_identity_refl [simp]: "same_identity t t"
  by (simp add: same_identity_def)

lemma same_identity_trans: "same_identity a b \<Longrightarrow> same_identity b c \<Longrightarrow> same_identity a c"
  by (simp add: same_identity_def)

lemma same_identity_id: "same_identity a b \<Longrightarrow> tk_id b = tk_id a"
  by (simp add: same_identity_def)

lemma evolves_refl [simp]: "evolves digest t t"
  by (simp add: evolves_def)

lemma evolves_trans: "evolves digest a b \<Longrightarrow> evolves digest b c \<Longrightarrow> evolves digest a c"
  unfolding evolves_def using same_identity_trans by blast

lemma evolves_id: "evolves digest a b \<Longrightarrow> tk_id b = tk_id a"
  by (auto simp: evolves_def same_identity_id)

lemma runtime_settlement_identity:
  assumes "runtime_task_retry_terminal_settlement digest t op rd sd st error now tokens cost = Inr r"
  shows "same_identity t (sr_task r) \<and> tk_retry_series t \<noteq> None \<and> tk_session_id (sr_task r) = tk_session_id t"
  using assms
  by (auto simp: runtime_task_retry_terminal_settlement_def res_simps Let_def check_settlement_def same_identity_def
      split: option.splits if_splits prod.splits)

lemma skipped_identity:
  assumes "skip_settlement c t failed = Inr settled"
  shows "same_identity t (skipped_task t failed now settled)" "tk_status (skipped_task t failed now settled) = DEPENDENCY_SKIPPED"
    "series_detached t \<Longrightarrow> series_detached (skipped_task t failed now settled)"
proof -
  have s: "settled = None \<and> tk_retry_series t = None \<or> (\<exists>r. settled = Some r \<and> same_identity t (sr_task r) \<and>
      tk_retry_series t \<noteq> None \<and> tk_session_id (sr_task r) = tk_session_id t)"
    using assms by (auto simp: skip_settlement_def res_simps dest: runtime_settlement_identity split: option.splits)
  then show "same_identity t (skipped_task t failed now settled)"
    by (auto simp: skipped_task_def same_identity_def Let_def)
  show "tk_status (skipped_task t failed now settled) = DEPENDENCY_SKIPPED"
    by (simp add: skipped_task_def Let_def)
  show "series_detached t \<Longrightarrow> series_detached (skipped_task t failed now settled)"
    using s by (auto simp: skipped_task_def series_detached_def Let_def)
qed

lemma visit_evolves:
  assumes "visit_member c i p = Inr (p', changed)"
  shows "p' = p \<or> (\<exists>t u. dict_get (gp_tasks p) i = Some t \<and> gp_tasks p' = dict_put i u (gp_tasks p) \<and> evolves (gc_digest c) t u)"
  using assms
proof (cases rule: visit_member_cases)
  case (2 t)
  from 2(5) obtain settled u where s: "skip_settlement c t (failed_deps (gp_tasks p) (deps_of c i)) = Inr settled"
    and u: "u = skipped_task t (failed_deps (gp_tasks p) (deps_of c i)) (gc_now c) settled" "task_valid (gc_digest c) u"
      "gp_tasks p' = dict_put i u (gp_tasks p)"
    by (cases rule: skip_member_cases) auto
  from skipped_identity [OF s, of "gc_now c"] u 2(3) have "evolves (gc_digest c) t u" by (simp add: evolves_def)
  with 2(1) u(3) show ?thesis by blast
next
  case (3 t)
  from 3(6) obtain u where u: "gp_tasks p' = dict_put i u (gp_tasks p)" "task_valid (gc_digest c) u"
      "u = t\<lparr>tk_status := released_status c i, tk_updated_at := gc_now c\<rparr>"
    by (auto simp: release_member_def released_status_def res_simps Let_def dest: plan_event_only)
  have "evolves (gc_digest c) t u"
    using u(2,3) 3(3) released_status_cases [of c i]
    by (auto simp: evolves_def same_identity_def series_detached_def terminal_task_statuses_def)
  with 3(1) u(1) show ?thesis by blast
qed simp

definition plan_evolves :: "(json \<Rightarrow> string) \<Rightarrow> (string, task) dict \<Rightarrow> (string, task) dict \<Rightarrow> bool" where
  "plan_evolves digest T0 T \<longleftrightarrow> map fst T = map fst T0 \<and>
     (\<forall>i t0. dict_get T0 i = Some t0 \<longrightarrow> (\<exists>t. dict_get T i = Some t \<and> evolves digest t0 t))"

lemma plan_evolves_refl: "plan_evolves digest T T"
  by (simp add: plan_evolves_def)

lemma plan_evolves_put:
  assumes "plan_evolves digest T0 T" "dict_get T i = Some t" "evolves digest t u"
  shows "plan_evolves digest T0 (dict_put i u T)"
proof -
  have "i \<in> fst ` set T" using assms(2) by (metis map_of_eq_None_iff option.distinct(1))
  with assms show ?thesis
    by (auto simp: plan_evolves_def dict_keys_put dict_simps intro: evolves_trans) (metis evolves_trans option.inject)
qed

lemma visit_plan_evolves:
  "visit_member c i p = Inr (p', changed) \<Longrightarrow> plan_evolves (gc_digest c) T0 (gp_tasks p) \<Longrightarrow> plan_evolves (gc_digest c) T0 (gp_tasks p')"
  using visit_evolves plan_evolves_put by metis

lemma sweep_plan_evolves:
  "sweep_members c is p = Inr (p', changed) \<Longrightarrow> plan_evolves (gc_digest c) T0 (gp_tasks p) \<Longrightarrow> plan_evolves (gc_digest c) T0 (gp_tasks p')"
proof (induction "is" arbitrary: p changed)
  case (Cons i "is")
  then obtain q a b where v: "visit_member c i p = Inr (q, a)" and s: "sweep_members c is q = Inr (p', b)"
    by (auto simp: res_simps)
  from visit_plan_evolves [OF v Cons.prems(2)] Cons.IH [OF s] show ?case by blast
qed simp

lemma settle_plan_evolves:
  "settle_members c p = Inr p' \<Longrightarrow> plan_evolves (gc_digest c) T0 (gp_tasks p) \<Longrightarrow> plan_evolves (gc_digest c) T0 (gp_tasks p')"
proof (induction c p rule: settle_members.induct)
  case (1 c p)
  from "1.prems"(1) obtain q changed where q: "sweep_members c (sort (map fst (gp_tasks p))) p = Inr (q, changed)"
    and r: "(if changed then settle_members c q else Inr q) = Inr p'"
    by (auto simp: settle_members.simps [of c p] res_simps)
  have e: "plan_evolves (gc_digest c) T0 (gp_tasks q)" using sweep_plan_evolves [OF q "1.prems"(2)] .
  show ?case
  proof (cases changed)
    case True
    with "1.IH" [OF q refl True] r e show ?thesis by simp
  next
    case False
    with r e show ?thesis by simp
  qed
qed

text \<open>The proposed member as the plan takes it: itself, or waiting for unfinished prerequisites.\<close>

lemma check_proposed_task:
  assumes "check_proposed c current proposed = Inr (prior, u)" "gc_group_waiting_task_id c = None"
  shows "u = proposed \<or> tk_status proposed = PENDING \<and> u = proposed\<lparr>tk_status := WAITING_DEPENDENCIES\<rparr>"
    and "tk_status prior \<in> terminal_task_statuses \<Longrightarrow> proposed = prior"
proof -
  have g: "group_adjusted c proposed = Inr proposed" using assms(2) by (simp add: group_adjusted_def)
  from assms(1) have p: "dict_get current (tk_id proposed) = Some prior"
      "\<not> (tk_status prior \<in> terminal_task_statuses \<and> proposed \<noteq> prior)"
      "copy_task (gc_digest c) (waiting_unless_ready (deps_completed current (deps_of c (tk_id proposed))) proposed) = Inr u"
    unfolding check_proposed_def Let_def
    by (auto simp only: g bind_res_simps bind_res_eq_Inr sum.inject prod.inject split: option.split_asm if_split_asm)
  from p(2) show "tk_status prior \<in> terminal_task_statuses \<Longrightarrow> proposed = prior" by blast
  from p(3) have "u = waiting_unless_ready (deps_completed current (deps_of c (tk_id proposed))) proposed" by (simp add: copy_task_Inr)
  then show "u = proposed \<or> tk_status proposed = PENDING \<and> u = proposed\<lparr>tk_status := WAITING_DEPENDENCIES\<rparr>"
    by (cases "tk_status proposed = PENDING \<and> \<not> deps_completed current (deps_of c (tk_id proposed))")
      (simp_all add: waiting_unless_ready_def)
qed

lemma transition_tasks_in:
  assumes "t \<in> set (transition_tasks current p)"
  obtains i where "dict_get (gp_tasks p) i = Some t" "dict_get current i \<noteq> Some t"
proof -
  from assms obtain i where "t \<in> set (case dict_get (gp_tasks p) i of None \<Rightarrow> [] | Some t \<Rightarrow> if dict_get current i = Some t then [] else [t])"
    unfolding transition_tasks_def by auto
  with that show thesis by (cases "dict_get (gp_tasks p) i") (auto split: if_splits)
qed

section \<open>A batch of prepared writes\<close>

lemma prepare_task: "prepare_task_write env t op s = Inr w \<Longrightarrow> pw_task w = t"
  by (auto simp: prepare_task_write_def res_simps Let_def split: if_splits)

lemma key_guard_leaseless [simp]: "leaseless u \<Longrightarrow> key_guard env s u"
  by (simp add: key_guard_def)

text \<open>A right to a lease survives writes of other tasks that hold none.\<close>

lemma key_guard_other:
  assumes "key_guard env s u" "leaseless a" "tk_id a \<noteq> tk_id u" "ts_tasks s' = dict_put (tk_id a) a (ts_tasks s)"
    "ts_lease_reads s \<le> ts_lease_reads s'"
  shows "key_guard env s' u"
  using assms(1) unfolding key_guard_def
proof (elim disjE exE conjE)
  fix p
  assume "dict_get (ts_tasks s) (tk_id u) = Some p" "tk_concurrency_key p = tk_concurrency_key u"
    "\<forall>now. holds_live_key_lease u now \<longrightarrow> holds_live_key_lease p now"
  moreover from this(1) have "dict_get (ts_tasks s') (tk_id u) = Some p" using assms(3,4) by (auto simp: dict_simps)
  ultimately show "leaseless u \<or> (\<exists>p. dict_get (ts_tasks s') (tk_id u) = Some p \<and> tk_concurrency_key p = tk_concurrency_key u \<and>
        (\<forall>now. holds_live_key_lease u now \<longrightarrow> holds_live_key_lease p now)) \<or>
     (\<exists>m \<le> ts_lease_reads s'. let now = te_ownership_clock env m in \<not> holds_live_key_lease u now \<or>
        (\<forall>i v. dict_get (ts_tasks s') i = Some v \<longrightarrow> i \<noteq> tk_id u \<longrightarrow> tk_concurrency_key v = tk_concurrency_key u \<longrightarrow>
           \<not> holds_live_key_lease v now))" by blast
next
  fix m assume m: "m \<le> ts_lease_reads s" and g: "let now = te_ownership_clock env m in \<not> holds_live_key_lease u now \<or>
     (\<forall>i v. dict_get (ts_tasks s) i = Some v \<longrightarrow> i \<noteq> tk_id u \<longrightarrow> tk_concurrency_key v = tk_concurrency_key u \<longrightarrow> \<not> holds_live_key_lease v now)"
  then have "let now = te_ownership_clock env m in \<not> holds_live_key_lease u now \<or>
     (\<forall>i v. dict_get (ts_tasks s') i = Some v \<longrightarrow> i \<noteq> tk_id u \<longrightarrow> tk_concurrency_key v = tk_concurrency_key u \<longrightarrow> \<not> holds_live_key_lease v now)"
    using assms(3,4) leaseless_holds [OF assms(2)] by (auto simp: dict_simps Let_def)
  with m assms(5) show "leaseless u \<or> (\<exists>p. dict_get (ts_tasks s') (tk_id u) = Some p \<and> tk_concurrency_key p = tk_concurrency_key u \<and>
        (\<forall>now. holds_live_key_lease u now \<longrightarrow> holds_live_key_lease p now)) \<or>
     (\<exists>m \<le> ts_lease_reads s'. let now = te_ownership_clock env m in \<not> holds_live_key_lease u now \<or>
        (\<forall>i v. dict_get (ts_tasks s') i = Some v \<longrightarrow> i \<noteq> tk_id u \<longrightarrow> tk_concurrency_key v = tk_concurrency_key u \<longrightarrow>
           \<not> holds_live_key_lease v now))" by (meson le_trans)
qed simp

lemma write_allowed_other:
  assumes "write_allowed env s v" "leaseless a \<or> leaseless v" "tk_id a \<noteq> tk_id v" "ts_tasks s' = dict_put (tk_id a) a (ts_tasks s)"
    "ts_lease_reads s \<le> ts_lease_reads s'"
  shows "write_allowed env s' v"
proof -
  have "dict_get (ts_tasks s') (tk_id v) = dict_get (ts_tasks s) (tk_id v)"
    using assms(3,4) by (auto simp: dict_simps)
  moreover have "key_guard env s v \<Longrightarrow> key_guard env s' v"
    using key_guard_other [of env s v a s'] assms(2-5) by auto
  ultimately show ?thesis
    using assms(1) by (auto simp: write_allowed_def change_allowed_def split: option.splits)
qed

lemma batch_moves:
  assumes "\<And>v. v \<in> set (map pw_task ws) \<Longrightarrow> write_allowed env s v"
    and "\<And>a b. a \<in> set (map pw_task ws) \<Longrightarrow> b \<in> set (map pw_task ws) \<Longrightarrow> tk_id a = tk_id b \<Longrightarrow> a = b"
    and "\<And>v. v \<in> set (map pw_task ws) \<Longrightarrow> tk_id v = k \<or> leaseless v"
    and "\<And>v. v \<in> set (map pw_task ws) \<Longrightarrow> tk_id v \<in> W"
  shows "steps env W (each_act (publish_prepared_task_write env now) ws) s"
  using assms
proof (induction ws arbitrary: s)
  case (Cons w ws)
  let ?a = "pw_task w"
  show ?case
    unfolding each_act.simps
  proof (rule moves_bind)
    show "steps env W (publish_prepared_task_write env now w) s" using Cons.prems(1,4) by (intro publish_moves) simp_all
  next
    fix x s1 assume p: "publish_prepared_task_write env now w s = (Inr x, s1)"
    from publish_effect [OF p] have e: "ts_tasks s1 = dict_put (tk_id ?a) ?a (ts_tasks s)" "ts_lease_reads s \<le> ts_lease_reads s1"
      by (auto simp: same_graphs_def)
    show "steps env W (each_act (publish_prepared_task_write env now) ws) s1"
    proof (rule Cons.IH)
      fix v assume v: "v \<in> set (map pw_task ws)"
      show "write_allowed env s1 v"
      proof (cases "tk_id v = tk_id ?a")
        case True
        with v have "v = ?a" by (intro Cons.prems(2)) simp_all
        with e(1) show ?thesis by (simp add: write_allowed_def dict_simps)
      next
        case False
        have "leaseless ?a \<or> leaseless v" using Cons.prems(3) [of ?a] Cons.prems(3) [of v] v False by auto
        with False Cons.prems(1) [of v] v e show ?thesis by (intro write_allowed_other [of env s v ?a s1]) auto
      qed
    next
      fix a b assume ab: "a \<in> set (map pw_task ws)" "b \<in> set (map pw_task ws)" "tk_id a = tk_id b"
      show "a = b" using Cons.prems(2) [of a b] ab by simp
    next
      fix v assume "v \<in> set (map pw_task ws)"
      then show "tk_id v = k \<or> leaseless v" "tk_id v \<in> W" using Cons.prems(3,4) [of v] by simp_all
    qed
  qed
qed simp

section \<open>The transaction of a graph member\<close>

text \<open>
  A proposed write.  For a member of a graph the transaction itself refuses changes of terminal members and
  validates what it stores, so nothing is asked there.
\<close>

definition proposal_allowed :: "store_env \<Rightarrow> task_store \<Rightarrow> task \<Rightarrow> bool" where
  "proposal_allowed env s u = (case dict_get (ts_tasks s) (tk_id u) of
       None \<Rightarrow> leaseless u \<and> task_sound (te_digest env) u
     | Some p \<Rightarrow> u = p \<or> same_identity p u \<and> key_guard env s u \<and> series_detached u \<and> (\<not> member s (tk_id u) \<longrightarrow>
         tk_status p \<notin> terminal_task_statuses \<and> task_valid (te_digest env) u))"

lemma traverse_res_member: "traverse_res f xs = Inr ys \<Longrightarrow> y \<in> set ys \<Longrightarrow> \<exists>x \<in> set xs. f x = Inr y"
  by (induction xs arbitrary: ys) (auto simp: res_simps)

lemma graph_tasks_lookup:
  assumes "graph_tasks g s = Inr current" "dict_get current i = Some t"
  shows "dict_get (ts_tasks s) i = Some t" "\<exists>ms. dict_get (ts_graph_members s) g = Some ms \<and> i \<in> fst ` set ms"
proof -
  from assms(1) obtain ms where ms: "dict_get (ts_graph_members s) g = Some ms"
    and tr: "traverse_res (\<lambda>(i, _). case dict_get (ts_tasks s) i of None \<Rightarrow> Inl TaskGraphUnavailable | Some t \<Rightarrow> Inr (i, t)) ms = Inr current"
    by (auto simp: graph_tasks_def res_simps split: option.splits)
  from assms(2) have "(i, t) \<in> set current" by (rule map_of_SomeD)
  from traverse_res_member [OF tr this] obtain x where x: "x \<in> set ms"
    "(case x of (i, _) \<Rightarrow> case dict_get (ts_tasks s) i of None \<Rightarrow> Inl TaskGraphUnavailable | Some t \<Rightarrow> Inr (i, t)) = Inr (i, t)"
    by blast
  then show "dict_get (ts_tasks s) i = Some t" by (auto split: prod.splits option.splits)
  from x have "i \<in> fst ` set ms" by (auto simp: rev_image_eqI split: prod.splits option.splits)
  with ms show "\<exists>ms. dict_get (ts_graph_members s) g = Some ms \<and> i \<in> fst ` set ms" by blast
qed

lemma same_identity_waiting [simp]: "same_identity p (u\<lparr>tk_status := x\<rparr>) = same_identity p u"
  by (simp add: same_identity_def)

lemma leaseless_status: "tk_status u \<notin> {CLAIMED, RUNNING} \<Longrightarrow> leaseless u"
  by (simp add: leaseless_def)

lemma evolves_allowed:
  assumes "evolves (te_digest env) q v" "dict_get (ts_tasks s) (tk_id v) = Some p" "v \<noteq> q"
    "same_identity p q" "tk_status p \<notin> terminal_task_statuses" "series_detached q"
  shows "write_allowed env s v \<and> leaseless v"
proof -
  from assms(1,3,6) have v: "same_identity q v" "tk_status v \<notin> {CLAIMED, RUNNING}" "task_sound (te_digest env) v"
    by (auto simp: evolves_def task_sound_def)
  have "leaseless v" using v(2) by (rule leaseless_status)
  with assms(2,5) v(3) same_identity_trans [OF assms(4) v(1)] show ?thesis
    by (simp add: write_allowed_def change_allowed_def)
qed

text \<open>A task that is already stored keeps the right it has.\<close>

lemma key_guard_self: "dict_get (ts_tasks s) (tk_id w) = Some w \<Longrightarrow> key_guard env s w"
  unfolding key_guard_def by auto

lemma stored_sound: "store_shape env s \<Longrightarrow> dict_get (ts_tasks s) i = Some t \<Longrightarrow> tk_id t = i \<and> task_sound (te_digest env) t"
  by (simp add: store_shape_def keyed_def)

lemma proposal_guard:
  assumes "store_shape env s" "proposal_allowed env s u" "dict_get (ts_tasks s) (tk_id u) = Some p"
  shows "same_identity p u \<and> key_guard env s u \<and> series_detached u"
  using assms(2,3) key_guard_self [of s p env] stored_sound [OF assms(1,3)]
  by (auto simp: proposal_allowed_def task_sound_def)

lemma plan_writes:
  assumes shape: "store_shape env s" and current: "graph_tasks g s = Inr current"
    and plan: "plan_graph_transition c current u recorded = Inr p"
    and c: "gc_group_waiting_task_id c = None" "gc_digest c = te_digest env"
    and u: "proposal_allowed env s u" and v: "v \<in> set (transition_tasks current p)"
  shows "write_allowed env s v \<and> (tk_id v = tk_id u \<or> leaseless v) \<and> dict_get (gp_tasks p) (tk_id v) = Some v \<and>
    (\<exists>t. dict_get current (tk_id v) = Some t)"
proof -
  from plan obtain prior w q where w: "check_proposed c current u = Inr (prior, w)" and q: "gp_tasks q = dict_put (tk_id w) w current"
    and settled: "settle_members c q = Inr p" by (rule plan_cases)
  note cases = check_proposed_cases [OF w]
  have prior: "dict_get (ts_tasks s) (tk_id w) = Some prior" using graph_tasks_lookup(1) [OF current cases(1)] .
  have w_id: "tk_id w = tk_id u" by (rule cases(7))
  have w_eq: "w = u \<or> tk_status u = PENDING \<and> w = u\<lparr>tk_status := WAITING_DEPENDENCIES\<rparr>" using check_proposed_task(1) [OF w c(1)] .
  have ev: "plan_evolves (te_digest env) (gp_tasks q) (gp_tasks p)"
    using settle_plan_evolves [OF settled plan_evolves_refl] c(2) by simp
  from v obtain i where i: "dict_get (gp_tasks p) i = Some v" "dict_get current i \<noteq> Some v" by (rule transition_tasks_in)
  have "map fst (gp_tasks p) = map fst (gp_tasks q)" using ev by (simp add: plan_evolves_def)
  from dict_get_keys [OF this i(1)] obtain t0 where t0: "dict_get (gp_tasks q) i = Some t0" by blast
  with ev i(1) have ev0: "evolves (te_digest env) t0 v" unfolding plan_evolves_def by (metis option.inject)
  show ?thesis
  proof (cases "i = tk_id w")
    case True
    with t0 q have t0w: "t0 = w" by (simp add: dict_simps)
    have live: "tk_status prior \<notin> terminal_task_statuses"
    proof
      assume fin: "tk_status prior \<in> terminal_task_statuses"
      then have "w = prior" using cases(2) by blast
      with ev0 t0w fin have "v = prior" by (auto simp: evolves_def)
      with i(2) True cases(1) show False by simp
    qed
    have g: "same_identity prior u \<and> key_guard env s u \<and> series_detached u" using proposal_guard [OF shape u] prior w_id by simp
    have wp: "same_identity prior w \<and> key_guard env s w \<and> series_detached w"
    proof (cases "w = u")
      case False
      with w_eq have "w = u\<lparr>tk_status := WAITING_DEPENDENCIES\<rparr>" by blast
      with g show ?thesis by (simp add: leaseless_def series_detached_def)
    qed (use g in simp)
    have vid: "tk_id v = tk_id w" using evolves_id [OF ev0] t0w by simp
    show ?thesis
    proof (cases "v = w")
      case True
      with prior wp live cases(4) c(2) have "write_allowed env s v" by (simp add: write_allowed_def change_allowed_def task_sound_def)
      with True i(1) w_id cases(1) \<open>i = tk_id w\<close> show ?thesis by auto
    next
      case False
      with evolves_allowed [OF ev0 [unfolded t0w], of s prior] prior vid wp live have "write_allowed env s v \<and> leaseless v" by simp
      with vid i(1) True cases(1) show ?thesis by auto
    qed
  next
    case False
    with t0 q have cur: "dict_get current i = Some t0" by (simp add: dict_simps)
    with graph_tasks_lookup(1) [OF current] have st: "dict_get (ts_tasks s) i = Some t0" by blast
    with stored_sound [OF shape] have t0s: "tk_id t0 = i" "series_detached t0" by (auto simp: task_sound_def)
    from this(1) evolves_id [OF ev0] have vid: "tk_id v = i" by simp
    have ne: "v \<noteq> t0" using cur i(2) by auto
    with ev0 have "tk_status t0 \<notin> terminal_task_statuses" by (auto simp: evolves_def)
    with evolves_allowed [OF ev0, of s t0] st vid ne t0s(2) have "write_allowed env s v \<and> leaseless v" by simp
    with vid i(1) cur show ?thesis by auto
  qed
qed

lemma traverse_prepared:
  "traverse_res (\<lambda>u. prepare_task_write env u (op u) s) ts = Inr ws \<Longrightarrow> map pw_task ws = ts"
  by (induction ts arbitrary: ws) (auto simp: res_simps dest: prepare_task)

lemma graph_writes_tasks: "prepare_graph_writes env g t op ts s = Inr gw \<Longrightarrow> map pw_task (gw_writes gw) = ts"
  by (auto simp: prepare_graph_writes_def res_simps dest: traverse_prepared split: if_splits)

lemma record_transition_tasks [simp]:
  "ts_tasks (record_graph_transition g plan terminal s) = ts_tasks s"
  "same_graphs s0 (record_graph_transition g plan terminal s) = same_graphs s0 s"
proof -
  have "ts_tasks (fold put_settlement rs s) = ts_tasks s \<and> same_graphs s0 (fold put_settlement rs s) = same_graphs s0 s" for rs
    by (induction rs arbitrary: s) (simp_all add: put_settlement_def same_graphs_def)
  then show "ts_tasks (record_graph_transition g plan terminal s) = ts_tasks s"
    "same_graphs s0 (record_graph_transition g plan terminal s) = same_graphs s0 s"
    by (simp_all add: record_graph_transition_def Let_def same_graphs_def)
qed

text \<open>Reading clocks keeps every right.\<close>

lemma proposal_reads:
  assumes "ts_tasks s' = ts_tasks s" "same_graphs s s'" "proposal_allowed env s u"
  shows "proposal_allowed env s' u"
proof -
  have "key_guard env s u \<Longrightarrow> key_guard env s' u"
    unfolding key_guard_def Let_def using assms(1,2) by (simp add: same_graphs_def) (meson le_trans)
  with assms show ?thesis by (auto simp: proposal_allowed_def same_graphs_def member_def split: option.splits)
qed

lemma shape_reads: "ts_tasks s' = ts_tasks s \<Longrightarrow> same_graphs s s' \<Longrightarrow> store_shape env s \<Longrightarrow> store_shape env s'"
  using sole_reads [of env s s'] by (simp add: store_shape_def keyed_def same_graphs_linked) (simp add: same_graphs_def)

lemma graph_tasks_reads:
  assumes "ts_tasks s' = ts_tasks s" "ts_graph_members s' = ts_graph_members s" "ts_graph_receipts s' = ts_graph_receipts s"
  shows "graph_tasks g s' = graph_tasks g s"
  unfolding graph_tasks_def assms ..

text \<open>A successor stored in the same transaction.\<close>

definition in_scope :: "task_store \<Rightarrow> task \<Rightarrow> string set \<Rightarrow> bool" where
  "in_scope s u W \<longleftrightarrow> tk_id u \<in> W \<and> (\<forall>i. member s i \<longrightarrow> i \<in> W)"

lemma in_scope_UNIV [simp]: "in_scope s u UNIV"
  by (simp add: in_scope_def)

definition fresh_successor :: "store_env \<Rightarrow> task_store \<Rightarrow> task option \<Rightarrow> bool" where
  "fresh_successor env s successor \<longleftrightarrow>
     (\<forall>x. successor = Some x \<longrightarrow> dict_get (ts_tasks s) (tk_id x) = None \<and> leaseless x \<and> task_sound (te_digest env) x)"

lemma transaction_moves:
  assumes "store_shape env s" "proposal_allowed env s u" "fresh_successor env s successor"
    and W: "in_scope s u W" "\<And>x. successor = Some x \<Longrightarrow> tk_id x \<in> W"
  shows "steps env W (graph_transaction env g u op successor) s"
  unfolding graph_transaction_def
proof (intro steps_query steps_read_ownership_clock)
  let ?s = "s\<lparr>ts_lease_reads := ts_lease_reads s + 1\<rparr>" and ?c = "graph_context_of env g (te_ownership_clock env (ts_lease_reads s))
    (s\<lparr>ts_lease_reads := ts_lease_reads s + 1\<rparr>)"
  have same: "ts_tasks ?s = ts_tasks s" "same_graphs s ?s" by (simp_all add: same_graphs_def)
  note shape = shape_reads [OF same assms(1)] and proposal = proposal_reads [OF same assms(2)]
  fix current plan gw
  assume current: "graph_tasks g s = Inr current"
    and plan: "plan_graph_transition ?c current u (readiness_recorded g (tk_id u) ?s) = Inr plan"
    and gw: "prepare_graph_writes env g u op (transition_tasks current plan @ (case successor of None \<Rightarrow> [] | Some u \<Rightarrow> [u])) ?s = Inr gw"
  have c: "gc_group_waiting_task_id ?c = None" "gc_digest ?c = te_digest env" by (simp_all add: graph_context_of_def)
  have cur: "graph_tasks g ?s = Inr current" using current graph_tasks_reads [of ?s s g] by simp
  note writes = plan_writes [OF shape cur plan c proposal]
  have scope: "tk_id v \<in> W" if "v \<in> set (transition_tasks current plan)" for v
  proof -
    from writes [OF that] graph_tasks_lookup(2) [OF cur] obtain ms where "dict_get (ts_graph_members ?s) g = Some ms" "tk_id v \<in> fst ` set ms" by blast
    with shape W(1) show ?thesis by (auto simp: store_shape_def linked_def in_scope_def member_def)
  qed
  have tasks: "map pw_task (gw_writes gw) = transition_tasks current plan @ (case successor of None \<Rightarrow> [] | Some u \<Rightarrow> [u])"
    using graph_writes_tasks [OF gw] .
  have in_store: "dict_get (ts_tasks ?s) (tk_id v) \<noteq> None" if "v \<in> set (transition_tasks current plan)" for v
    using writes [OF that] graph_tasks_lookup(1) [OF cur] by blast
  have "steps env W (each_act (publish_prepared_task_write env None) (gw_writes gw)) ?s"
  proof (rule batch_moves [where k = "tk_id u"])
    fix v assume "v \<in> set (map pw_task (gw_writes gw))"
    then consider "v \<in> set (transition_tasks current plan)" | "successor = Some v"
      unfolding tasks by (auto split: option.splits)
    then show "write_allowed env ?s v"
      using writes assms(3) by cases (auto simp: fresh_successor_def write_allowed_def)
  next
    fix v assume "v \<in> set (map pw_task (gw_writes gw))"
    then consider "v \<in> set (transition_tasks current plan)" | "successor = Some v"
      unfolding tasks by (auto split: option.splits)
    then show "tk_id v = tk_id u \<or> leaseless v"
      using writes assms(3) by cases (auto simp: fresh_successor_def)
  next
    fix v assume "v \<in> set (map pw_task (gw_writes gw))"
    then consider "v \<in> set (transition_tasks current plan)" | "successor = Some v"
      unfolding tasks by (auto split: option.splits)
    then show "tk_id v \<in> W" using scope W(2) by cases auto
  next
    fix a b assume "a \<in> set (map pw_task (gw_writes gw))" "b \<in> set (map pw_task (gw_writes gw))" and ids: "tk_id a = tk_id b"
    then have ab: "a \<in> set (transition_tasks current plan) \<or> successor = Some a" "b \<in> set (transition_tasks current plan) \<or> successor = Some b"
      unfolding tasks by (auto split: option.splits)
    have "successor = Some x \<Longrightarrow> dict_get (ts_tasks ?s) (tk_id x) = None" for x
      using assms(3) by (simp add: fresh_successor_def)
    with ab in_store ids consider "successor = Some a" "successor = Some b"
      | "a \<in> set (transition_tasks current plan)" "b \<in> set (transition_tasks current plan)" by metis
    then show "a = b"
    proof cases
      case 2
      have "dict_get (gp_tasks plan) (tk_id a) = Some a" "dict_get (gp_tasks plan) (tk_id b) = Some b"
        using writes [OF 2(1)] writes [OF 2(2)] by blast+
      with ids show "a = b" by (metis option.inject)
    next
      case 1
      then show "a = b" by (metis option.inject)
    qed
  qed
  then show "steps env W (bind_act (each_act (publish_prepared_task_write env None) (gw_writes gw)) (\<lambda>_.
      modify_act (record_graph_transition g plan (gw_terminal gw)))) ?s"
    by (rule moves_bind) (simp add: idle_modify)
qed

lemma store_graph_task_moves:
  assumes "store_shape env s" "proposal_allowed env s u" "fresh_successor env s successor"
    and W: "in_scope s u W" "\<And>x. successor = Some x \<Longrightarrow> tk_id x \<in> W"
  shows "steps env W (store_graph_task env u op successor) s"
proof (cases "dict_get (ts_graph_by_task s) (tk_id u)")
  case None
  then show ?thesis by (simp add: store_graph_task_def moves_def)
next
  case (Some g)
  have "steps env W (bind_act (graph_transaction env g u op successor) (\<lambda>_. return_act True)) s"
    using transaction_moves [OF assms(1-3) W] by (intro moves_bind) simp_all
  with Some show ?thesis by (simp add: store_graph_task_def moves_def)
qed

lemma store_graph_task_False:
  assumes "store_graph_task env u op successor s = (Inr False, s')"
  shows "s' = s" "dict_get (ts_graph_by_task s) (tk_id u) = None"
  using assms by (auto simp: store_graph_task_def res_simps split: option.splits if_splits)

lemma proposal_write:
  "proposal_allowed env s u \<Longrightarrow> dict_get (ts_graph_by_task s) (tk_id u) = None \<Longrightarrow> write_allowed env s u"
  by (auto simp: proposal_allowed_def write_allowed_def change_allowed_def task_sound_def member_def split: option.splits)

lemma store_task_moves:
  assumes "store_shape env s" "proposal_allowed env s u" "in_scope s u W"
  shows "steps env W (store_task env u op) s"
  unfolding store_task_def
proof (rule moves_bind)
  show "steps env W (store_graph_task env u op None) s"
    using assms by (intro store_graph_task_moves) (simp_all add: fresh_successor_def)
next
  fix stored s' assume stored: "store_graph_task env u op None s = (Inr stored, s')"
  show "steps env W (if stored then return_act () else store_task_without_graph env u op) s'"
  proof (cases stored)
    case False
    have f: "s' = s" "dict_get (ts_graph_by_task s) (tk_id u) = None"
      using store_graph_task_False [of env u op None s s'] stored False by simp_all
    have "steps env W (store_task_without_graph env u op) s"
      unfolding store_task_without_graph_def
    proof (rule steps_query)
      fix w assume "prepare_task_write env u op s = Inr w"
      with proposal_write [OF assms(2) f(2)] show "steps env W (publish_prepared_task_write env None w) s"
        by (intro publish_moves) (use assms(3) in \<open>simp_all add: prepare_task in_scope_def\<close>)
    qed
    with False f(1) show ?thesis by simp
  qed simp
qed

end
