(* ===== verification/Store_Operations.thy ===== *)
theory Store_Operations
  imports Store_Writes
begin

text \<open>
  Every public operation of the store, whatever its outcome, is a sequence of abstract steps.  The
  operations are taken in the order of their theories; each proof opens the operation, applies one rule
  per way it continues, and shows that the task it stores may be written.
\<close>

section \<open>Rules for the shapes of an operation\<close>

lemma steps_assoc [moves_intro]:
  "steps env W (bind_act m (\<lambda>x. bind_act (f x) g)) s \<Longrightarrow> steps env W (bind_act (bind_act m f) g) s"
  by (auto simp: moves_def bind_act_def split: prod.splits sum.splits)

lemma steps_bind_return [moves_intro]: "steps env W (f x) s \<Longrightarrow> steps env W (bind_act (return_act x) f) s"
  by (simp add: moves_def bind_act_def return_act_def)

lemma steps_if [moves_intro]:
  "(P \<Longrightarrow> steps env W a s) \<Longrightarrow> (\<not> P \<Longrightarrow> steps env W b s) \<Longrightarrow> steps env W (if P then a else b) s"
  by simp

lemma steps_bind_if [moves_intro]:
  "(P \<Longrightarrow> steps env W (bind_act a f) s) \<Longrightarrow> (\<not> P \<Longrightarrow> steps env W (bind_act b f) s) \<Longrightarrow>
   steps env W (bind_act (if P then a else b) f) s"
  by simp

lemma steps_option [moves_intro]:
  "(x = None \<Longrightarrow> steps env W a s) \<Longrightarrow> (\<And>y. x = Some y \<Longrightarrow> steps env W (b y) s) \<Longrightarrow>
   steps env W (case x of None \<Rightarrow> a | Some y \<Rightarrow> b y) s"
  by (cases x) auto

lemma steps_bind_option [moves_intro]:
  "(x = None \<Longrightarrow> steps env W (bind_act a f) s) \<Longrightarrow> (\<And>y. x = Some y \<Longrightarrow> steps env W (bind_act (b y) f) s) \<Longrightarrow>
   steps env W (bind_act (case x of None \<Rightarrow> a | Some y \<Rightarrow> b y) f) s"
  by (cases x) auto

lemma steps_pair [moves_intro]:
  "(\<And>a b. x = (a, b) \<Longrightarrow> steps env W (f a b) s) \<Longrightarrow> steps env W (case x of (a, b) \<Rightarrow> f a b) s"
  by (cases x) auto

lemma steps_let [moves_intro]: "steps env W (f v) s \<Longrightarrow> steps env W (let x = v in f x) s"
  by (simp add: Let_def)

text \<open>An operation that answers from the store, or goes on.\<close>

lemma steps_replay [moves_intro]:
  "(h s = None \<Longrightarrow> steps env W m s) \<Longrightarrow> steps env W (\<lambda>s. case h s of None \<Rightarrow> m s | Some r \<Rightarrow> (g r s, s)) s"
  by (cases "h s") (simp_all add: moves_def)

lemma steps_answer_else [moves_intro]:
  "(\<not> P s \<Longrightarrow> steps env W m s) \<Longrightarrow> steps env W (\<lambda>s. if P s then (g s, s) else m s) s"
  by (cases "P s") (simp_all add: moves_def)

lemma steps_else_answer [moves_intro]:
  "(P s \<Longrightarrow> steps env W m s) \<Longrightarrow> steps env W (\<lambda>s. if P s then m s else (g s, s)) s"
  by (cases "P s") (simp_all add: moves_def)

lemma steps_lookup [moves_intro]:
  "(\<And>y. h s = Some y \<Longrightarrow> steps env W (m y) s) \<Longrightarrow> steps env W (\<lambda>s. case h s of None \<Rightarrow> (g s, s) | Some y \<Rightarrow> m y s) s"
  by (cases "h s") (simp_all add: moves_def)

lemma steps_idle_modify [moves_intro]:
  "ts_tasks (g s) = ts_tasks s \<Longrightarrow> same_graphs s (g s) \<Longrightarrow> steps env W (modify_act g) s"
  by (rule idle_modify)

lemma steps_clock_end [moves_intro]: "steps env W (read_clock env) s" "steps env W (read_ownership_clock env) s"
  by (rule moves_one, simp add: read_clock_def read_ownership_clock_def same_graphs_def store_step.idle)+

lemma shape_clocks [simp]: "store_shape env (s\<lparr>ts_clock_reads := n\<rparr>) = store_shape env s"
  by (simp add: store_shape_def keyed_def linked_def sole_holders_def)

lemma shape_lease_reads [simp]:
  "store_shape env s \<Longrightarrow> store_shape env (s\<lparr>ts_lease_reads := Suc (ts_lease_reads s)\<rparr>)"
  "store_shape env s \<Longrightarrow> store_shape env (s\<lparr>ts_clock_reads := n, ts_lease_reads := Suc (ts_lease_reads s)\<rparr>)"
  "store_shape env s \<Longrightarrow> store_shape env (s\<lparr>ts_lease_reads := Suc (ts_lease_reads s), ts_clock_reads := n\<rparr>)"
  by (rule shape_reads; simp add: same_graphs_def)+

lemma shape_retired [simp]: "store_shape env (s\<lparr>ts_retired_sessions := xs\<rparr>) = store_shape env s"
  by (simp add: store_shape_def keyed_def linked_def sole_holders_def)

lemma steps_store_end [moves_intro]:
  "store_shape env s \<Longrightarrow> proposal_allowed env s u \<Longrightarrow> steps env UNIV (store_task env u op) s"
  by (rule store_task_moves) simp_all

lemma steps_store [moves_intro]:
  assumes "store_shape env s" "proposal_allowed env s u"
    and "\<And>s'. store_task env u op s = (Inr (), s') \<Longrightarrow> steps env UNIV (f ()) s'"
  shows "steps env UNIV (bind_act (store_task env u op) f) s"
  using assms by (intro moves_bind steps_store_end) auto

section \<open>Proposals for a stored task\<close>

lemmas validity = task_sound_def task_valid_def task_texts_ok_def restart_policy_ok_def graph_membership_ok_def
  schedule_ok_def retry_and_contract_ok_def series_detached_def

lemma schedule_ok_cong: "tk_schedule u = tk_schedule t \<Longrightarrow> tk_available_at u = tk_available_at t \<Longrightarrow> schedule_ok u = schedule_ok t"
  by (simp only: schedule_ok_def)

text \<open>The lease of \<open>u\<close> is the one \<open>t\<close> has.\<close>

definition keeps_lease :: "task \<Rightarrow> task \<Rightarrow> bool" where
  "keeps_lease t u \<longleftrightarrow> tk_lease_expires_at u = tk_lease_expires_at t \<and> tk_worker_id t \<noteq> None \<and> tk_status t \<in> {CLAIMED, RUNNING}"

lemma keeps_lease_guard:
  assumes "keeps_lease t u" "same_identity t u" "dict_get (ts_tasks s) (tk_id u) = Some t"
  shows "key_guard env s u"
proof -
  have "holds_live_key_lease u now \<Longrightarrow> holds_live_key_lease t now" for now
    using assms(1,2) by (auto simp: holds_live_key_lease_def keeps_lease_def same_identity_def live_lease_def)
  moreover have "tk_concurrency_key t = tk_concurrency_key u" using assms(2) by (simp add: same_identity_def)
  ultimately show ?thesis
    unfolding key_guard_def using assms(3) by auto
qed

lemma change_proposal:
  assumes t: "dict_get T i = Some t" "ts_tasks s = T" and shape: "store_shape env s"
    and u: "same_identity t u" "tk_status t \<notin> terminal_task_statuses" "leaseless u \<or> keeps_lease t u \<or> key_guard env s u"
      "task_sound (te_digest env) t \<Longrightarrow> task_sound (te_digest env) u"
  shows "proposal_allowed env s u"
proof -
  note st = stored_sound [OF shape t(1) [folded t(2)]]
  with u(1) t have id: "dict_get (ts_tasks s) (tk_id u) = Some t" by (simp add: same_identity_def)
  have "key_guard env s u" using u(1,3) keeps_lease_guard [OF _ u(1) id] by auto
  with st u id show ?thesis by (simp add: proposal_allowed_def task_sound_def)
qed

text \<open>The validators of the fields an operation may change, with those that tie them together.\<close>

definition fields_ok :: "task \<Rightarrow> bool" where
  "fields_ok t \<longleftrightarrow> opt_holds durable_nonblank (tk_status_reason t) \<and> opt_holds durable_clean (tk_session_id t) \<and>
     opt_holds durable_clean (tk_worker_id t) \<and> opt_holds durable_clean (tk_interrupted_handoff_id t) \<and>
     opt_holds is_uuid4 (tk_session_instance_id t) \<and> \<not> (tk_session_instance_id t \<noteq> None \<and> tk_session_id t = None) \<and>
     \<not> (tk_interrupted_handoff_id t \<noteq> None \<and>
        (tk_status t \<noteq> RUNNING \<or> tk_session_id t = None \<or> tk_session_instance_id t = None)) \<and>
     (tk_retry_series t \<noteq> None \<longrightarrow> tk_session_id t = None \<and> opt_holds (\<lambda>w. utf8_bytes w \<le> 1024) (tk_worker_id t))"

lemma sound_fields: "task_sound d t \<Longrightarrow> fields_ok t"
  by (cases "tk_retry_series t")
    (auto simp: task_sound_def task_valid_def task_texts_ok_def retry_and_contract_ok_def series_detached_def fields_ok_def)

lemma authority_change:
  assumes "same_identity t u" "tk_available_at u = tk_available_at t"
  shows "task_retry_attempt_authority_sha256 d u s = task_retry_attempt_authority_sha256 d t s"
  using assms by (simp add: task_retry_attempt_authority_sha256_def same_identity_def)

lemma sound_series:
  assumes "task_sound d t" "same_identity t u" "fields_ok u" "schedule_ok u" "tk_schedule u = None \<longleftrightarrow> tk_schedule t = None"
    "tk_restart_count u = tk_restart_count t" "tk_restart_history u = tk_restart_history t"
    "tk_status u \<notin> {WAITING_DEPENDENCIES, WAITING_GROUP, DEPENDENCY_SKIPPED}"
    "\<And>s. tk_retry_series u = Some s \<Longrightarrow> tk_retry_series t \<noteq> None \<and> retry_series_valid s \<and>
       rs_authority_sha256 s = task_retry_attempt_authority_sha256 d u s"
  shows "task_sound d u"
proof -
  have "retry_and_contract_ok d u"
    using assms(1-3,9)
    by (auto simp: retry_and_contract_ok_def task_sound_def task_valid_def fields_ok_def same_identity_def split: option.splits)
  moreover have "graph_membership_ok u"
    using assms(1,2,8) by (auto simp: graph_membership_ok_def task_sound_def task_valid_def same_identity_def split: option.splits)
  moreover have "tk_retry_series t = None \<Longrightarrow> tk_retry_series u = None" using assms(9) by (cases "tk_retry_series u") auto
  with assms(1,2,5-7) have "restart_policy_ok u"
    by (auto simp: restart_policy_ok_def task_sound_def task_valid_def same_identity_def)
  moreover have "task_texts_ok u" "series_detached u"
    using assms(1-3) by (auto simp: task_texts_ok_def series_detached_def task_sound_def task_valid_def fields_ok_def same_identity_def)
  ultimately show ?thesis using assms(4) by (simp add: task_sound_def task_valid_def)
qed

lemma sound_change:
  assumes "task_sound d t" "same_identity t u" "fields_ok u" "tk_schedule u = tk_schedule t" "tk_available_at u = tk_available_at t"
    "tk_restart_count u = tk_restart_count t" "tk_restart_history u = tk_restart_history t"
    "tk_status u \<notin> {WAITING_DEPENDENCIES, WAITING_GROUP, DEPENDENCY_SKIPPED}"
    "tk_retry_series u = tk_retry_series t \<or> tk_retry_series u = None"
  shows "task_sound d u"
proof (rule sound_series [OF assms(1-3)])
  show "schedule_ok u" using assms(1) schedule_ok_cong [OF assms(4,5)] by (simp add: task_sound_def task_valid_def)
next
  fix s assume s: "tk_retry_series u = Some s"
  with assms(9) have t: "tk_retry_series t = Some s" by auto
  with assms(1) have "retry_series_valid s \<and> rs_authority_sha256 s = task_retry_attempt_authority_sha256 d t s"
    by (simp add: task_sound_def task_valid_def retry_and_contract_ok_def)
  with t show "tk_retry_series t \<noteq> None \<and> retry_series_valid s \<and>
      rs_authority_sha256 s = task_retry_attempt_authority_sha256 d u s"
    using authority_change [OF assms(2,5)] by simp
qed (use assms in simp_all)

text \<open>The proposal of an operation that leaves the schedule alone.\<close>

lemma update_proposal:
  assumes "dict_get T i = Some t" "ts_tasks s = T" "store_shape env s"
    "same_identity t u" "tk_status t \<notin> terminal_task_statuses" "leaseless u \<or> keeps_lease t u \<or> key_guard env s u"
    "tk_schedule u = tk_schedule t" "tk_available_at u = tk_available_at t"
    "tk_restart_count u = tk_restart_count t" "tk_restart_history u = tk_restart_history t"
    "tk_status u \<notin> {WAITING_DEPENDENCIES, WAITING_GROUP, DEPENDENCY_SKIPPED}"
    "tk_retry_series u = tk_retry_series t \<or> tk_retry_series u = None" "fields_ok t \<Longrightarrow> fields_ok u"
  shows "proposal_allowed env s u"
  using assms by (intro change_proposal [of T i t]) (auto intro: sound_change dest: sound_fields)

lemmas guarded_proposal = update_proposal [OF _ _ _ _ _ disjI2 [OF disjI2]]

lemmas operation_simps = res_simps terminal_task_statuses_def same_identity_def leaseless_def keeps_lease_def clean_arguments_def
  fields_ok_def held_task_statuses_def

section \<open>Claims\<close>

text \<open>Extension: the worker holds the lease at the instant it asks.\<close>

lemma held_now_guard:
  assumes t: "dict_get (ts_tasks s) i = Some t" and shape: "store_shape env s"
    and u: "same_identity t u" "tk_status t \<in> {CLAIMED, RUNNING}" "tk_worker_id t \<noteq> None"
      "live_lease t (te_ownership_clock env (ts_lease_reads s))"
    and s': "ts_tasks s' = ts_tasks s" "ts_lease_reads s \<le> ts_lease_reads s'"
  shows "key_guard env s' u"
proof (cases "tk_concurrency_key t")
  case None
  with u(1) show ?thesis by (simp add: key_guard_def leaseless_def same_identity_def)
next
  case (Some k)
  let ?now = "te_ownership_clock env (ts_lease_reads s)"
  from Some u have holds: "holds_live_key_lease t ?now" by (simp add: holds_live_key_lease_def)
  have i: "i = tk_id u" "tk_concurrency_key t = tk_concurrency_key u"
    using stored_sound [OF shape t] u(1) by (simp_all add: same_identity_def)
  have "\<not> holds_live_key_lease v ?now"
    if "dict_get (ts_tasks s) j = Some v" "j \<noteq> tk_id u" "tk_concurrency_key v = tk_concurrency_key u" for j v
    using shape t holds i that unfolding store_shape_def sole_holders_def by (metis order_refl)
  with s' show ?thesis unfolding key_guard_def Let_def by metis
qed

lemma heartbeat_moves: "store_shape env s \<Longrightarrow> steps env UNIV (heartbeat_task env i w lease h n) s"
  unfolding heartbeat_task_def require_owned_leased_task_def store_and_return_def
proof (intro moves_intro; (simp; fail)?; simp add: res_simps)
  fix t extended
  let ?s = "s\<lparr>ts_lease_reads := Suc (ts_lease_reads s)\<rparr>" and ?now = "te_ownership_clock env (ts_lease_reads s)"
  assume *: "store_shape env s" "dict_get (ts_tasks s) i = Some t"
    "(tk_status t = CLAIMED \<or> tk_status t = RUNNING) \<and> tk_worker_id t = Some w \<and> live_lease t ?now"
  let ?u = "t\<lparr>tk_lease_expires_at := Some extended, tk_updated_at := ?now\<rparr>"
  have "key_guard env ?s ?u"
    using * by (intro held_now_guard [OF *(2,1)]) (auto simp: same_identity_def)
  with * show "proposal_allowed env ?s ?u"
    by (intro guarded_proposal [OF *(2)]) (auto simp: operation_simps)
qed

lemma release_moves: "store_shape env s \<Longrightarrow> steps env UNIV (release_task env i w lease) s"
  unfolding release_task_def require_owned_leased_task_def store_and_return_def
  by (intro moves_intro; (simp; fail)?; simp add: res_simps; erule update_proposal; auto simp: operation_simps)

lemma release_attached_moves: "store_shape env s \<Longrightarrow> steps env UNIV (release_attached_task_worker env i w lease) s"
  unfolding release_attached_task_worker_def require_owned_leased_task_def store_and_return_def
  by (intro moves_intro; (simp; fail)?; simp add: res_simps; erule update_proposal; auto simp: operation_simps)

lemma attachment_Inr:
  assumes "require_binding_session t session binding = Inr instance_id" "opt_holds session_binding_valid binding"
  shows "opt_holds is_uuid4 instance_id" "session = None \<Longrightarrow> instance_id = None"
  using assms
  by (auto simp: require_binding_session_def res_simps task_session_instance_for_attachment_def
      task_invocation_for_attachment_def session_binding_valid_def split: option.splits if_splits)

lemma steps_contract_session [moves_intro]:
  "steps env W (f ()) s \<Longrightarrow> steps env W (bind_act (ensure_contract_session_accepts_attachment c x r) f) s"
  unfolding ensure_contract_session_accepts_attachment_def by (intro moves_intro) simp

lemma clean_optional [simp]: "list_all durable_clean (case x of None \<Rightarrow> [] | Some y \<Rightarrow> [y]) = opt_holds durable_clean x"
  by (cases x) simp_all

lemma start_moves: "store_shape env s \<Longrightarrow> steps env UNIV (start_task env i session binding) s"
  unfolding start_task_def store_and_return_def
  apply (intro moves_intro; (simp; fail)?; simp add: res_simps)
  apply (erule update_proposal)
  apply (auto simp: operation_simps attached_task_def ensure_can_transition_def ensure_retry_series_queue_attempt_def ensure_task_status_can_transition_def task_session_id_for_start_def dest: attachment_Inr split: if_splits)
  done

lemma attach_moves: "store_shape env s \<Longrightarrow> steps env UNIV (attach_task env i session binding w lease) s"
  unfolding attach_task_def store_and_return_def
  apply (intro moves_intro; (simp; fail)?; simp add: res_simps)
  apply (erule update_proposal)
  apply (auto simp: operation_simps attached_task_def can_attach_claimed_task_def ensure_retry_series_queue_attempt_def dest: attachment_Inr split: if_splits)
  done

lemma mark_started_moves: "store_shape env s \<Longrightarrow> steps env UNIV (mark_claimed_task_execution_started env i w lease) s"
  unfolding mark_claimed_task_execution_started_def
  by (intro moves_intro; (simp; fail)?; simp add: res_simps; erule update_proposal; auto simp: operation_simps)

lemma restarted_Inr:
  assumes "restarted_task d t w lease now = Inr u"
  shows "task_sound d u" "same_identity t u" "leaseless u" "tk_status t \<in> {CLAIMED, RUNNING}"
  using assms
  by (auto simp: restarted_task_def requeued_task_def res_simps task_sound_def series_detached_def same_identity_def leaseless_def split: if_splits)

lemma abandoned_restarted_Inr:
  assumes "abandoned_restarted_task d t q now = Inr u" "u \<noteq> t"
  shows "task_sound d u" "same_identity t u" "leaseless u" "tk_status t \<in> {CLAIMED, RUNNING}"
proof -
  obtain v r where v: "tk_status t \<in> {CLAIMED, RUNNING}" "task_valid d u" "u = (requeued_task t now v)\<lparr>tk_restart_history := tk_restart_history t @ [r]\<rparr>"
    using assms unfolding abandoned_restarted_task_def Let_def
    by (cases "filter (same_evidence q) (tk_restart_history t)") (auto simp: bind_res_eq_Inr copy_task_Inr simp del: insert_iff split: if_split_asm)
  then show "task_sound d u" "same_identity t u" "leaseless u" "tk_status t \<in> {CLAIMED, RUNNING}"
    by (auto simp: requeued_task_def task_sound_def series_detached_def same_identity_def leaseless_def)
qed

lemma restart_moves: "store_shape env s \<Longrightarrow> steps env UNIV (restart_task env i w lease) s"
  unfolding restart_task_def store_and_return_def
  by (intro moves_intro; (simp add: same_graphs_def split: option.split; fail)?; simp; frule restarted_Inr; erule change_proposal)
    (auto simp: terminal_task_statuses_def restarted_Inr split: option.splits)

lemma restart_abandoned_moves: "store_shape env s \<Longrightarrow> steps env UNIV (restart_abandoned_task env q) s"
  unfolding restart_abandoned_task_def store_and_return_def
  by (intro moves_intro; (simp; fail)?; simp; frule abandoned_restarted_Inr; simp?; erule change_proposal)
    (auto simp: terminal_task_statuses_def abandoned_restarted_Inr)

section \<open>Holds\<close>

lemma can_hold_Inr:
  assumes "ensure_can_hold_task t st = Inr x"
  shows "st \<in> held_task_statuses" "tk_status t \<notin> terminal_task_statuses" "tk_status t = RUNNING \<Longrightarrow> tk_session_id t = None"
  using assms unfolding ensure_can_hold_task_def by (simp_all split: if_split_asm)

lemma hold_moves: "store_shape env s \<Longrightarrow> steps env UNIV (hold_task env i st reason payload) s"
  unfolding hold_task_def store_and_return_def
proof (intro moves_intro; (simp; fail)?; simp)
  fix t
  let ?now = "te_ownership_clock env (ts_lease_reads s)"
  assume *: "store_shape env s" "raise_if (\<not> opt_holds durable_nonblank reason) ValueError = Inr ()" "dict_get (ts_tasks s) i = Some t"
    "ensure_can_hold_task t st = Inr ()"
  note c = can_hold_Inr [OF *(4)]
  have "fields_ok (held_task t st reason payload ?now)" if "fields_ok t"
    using that *(2) c(3) by (auto simp: fields_ok_def held_task_def res_simps)
  with * c(1,2) show "proposal_allowed env (s\<lparr>ts_lease_reads := Suc (ts_lease_reads s)\<rparr>) (held_task t st reason payload ?now)"
    by (intro update_proposal [OF *(3)]) (auto simp: held_task_def same_identity_def leaseless_def held_task_statuses_def)
qed

lemma resume_moves: "store_shape env s \<Longrightarrow> steps env UNIV (resume_task env i) s"
  unfolding resume_task_def
  apply (intro moves_intro; (simp; fail)?; simp add: res_simps)
  apply (erule update_proposal)
  apply (auto simp: operation_simps held_task_def ensure_can_resume_task_def split: if_splits)
  done

end
