(* ===== verification/Claim_Steps.thy ===== *)
theory Claim_Steps
  imports Store_Operations
begin

text \<open>
  The claim and the reclaim of the store: they walk over a snapshot of the tasks while the writes they make
  may change other members of a graph, so each write is judged against what the snapshot still says.
\<close>

section \<open>Runs of steps\<close>

lemma run_shape: "(store_step env W)\<^sup>*\<^sup>* s s' \<Longrightarrow> store_shape env s \<Longrightarrow> store_shape env s'"
  by (rule store_keys.inv_run)

lemma run_reads: "(store_step env W)\<^sup>*\<^sup>* s s' \<Longrightarrow> ts_lease_reads s \<le> ts_lease_reads s'"
  by (induction rule: rtranclp_induct) (auto dest: step_reads)

lemma run_outside:
  "(store_step env W)\<^sup>*\<^sup>* s s' \<Longrightarrow> i \<notin> W \<Longrightarrow> dict_get (ts_tasks s') i = dict_get (ts_tasks s) i \<and> member s' i = member s i"
  by (induction rule: rtranclp_induct) (auto dest: step_outside)

lemma run_member: "(store_step env W)\<^sup>*\<^sup>* s s' \<Longrightarrow> member s i \<Longrightarrow> member s' i"
  by (induction rule: rtranclp_induct) (auto dest: step_member)

lemma step_identity:
  assumes "store_step env W s s'" "dict_get (ts_tasks s) i = Some p" "store_shape env s"
  shows "\<exists>p'. dict_get (ts_tasks s') i = Some p' \<and> same_identity p p'"
  using assms(1)
proof (cases rule: store_step.cases)
  case (written u)
  show ?thesis
  proof (cases "i = tk_id u")
    case True
    with written assms(2) show ?thesis by (auto simp: write_allowed_def change_allowed_def dict_simps)
  next
    case False
    with written assms(2) show ?thesis by (simp add: dict_simps)
  qed
qed (use assms(2) in simp_all)

lemma run_identity:
  assumes "(store_step env W)\<^sup>*\<^sup>* s s'" "dict_get (ts_tasks s) i = Some p" "store_shape env s"
  shows "\<exists>p'. dict_get (ts_tasks s') i = Some p' \<and> same_identity p p'"
  using assms
proof (induction rule: rtranclp_induct)
  case (step y z)
  then obtain q where q: "dict_get (ts_tasks y) i = Some q" "same_identity p q" by blast
  have "store_shape env y" using run_shape [OF step.hyps(1)] step.prems(2) by simp
  from step_identity [OF step.hyps(2) q(1) this] q(2) same_identity_trans show ?case by blast
qed auto

lemma step_mono: "store_step env W s s' \<Longrightarrow> store_step env UNIV s s'"
  by (erule store_stepE) (auto intro: store_step.intros)

lemma steps_mono: "steps env W m s \<Longrightarrow> steps env UNIV m s"
  unfolding moves_def using mono_rtranclp [rule_format, of "store_step env W" "store_step env UNIV"] step_mono by blast

lemma steps_then:
  assumes "steps env UNIV m s" "store_shape env s" "n \<le> ts_lease_reads s"
    and "\<And>x s'. m s = (Inr x, s') \<Longrightarrow> store_shape env s' \<Longrightarrow> n \<le> ts_lease_reads s' \<Longrightarrow> steps env UNIV (f x) s'"
  shows "steps env UNIV (bind_act m f) s"
proof (rule moves_bind [OF assms(1)])
  fix x s' assume r: "m s = (Inr x, s')"
  have run: "(store_step env UNIV)\<^sup>*\<^sup>* s s'" using movesD [OF assms(1) r] .
  show "steps env UNIV (f x) s'"
    using assms(4) [OF r run_shape [OF run assms(2)]] run_reads [OF run] assms(3) by simp
qed

lemma steps_each:
  assumes "\<And>x s. store_shape env s \<Longrightarrow> n \<le> ts_lease_reads s \<Longrightarrow> x \<in> set xs \<Longrightarrow> steps env UNIV (f x) s"
    "store_shape env s" "n \<le> ts_lease_reads s"
  shows "steps env UNIV (each_act f xs) s"
  using assms
proof (induction xs arbitrary: s)
  case (Cons x xs)
  show ?case
    unfolding each_act.simps
    by (rule steps_then [OF Cons.prems(1) Cons.prems(2,3)]) (use Cons in auto)
qed simp

section \<open>A snapshot\<close>

text \<open>What still holds of a task of an earlier snapshot: its identity, and all of it if no graph contains it.\<close>

definition seen :: "store_env \<Rightarrow> task_store \<Rightarrow> task \<Rightarrow> bool" where
  "seen env s t \<longleftrightarrow> task_sound (te_digest env) t \<and>
     (\<exists>p. dict_get (ts_tasks s) (tk_id t) = Some p \<and> same_identity t p \<and> (member s (tk_id t) \<or> p = t))"

definition touched :: "task_store \<Rightarrow> task \<Rightarrow> string set" where
  "touched s t = insert (tk_id t) {i. member s i}"

lemma seen_run:
  assumes "(store_step env (touched s t))\<^sup>*\<^sup>* s s'" "store_shape env s" "seen env s x" "tk_id x \<noteq> tk_id t"
  shows "seen env s' x"
proof -
  from assms(3) obtain p where p: "task_sound (te_digest env) x" "dict_get (ts_tasks s) (tk_id x) = Some p" "same_identity x p"
    "member s (tk_id x) \<or> p = x" by (auto simp: seen_def)
  show ?thesis
  proof (cases "member s (tk_id x)")
    case True
    from run_identity [OF assms(1) p(2) assms(2)] obtain q where "dict_get (ts_tasks s') (tk_id x) = Some q" "same_identity p q" by blast
    with p(1,3) True run_member [OF assms(1)] same_identity_trans show ?thesis by (auto simp: seen_def)
  next
    case False
    with assms(4) have "tk_id x \<notin> touched s t" by (simp add: touched_def)
    with run_outside [OF assms(1)] p False show ?thesis by (auto simp: seen_def)
  qed
qed

lemma stored_seen:
  assumes "store_shape env s" "t \<in> set (dict_values (ts_tasks s))"
  shows "seen env s t" "dict_get (ts_tasks s) (tk_id t) = Some t"
proof -
  from assms(2) obtain i where "(i, t) \<in> set (ts_tasks s)" by (auto simp: dict_values_def)
  with assms(1) have "dict_get (ts_tasks s) i = Some t" by (simp add: store_shape_def keyed_def dict_in_set)
  with stored_sound [OF assms(1) this] show "dict_get (ts_tasks s) (tk_id t) = Some t" "seen env s t"
    by (auto simp: seen_def)
qed

lemma stored_distinct: "store_shape env s \<Longrightarrow> distinct (map tk_id (dict_values (ts_tasks s)))"
proof -
  assume shape: "store_shape env s"
  then have "map tk_id (dict_values (ts_tasks s)) = map fst (ts_tasks s)"
    by (auto simp: dict_values_def store_shape_def keyed_def dict_in_set [symmetric])
  with shape show ?thesis by (simp add: store_shape_def keyed_def dict_ok_def)
qed

lemma same_identity_sym: "same_identity a b \<Longrightarrow> same_identity b a"
  by (simp add: same_identity_def)

text \<open>A write made from a snapshot.\<close>

lemma seen_proposal:
  assumes "seen env s t" "same_identity t u" "key_guard env s u" "tk_status t \<notin> terminal_task_statuses" "task_sound (te_digest env) u"
  shows "proposal_allowed env s u"
proof -
  from assms(1,2) obtain p where p: "dict_get (ts_tasks s) (tk_id u) = Some p" "same_identity t p" "member s (tk_id u) \<or> p = t"
    by (auto simp: seen_def same_identity_def)
  with assms same_identity_trans [OF same_identity_sym [OF p(2)] assms(2)] show ?thesis
    by (auto simp: proposal_allowed_def task_sound_def)
qed

lemma touched_scope: "tk_id u = tk_id t \<Longrightarrow> in_scope s u (touched s t)"
  by (simp add: in_scope_def touched_def)

section \<open>Attempts settled by the runtime\<close>

lemma disposition_text: "durable_nonblank (retry_disposition_value d)"
  by (cases d; hypsubst; code_simp)

lemma settled_by_runtime:
  assumes r: "runtime_task_retry_terminal_settlement d t op rd sd st error now tokens cost = Inr r"
    and t: "task_sound d t" and st: "st \<notin> {WAITING_DEPENDENCIES, WAITING_GROUP, DEPENDENCY_SKIPPED}"
  shows "task_sound d (sr_task r)" "same_identity t (sr_task r)" "leaseless (sr_task r)"
proof -
  from r obtain s tokens' cost' ss payload where s: "tk_retry_series t = Some s"
    and ss: "task_retry_series_snapshot (rs_series_id s) (rs_causal_budget_id s) (attempt_authority d t s tokens' cost')
       (rs_attempt s) (rs_policy s) (rs_started_at s) tokens' cost' sd (rs_predecessor_task_id s) None None = Inr ss"
    and u: "sr_task r = t\<lparr>tk_status := st, tk_status_reason := Some (retry_disposition_value sd),
       tk_status_payload := payload, tk_result := None, tk_error := Some error, tk_worker_id := None, tk_lease_expires_at := None,
       tk_started_at := Some (case tk_started_at t of None \<Rightarrow> now | Some x \<Rightarrow> x), tk_completed_at := Some now,
       tk_updated_at := now, tk_retry_series := Some ss\<rparr>"
    unfolding runtime_task_retry_terminal_settlement_def
    by (cases "tk_retry_series t") (fastforce simp: res_simps Let_def check_settlement_def split: if_splits prod.splits)+
  note f = series_snapshot_Inr [OF ss]
  show id: "same_identity t (sr_task r)" by (simp add: u same_identity_def)
  show "leaseless (sr_task r)" by (simp add: u leaseless_def)
  have auth: "rs_authority_sha256 ss = task_retry_attempt_authority_sha256 d t ss"
    using f by (intro attempt_authority_series [of ss d t s]) simp_all
  show "task_sound d (sr_task r)"
  proof (rule sound_series [OF t id])
    show "fields_ok (sr_task r)" using sound_fields [OF t] s by (auto simp: u fields_ok_def disposition_text)
    show "schedule_ok (sr_task r)" using t schedule_ok_cong [of "sr_task r" t] by (simp add: u task_sound_def task_valid_def)
    show "tk_retry_series t \<noteq> None \<and> retry_series_valid x \<and>
        rs_authority_sha256 x = task_retry_attempt_authority_sha256 d (sr_task r) x" if "tk_retry_series (sr_task r) = Some x" for x
      using that s f(1) auth authority_change [OF id, of d x] by (simp add: u)
  qed (use st in \<open>simp_all add: u\<close>)
qed

lemma expired_settlement:
  assumes "expired_task_retry_settlement d t now series_now = Inr r" "task_sound d t"
  shows "task_sound d (sr_task r)" "same_identity t (sr_task r)" "leaseless (sr_task r)" "tk_status t = PENDING"
  using assms settled_by_runtime
  by (auto simp: expired_task_retry_settlement_def task_retry_attempt_elapsed_def split: if_splits)

lemma cancelled_settlement:
  assumes "cancelled_task_retry_settlement d t error now = Inr r" "task_sound d t"
  shows "task_sound d (sr_task r)" "same_identity t (sr_task r)" "leaseless (sr_task r)"
    "tk_status t \<notin> terminal_task_statuses"
proof -
  from assms(1) have "runtime_task_retry_terminal_settlement d t ''cancellation'' ATTEMPT_CANCELLED SERIES_CANCELLED
      CANCELLED (case error of None \<Rightarrow> error_code ''cancelled'' | Some e \<Rightarrow> e) now 0 0 = Inr r" "tk_status t \<notin> terminal_task_statuses"
    by (auto simp: cancelled_task_retry_settlement_def split: if_splits)
  with settled_by_runtime [OF this(1) assms(2)] show "task_sound d (sr_task r)" "same_identity t (sr_task r)"
    "leaseless (sr_task r)" "tk_status t \<notin> terminal_task_statuses" by simp_all
qed

section \<open>Schedules\<close>

lemma schedule_revision_Inr [res_simps]:
  "schedule_revision_after c = Inr n \<longleftrightarrow> n = ss_revision c + 1 \<and> ss_revision c < max_portable_json_integer"
  by (auto simp: schedule_revision_after_def)

lemma require_schedule_Inr:
  "require_schedule t = Inr (c, a) \<longleftrightarrow> tk_schedule t = Some c \<and> tk_available_at t = Some a \<and> schedule_state_valid c"
  by (auto simp: require_schedule_def split: option.splits)

lemma admitted_schedule_ok:
  assumes "admitted_schedule t now = Inr schedule" "task_sound d t"
  shows "schedule = None \<longleftrightarrow> tk_schedule t = None"
    "schedule_ok (t\<lparr>tk_schedule := schedule\<rparr>)"
  using assms
  by (auto simp: admitted_schedule_def require_schedule_Inr res_simps schedule_ok_def schedule_state_valid_def
      task_sound_def task_valid_def split: if_splits option.splits)

lemma nonexecution_Inr:
  assumes "scheduled_task_nonexecution d t phase now = Inr (u, settlement)"
  obtains c a base reason where "require_schedule t = Inr (c, a)" "tk_session_id t = None" "tk_worker_id t = None"
    "base = t \<or> (\<exists>r e. cancelled_task_retry_settlement d t e now = Inr r \<and> base = sr_task r)"
    "ss_revision c < max_portable_json_integer" "durable_nonblank reason"
    "u = base\<lparr>tk_status := CANCELLED, tk_status_reason := Some reason, tk_error := Some (error_code reason),
       tk_completed_at := Some now, tk_updated_at := now, tk_schedule := Some (c\<lparr>ss_revision := ss_revision c + 1\<rparr>)\<rparr>"
proof -
  define reason where "reason = (if phase = SCHEDULE_EXPIRED then ''schedule_expired'' else ''schedule_skipped'')"
  have reason: "durable_nonblank reason" unfolding reason_def by (cases "phase = SCHEDULE_EXPIRED"; simp; code_simp)
  from assms obtain c a where c: "require_schedule t = Inr (c, a)" by (auto simp: scheduled_task_nonexecution_def res_simps)
  with assms have guards: "\<not> (ss_admitted_at c \<noteq> None \<or> tk_worker_id t \<noteq> None \<or> tk_session_id t \<noteq> None)"
      "\<not> phase \<notin> {SCHEDULE_EXPIRED, SCHEDULE_SKIPPED}"
    by (auto simp: scheduled_task_nonexecution_def split: if_splits)
  let ?sub = "if tk_retry_series t = None then Inr None
     else bind_res (cancelled_task_retry_settlement d t (Some (error_code reason)) now) (\<lambda>r. Inr (Some r))"
  from assms obtain x where x: "?sub = Inr x" and rev: "ss_revision c < max_portable_json_integer"
    and u: "u = (case x of None \<Rightarrow> t | Some r \<Rightarrow> sr_task r)\<lparr>tk_status := CANCELLED, tk_status_reason := Some reason,
       tk_error := Some (error_code reason), tk_completed_at := Some now, tk_updated_at := now,
       tk_schedule := Some (c\<lparr>ss_revision := ss_revision c + 1\<rparr>)\<rparr>"
    unfolding scheduled_task_nonexecution_def Let_def reason_def [symmetric] c bind_res_simps prod.case if_not_P [OF guards(1)]
      if_not_P [OF guards(2)]
    by (auto simp only: bind_res_eq_Inr schedule_revision_Inr sum.inject prod.inject)
  have "(case x of None \<Rightarrow> t | Some r \<Rightarrow> sr_task r) = t \<or>
      (\<exists>r e. cancelled_task_retry_settlement d t e now = Inr r \<and> (case x of None \<Rightarrow> t | Some r \<Rightarrow> sr_task r) = sr_task r)"
    using x by (auto simp: res_simps split: if_splits)
  from that [OF c _ _ this rev reason u] guards(1) show thesis by simp
qed

lemma settlement_keeps:
  assumes "runtime_task_retry_terminal_settlement d t op rd sd st error now tokens cost = Inr r"
  shows "tk_schedule (sr_task r) = tk_schedule t" "tk_available_at (sr_task r) = tk_available_at t"
    "tk_worker_id (sr_task r) = None" "tk_session_id (sr_task r) = tk_session_id t" "tk_restart_count (sr_task r) = tk_restart_count t"
  using assms
  by (auto simp: runtime_task_retry_terminal_settlement_def res_simps Let_def check_settlement_def
      split: option.splits if_splits prod.splits)

lemma advanced_schedule_ok:
  assumes "task_sound d t" "require_schedule t = Inr (c, a)" "ss_revision c < max_portable_json_integer"
  shows "schedule_ok (t\<lparr>tk_schedule := Some (c\<lparr>ss_revision := ss_revision c + 1\<rparr>)\<rparr>)"
  using assms by (auto simp: require_schedule_Inr task_sound_def task_valid_def schedule_ok_def schedule_state_valid_def)

text \<open>A sound task stays sound when its schedule advances.\<close>

lemma sound_schedule:
  assumes "task_sound d t" "same_identity t u" "schedule_ok u" "tk_schedule u = None \<longleftrightarrow> tk_schedule t = None"
    "tk_available_at u = tk_available_at t" "tk_restart_count u = tk_restart_count t" "tk_restart_history u = tk_restart_history t"
    "tk_status u \<notin> {WAITING_DEPENDENCIES, WAITING_GROUP, DEPENDENCY_SKIPPED}"
    "tk_retry_series u = tk_retry_series t" "fields_ok t \<Longrightarrow> fields_ok u"
  shows "task_sound d u"
proof (rule sound_series [OF assms(1,2)])
  fix s assume s: "tk_retry_series u = Some s"
  with assms(9) have t: "tk_retry_series t = Some s" by simp
  with assms(1) have "retry_series_valid s \<and> rs_authority_sha256 s = task_retry_attempt_authority_sha256 d t s"
    by (simp add: task_sound_def task_valid_def retry_and_contract_ok_def)
  with t show "tk_retry_series t \<noteq> None \<and> retry_series_valid s \<and>
      rs_authority_sha256 s = task_retry_attempt_authority_sha256 d u s"
    using authority_change [OF assms(2,5)] by simp
qed (use assms sound_fields in auto)

lemma nonexecution_sound:
  assumes n: "scheduled_task_nonexecution d t phase now = Inr (u, settlement)" and t: "task_sound d t"
  shows "task_sound d u" "same_identity t u" "leaseless u"
proof -
  obtain c a base reason where c: "require_schedule t = Inr (c, a)" "ss_revision c < max_portable_json_integer"
    and base: "base = t \<or> (\<exists>r e. cancelled_task_retry_settlement d t e now = Inr r \<and> base = sr_task r)" and reason: "durable_nonblank reason"
    and none: "tk_session_id t = None" "tk_worker_id t = None"
    and u: "u = base\<lparr>tk_status := CANCELLED, tk_status_reason := Some reason, tk_error := Some (error_code reason),
       tk_completed_at := Some now, tk_updated_at := now, tk_schedule := Some (c\<lparr>ss_revision := ss_revision c + 1\<rparr>)\<rparr>"
    using n by (rule nonexecution_Inr) blast
  have b: "task_sound d base" "same_identity t base" using base t cancelled_settlement [OF _ t] by auto
  have k: "tk_schedule base = tk_schedule t" "tk_available_at base = tk_available_at t" "tk_session_id base = None" "tk_worker_id base = None"
    using base none settlement_keeps by (auto simp: cancelled_task_retry_settlement_def split: if_splits)
  show "leaseless u" by (simp add: u leaseless_def)
  show "same_identity t u" using b(2) by (simp add: u same_identity_def)
  have bc: "require_schedule base = Inr (c, a)" using c(1) k(1,2) by (simp add: require_schedule_Inr)
  have "schedule_ok u" using advanced_schedule_ok [OF b(1) bc c(2)] by (simp add: u schedule_ok_def)
  then show "task_sound d u"
    using bc k(3,4) reason by (intro sound_schedule [OF b(1)])
      (auto simp: u same_identity_def require_schedule_Inr fields_ok_def)
qed

section \<open>The claim\<close>

lemma steps_at: "m s = m' s \<Longrightarrow> steps env W m' s \<Longrightarrow> steps env W m s"
  by (simp add: moves_def)

lemma steps_store_in:
  assumes "store_shape env s" "proposal_allowed env s u" "in_scope s u W"
    and "\<And>s'. store_task env u op s = (Inr (), s') \<Longrightarrow> steps env W (f ()) s'"
  shows "steps env W (bind_act (store_task env u op) f) s"
  using assms by (intro moves_bind store_task_moves) auto

lemma expire_moves:
  assumes "store_shape env s" "seen env s t"
  shows "steps env (touched s t) (expire_elapsed_attempt env availability now t) s"
proof (cases "task_retry_attempt_elapsed t availability \<and> \<not> task_has_unsettled_local_execution_attempt (tk_id t) s")
  case True
  show ?thesis
  proof (rule steps_at)
    show "expire_elapsed_attempt env availability now t s =
        bind_act (lift_res (expired_task_retry_settlement (te_digest env) t now availability)) (\<lambda>r.
          bind_act (store_task env (sr_task r) None) (\<lambda>_. modify_act (put_settlement r))) s"
      using True by (simp add: expire_elapsed_attempt_def)
    show "steps env (touched s t) (bind_act (lift_res (expired_task_retry_settlement (te_digest env) t now availability)) (\<lambda>r.
        bind_act (store_task env (sr_task r) None) (\<lambda>_. modify_act (put_settlement r)))) s"
    proof (intro steps_lift steps_store_in steps_idle_modify)
      fix r assume r: "expired_task_retry_settlement (te_digest env) t now availability = Inr r"
      have "task_sound (te_digest env) t" using assms(2) by (simp add: seen_def)
      note e = expired_settlement [OF r this]
      show "proposal_allowed env s (sr_task r)"
        using e by (intro seen_proposal [OF assms(2)]) (simp_all add: terminal_task_statuses_def)
      show "in_scope s (sr_task r) (touched s t)" using e(2) by (simp add: touched_scope same_identity_def)
    qed (use assms in \<open>simp_all add: put_settlement_def same_graphs_def\<close>)
  qed
next
  case False
  then have "expire_elapsed_attempt env availability now t s = (Inr (), s)" by (auto simp: expire_elapsed_attempt_def)
  then show ?thesis by (simp add: moves_def)
qed

text \<open>A walk over a snapshot, one task after the other.\<close>

lemma seen_walk:
  assumes "\<And>t s. t \<in> set ts \<Longrightarrow> store_shape env s \<Longrightarrow> seen env s t \<Longrightarrow> n \<le> ts_lease_reads s \<Longrightarrow> steps env (touched s t) (f t) s"
    and "distinct (map tk_id ts)" "store_shape env s" "n \<le> ts_lease_reads s" "\<And>t. t \<in> set ts \<Longrightarrow> seen env s t"
  shows "steps env UNIV (each_act f ts) s"
  using assms
proof (induction ts arbitrary: s)
  case (Cons t ts)
  have first: "steps env (touched s t) (f t) s" using Cons.prems by simp
  show ?case
    unfolding each_act.simps
  proof (rule steps_then [OF steps_mono [OF first] Cons.prems(3,4)])
    fix x s' assume r: "f t s = (Inr x, s')" and s': "store_shape env s'" "n \<le> ts_lease_reads s'"
    have "seen env s' v" if "v \<in> set ts" for v
    proof (rule seen_run [OF movesD [OF first r] Cons.prems(3)])
      show "tk_id v \<noteq> tk_id t" using Cons.prems(2) that by (metis distinct.simps(2) image_eqI list.set_map list.simps(9))
    qed (use Cons.prems(5) that in simp)
    with Cons s' show "steps env UNIV (each_act f ts) s'" by simp
  qed
qed simp

lemma settle_missed_moves:
  assumes "store_shape env s"
  shows "steps env UNIV (settle_missed_schedule env y availability now i) s"
  unfolding settle_missed_schedule_def
proof (intro moves_intro assms; (simp add: same_graphs_def; fail)?)
  fix t phase r u settlement
  assume *: "dict_get (ts_tasks s) i = Some t" "\<not> \<not> awaits_schedule t y s"
    "scheduled_task_nonexecution (te_digest env) t phase now = Inr r" "r = (u, settlement)"
  note n = nonexecution_sound [OF *(3) [unfolded *(4)] conjunct2 [OF stored_sound [OF assms *(1)]]]
  show "proposal_allowed env s u"
    using *(2) n assms by (intro change_proposal [OF *(1)]) (auto simp: awaits_schedule_def terminal_task_statuses_def)
qed

lemma key_inactive:
  assumes "\<not> key_active t now s" "dict_get (ts_tasks s) i = Some v" "tk_concurrency_key v = tk_concurrency_key t"
    "tk_concurrency_key t \<noteq> None"
  shows "\<not> holds_live_key_lease v now"
proof
  assume h: "holds_live_key_lease v now"
  from assms(2) have "v \<in> set (dict_values (ts_tasks s))" by (force simp: dict_values_def dest: map_of_SomeD)
  with h assms(3,4) have "the (tk_concurrency_key t) \<in> set (live_concurrency_keys now s)"
    by (auto simp: live_concurrency_keys_def intro!: bexI [of _ v])
  with assms(1,4) show False by (auto simp: key_active_def)
qed

lemma free_key_guard:
  assumes "\<not> key_active t (te_ownership_clock env m) s" "m \<le> ts_lease_reads s" "tk_concurrency_key u = tk_concurrency_key t"
  shows "key_guard env s u"
proof (cases "tk_concurrency_key t")
  case None
  with assms(3) show ?thesis by (simp add: leaseless_def)
next
  case (Some k)
  with key_inactive [OF assms(1)] assms show ?thesis
    unfolding key_guard_def Let_def by (intro disjI2 exI [of _ m]) auto
qed

lemma claimed_sound:
  assumes u: "claimed_task t w n availability now = Inr u" and t: "task_sound d t" "tk_status t = PENDING" "tk_session_id t = None"
    and w: "durable_clean w" "tk_retry_series t = None \<or> utf8_bytes w \<le> 1024"
  shows "task_sound d u" "same_identity t u"
proof -
  from u obtain schedule lease where s: "admitted_schedule t availability = Inr schedule"
    and ueq: "u = t\<lparr>tk_status := CLAIMED, tk_schedule := schedule, tk_worker_id := Some w,
       tk_lease_expires_at := Some lease, tk_updated_at := now\<rparr>"
    by (auto simp: claimed_task_def res_simps split: if_splits)
  note a = admitted_schedule_ok [OF s t(1)]
  show id: "same_identity t u" by (simp add: ueq same_identity_def)
  have "schedule_ok u" using a(2) schedule_ok_cong [of u "t\<lparr>tk_schedule := schedule\<rparr>"] by (simp add: ueq)
  then show "task_sound d u"
    using a(1) w t(2,3) by (intro sound_schedule [OF t(1) id]) (auto simp: ueq fields_ok_def)
qed

lemma claim_oldest_moves:
  assumes shape: "store_shape env s" and m: "m \<le> ts_lease_reads s" and w: "durable_clean w"
  shows "steps env UNIV (claim_oldest env w y n availability (te_ownership_clock env m)) s"
proof (cases "oldest_first (filter (claimable y w availability (te_ownership_clock env m) s) (dict_values (ts_tasks s)))")
  case Nil
  then show ?thesis by (simp add: moves_def claim_oldest_def)
next
  case (Cons t ts)
  have "t \<in> set (oldest_first (filter (claimable y w availability (te_ownership_clock env m) s) (dict_values (ts_tasks s))))"
    using Cons by simp
  then have t: "t \<in> set (dict_values (ts_tasks s))" "claimable y w availability (te_ownership_clock env m) s t"
    by (auto simp: oldest_first_def)
  note st = stored_seen(2) [OF shape t(1)]
  show ?thesis
  proof (rule steps_at)
    show "claim_oldest env w y n availability (te_ownership_clock env m) s =
        bind_act (lift_res (claimed_task t w n availability (te_ownership_clock env m))) (\<lambda>u.
          bind_act (store_task env u None) (\<lambda>_. return_act (Some u))) s"
      using Cons by (simp add: claim_oldest_def)
    show "steps env UNIV (bind_act (lift_res (claimed_task t w n availability (te_ownership_clock env m))) (\<lambda>u.
          bind_act (store_task env u None) (\<lambda>_. return_act (Some u)))) s"
    proof (intro moves_intro shape)
      fix u assume u: "claimed_task t w n availability (te_ownership_clock env m) = Inr u"
      have c: "tk_status t = PENDING" "tk_session_id t = None" "tk_retry_series t = None \<or> utf8_bytes w \<le> 1024"
        "\<not> key_active t (te_ownership_clock env m) s" using t(2) by (auto simp: claimable_def)
      note cs = claimed_sound [OF u _ c(1,2) w c(3)]
      have "same_identity t u" using cs(2) stored_sound [OF shape st] by blast
      then have "key_guard env s u" using m by (intro free_key_guard [OF c(4)]) (simp_all add: same_identity_def)
      with cs c(1) \<open>same_identity t u\<close> show "proposal_allowed env s u"
        by (intro change_proposal [OF st refl shape]) (auto simp: terminal_task_statuses_def)
    qed
  qed
qed

lemma claim_moves:
  assumes shape: "store_shape env s"
  shows "steps env UNIV (claim_task env w y n) s"
  unfolding claim_task_def
proof (intro moves_intro)
  let ?s = "s\<lparr>ts_clock_reads := ts_clock_reads s + 1, ts_lease_reads := ts_lease_reads (s\<lparr>ts_clock_reads := ts_clock_reads s + 1\<rparr>) + 1\<rparr>"
  let ?a = "te_clock env (ts_clock_reads s)" and ?now = "te_ownership_clock env (ts_lease_reads (s\<lparr>ts_clock_reads := ts_clock_reads s + 1\<rparr>))"
  fix x :: unit and snapshot
  assume w: "clean_arguments [w] = Inr x" and snapshot: "Inr (dict_values (ts_tasks ?s)) = Inr snapshot"
  have shape': "store_shape env ?s" using shape by simp
  show "steps env UNIV (bind_act (each_act (expire_elapsed_attempt env ?a ?now) snapshot) (\<lambda>_.
      bind_act (query_act (\<lambda>s. Inr (dict_values (ts_tasks s)))) (\<lambda>snapshot.
      bind_act (each_act (settle_missed_schedule env y ?a ?now) (map tk_id snapshot)) (\<lambda>_. claim_oldest env w y n ?a ?now)))) ?s"
  proof (rule steps_then [where n = "ts_lease_reads s + 1"])
    show "steps env UNIV (each_act (expire_elapsed_attempt env ?a ?now) snapshot) ?s"
      using stored_distinct [OF shape'] stored_seen(1) [OF shape'] snapshot
      by (intro seen_walk [where n = 0] shape') (auto intro: expire_moves)
    fix x s1 assume s1: "store_shape env s1" "ts_lease_reads s + 1 \<le> ts_lease_reads s1"
    show "steps env UNIV (bind_act (query_act (\<lambda>s. Inr (dict_values (ts_tasks s)))) (\<lambda>snapshot.
      bind_act (each_act (settle_missed_schedule env y ?a ?now) (map tk_id snapshot)) (\<lambda>_. claim_oldest env w y n ?a ?now))) s1"
    proof (intro steps_query)
      fix ids
      show "steps env UNIV (bind_act (each_act (settle_missed_schedule env y ?a ?now) (map tk_id ids)) (\<lambda>_. claim_oldest env w y n ?a ?now)) s1"
      proof (rule steps_then [where n = "ts_lease_reads s + 1"])
        show "steps env UNIV (each_act (settle_missed_schedule env y ?a ?now) (map tk_id ids)) s1"
          by (rule steps_each [where n = 0]) (use s1 in \<open>auto intro: settle_missed_moves\<close>)
        fix x s2 assume "store_shape env s2" "ts_lease_reads s + 1 \<le> ts_lease_reads s2"
        with w show "steps env UNIV (claim_oldest env w y n ?a ?now) s2"
          by (intro claim_oldest_moves) (simp_all add: clean_arguments_def res_simps)
      qed (use s1 in simp_all)
    qed
  qed (use shape' in simp_all)
qed

end
