(* ===== verification/Outcome_Steps.thy ===== *)
theory Outcome_Steps
  imports Claim_Steps
begin

text \<open>
  The operations that end, drain, hand over and settle tasks are sequences of abstract steps.
\<close>

section \<open>Requested cancellation\<close>

text \<open>A request to drain changes the reason, the payload and the time, and nothing else.\<close>

definition drained :: "task \<Rightarrow> task \<Rightarrow> bool" where
  "drained t u \<longleftrightarrow> (\<exists>reason payload at_time. u = t\<lparr>tk_status_reason := reason, tk_status_payload := payload, tk_updated_at := at_time\<rparr> \<and>
     (reason = tk_status_reason t \<or> opt_holds durable_nonblank reason)) \<and>
     tk_status t \<in> {CLAIMED, RUNNING} \<and> tk_worker_id t \<noteq> None"

lemma reason_texts: "durable_nonblank ''cancellation_requested''" "durable_nonblank ''retry_cancellation_requested''"
  by code_simp+

lemma drainedI:
  "u = t\<lparr>tk_status_reason := reason, tk_status_payload := payload, tk_updated_at := at_time\<rparr> \<Longrightarrow>
   reason = tk_status_reason t \<or> opt_holds durable_nonblank reason \<Longrightarrow>
   tk_status t \<in> {CLAIMED, RUNNING} \<Longrightarrow> tk_worker_id t \<noteq> None \<Longrightarrow> drained t u"
  unfolding drained_def by blast

lemma cancellation_drains:
  assumes "task_cancellation_requested_task d t error now = Inr u"
  shows "drained t u"
proof -
  from assms obtain worker where w: "tk_worker_id t = Some worker" by (auto simp: task_cancellation_requested_task_def split: option.splits)
  with assms have st: "tk_status t \<in> {CLAIMED, RUNNING}"
    unfolding task_cancellation_requested_task_def by (simp split: if_split_asm)
  from assms w have "u = t \<or> (\<exists>p. u = t\<lparr>tk_status_reason := Some ''cancellation_requested'', tk_status_payload := p, tk_updated_at := now\<rparr>)"
    unfolding task_cancellation_requested_task_def Let_def
    by (auto split: if_split_asm option.split_asm prod.split_asm json.split_asm)
  then show ?thesis
  proof
    assume "u = t"
    with st w show ?thesis
      by (intro drainedI [where reason = "tk_status_reason t" and payload = "tk_status_payload t" and at_time = "tk_updated_at t"]) simp_all
  next
    assume "\<exists>p. u = t\<lparr>tk_status_reason := Some ''cancellation_requested'', tk_status_payload := p, tk_updated_at := now\<rparr>"
    with st w reason_texts show ?thesis by (auto intro: drainedI)
  qed
qed

lemma retry_cancellation_drains:
  assumes "task_retry_cancellation_requested_task d t error now = Inr u"
  shows "drained t u"
proof -
  from assms obtain worker s where w: "tk_worker_id t = Some worker" "tk_retry_series t = Some s"
    by (auto simp: task_retry_cancellation_requested_task_def split: option.splits)
  with assms have st: "tk_status t \<in> {CLAIMED, RUNNING}"
    unfolding task_retry_cancellation_requested_task_def by (simp split: if_split_asm)
  define drain where "drain key = (if retry_cancellation_requested t then
       (case tk_status_payload t of
          None \<Rightarrow> Inl TaskTerminalizationConflict
        | Some p \<Rightarrow>
            if fmdom' p = {''settlement_idempotency_key'', ''error'', ''event''} then Inr t
            else if fmdom' p \<noteq> {''settlement_idempotency_key'', ''error''}
               \<or> payload_at p ''settlement_idempotency_key'' \<noteq> JStr key
               \<or> (case payload_at p ''error'' of JObj _ \<Rightarrow> False | _ \<Rightarrow> True)
            then Inl TaskTerminalizationConflict
            else Inr (t\<lparr>tk_status_payload := Some (fmap_of_list
              [(''settlement_idempotency_key'', JStr key), (''error'', payload_at p ''error''),
               (''event'', JObj (cancellation_requested_event d t s key worker (json_instant (tk_updated_at t))))])\<rparr>))
     else Inr (t\<lparr>tk_status_reason := Some ''retry_cancellation_requested'',
          tk_status_payload := Some (fmap_of_list
            [(''settlement_idempotency_key'', JStr key),
             (''error'', JObj (case error of None \<Rightarrow> error_code ''cancelled'' | Some e \<Rightarrow> e)),
             (''event'', JObj (cancellation_requested_event d t s key worker (json_instant now)))]),
          tk_updated_at := now\<rparr>))" for key
  have "bind_res (task_retry_runtime_idempotency_key d t ''cancellation'') drain = Inr u"
    using assms unfolding task_retry_cancellation_requested_task_def w drain_def [abs_def] option.case prod.case
    by (simp_all only: sum.distinct split: if_split_asm)
  then obtain key where key: "drain key = Inr u" by (auto simp only: bind_res_eq_Inr)
  have "u = t \<or> (\<exists>p. u = t\<lparr>tk_status_payload := p\<rparr>) \<or>
      (\<exists>p. u = t\<lparr>tk_status_reason := Some ''retry_cancellation_requested'', tk_status_payload := p, tk_updated_at := now\<rparr>)"
  proof (cases "retry_cancellation_requested t")
    case True
    then show ?thesis
      using key by (cases "tk_status_payload t") (auto simp only: drain_def if_True option.case sum.inject sum.distinct split: if_split_asm)
  next
    case False
    then show ?thesis using key by (auto simp only: drain_def if_False sum.inject)
  qed
  then show ?thesis
  proof (elim disjE exE)
    assume "u = t"
    with st w show ?thesis
      by (intro drainedI [where reason = "tk_status_reason t" and payload = "tk_status_payload t" and at_time = "tk_updated_at t"]) simp_all
  next
    fix p assume "u = t\<lparr>tk_status_payload := p\<rparr>"
    with st w show ?thesis by (intro drainedI [where reason = "tk_status_reason t" and payload = p and at_time = "tk_updated_at t"]) simp_all
  next
    fix p assume "u = t\<lparr>tk_status_reason := Some ''retry_cancellation_requested'', tk_status_payload := p, tk_updated_at := now\<rparr>"
    with st w reason_texts show ?thesis by (auto intro: drainedI)
  qed
qed

lemma expired_dispatch_drains:
  "expired_dispatched_task_cancellation d t now error = Inr u \<Longrightarrow> drained t u"
  by (auto simp: expired_dispatched_task_cancellation_def Let_def split: if_splits
      intro: cancellation_drains retry_cancellation_drains)

lemma drained_facts:
  assumes "drained t u"
  shows "same_identity t u" "keeps_lease t u" "tk_status t \<notin> terminal_task_statuses" "task_sound d t \<Longrightarrow> task_sound d u"
    "tk_schedule u = tk_schedule t" "tk_available_at u = tk_available_at t"
proof -
  from assms obtain reason payload n where u: "u = t\<lparr>tk_status_reason := reason, tk_status_payload := payload, tk_updated_at := n\<rparr>"
    and r: "reason = tk_status_reason t \<or> opt_holds durable_nonblank reason" and t: "tk_status t \<in> {CLAIMED, RUNNING}" "tk_worker_id t \<noteq> None"
    by (auto simp: drained_def)
  show id: "same_identity t u" by (simp add: u same_identity_def)
  show "keeps_lease t u" using t by (simp add: u keeps_lease_def)
  show "tk_schedule u = tk_schedule t" "tk_available_at u = tk_available_at t" by (simp_all add: u)
  show "tk_status t \<notin> terminal_task_statuses" using t by (auto simp: terminal_task_statuses_def)
  assume s: "task_sound d t"
  from sound_fields [OF s] r have "fields_ok u" by (auto simp: u fields_ok_def)
  with s id t show "task_sound d u" by (intro sound_change [OF s id]) (auto simp: u)
qed

section \<open>Reclaim\<close>

lemma expired_key_guard:
  "tk_lease_expires_at u = Some e \<Longrightarrow> e \<le> te_ownership_clock env m \<Longrightarrow> m \<le> ts_lease_reads s \<Longrightarrow> key_guard env s u"
  unfolding key_guard_def Let_def holds_live_key_lease_def live_lease_def by (intro disjI2 exI [of _ m]) simp

lemma reclaimed_sound:
  assumes "task_sound d t" "tk_status t = CLAIMED"
  shows "task_sound d (reclaimed_task t now)" "same_identity t (reclaimed_task t now)" "leaseless (reclaimed_task t now)"
proof -
  show id: "same_identity t (reclaimed_task t now)" by (simp add: reclaimed_task_def same_identity_def)
  show "leaseless (reclaimed_task t now)" by (simp add: reclaimed_task_def leaseless_def)
  show "task_sound d (reclaimed_task t now)"
    using sound_fields [OF assms(1)] assms(2) by (intro sound_change [OF assms(1) id]) (auto simp: reclaimed_task_def fields_ok_def)
qed

lemma reclaim_one_moves:
  assumes "store_shape env s" "seen env s t" "m \<le> ts_lease_reads s" "reclaimable y (te_ownership_clock env m) s0 t"
  shows "steps env (touched s t) (reclaim_one env (te_ownership_clock env m) t) s"
  unfolding reclaim_one_def
proof (intro steps_if steps_lift steps_store_in assms(1) steps_return)
  from assms(2) have sound: "task_sound (te_digest env) t" by (simp add: seen_def)
  from assms(4) obtain e where e: "tk_status t = CLAIMED" "tk_lease_expires_at t = Some e" "e \<le> te_ownership_clock env m"
    by (auto simp: reclaimable_def split: option.splits)
  { fix u assume u: "expired_dispatched_task_cancellation (te_digest env) t (te_ownership_clock env m) None = Inr u"
    note f = drained_facts [OF expired_dispatch_drains [OF u]]
    have "tk_lease_expires_at u = Some e" using f(2) e(2) by (simp add: keeps_lease_def)
    from expired_key_guard [OF this e(3) assms(3)] f sound show "proposal_allowed env s u"
      by (intro seen_proposal [OF assms(2)]) auto
    show "in_scope s u (touched s t)" using f(1) by (simp add: touched_scope same_identity_def)
  }
  note r = reclaimed_sound [OF sound e(1), of "te_ownership_clock env m"]
  show "proposal_allowed env s (reclaimed_task t (te_ownership_clock env m))"
    using r e(1) by (intro seen_proposal [OF assms(2)]) (auto simp: terminal_task_statuses_def)
  show "in_scope s (reclaimed_task t (te_ownership_clock env m)) (touched s t)" using r(2) by (simp add: touched_scope same_identity_def)
qed

lemma reclaim_each_moves:
  assumes "\<And>t. t \<in> set ts \<Longrightarrow> seen env s t \<and> reclaimable y (te_ownership_clock env m) s0 t"
    and "distinct (map tk_id ts)" "store_shape env s" "m \<le> ts_lease_reads s"
  shows "steps env UNIV (reclaim_each env (te_ownership_clock env m) ts) s"
  using assms
proof (induction ts arbitrary: s)
  case (Cons t ts)
  have first: "steps env (touched s t) (reclaim_one env (te_ownership_clock env m) t) s"
    using Cons.prems by (intro reclaim_one_moves [where ?s0.0 = s0]) auto
  show ?case
    unfolding reclaim_each.simps
  proof (rule steps_then [OF steps_mono [OF first] Cons.prems(3,4)])
    fix x s' assume r: "reclaim_one env (te_ownership_clock env m) t s = (Inr x, s')" and s': "store_shape env s'" "m \<le> ts_lease_reads s'"
    have "seen env s' v" if "v \<in> set ts" for v
    proof (rule seen_run [OF movesD [OF first r] Cons.prems(3)])
      show "tk_id v \<noteq> tk_id t" using Cons.prems(2) that by (metis distinct.simps(2) image_eqI list.set_map list.simps(9))
    qed (use Cons.prems(1) that in simp)
    with Cons s' have "steps env UNIV (reclaim_each env (te_ownership_clock env m) ts) s'" by simp
    then show "steps env UNIV (bind_act (reclaim_each env (te_ownership_clock env m) ts) (\<lambda>ys. return_act (x @ ys))) s'"
      by (rule moves_bind) simp
  qed
qed simp

lemma reclaim_moves:
  assumes shape: "store_shape env s"
  shows "steps env UNIV (reclaim_expired env y n) s"
  unfolding reclaim_expired_def
proof (intro moves_intro)
  let ?s = "s\<lparr>ts_lease_reads := ts_lease_reads s + 1\<rparr>"
  have shape': "store_shape env ?s" using shape by simp
  fix expired
  assume e: "Inr (take (nat n) (stalest_first (filter (reclaimable y (te_ownership_clock env (ts_lease_reads s)) ?s) (dict_values (ts_tasks ?s))))) = Inr expired"
  have "distinct (map tk_id (filter P (dict_values (ts_tasks ?s))))" for P
    using stored_distinct [OF shape'] by (rule distinct_map_filter)
  then have "distinct (map tk_id (stalest_first (filter P (dict_values (ts_tasks ?s)))))" for P
    by (simp add: stalest_first_def distinct_map)
  then have d: "distinct (map tk_id expired)" using e by (auto simp: take_map [symmetric] intro: distinct_take)
  show "steps env UNIV (reclaim_each env (te_ownership_clock env (ts_lease_reads s)) expired) ?s"
  proof (rule reclaim_each_moves [OF _ d shape'])
    fix t assume "t \<in> set expired"
    with e have "t \<in> set (stalest_first (filter (reclaimable y (te_ownership_clock env (ts_lease_reads s)) ?s) (dict_values (ts_tasks ?s))))"
      by (auto dest: in_set_takeD)
    then show "seen env ?s t \<and> reclaimable y (te_ownership_clock env (ts_lease_reads s)) ?s t"
      using stored_seen(1) [OF shape'] by (auto simp: stalest_first_def)
  qed simp
qed

section \<open>Ending a task\<close>

text \<open>Everything the store relies on when it ends a task.\<close>

definition ends :: "(json \<Rightarrow> string) \<Rightarrow> task \<Rightarrow> task \<Rightarrow> bool" where
  "ends d t u \<longleftrightarrow> same_identity t u \<and> tk_status t \<notin> terminal_task_statuses \<and> (leaseless u \<or> keeps_lease t u) \<and>
     task_sound d u \<and> tk_schedule u = tk_schedule t \<and> tk_available_at u = tk_available_at t"

lemma ends_proposal:
  "dict_get T i = Some t \<Longrightarrow> ts_tasks s = T \<Longrightarrow> store_shape env s \<Longrightarrow> ends (te_digest env) t u \<Longrightarrow> proposal_allowed env s u"
  by (auto simp: ends_def intro: change_proposal)

lemma drained_ends: "drained t u \<Longrightarrow> task_sound d t \<Longrightarrow> ends d t u"
  by (auto simp: ends_def drained_facts)

lemma finished_ends:
  assumes "task_sound d t" "tk_status t \<notin> terminal_task_statuses" "st \<in> {COMPLETED, FAILED, CANCELLED}"
  shows "ends d t (finished_task t st result error now)"
proof -
  let ?u = "finished_task t st result error now"
  have id: "same_identity t ?u" by (simp add: finished_task_def same_identity_def)
  have "fields_ok ?u" using sound_fields [OF assms(1)] by (auto simp: fields_ok_def finished_task_def)
  with assms(1,3) id have "task_sound d ?u" by (intro sound_change [OF assms(1) id]) (auto simp: finished_task_def)
  with id assms(2) show ?thesis by (simp add: ends_def leaseless_def finished_task_def)
qed

lemma settlement_ends:
  assumes "cancelled_task_retry_settlement d t error now = Inr r" "task_sound d t"
  shows "ends d t (sr_task r)"
proof -
  from assms(1) have "tk_schedule (sr_task r) = tk_schedule t" "tk_available_at (sr_task r) = tk_available_at t"
    by (auto simp: cancelled_task_retry_settlement_def settlement_keeps split: if_splits)
  with cancelled_settlement [OF assms] show ?thesis by (simp add: ends_def)
qed

lemma can_transition_Inr: "ensure_can_transition t st = Inr x \<Longrightarrow> tk_status t \<notin> terminal_task_statuses"
  by (auto simp: ensure_can_transition_def ensure_task_status_can_transition_def split: if_splits)

lemma prepared_finish:
  assumes run: "prepare_finished_task env i st result error worker lease handoff decision now s = Inr (u, settlement)"
    and shape: "store_shape env s" and st: "st \<in> {COMPLETED, FAILED, CANCELLED}"
  obtains t where "dict_get (ts_tasks s) i = Some t" "ends (te_digest env) t u"
proof -
  from run obtain t where t: "dict_get (ts_tasks s) i = Some t" by (auto simp: prepare_finished_task_def split: option.splits)
  have sound: "task_sound (te_digest env) t" using stored_sound [OF shape t] by simp
  define rest where "rest = (if tk_retry_series t \<noteq> None then
       (if st \<noteq> CANCELLED then Inl ValueError
        else if tk_status t \<in> {CLAIMED, RUNNING} then
          bind_res (task_retry_cancellation_requested_task (te_digest env) t error now) (\<lambda>u. Inr (u, None))
        else bind_res (cancelled_task_retry_settlement (te_digest env) t error now) (\<lambda>r. Inr (sr_task r, Some r)))
     else if drains_cancellation t st then
       bind_res (task_cancellation_requested_task (te_digest env) t error now) (\<lambda>u. Inr (u, None))
     else if task_cancellation_requested t \<and> \<not> (st = CANCELLED \<and> worker \<noteq> None) then Inl TaskTerminalizationConflict
     else Inr (finished_task t st result error now, None))"
  have "bind_res (ensure_finishing_authority t worker lease handoff now) (\<lambda>_.
      if task_admitted i s \<and> decision = None then Inl WorkAttemptExecutionClaimLost
      else if st = COMPLETED \<and> tk_work_contract t \<noteq> None \<and> decision = None then Inl TaskCompletionDecisionRequired
      else bind_res (ensure_can_transition t st) (\<lambda>_. rest)) = Inr (u, settlement)"
    using run unfolding prepare_finished_task_def rest_def t option.case .
  then obtain x where x: "ensure_can_transition t st = Inr x" and rest: "rest = Inr (u, settlement)"
    by (auto simp: bind_res_eq_Inr split: if_splits)
  note live = can_transition_Inr [OF x]
  from rest finished_ends [OF sound live st, of result error now] have "ends (te_digest env) t u"
    unfolding rest_def
    by (auto simp only: bind_res_eq_Inr sum.inject prod.inject sum.distinct intro: drained_ends [OF _ sound] retry_cancellation_drains
        cancellation_drains settlement_ends [OF _ sound] split: if_split_asm)
  with t that show thesis by blast
qed

lemma steps_prepared:
  assumes "store_shape env s"
    and "\<And>u settlement t. dict_get (ts_tasks s) i = Some t \<Longrightarrow> ends (te_digest env) t u \<Longrightarrow> steps env W (f (u, settlement)) s"
    and "st \<in> {COMPLETED, FAILED, CANCELLED}"
  shows "steps env W (bind_act (query_act (prepare_finished_task env i st result error worker lease handoff decision now)) f) s"
proof (rule steps_query)
  fix x assume x: "prepare_finished_task env i st result error worker lease handoff decision now s = Inr x"
  then obtain t where "dict_get (ts_tasks s) i = Some t" "ends (te_digest env) t (fst x)"
    using prepared_finish [OF _ assms(1,3), of i result error worker lease handoff decision now "fst x" "snd x"] by auto
  with assms(2) [of t "fst x" "snd x"] show "steps env W (f x) s" by simp
qed

lemma keep_settlement_moves [moves_intro]: "steps env W (keep_settlement i r) s"
  by (auto simp: keep_settlement_def same_graphs_def intro: idle_modify split: option.split)

lemma steps_keep_settlement [moves_intro]:
  "(\<And>s'. steps env W (f ()) s') \<Longrightarrow> steps env W (bind_act (keep_settlement i r) f) s"
  using keep_settlement_moves by (rule moves_bind) simp

lemma finish_moves [moves_intro]:
  assumes "store_shape env s" "st \<in> {COMPLETED, FAILED, CANCELLED}"
  shows "steps env UNIV (finish_task_at env i st result error worker lease handoff now) s"
  unfolding finish_task_at_def
proof (rule steps_prepared [OF assms(1) _ assms(2)])
  fix t u settlement
  assume "dict_get (ts_tasks s) i = Some t" "ends (te_digest env) t u"
  then have "proposal_allowed env s u" using assms(1) by (auto intro: ends_proposal)
  then show "steps env UNIV (case (u, settlement) of (u, settlement) \<Rightarrow>
      bind_act (store_task env u None) (\<lambda>_. bind_act (keep_settlement (tk_id u) settlement) (\<lambda>_. return_act u))) s"
    unfolding prod.case by (intro moves_intro assms(1))
qed

lemma steps_finish [moves_intro]:
  assumes "store_shape env s" "st \<in> {COMPLETED, FAILED, CANCELLED}" "\<And>u s'. steps env UNIV (f u) s'"
  shows "steps env UNIV (bind_act (finish_task_at env i st result error worker lease handoff now) f) s"
  using assms by (intro moves_bind finish_moves) auto

lemma complete_moves: "store_shape env s \<Longrightarrow> steps env UNIV (complete_task env a i result w lease h) s"
  unfolding complete_task_def finish_task_def by (intro moves_intro) simp_all

lemma fail_moves: "store_shape env s \<Longrightarrow> steps env UNIV (fail_task env a i error w lease h) s"
  unfolding fail_task_def finish_task_def by (intro moves_intro) simp_all

lemma cancel_moves: "store_shape env s \<Longrightarrow> steps env UNIV (cancel_task env i error) s"
  unfolding cancel_task_def finish_task_def by (intro moves_intro) simp_all

lemma request_cancellation_moves:
  assumes "store_shape env s"
  shows "steps env UNIV (request_claimed_task_cancellation env i w lease error) s"
  unfolding request_claimed_task_cancellation_def finish_task_def store_and_return_def
proof (intro moves_intro; (simp add: assms; fail)?)
  fix t u
  assume t: "dict_get (ts_tasks s) i = Some t"
    and u: "expired_dispatched_task_cancellation (te_digest env) t (te_ownership_clock env (ts_lease_reads s)) error = Inr u"
  have "ends (te_digest env) t u"
    using expired_dispatch_drains [OF u] stored_sound [OF assms t] by (intro drained_ends) auto
  then show "proposal_allowed env (s\<lparr>ts_lease_reads := ts_lease_reads s + 1\<rparr>) u"
    using assms by (intro ends_proposal [OF t]) simp_all
qed

lemma keep_terminalization_moves [moves_intro]: "steps env W (keep_terminalization env q sha u now) s"
  unfolding keep_terminalization_def by (intro moves_intro) (simp_all add: same_graphs_def)

lemma terminal_kind_final: "terminal_kind_status k \<in> {COMPLETED, FAILED, CANCELLED}"
  by (cases k) simp_all

lemma terminalize_moves: "store_shape env s \<Longrightarrow> steps env UNIV (terminalize_task env q) s"
  unfolding terminalize_task_def terminalize_new_def
  by (intro moves_intro terminal_kind_final) (simp_all add: same_graphs_def)

lemma recover_moves: "store_shape env s \<Longrightarrow> steps env UNIV (recover_attached_task_failure env q session instance_id) s"
  unfolding recover_attached_task_failure_def recover_new_def
  by (intro moves_intro) (simp_all add: same_graphs_def)

section \<open>Hand-over and continuation\<close>

lemma handed_over_ends:
  assumes "require_interrupted_task_handoff_authority t q now expired = Inr x" "durable_clean (hq_handoff_id q)" "task_sound d t"
  shows "ends d t (handed_over_task t (hq_handoff_id q) now)"
proof -
  let ?u = "handed_over_task t (hq_handoff_id q) now"
  have t: "tk_status t = RUNNING" "tk_session_id t \<noteq> None" "tk_session_instance_id t \<noteq> None"
    using assms(1) by (auto simp: require_interrupted_task_handoff_authority_def split: if_splits)
  have id: "same_identity t ?u" by (simp add: handed_over_task_def same_identity_def)
  have "fields_ok ?u" using sound_fields [OF assms(3)] t assms(2) by (auto simp: fields_ok_def handed_over_task_def)
  with assms(3) id t(1) have "task_sound d ?u" by (intro sound_change [OF assms(3) id]) (auto simp: handed_over_task_def)
  with id t(1) show ?thesis by (simp add: ends_def leaseless_def handed_over_task_def terminal_task_statuses_def)
qed

lemma prepared_handoff: "prepare_interrupted_task_handoff d q = Inr (q', sha) \<Longrightarrow> durable_clean (hq_handoff_id q')"
  by (auto simp: prepare_interrupted_task_handoff_def handoff_request_valid_def split: if_splits)

lemma hand_over_moves:
  assumes "store_shape env s" "durable_clean (hq_handoff_id q)"
  shows "steps env UNIV (hand_over env q sha expired) s"
  unfolding hand_over_def
proof (intro moves_intro; (simp add: assms same_graphs_def; fail)?)
  fix t and x :: unit
  assume t: "dict_get (ts_tasks s) (hq_task_id q) = Some t"
    and x: "require_interrupted_task_handoff_authority t q (te_ownership_clock env (ts_lease_reads s)) expired = Inr x"
  from handed_over_ends [OF x assms(2)] stored_sound [OF assms(1) t]
  show "proposal_allowed env (s\<lparr>ts_lease_reads := ts_lease_reads s + 1\<rparr>)
      (handed_over_task t (hq_handoff_id q) (te_ownership_clock env (ts_lease_reads s)))"
    using assms(1) by (intro ends_proposal [OF t]) auto
qed

lemma handoff_moves: "store_shape env s \<Longrightarrow> steps env UNIV (settle_interrupted_task_handoff env q expired) s"
  unfolding settle_interrupted_task_handoff_def
  by (intro moves_intro hand_over_moves) (auto dest: prepared_handoff)

text \<open>The task a continuation claims is one of the page, and no live lease is held over its key.\<close>

lemma scan_found:
  "scan_continuations judge ts = Inr (rejected, filtered, Some t) \<Longrightarrow> t \<in> set ts \<and> judge t = Inr CONT_CLAIMED"
proof (induction ts arbitrary: rejected filtered)
  case (Cons x xs)
  then obtain v where v: "judge x = Inr v" by (auto simp: res_simps)
  with Cons show ?case by (cases v) (auto simp: res_simps)
qed simp

lemma judged_claimed:
  assumes "judge_continuation y expected (live_concurrency_keys now s) s t = Inr CONT_CLAIMED"
  shows "\<not> key_active t now s"
  using assms by (auto simp: judge_continuation_def key_active_def res_simps split: if_splits option.splits)

lemma continued_sound:
  assumes t: "task_sound d t" "tk_status t = RUNNING" "tk_session_id t \<noteq> None" "tk_session_instance_id t \<noteq> None"
    and w: "durable_clean w" "durable_clean h"
  shows "task_sound d (continued_task t w lease h now)" "same_identity t (continued_task t w lease h now)"
proof -
  let ?u = "continued_task t w lease h now"
  show id: "same_identity t ?u" by (simp add: continued_task_def same_identity_def)
  have "fields_ok ?u" using sound_fields [OF t(1)] t w by (auto simp: fields_ok_def continued_task_def)
  with t(1,2) id show "task_sound d ?u" by (intro sound_change [OF t(1) id]) (auto simp: continued_task_def)
qed

lemma continue_moves:
  assumes shape: "store_shape env s" and m: "m \<le> ts_lease_reads s" and w: "durable_clean w" "durable_clean h"
  shows "steps env UNIV (continue_first env w y h i expected sha n after limit (te_ownership_clock env m)) s"
proof -
  let ?now = "te_ownership_clock env m"
  let ?page = "take (nat limit) (oldest_first (filter (continuation_candidate i after (expected \<noteq> None) s) (dict_values (ts_tasks s))))"
  let ?judge = "judge_continuation y expected (live_concurrency_keys ?now s) s"
  define run where "run = bind_act (lift_res (scan_continuations ?judge ?page)) (\<lambda>(rejected, filtered, found). case found of
       None \<Rightarrow> lift_res (check_page (te_digest env) (empty_page ?page rejected filtered limit))
     | Some t \<Rightarrow> bind_act (lift_res (add_duration ?now (seconds n))) (\<lambda>lease.
         let claimed = continued_task t w lease h ?now
         in bind_act (store_task env claimed None) (\<lambda>_.
            bind_act (modify_act (\<lambda>s. s\<lparr>ts_continuation_claims :=
                dict_put (te_digest env (JStr h)) (tk_id claimed, w, sha) (ts_continuation_claims s)\<rparr>)) (\<lambda>_.
            lift_res (check_page (te_digest env) (claim_page ?page claimed rejected filtered limit))))))"
  have run: "continue_first env w y h i expected sha n after limit ?now s = run s" by (simp only: continue_first_def run_def Let_def)
  have proposal: "proposal_allowed env s (continued_task t w lease h ?now)"
    if x: "scan_continuations ?judge ?page = Inr (rejected, filtered, Some t)" for rejected filtered t lease
  proof -
  from scan_found [OF x] have t: "t \<in> set ?page"
    and j: "?judge t = Inr CONT_CLAIMED" by simp_all
  from t have t': "t \<in> set (dict_values (ts_tasks s))" "continuation_candidate i after (expected \<noteq> None) s t"
    by (auto dest!: in_set_takeD simp: oldest_first_def)
  note st = stored_seen(2) [OF shape t'(1)]
  have c: "tk_status t = RUNNING" "tk_session_id t \<noteq> None" "tk_session_instance_id t \<noteq> None"
    using t'(2) by (auto simp: continuation_candidate_def)
  have "task_sound (te_digest env) t" using stored_sound [OF shape st] by simp
  note cs = continued_sound [OF this c w, of lease ?now]
  have "key_guard env s (continued_task t w lease h ?now)"
    using judged_claimed [OF j] m cs(2) by (intro free_key_guard) (simp_all add: same_identity_def)
  with cs c(1) show ?thesis by (intro change_proposal [OF st refl shape]) (auto simp: terminal_task_statuses_def)
  qed
  have "steps env UNIV run s"
    unfolding run_def by (intro moves_intro shape proposal; (simp add: same_graphs_def; fail)?)
  with run show ?thesis by (rule steps_at)
qed

lemma continuation_moves:
  assumes "store_shape env s"
  shows "steps env UNIV (claim_interrupted_task_continuation env w y h i expected n after limit) s"
  unfolding claim_interrupted_task_continuation_def
proof (intro moves_intro continue_moves)
  fix x :: unit assume "clean_arguments ([w, h] @ (case i of None \<Rightarrow> [] | Some i \<Rightarrow> [i])) = Inr x"
  then show "durable_clean w" "durable_clean h" by (auto simp: clean_arguments_def res_simps)
qed (use assms in simp_all)

end
