(* ===== verification/Mutation_Steps.thy ===== *)
theory Mutation_Steps
  imports Outcome_Steps
begin

text \<open>
  The settlement of retry attempts, the schedule mutations, the maintenance operations and the creation of
  tasks and graphs are sequences of abstract steps.
\<close>

section \<open>Settled attempts\<close>

lemma classify_final: "classify_attempt s q cancelling series_now refusal = Inr out \<Longrightarrow> ao_status out \<in> {COMPLETED, FAILED, CANCELLED}"
  by (auto simp: classify_attempt_def exhausted_def Let_def res_simps split: if_splits attempt_disposition.splits)

lemma settled_ends:
  assumes run: "settled_task_retry_attempt d t q now series_now refusal = Inr (settled, successor)"
    and t: "task_sound d t" "tk_status t \<in> {CLAIMED, RUNNING}"
  shows "ends d t settled" "\<And>u. successor = Some u \<Longrightarrow> task_sound d u \<and> leaseless u"
proof -
  from run have both: "ends d t settled \<and> (\<forall>u. successor = Some u \<longrightarrow> task_sound d u \<and> leaseless u)"
  proof (cases rule: settled_attempt_cases)
    case (1 s requested out ss)
    note f = settled_series_Inr [OF 1(6)] and st = classify_final [OF 1(5)]
    have auth: "rs_authority_sha256 ss = task_retry_attempt_authority_sha256 d t ss"
      using f series_snapshot_Inr [OF 1(6) [unfolded settled_series_of_def]] by (intro attempt_authority_series [of ss d t s]) simp_all
    have id: "same_identity t settled" by (simp add: 1(7) settled_attempt_def same_identity_def)
    have "task_sound d settled"
    proof (rule sound_series [OF t(1) id])
      show "fields_ok settled" using sound_fields [OF t(1)] 1(1) by (auto simp: 1(7) settled_attempt_def fields_ok_def disposition_text)
      show "schedule_ok settled"
        using t(1) schedule_ok_cong [of settled t] by (simp add: 1(7) settled_attempt_def task_sound_def task_valid_def)
      show "tk_retry_series t \<noteq> None \<and> retry_series_valid x \<and>
          rs_authority_sha256 x = task_retry_attempt_authority_sha256 d settled x" if "tk_retry_series settled = Some x" for x
        using that 1(1) f(1) auth authority_change [OF id, of d x] by (simp add: 1(7) settled_attempt_def)
    qed (use st in \<open>auto simp: 1(7) settled_attempt_def\<close>)
    with id t(2) have e: "ends d t settled"
      by (auto simp: ends_def leaseless_def terminal_task_statuses_def 1(7) settled_attempt_def)
    have "task_sound d u \<and> leaseless u" if u: "successor = Some u" for u
    proof -
      from 1(8) u obtain nx where "successor_attempt d t s q nx now = Inr u" by auto
      then show ?thesis
        by (rule successor_attempt_Inr) (auto simp: task_sound_def series_detached_def leaseless_def successor_task_def)
    qed
    with e show ?thesis by blast
  qed
  then show "ends d t settled" "\<And>u. successor = Some u \<Longrightarrow> task_sound d u \<and> leaseless u" by auto
qed

lemma store_settled_moves:
  assumes shape: "store_shape env s" and t: "dict_get (ts_tasks s) i = Some t" and e: "ends (te_digest env) t settled"
    and succ: "\<And>u. successor = Some u \<Longrightarrow> task_sound (te_digest env) u \<and> leaseless u" and free: "\<not> successor_occupied successor s"
  shows "steps env UNIV (store_settled_attempt env settled successor now) s"
  unfolding store_settled_attempt_def
proof (rule moves_bind)
  have proposal: "proposal_allowed env s settled" using e by (intro ends_proposal [OF t refl shape])
  have new: "fresh_successor env s successor"
    using succ free by (auto simp: fresh_successor_def successor_occupied_def split: option.splits)
  show "steps env UNIV (store_graph_task env settled None successor) s"
    using shape proposal new by (intro store_graph_task_moves) simp_all
  fix stored s' assume stored: "store_graph_task env settled None successor s = (Inr stored, s')"
  show "steps env UNIV (if stored then return_act () else bind_act (query_act (\<lambda>s. traverse_res (\<lambda>u. prepare_task_write env u None s)
      (settled # (case successor of None \<Rightarrow> [] | Some u \<Rightarrow> [u])))) (\<lambda>writes. each_act (publish_prepared_task_write env (Some now)) writes)) s'"
  proof (cases stored)
    case False
    have s': "s' = s" "\<not> member s (tk_id settled)"
      using store_graph_task_False [of env settled None successor s s'] stored False by (simp_all add: member_def)
    have settled: "write_allowed env s settled" using proposal_write [OF proposal] s'(2) by (simp add: member_def)
    have stored_id: "dict_get (ts_tasks s) (tk_id settled) \<noteq> None"
      using t e stored_sound [OF shape t] by (auto simp: ends_def same_identity_def)
    have "steps env UNIV (each_act (publish_prepared_task_write env (Some now)) ws) s"
      if ws: "map pw_task ws = settled # (case successor of None \<Rightarrow> [] | Some u \<Rightarrow> [u])" for ws
    proof (rule batch_moves [where k = "tk_id settled"])
      fix v assume "v \<in> set (map pw_task ws)"
      then consider "v = settled" | "successor = Some v" unfolding ws by (auto split: option.splits)
      then show "write_allowed env s v" "tk_id v = tk_id settled \<or> leaseless v"
        using settled new by (cases; auto simp: fresh_successor_def write_allowed_def)+
    next
      fix a b assume "a \<in> set (map pw_task ws)" "b \<in> set (map pw_task ws)" and ab: "tk_id a = tk_id b"
      then have "a = settled \<or> successor = Some a" "b = settled \<or> successor = Some b" unfolding ws by (auto split: option.splits)
      moreover have "tk_id x \<noteq> tk_id settled" if "successor = Some x" for x
        using new that stored_id by (auto simp: fresh_successor_def)
      ultimately show "a = b" using ab by (metis option.inject)
    qed simp
    note publish = this [OF traverse_prepared]
    show ?thesis
      unfolding if_not_P [OF False] s'(1) by (rule steps_query) (rule publish)
  qed simp
qed

lemma exact_lease_status:
  "ensure_exact_owned_active_task_lease t w lease now = Inr x \<Longrightarrow> tk_status t \<in> {CLAIMED, RUNNING}"
  by (auto simp: ensure_exact_owned_active_task_lease_def ensure_owned_active_task_lease_def res_simps split: if_splits)

lemma steps_settled:
  assumes "settled_task_retry_attempt (te_digest env) t q now series_now refusal = Inr x" "x = (settled, successor)"
    "tk_status t \<in> {CLAIMED, RUNNING}" "store_shape env s" "dict_get (ts_tasks s) i = Some t" "\<not> successor_occupied successor s"
    "\<And>s'. steps env UNIV (f ()) s'"
  shows "steps env UNIV (bind_act (store_settled_attempt env settled successor series_at) f) s"
proof (rule moves_bind)
  have "task_sound (te_digest env) t" using stored_sound [OF assms(4,5)] by simp
  note settled = settled_ends [OF assms(1) [unfolded assms(2)] this assms(3)]
  show "steps env UNIV (store_settled_attempt env settled successor series_at) s"
    using assms(4-6) settled by (intro store_settled_moves)
qed (use assms(7) in simp)

lemma settle_attempt_moves: "store_shape env s \<Longrightarrow> steps env UNIV (settle_task_retry_attempt env q) s"
  unfolding settle_task_retry_attempt_def settle_new_attempt_def
  by (intro moves_intro; (simp; fail)?; erule (1) steps_settled; (intro moves_intro)?)
    (auto simp: same_graphs_def successor_occupied_def res_simps split: option.splits dest!: exact_lease_status)

lemma deadline_elapsed_moves: "steps env UNIV (task_retry_deadline_elapsed env i w lease) s"
  unfolding task_retry_deadline_elapsed_def by (intro moves_intro)

lemma steps_put_settlement [moves_intro]:
  "steps env W (f ()) (put_settlement r s) \<Longrightarrow> steps env W (bind_act (modify_act (put_settlement r)) f) s"
  by (rule steps_modify) (simp_all add: put_settlement_def same_graphs_def)

lemma put_settlement_same [simp]: "ts_tasks (put_settlement r s) = ts_tasks s" "same_graphs s (put_settlement r s)"
  by (simp_all add: put_settlement_def same_graphs_def)

lemma elapsed_attempt_ends:
  assumes "elapsed_claimed_task_retry_settlement d t now tokens cost = Inr r" "task_sound d t" "tk_status t \<in> {CLAIMED, RUNNING}"
  shows "ends d t (sr_task r)"
  using assms settled_by_runtime [of d t _ _ _ FAILED] settlement_keeps
  by (fastforce simp: elapsed_claimed_task_retry_settlement_def ends_def terminal_task_statuses_def)

lemma enforce_deadline_moves:
  assumes "store_shape env s"
  shows "steps env UNIV (enforce_task_retry_deadline env i w lease tokens cost) s"
  unfolding enforce_task_retry_deadline_def
proof (intro moves_intro; (simp add: assms; fail)?)
  fix t r and x :: unit
  let ?now = "te_ownership_clock env (ts_lease_reads s)" and ?s = "s\<lparr>ts_lease_reads := ts_lease_reads s + 1, ts_clock_reads := ts_clock_reads (s\<lparr>ts_lease_reads := ts_lease_reads s + 1\<rparr>) + 1\<rparr>"
  assume t: "dict_get (ts_tasks s) i = Some t" and x: "ensure_exact_owned_active_task_lease t w lease ?now = Inr x"
    and r: "elapsed_claimed_task_retry_settlement (te_digest env) t ?now tokens cost = Inr r"
  have "ends (te_digest env) t (sr_task r)"
    using elapsed_attempt_ends [OF r _ exact_lease_status [OF x]] stored_sound [OF assms t] by simp
  then show "proposal_allowed env ?s (sr_task r)" using assms by (intro ends_proposal [OF t]) simp_all
qed

section \<open>Schedules\<close>

lemma steps_let_state [moves_intro]: "steps env W (f (v s) ) s \<Longrightarrow> steps env W (\<lambda>s. let x = v s in f x s) s"
  by (simp add: moves_def Let_def)

lemma schedule_mutation_Inr:
  "require_schedule_mutation t n = Inr c \<longleftrightarrow> (\<exists>a. require_schedule t = Inr (c, a)) \<and> ss_revision c = n \<and>
     tk_status t \<notin> terminal_task_statuses \<and> \<not> task_cancellation_requested t \<and> \<not> retry_cancellation_requested t \<and>
     ss_revision c < max_portable_json_integer"
  by (auto simp: require_schedule_mutation_def res_simps)

lemma rescheduled_Inr:
  assumes "rescheduled_task d t q now = Inr u"
  obtains c a series where "require_schedule t = Inr (c, a)" "ss_revision c = rr_expected_revision q"
    "ss_revision c < max_portable_json_integer" "ss_admitted_at c = None" "tk_worker_id t = None" "tk_session_id t = None"
    "tk_status t \<in> {PENDING, WAITING_DEPENDENCIES, WAITING_GROUP, PAUSED, BLOCKED, NEEDS_ATTENTION}"
    "rescheduled_initial_task_retry_series d t (rr_available_at q) = Inr series"
    "u = t\<lparr>tk_available_at := Some (rr_available_at q), tk_retry_series := series, tk_updated_at := now,
       tk_schedule := Some (c\<lparr>ss_revision := ss_revision c + 1, ss_policy := rr_policy q\<rparr>)\<rparr>"
  using assms that
  by (auto simp: rescheduled_task_def schedule_mutation_Inr bind_res_eq_Inr schedule_revision_Inr simp del: insert_iff split: if_split_asm)

lemma authority_rebound:
  "task_retry_attempt_authority_sha256 d t (s\<lparr>rs_authority_sha256 := x\<rparr>) = task_retry_attempt_authority_sha256 d t s"
  by (simp add: task_retry_attempt_authority_sha256_def)

lemma rescheduled_series:
  assumes "rescheduled_initial_task_retry_series d t a = Inr series" "task_sound d t" "\<And>j. is_sha256_text (d j)"
  shows "series = None \<longleftrightarrow> tk_retry_series t = None"
    "series = Some x \<Longrightarrow> retry_series_valid x \<and> tk_session_id t = None \<and>
       rs_authority_sha256 x = task_retry_attempt_authority_sha256 d (t\<lparr>tk_available_at := Some a\<rparr>) x"
proof -
  consider "series = None" "tk_retry_series t = None"
    | c where "tk_retry_series t = Some c" "series = Some (c\<lparr>rs_authority_sha256 :=
         task_retry_attempt_authority_sha256 d (t\<lparr>tk_available_at := Some a\<rparr>) c\<rparr>)"
    using assms(1) by (cases "tk_retry_series t") (auto simp: rescheduled_initial_task_retry_series_def split: if_split_asm)
  note cases = this
  then show "series = None \<longleftrightarrow> tk_retry_series t = None" by cases simp_all
  assume x: "series = Some x"
  with cases obtain c where c: "tk_retry_series t = Some c" "x = c\<lparr>rs_authority_sha256 :=
         task_retry_attempt_authority_sha256 d (t\<lparr>tk_available_at := Some a\<rparr>) c\<rparr>" by auto
  with assms(2) have v: "retry_series_valid c" "tk_session_id t = None"
    by (auto simp: task_sound_def task_valid_def retry_and_contract_ok_def series_detached_def)
  have "is_sha256_text (rs_authority_sha256 x)" using assms(3) by (simp add: c(2) task_retry_attempt_authority_sha256_def)
  with v show "retry_series_valid x \<and> tk_session_id t = None \<and>
       rs_authority_sha256 x = task_retry_attempt_authority_sha256 d (t\<lparr>tk_available_at := Some a\<rparr>) x"
    by (auto simp: c(2) retry_series_valid_def authority_rebound)
qed

lemma rescheduled_sound:
  assumes "rescheduled_task d t q now = Inr u" "task_sound d t" "reschedule_request_valid q" "\<And>j. is_sha256_text (d j)"
  shows "task_sound d u" "same_identity t u" "leaseless u" "tk_status t \<notin> terminal_task_statuses"
proof -
  from assms(1) obtain c a series where c: "require_schedule t = Inr (c, a)" "ss_revision c < max_portable_json_integer" "tk_worker_id t = None"
    and st: "tk_status t \<in> {PENDING, WAITING_DEPENDENCIES, WAITING_GROUP, PAUSED, BLOCKED, NEEDS_ATTENTION}"
    and series: "rescheduled_initial_task_retry_series d t (rr_available_at q) = Inr series"
    and u: "u = t\<lparr>tk_available_at := Some (rr_available_at q), tk_retry_series := series, tk_updated_at := now,
       tk_schedule := Some (c\<lparr>ss_revision := ss_revision c + 1, ss_policy := rr_policy q\<rparr>)\<rparr>"
    by (rule rescheduled_Inr) blast
  note r = rescheduled_series [OF series assms(2,4)]
  have valid: "task_valid d t" using assms(2) by (simp add: task_sound_def)
  show "same_identity t u" by (simp add: u same_identity_def)
  show "leaseless u" using c(3) by (simp add: u leaseless_def)
  show "tk_status t \<notin> terminal_task_statuses" using st by (auto simp: terminal_task_statuses_def)
  have "schedule_ok u"
    using c assms(3)
    by (auto simp: u schedule_ok_def require_schedule_Inr schedule_state_valid_def reschedule_request_valid_def
        validate_task_schedule_window_def split: if_splits)
  moreover have "graph_membership_ok u" using valid by (simp add: u task_valid_def graph_membership_ok_def cong: option.case_cong)
  moreover have "task_texts_ok u" using valid by (simp add: u task_valid_def task_texts_ok_def)
  moreover have "restart_policy_ok u"
    using valid r(1) c(1) by (auto simp: u task_valid_def restart_policy_ok_def require_schedule_Inr)
  moreover have "retry_and_contract_ok d u"
    using valid r by (cases "tk_retry_series t"; cases series)
      (auto simp: u task_valid_def retry_and_contract_ok_def task_retry_attempt_authority_sha256_def)
  moreover have "series_detached u" using assms(2) r(1) by (auto simp: u task_sound_def series_detached_def)
  ultimately show "task_sound d u" by (simp add: task_sound_def task_valid_def)
qed

lemma reschedule_moves:
  assumes "store_shape env s"
  shows "steps env UNIV (reschedule_task env q) s"
  unfolding reschedule_task_def reschedule_new_def keep_schedule_receipt_def
proof (intro moves_intro; (simp add: assms same_graphs_def; fail)?)
  fix t u and x :: unit
  assume x: "raise_if (\<not> reschedule_request_valid q) ValueError = Inr x" and t: "dict_get (ts_tasks s) (rr_task_id q) = Some t"
    and u: "rescheduled_task (te_digest env) t q (te_clock env (ts_clock_reads s)) = Inr u"
  have "task_sound (te_digest env) t" using stored_sound [OF assms(1) t] by simp
  moreover have "is_sha256_text (te_digest env j)" for j using assms by (simp add: store_shape_def env_ok_def)
  ultimately have r: "task_sound (te_digest env) u" "same_identity t u" "leaseless u" "tk_status t \<notin> terminal_task_statuses"
    using rescheduled_sound [OF u] x by (simp_all add: res_simps)
  show "proposal_allowed env (s\<lparr>ts_clock_reads := ts_clock_reads s + 1\<rparr>) u"
    using r assms(1) by (intro change_proposal [OF t]) auto
qed

lemma sound_put_schedule:
  assumes "task_sound d t" "tk_schedule t \<noteq> None" "schedule_ok (t\<lparr>tk_schedule := Some c\<rparr>)"
  shows "task_sound d (t\<lparr>tk_schedule := Some c\<rparr>)"
  using assms
  by (auto simp: task_sound_def task_valid_def task_texts_ok_def restart_policy_ok_def graph_membership_ok_def
      retry_and_contract_ok_def series_detached_def task_retry_attempt_authority_sha256_def cong: option.case_cong)

lemma ends_advanced:
  assumes "ends d t u" "advance_schedule u c = Inr v" "require_schedule t = Inr (c, a)"
  shows "same_identity t v" "tk_status t \<notin> terminal_task_statuses" "leaseless v \<or> keeps_lease t v" "task_sound d v"
proof -
  from assms(2) have v: "v = u\<lparr>tk_schedule := Some (c\<lparr>ss_revision := ss_revision c + 1\<rparr>)\<rparr>" "ss_revision c < max_portable_json_integer"
    by (auto simp: advance_schedule_def res_simps)
  from assms(1,3) have u: "require_schedule u = Inr (c, a)" "task_sound d u" by (simp_all add: ends_def require_schedule_Inr)
  from u(1) have "tk_schedule u \<noteq> None" by (simp add: require_schedule_Inr)
  with sound_put_schedule [OF u(2) this advanced_schedule_ok [OF u(2,1) v(2)]] show "task_sound d v" by (simp add: v(1))
  show "same_identity t v" "tk_status t \<notin> terminal_task_statuses" "leaseless v \<or> keeps_lease t v"
    using assms(1) by (auto simp: v(1) ends_def same_identity_def leaseless_def keeps_lease_def)
qed

lemma cancel_scheduled_moves:
  assumes shape: "store_shape env s"
  shows "steps env UNIV (cancel_scheduled_task env q) s"
  unfolding cancel_scheduled_task_def cancel_scheduled_new_def keep_schedule_receipt_def
proof (intro moves_intro; (simp add: shape same_graphs_def; fail)?)
  let ?s = "s\<lparr>ts_lease_reads := ts_lease_reads s + 1\<rparr>"
  fix t c finished settlement u and x
  assume t: "dict_get (ts_tasks s) (xc_task_id q) = Some t" and c: "require_schedule_mutation t (xc_expected_revision q) = Inr c"
    and x: "prepare_finished_task env (tk_id t) CANCELLED None None None None None None (te_ownership_clock env (ts_lease_reads s)) ?s = Inr x"
    "x = (finished, settlement)" and u: "advance_schedule finished c = Inr u"
  have shape': "store_shape env ?s" using shape by simp
  from prepared_finish [OF x(1) [unfolded x(2)] shape'] obtain t' where
    t': "dict_get (ts_tasks ?s) (tk_id t) = Some t'" "ends (te_digest env) t' finished" by auto
  with t stored_sound [OF shape t] have [simp]: "t' = t" by simp
  from c obtain a where a: "require_schedule t = Inr (c, a)" by (auto simp: schedule_mutation_Inr)
  note e = ends_advanced [OF t'(2) u, unfolded \<open>t' = t\<close>, OF a]
  show "proposal_allowed env ?s u" using e shape' t'(1) by (intro change_proposal [of "ts_tasks ?s" "tk_id t" t]) auto
qed

section \<open>Maintenance and listings\<close>

lemma events_moves: "steps env UNIV (list_task_schedule_events i a n) s"
  unfolding list_task_schedule_events_def by (intro moves_intro)

lemma wakeup_moves: "steps env UNIV (next_task_schedule_wakeup env y) s"
  unfolding next_task_schedule_wakeup_def by (intro moves_intro)

lemma expired_ids_moves: "steps env UNIV (expired_task_event_ids env n) s"
  unfolding expired_task_event_ids_def by (intro moves_intro)

lemma refresh_moves: "steps env UNIV (refresh_task_retry_key env key) s"
  unfolding refresh_task_retry_key_def
  by (intro moves_intro; (simp add: same_graphs_def; fail)?)

lemma admit_session_moves: "steps env UNIV (admit_ordinary_session session cleanup) s"
  unfolding admit_ordinary_session_def by (intro moves_intro) (simp_all add: same_graphs_def)

lemma require_session_moves: "steps env UNIV (require_unretired_task_session session) s"
  unfolding require_unretired_task_session_def by (intro moves_intro)

end
