(* ===== verification/Creation_Steps.thy ===== *)
theory Creation_Steps
  imports Mutation_Steps
begin

text \<open>
  The creation of tasks and of graphs are sequences of abstract steps: a new task is sound, holds no lease,
  and takes an identity that is not stored; a graph writes all its members and then registers them.
\<close>

section \<open>New tasks\<close>

lemma copy_task_create_Inr [simp]:
  "copy_task_create q = Inr q' \<longleftrightarrow> q' = q \<and> task_create_valid q \<and> opt_holds session_binding_valid (tc_session_binding q)"
  by (auto simp: copy_task_create_def)

lemma create_rules:
  assumes "task_create_valid q"
  shows "tc_restartable q \<Longrightarrow> tc_schedule_policy q = None" "tc_restartable q \<Longrightarrow> tc_session_id q = None"
    "tc_retry_policy q \<noteq> None \<Longrightarrow> tc_session_id q = None"
    "tc_schedule_policy q = Some p \<Longrightarrow> \<exists>a. tc_available_at q = Some a \<and> validate_task_schedule_window a p = Inr ()"
    "tc_schedule_policy q \<noteq> None \<Longrightarrow> tc_session_id q = None"
  using assms
  by (auto simp: task_create_valid_def create_restartable_ok_def create_contract_ok_def create_schedule_ok_def split: option.splits)

lemma task_from_create_Inr:
  assumes "task_from_create d q task_id parent supplied retry_started_at event_budget inputs = Inr t"
  obtains invocation now binding series schedule draft where
    "draft = draft_task q task_id binding invocation now" "t = draft\<lparr>tk_retry_series := series, tk_schedule := schedule\<rparr>"
    "task_valid d (draft\<lparr>tk_retry_series := series\<rparr>)" "tc_retry_policy q = None \<Longrightarrow> series = None" "initial_schedule d q = Inr schedule"
  using assms that by (fastforce simp: task_from_create_def Let_def res_simps initial_retry_series_def split: option.splits)

definition created :: "(json \<Rightarrow> string) \<Rightarrow> string \<Rightarrow> task \<Rightarrow> bool" where
  "created d i t \<longleftrightarrow> task_sound d t \<and> leaseless t \<and> tk_id t = i"

lemma initial_schedule_ok:
  assumes "initial_schedule d q = Inr schedule" "task_create_valid q" "tk_available_at t = tc_available_at q"
  shows "schedule_ok (t\<lparr>tk_schedule := schedule\<rparr>)"
  using assms create_rules(4) [OF assms(2)]
  by (auto simp: initial_schedule_def Let_def schedule_ok_def schedule_state_valid_def split: option.splits if_splits)

lemma created_task:
  assumes "task_from_create d q task_id parent supplied retry_started_at event_budget inputs = Inr t" "task_create_valid q"
  shows "created d task_id t" "tk_session_id t = tc_session_id q" "tk_retry_series t \<noteq> None \<Longrightarrow> tk_session_id t = None"
    "tk_restartable t \<Longrightarrow> tk_session_id t = None" "tk_graph_id t = None" "tk_status t = PENDING" "tk_worker_id t = None"
    "tk_interrupted_handoff_id t = None"
proof -
  from assms(1) obtain invocation now binding series schedule draft where
    draft: "draft = draft_task q task_id binding invocation now" and t: "t = draft\<lparr>tk_retry_series := series, tk_schedule := schedule\<rparr>"
    and v: "task_valid d (draft\<lparr>tk_retry_series := series\<rparr>)" and series: "tc_retry_policy q = None \<Longrightarrow> series = None"
    and schedule: "initial_schedule d q = Inr schedule" by (rule task_from_create_Inr) (rule that)
  note s = initial_schedule_ok [OF schedule assms(2)] and c = create_rules [OF assms(2)]
  have plain: "tk_restartable draft \<Longrightarrow> schedule = None"
    using schedule c(1) by (auto simp: draft draft_task_def initial_schedule_def)
  show e: "tk_session_id t = tc_session_id q" "tk_retry_series t \<noteq> None \<Longrightarrow> tk_session_id t = None"
    "tk_restartable t \<Longrightarrow> tk_session_id t = None" "tk_graph_id t = None" "tk_status t = PENDING" "tk_worker_id t = None"
    "tk_interrupted_handoff_id t = None"
    using c(2,3) series by (auto simp: t draft draft_task_def)
  have "schedule_ok (draft\<lparr>tk_retry_series := series, tk_schedule := schedule\<rparr>)" by (rule s) (simp add: draft draft_task_def)
  then have "schedule_ok t" by (simp add: t)
  moreover have "restart_policy_ok t"
    using v plain by (auto simp: t task_valid_def restart_policy_ok_def)
  moreover have "graph_membership_ok t" using v by (simp add: t task_valid_def graph_membership_ok_def cong: option.case_cong)
  moreover have "retry_and_contract_ok d t"
    using v by (simp add: t task_valid_def retry_and_contract_ok_def task_retry_attempt_authority_sha256_def cong: option.case_cong)
  moreover have "task_texts_ok t" using v by (simp add: t task_valid_def task_texts_ok_def)
  moreover have "series_detached t" using e(2) by (cases "tk_retry_series t") (simp_all add: series_detached_def)
  ultimately have "task_sound d t" by (simp add: task_sound_def task_valid_def)
  moreover have "leaseless t" using e(6) by (simp add: leaseless_def)
  moreover have "tk_id t = task_id" by (simp add: t draft draft_task_def)
  ultimately show "created d task_id t" by (simp add: created_def)
qed

lemma created_running:
  assumes "running_task_from_create d q task_id parent binding now inputs = Inr t" "task_create_valid q"
  shows "created d task_id t"
proof -
  from assms(1) obtain t0 where t0: "task_from_create d q task_id parent (Some binding) now False inputs = Inr t0"
    and t: "tk_session_id t0 \<noteq> None" "t = t0\<lparr>tk_status := RUNNING, tk_started_at := Some (tk_created_at t0)\<rparr>"
    by (auto simp: running_task_from_create_def Let_def res_simps split: if_splits)
  note c = created_task [OF t0 assms(2)]
  have sound: "task_sound d t0" using c(1) by (simp add: created_def)
  have id: "same_identity t0 t" by (simp add: t(2) same_identity_def)
  have "fields_ok t" using sound_fields [OF sound] c(8) by (auto simp: t(2) fields_ok_def)
  with sound id have "task_sound d t" by (intro sound_change [OF sound id]) (auto simp: t(2))
  with c(1,7) show ?thesis by (simp add: created_def leaseless_def t(2))
qed

section \<open>Creation of one task\<close>

lemma steps_quiet: "quiet m \<Longrightarrow> (\<And>x s'. ts_tasks s' = ts_tasks s \<Longrightarrow> same_graphs s s' \<Longrightarrow> steps env W (f x) s') \<Longrightarrow> steps env W (bind_act m f) s"
proof (rule moves_bind)
  assume q: "quiet m" and f: "\<And>x s'. ts_tasks s' = ts_tasks s \<Longrightarrow> same_graphs s s' \<Longrightarrow> steps env W (f x) s'"
  from q show "steps env W m s" by (auto simp: quiet_def intro: moves_one store_step.idle)
  fix x s' assume "m s = (Inr x, s')"
  from quietD [OF q this] f show "steps env W (f x) s'" by simp
qed

lemma quiet_admit: "quiet (admit_created_task env q t)"
  unfolding admit_created_task_def
  by (auto intro!: quiet_bind quiet_modify simp: same_graphs_def split: option.split prod.split)

lemma quiet_contract: "quiet (check_contract q)"
  unfolding check_contract_def require_work_contract_def ensure_contract_session_accepts_attachment_def
  by (auto intro!: quiet_bind split: option.split)

lemma quiet_key: "quiet (case state of None \<Rightarrow> return_act () | Some k \<Rightarrow> modify_act (put_retry_key k))"
  by (auto intro!: quiet_modify simp: put_retry_key_def same_graphs_def split: option.split)

lemma created_write:
  "created (te_digest env) i t \<Longrightarrow> dict_get (ts_tasks s) (tk_id t) = None \<Longrightarrow> write_allowed env s t \<and> proposal_allowed env s t"
  by (simp add: created_def write_allowed_def proposal_allowed_def)

lemma create_new_moves:
  assumes q: "task_create_valid q"
  shows "steps env UNIV (create_new env q i inputs) s"
  unfolding create_new_def
proof (intro moves_intro)
  fix parent
  show "steps env UNIV (bind_act (check_contract q) (\<lambda>_.
     bind_act (read_clock env) (\<lambda>admission_now.
     bind_act (lift_res (task_from_create (te_digest env) q i (map_option provenance_of parent) None admission_now True inputs)) (\<lambda>t.
     bind_act (query_act (\<lambda>s. raise_if (dict_get (ts_tasks s) (tk_id t) \<noteq> None) ValueError)) (\<lambda>_.
     bind_act (admit_created_task env q t) (\<lambda>state.
     bind_act (query_act (prepare_task_write env t None)) (\<lambda>w.
     bind_act (case state of None \<Rightarrow> return_act () | Some k \<Rightarrow> modify_act (put_retry_key k)) (\<lambda>_.
     bind_act (publish_prepared_task_write env (Some admission_now) w) (\<lambda>_. return_act t))))))))) s"
  proof (rule steps_quiet [OF quiet_contract], intro steps_read_clock steps_lift steps_query steps_quiet [OF quiet_admit] steps_quiet [OF quiet_key])
    fix s1 s2 s3 :: task_store and t w and x :: unit
    let ?s1 = "s1\<lparr>ts_clock_reads := ts_clock_reads s1 + 1\<rparr>"
    assume t: "task_from_create (te_digest env) q i (map_option provenance_of parent) None (te_clock env (ts_clock_reads s1)) True inputs = Inr t"
      and x: "raise_if (dict_get (ts_tasks ?s1) (tk_id t) \<noteq> None) ValueError = Inr x"
      and s: "ts_tasks s2 = ts_tasks ?s1" "ts_tasks s3 = ts_tasks s2" and w: "prepare_task_write env t None s2 = Inr w"
    from created_task(1) [OF t q] have "write_allowed env s3 (pw_task w)"
      using created_write [of env i t s3] x s by (simp add: prepare_task [OF w] res_simps)
    then show "steps env UNIV (bind_act (publish_prepared_task_write env (Some (te_clock env (ts_clock_reads s1))) w) (\<lambda>_. return_act t)) s3"
      by (intro moves_bind publish_moves) simp_all
  qed
qed

lemma create_moves: "steps env UNIV (create_task env q inputs) s"
  unfolding create_task_def
proof (intro moves_intro)
  fix q' assume "copy_task_create q = Inr q'"
  let ?i = "case tc_task_id q' of None \<Rightarrow> fi_task_id inputs | Some i \<Rightarrow> i"
  have "steps env UNIV (create_new env q' ?i inputs) s" using \<open>copy_task_create q = Inr q'\<close> by (intro create_new_moves) simp
  then show "steps env UNIV (\<lambda>s. case (tc_schedule_policy q', dict_get (ts_tasks s) ?i) of
            (Some _, Some t) \<Rightarrow>
              (case tk_schedule t of
                 None \<Rightarrow> Inl TaskScheduleConflict
               | Some c \<Rightarrow> if ss_creation_sha256 c \<noteq> schedule_creation_digest (te_digest env) q' then Inl TaskScheduleConflict else Inr t, s)
          | _ \<Rightarrow> create_new env q' ?i inputs s) s"
    by (cases "tc_schedule_policy q'"; cases "dict_get (ts_tasks s) ?i") (simp_all add: moves_def)
qed

lemma create_running_moves:
  assumes "store_shape env s"
  shows "steps env UNIV (create_running_task env q binding inputs) s"
  unfolding create_running_task_def store_and_return_def
proof (intro moves_intro)
  fix q' binding' parent
  assume q: "copy_task_create q = Inr q'"
  let ?i = "case tc_task_id q' of None \<Rightarrow> fi_task_id inputs | Some i \<Rightarrow> i"
  show "steps env UNIV (bind_act (check_contract q') (\<lambda>_.
        bind_act (read_clock env) (\<lambda>now.
        bind_act (lift_res (running_task_from_create (te_digest env) q' ?i (map_option provenance_of parent) binding' now inputs)) (\<lambda>t.
        bind_act (query_act (\<lambda>s. raise_if (dict_get (ts_tasks s) (tk_id t) \<noteq> None) ValueError)) (\<lambda>_.
        bind_act (store_task env t None) (\<lambda>_. return_act t)))))) s"
  proof (rule steps_quiet [OF quiet_contract], intro moves_intro)
    fix s1 :: task_store and t and x :: unit
    let ?s1 = "s1\<lparr>ts_clock_reads := ts_clock_reads s1 + 1\<rparr>"
    assume s1: "ts_tasks s1 = ts_tasks s" "same_graphs s s1"
      and t: "running_task_from_create (te_digest env) q' ?i (map_option provenance_of parent) binding' (te_clock env (ts_clock_reads s1)) inputs = Inr t"
      and x: "raise_if (dict_get (ts_tasks ?s1) (tk_id t) \<noteq> None) ValueError = Inr x"
    show "store_shape env ?s1" using shape_reads [OF s1 assms] by simp
    from created_running [OF t] q x show "proposal_allowed env ?s1 t"
      using created_write [of env ?i t ?s1] by (simp add: res_simps)
  qed
qed

section \<open>Creation of a graph\<close>

text \<open>The members admitted so far.\<close>

definition members_ok :: "admission_context \<Rightarrow> string set \<Rightarrow> (string, task) dict \<Rightarrow> bool" where
  "members_ok c ids p \<longleftrightarrow> dict_ok p \<and> (\<forall>i t. dict_get p i = Some t \<longrightarrow> i \<in> ids \<and> created (ac_digest c) i t)"

lemma admitted_created:
  assumes "admitted_member c prepared n = Inr t" "task_create_valid (gn_task n)"
  shows "created (ac_digest c) (node_id n) t"
proof -
  from assms(1) obtain t0 parent where t0: "task_from_create (ac_digest c) (gn_task n) (node_id n) parent None (ac_now c) False (ac_fresh c (node_id n)) = Inr t0"
    and t: "t = t0\<lparr>tk_graph_id := Some (ac_graph_id c), tk_prerequisite_task_ids := gn_prerequisites n,
      tk_status := (if gn_prerequisites n = [] then PENDING else WAITING_DEPENDENCIES)\<rparr>" and v: "task_valid (ac_digest c) t"
    by (auto simp: admitted_member_def Let_def res_simps split: if_split_asm)
  note c = created_task [OF t0 assms(2)]
  have "series_detached t" using c(3) by (cases "tk_retry_series t0") (simp_all add: series_detached_def t)
  with v c(1,7) show ?thesis by (simp add: created_def task_sound_def leaseless_def t)
qed

lemma admit_pass_ok:
  assumes "admit_pass c ns p = Inr (p', left)" "members_ok c ids p" "\<And>n. n \<in> set ns \<Longrightarrow> node_id n \<in> ids \<and> task_create_valid (gn_task n)"
  shows "members_ok c ids p' \<and> set left \<subseteq> set ns"
  using assms
proof (induction c ns p arbitrary: p' left rule: admit_pass.induct)
  case (2 c n ns prepared)
  show ?case
  proof (cases "awaits_parent c prepared n")
    case True
    with "2.prems"(1) obtain left' where l: "admit_pass c ns prepared = Inr (p', left')" "left = n # left'" by (auto simp: res_simps)
    from "2.IH"(1) [OF True l(1) "2.prems"(2)] "2.prems"(3) l(2) show ?thesis by auto
  next
    case False
    with "2.prems"(1) obtain t where t: "admitted_member c prepared n = Inr t" "admit_pass c ns (dict_put (tk_id t) t prepared) = Inr (p', left)"
      by (auto simp: res_simps)
    have "created (ac_digest c) (node_id n) t" using admitted_created [OF t(1)] "2.prems"(3) by simp
    with "2.prems"(2,3) have "members_ok c ids (dict_put (tk_id t) t prepared)" by (auto simp: members_ok_def dict_simps created_def)
    from "2.IH"(2) [OF False t(1) t(2) this] "2.prems"(3) show ?thesis by auto
  qed
qed simp

lemma admit_nodes_ok:
  "admit_nodes c ns p = Inr p' \<Longrightarrow> members_ok c ids p \<Longrightarrow> (\<And>n. n \<in> set ns \<Longrightarrow> node_id n \<in> ids \<and> task_create_valid (gn_task n)) \<Longrightarrow>
   members_ok c ids p'"
proof (induction c ns p rule: admit_nodes.induct)
  case (1 c ns p)
  show ?case
  proof (cases "ns = []")
    case False
    with "1.prems"(1) obtain q left where q: "admit_pass c ns p = Inr (q, left)" "length left < length ns" "admit_nodes c left q = Inr p'"
      by (subst (asm) admit_nodes.simps) (auto split: sum.splits if_splits)
    note ok = admit_pass_ok [OF q(1) "1.prems"(2,3)]
    with "1.IH" [OF False q(1) refl q(2,3)] "1.prems"(3) show ?thesis by blast
  qed (use "1.prems" in \<open>simp add: admit_nodes.simps\<close>)
qed

lemma copied_nodes:
  assumes "copy_task_graph_create q = Inr q'" "n \<in> set (gq_nodes q')"
  shows "task_create_valid (gn_task n)"
  using assms
  by (auto simp: copy_task_graph_create_def Let_def bind_res_eq_Inr graph_node_valid_def copied_node_def list_all_iff split: if_split_asm)

lemma admission_members:
  assumes "prepare_graph_admission c q sha = Inr (receipt, prepared, events)" "\<And>n. n \<in> set (gq_nodes q) \<Longrightarrow> task_create_valid (gn_task n)"
  shows "members_ok c (node_id ` set (gq_nodes q)) prepared"
proof -
  from assms(1) have "admit_nodes c (gq_nodes q) [] = Inr prepared"
    by (auto simp: prepare_graph_admission_def Let_def bind_res_eq_Inr split: if_split_asm)
  then show ?thesis by (rule admit_nodes_ok) (use assms(2) in \<open>auto simp: members_ok_def\<close>)
qed

lemma dict_merge_get: "dict_get (dict_merge a b) k \<noteq> None \<longleftrightarrow> dict_get a k \<noteq> None \<or> k \<in> fst ` set b"
  by (induction b arbitrary: a) (auto simp: dict_merge_def dict_simps split: if_splits)

lemma published_index:
  "dict_get (ts_graph_by_task (publish_graph g receipt prepared events s)) i \<noteq> None \<longleftrightarrow>
   dict_get (ts_graph_by_task s) i \<noteq> None \<or> i \<in> fst ` set prepared"
proof -
  have "fst ` set (map (\<lambda>(i, _). (i, g)) prepared) = fst ` set prepared" by force
  then show ?thesis
    using dict_merge_get [of "ts_graph_by_task s" "map (\<lambda>(i, _). (i, g)) prepared" i] by (simp add: publish_graph_def)
qed

lemma publish_graph_step: "store_step env UNIV s (publish_graph g receipt prepared events s)"
proof (rule store_step.registered)
  assume l: "linked s"
  show "linked (publish_graph g receipt prepared events s)"
    unfolding linked_def
  proof (intro allI impI)
    fix h ms i
    assume ms: "dict_get (ts_graph_members (publish_graph g receipt prepared events s)) h = Some ms" "i \<in> fst ` set ms"
    have "dict_get (ts_graph_by_task s) i \<noteq> None \<or> i \<in> fst ` set prepared"
      using ms l by (cases "h = g") (force simp: publish_graph_def dict_simps linked_def)+
    then show "dict_get (ts_graph_by_task (publish_graph g receipt prepared events s)) i \<noteq> None"
      unfolding published_index .
  qed
next
  fix i assume "member s i"
  then show "member (publish_graph g receipt prepared events s) i"
    unfolding member_def published_index ..
qed (simp_all add: publish_graph_def)

lemma steps_publish_graph: "(\<And>s'. steps env UNIV (f ()) s') \<Longrightarrow> steps env UNIV (bind_act (modify_act (publish_graph g receipt prepared events)) f) s"
  by (intro moves_bind moves_modify publish_graph_step) simp

lemma create_graph_moves:
  assumes "\<And>n. n \<in> set (gq_nodes q) \<Longrightarrow> task_create_valid (gn_task n)"
  shows "steps env UNIV (create_graph_new env inputs q sha) s"
  unfolding create_graph_new_def
proof (intro steps_query steps_read_clock steps_pair)
  let ?s = "s\<lparr>ts_clock_reads := ts_clock_reads s + 1\<rparr>"
  fix parents x receipt yz prepared events writes and z :: unit
  assume z: "raise_if (graph_occupied q s) TaskGraphConflict = Inr z"
    and x: "prepare_graph_admission (admission_context_of env inputs q (te_clock env (ts_clock_reads s)) parents ?s) q sha = Inr x"
    "x = (receipt, yz)" "yz = (prepared, events)"
    and writes: "traverse_res (\<lambda>t. prepare_task_write env t None ?s) (dict_values prepared) = Inr writes"
  let ?c = "admission_context_of env inputs q (te_clock env (ts_clock_reads s)) parents ?s"
  have m: "members_ok ?c (node_id ` set (gq_nodes q)) prepared"
    using admission_members [OF x(1) [unfolded x(2,3)] assms] .
  have tasks: "map pw_task writes = dict_values prepared" using traverse_prepared [OF writes] .
  have in_store: "\<exists>i. dict_get prepared i = Some v \<and> created (te_digest env) i v \<and> dict_get (ts_tasks s) i = None" if "v \<in> set (map pw_task writes)" for v
  proof -
    from that m obtain i where i: "dict_get prepared i = Some v" unfolding tasks by (auto simp: dict_values_def members_ok_def dict_in_set)
    with m have v: "i \<in> node_id ` set (gq_nodes q)" "created (te_digest env) i v"
      by (simp_all add: members_ok_def admission_context_of_def)
    from v(1) z have "dict_get (ts_tasks s) i = None" by (auto simp: graph_occupied_def res_simps list_ex_iff)
    with i v(2) show ?thesis by blast
  qed
  have "steps env UNIV (each_act (publish_prepared_task_write env None) writes) ?s"
  proof (rule batch_moves [where k = "[]"])
    fix v assume "v \<in> set (map pw_task writes)"
    from in_store [OF this] show "write_allowed env ?s v" "tk_id v = [] \<or> leaseless v"
      by (auto simp: write_allowed_def created_def)
  next
    fix a b assume "a \<in> set (map pw_task writes)" "b \<in> set (map pw_task writes)" "tk_id a = tk_id b"
    with in_store show "a = b" by (metis created_def option.inject)
  qed simp
  then show "steps env UNIV (bind_act (each_act (publish_prepared_task_write env None) writes) (\<lambda>_.
     bind_act (modify_act (publish_graph (gq_graph_id q) receipt prepared events)) (\<lambda>_. return_act receipt))) ?s"
    by (intro moves_bind steps_publish_graph) simp_all
qed

lemma create_task_graph_moves: "steps env UNIV (create_task_graph env inputs q) s"
  unfolding create_task_graph_def
  by (intro moves_intro create_graph_moves) (auto dest: copied_nodes)

end
