(* ===== verification/Store_Runs.thy ===== *)
theory Store_Runs
  imports Creation_Steps
begin

text \<open>
  The task store as a machine: every public operation, with its arguments, as one transition of the state,
  whether it answers or raises, and what holds after any sequence of operations on a new store.
\<close>

section \<open>Operations as transitions\<close>

text \<open>
  One constructor per public coroutine of the store that is modelled.  Fresh inputs of a creation are
  arguments; \<open>Hold\<close> stands for \<open>pause_task\<close>, \<open>block_task\<close> and \<open>mark_task_needs_attention\<close>, and
  \<open>Settle_Handoff\<close> for the release and the recovery of an interrupted worker.
\<close>

datatype store_op =
    Create_Task task_create fresh_inputs
  | Create_Running_Task task_create session_binding fresh_inputs
  | Create_Graph graph_create "string \<Rightarrow> fresh_inputs"
  | Claim string task_query int
  | Heartbeat string string datetime "string option" int
  | Release string string datetime
  | Release_Attached string string datetime
  | Reclaim task_query int
  | Start string "string option" "session_binding option"
  | Attach string string session_binding string "datetime option"
  | Mark_Started string string datetime
  | Restart string string datetime
  | Restart_Abandoned abandoned_restart_request
  | Hold string task_status "string option" "json_object option"
  | Resume string
  | Complete "lease_authority option" string json_object "string option" "datetime option" "string option"
  | Fail "lease_authority option" string json_object "string option" "datetime option" "string option"
  | Cancel string "json_object option"
  | Request_Cancellation string string datetime "json_object option"
  | Terminalize terminalization_request
  | Recover_Attached terminalization_request string string
  | Settle_Handoff handoff_request bool
  | Claim_Continuation string task_query string "string option" "continuation_expectation option" int
      "(datetime \<times> string) option" int
  | Settle_Attempt retry_settlement_request
  | Enforce_Deadline string string datetime int rat
  | Deadline_Elapsed string string datetime
  | Reschedule reschedule_request
  | Cancel_Scheduled schedule_cancel_request
  | Next_Wakeup task_query
  | Refresh_Retry_Key string
  | Expired_Events int
  | Admit_Ordinary_Session string bool

primrec apply_op :: "store_env \<Rightarrow> store_op \<Rightarrow> task_store \<Rightarrow> task_store" where
  "apply_op env (Create_Task q inputs) s = snd (create_task env q inputs s)"
| "apply_op env (Create_Running_Task q b inputs) s = snd (create_running_task env q b inputs s)"
| "apply_op env (Create_Graph q inputs) s = snd (create_task_graph env inputs q s)"
| "apply_op env (Claim w y n) s = snd (claim_task env w y n s)"
| "apply_op env (Heartbeat i w lease h n) s = snd (heartbeat_task env i w lease h n s)"
| "apply_op env (Release i w lease) s = snd (release_task env i w lease s)"
| "apply_op env (Release_Attached i w lease) s = snd (release_attached_task_worker env i w lease s)"
| "apply_op env (Reclaim y n) s = snd (reclaim_expired env y n s)"
| "apply_op env (Start i session b) s = snd (start_task env i session b s)"
| "apply_op env (Attach i session b w lease) s = snd (attach_task env i session b w lease s)"
| "apply_op env (Mark_Started i w lease) s = snd (mark_claimed_task_execution_started env i w lease s)"
| "apply_op env (Restart i w lease) s = snd (restart_task env i w lease s)"
| "apply_op env (Restart_Abandoned q) s = snd (restart_abandoned_task env q s)"
| "apply_op env (Hold i st reason payload) s = snd (hold_task env i st reason payload s)"
| "apply_op env (Resume i) s = snd (resume_task env i s)"
| "apply_op env (Complete a i result w lease h) s = snd (complete_task env a i result w lease h s)"
| "apply_op env (Fail a i error w lease h) s = snd (fail_task env a i error w lease h s)"
| "apply_op env (Cancel i error) s = snd (cancel_task env i error s)"
| "apply_op env (Request_Cancellation i w lease error) s = snd (request_claimed_task_cancellation env i w lease error s)"
| "apply_op env (Terminalize q) s = snd (terminalize_task env q s)"
| "apply_op env (Recover_Attached q session instance_id) s = snd (recover_attached_task_failure env q session instance_id s)"
| "apply_op env (Settle_Handoff q expired) s = snd (settle_interrupted_task_handoff env q expired s)"
| "apply_op env (Claim_Continuation w y h i e n after limit) s =
     snd (claim_interrupted_task_continuation env w y h i e n after limit s)"
| "apply_op env (Settle_Attempt q) s = snd (settle_task_retry_attempt env q s)"
| "apply_op env (Enforce_Deadline i w lease tokens cost) s = snd (enforce_task_retry_deadline env i w lease tokens cost s)"
| "apply_op env (Deadline_Elapsed i w lease) s = snd (task_retry_deadline_elapsed env i w lease s)"
| "apply_op env (Reschedule q) s = snd (reschedule_task env q s)"
| "apply_op env (Cancel_Scheduled q) s = snd (cancel_scheduled_task env q s)"
| "apply_op env (Next_Wakeup y) s = snd (next_task_schedule_wakeup env y s)"
| "apply_op env (Refresh_Retry_Key k) s = snd (refresh_task_retry_key env k s)"
| "apply_op env (Expired_Events n) s = snd (expired_task_event_ids env n s)"
| "apply_op env (Admit_Ordinary_Session session cleanup) s = snd (admit_ordinary_session session cleanup s)"

definition run_ops :: "store_env \<Rightarrow> store_op list \<Rightarrow> task_store \<Rightarrow> task_store" where
  "run_ops env ops s = fold (apply_op env) ops s"

lemmas operation_moves =
  create_moves create_running_moves create_task_graph_moves claim_moves heartbeat_moves release_moves release_attached_moves
  reclaim_moves start_moves attach_moves mark_started_moves restart_moves restart_abandoned_moves hold_moves resume_moves
  complete_moves fail_moves cancel_moves request_cancellation_moves terminalize_moves recover_moves handoff_moves
  continuation_moves settle_attempt_moves enforce_deadline_moves deadline_elapsed_moves reschedule_moves
  cancel_scheduled_moves wakeup_moves refresh_moves expired_ids_moves admit_session_moves

lemma op_steps: "store_shape env s \<Longrightarrow> (store_step env UNIV)\<^sup>*\<^sup>* s (apply_op env op s)"
  by (cases op) (simp_all only: apply_op.simps operation_moves [unfolded moves_def])

lemma ops_steps: "store_shape env s \<Longrightarrow> (store_step env UNIV)\<^sup>*\<^sup>* s (run_ops env ops s)"
proof (induction ops arbitrary: s)
  case (Cons op ops)
  note first = op_steps [OF Cons.prems, of op]
  from Cons.IH [OF run_shape [OF first Cons.prems]] first show ?case by (simp add: run_ops_def)
qed (simp add: run_ops_def)

lemma new_store_shape: "env_ok env \<Longrightarrow> store_shape env new_task_store"
  by (simp add: store_shape_def keyed_def linked_def sole_holders_def new_task_store_def)

lemma reached_shape: "env_ok env \<Longrightarrow> store_shape env (run_ops env ops new_task_store)"
  using run_shape [OF ops_steps [OF new_store_shape]] new_store_shape by blast

lemma run_ops_append: "run_ops env (xs @ ys) s = run_ops env ys (run_ops env xs s)"
  by (simp add: run_ops_def)

text \<open>A terminal task does not change.\<close>

lemma step_terminal:
  assumes "store_step env W s s'" "dict_get (ts_tasks s) i = Some t" "tk_status t \<in> terminal_task_statuses" "store_shape env s"
  shows "dict_get (ts_tasks s') i = Some t"
  using assms(1)
proof (cases rule: store_step.cases)
  case (written u)
  show ?thesis
  proof (cases "i = tk_id u")
    case True
    with written(1) assms(2,3) have "u = t" by (simp add: write_allowed_def change_allowed_def)
    with True written(3) show ?thesis by (simp add: dict_simps)
  next
    case False
    with written(3) assms(2) show ?thesis by (simp add: dict_simps)
  qed
qed (use assms(2) in simp_all)

lemma run_terminal:
  assumes "(store_step env W)\<^sup>*\<^sup>* s s'" "dict_get (ts_tasks s) i = Some t" "tk_status t \<in> terminal_task_statuses" "store_shape env s"
  shows "dict_get (ts_tasks s') i = Some t"
  using assms(1)
proof (induction rule: rtranclp_induct)
  case (step y z)
  from step_terminal [OF step.hyps(2) step.IH assms(3) run_shape [OF step.hyps(1) assms(4)]] show ?case .
qed (use assms(2) in simp)

lemma reached_sound:
  assumes "env_ok env" "dict_get (ts_tasks (run_ops env ops new_task_store)) i = Some t"
  shows "tk_id t = i \<and> task_valid (te_digest env) t \<and> (tk_retry_series t = None \<or> tk_session_id t = None)"
  using stored_sound [OF reached_shape [OF assms(1)] assms(2)] by (simp add: task_sound_def series_detached_def)

section \<open>A sample store\<close>

text \<open>Two tasks of one event share a concurrency key; the first is claimed, the second is refused and then cancelled.\<close>

definition sample_env :: store_env where
  "sample_env = \<lparr>te_digest = zero_digest, te_clock = (\<lambda>n. int n), te_ownership_clock = (\<lambda>n. int n)\<rparr>"

definition sample_create :: "string \<Rightarrow> task_create" where
  "sample_create i = \<lparr>tc_task_id = Some i, tc_type = ''review'', tc_title = None, tc_description = None, tc_session_id = None,
     tc_parent_task_id = None, tc_assigned_agent_name = None, tc_available_at = None, tc_schedule_policy = None,
     tc_input = fmempty, tc_metadata = fmempty, tc_retry_policy = None, tc_event_id = None, tc_retry_key = Some ''order'',
     tc_retry_budget = None, tc_concurrency_key = Some ''lane'', tc_restartable = False, tc_max_restarts = None,
     tc_work_contract = None, tc_invocation_origin = None, tc_verified_origin = None, tc_source = None, tc_session_binding = None\<rparr>"

definition sample_inputs :: fresh_inputs where
  "sample_inputs = \<lparr>fi_task_id = ''t'', fi_root_invocation_id = ''root'', fi_now = 0\<rparr>"

definition sample_start :: "store_op list" where
  "sample_start = [Create_Task (sample_create ''a'') sample_inputs, Create_Task (sample_create ''b'') sample_inputs,
     Claim ''w'' any_task 60, Claim ''v'' any_task 60]"

definition sample_later :: "store_op list" where
  "sample_later = [Cancel ''b'' None]"

definition sample_store :: task_store where
  "sample_store = run_ops sample_env sample_start new_task_store"

definition sample_stored :: "string \<Rightarrow> task_store \<Rightarrow> task" where
  "sample_stored i s = (case dict_get (ts_tasks s) i of Some t \<Rightarrow> t | None \<Rightarrow> sample_attempt)"

definition sample_end :: task_store where
  "sample_end = run_ops sample_env sample_later sample_store"

lemma sample_env_ok: "env_ok sample_env"
  by (simp add: env_ok_def sample_env_def zero_digest_sha)

lemma sample_facts:
  "dict_get (ts_tasks sample_store) ''a'' \<noteq> None" "dict_get (ts_tasks sample_store) ''b'' \<noteq> None"
  "tk_concurrency_key (sample_stored ''a'' sample_store) = tk_concurrency_key (sample_stored ''b'' sample_store)"
  "holds_live_key_lease (sample_stored ''a'' sample_store) (te_ownership_clock sample_env (ts_lease_reads sample_store))"
  by code_simp+

lemma sample_end_facts: "dict_get (ts_tasks sample_end) ''b'' \<noteq> None" "tk_status (sample_stored ''b'' sample_end) = CANCELLED"
  by code_simp+

lemma sample_get: "dict_get (ts_tasks s) i \<noteq> None \<Longrightarrow> dict_get (ts_tasks s) i = Some (sample_stored i s)"
  by (auto simp: sample_stored_def)

lemma sample_end_run: "sample_end = run_ops sample_env (sample_start @ sample_later) new_task_store"
  by (simp add: sample_end_def sample_store_def run_ops_append)

section \<open>What holds after any operations\<close>

text \<open>
  C11. After any sequence of operations, returning or raising, every stored task is stored under its own
  identity and passes all validators of the task class: texts, restart policy, graph membership, schedule and
  window, retry series with its authority digest, session binding and handoff; and an attempt of a retry
  series is never attached to a session.
\<close>
theorem stored_tasks_valid:
  assumes "env_ok env" "dict_get (ts_tasks (run_ops env ops new_task_store)) i = Some t"
  shows "tk_id t = i \<and> task_valid (te_digest env) t \<and> (tk_retry_series t = None \<or> tk_session_id t = None)"
  by (rule reached_sound [OF assms])

theorem stored_tasks_valid_witness:
  "tk_id (sample_stored ''a'' sample_store) = ''a'' \<and> task_valid (te_digest sample_env) (sample_stored ''a'' sample_store) \<and>
   (tk_retry_series (sample_stored ''a'' sample_store) = None \<or> tk_session_id (sample_stored ''a'' sample_store) = None)"
  using stored_tasks_valid [OF sample_env_ok sample_get [OF sample_facts(1), unfolded sample_store_def], folded sample_store_def] .

text \<open>
  C5. Mutual exclusion: after any sequence of operations, and at every reading the ownership clock can still
  give, no two tasks with the same concurrency key hold a live lease, whatever claims, heartbeats,
  continuations, reclaims and expiries of leases came before.
\<close>
theorem one_live_lease_per_key:
  assumes "env_ok env" "s = run_ops env ops new_task_store" "ts_lease_reads s \<le> n"
    and "dict_get (ts_tasks s) i = Some t" "dict_get (ts_tasks s) j = Some u" "i \<noteq> j"
    and "tk_concurrency_key t = tk_concurrency_key u" "holds_live_key_lease t (te_ownership_clock env n)"
  shows "\<not> holds_live_key_lease u (te_ownership_clock env n)"
  using reached_shape [OF assms(1), of ops] assms(2-8) unfolding store_shape_def sole_holders_def by blast

theorem one_live_lease_per_key_witness:
  "\<not> holds_live_key_lease (sample_stored ''b'' sample_store) (te_ownership_clock sample_env (ts_lease_reads sample_store))"
  by (rule one_live_lease_per_key [OF sample_env_ok sample_store_def order_refl sample_get [OF sample_facts(1)]
      sample_get [OF sample_facts(2)] _ sample_facts(3,4)]) simp

end
