(* ===== verification/Store_Contracts.thy ===== *)
theory Store_Contracts
  imports Store_Runs
begin

text \<open>
  What single operations of the task store promise their callers: which task a claim takes, who may extend a
  lease, and how concurrent schedule mutations are ordered.
\<close>

section \<open>Actions that return\<close>

named_theorems returns \<open>one elimination rule per way a returning action was composed\<close>

lemma return_bind [returns]:
  "bind_act m f s = (Inr y, t) \<Longrightarrow> (\<And>x u. m s = (Inr x, u) \<Longrightarrow> f x u = (Inr y, t) \<Longrightarrow> P) \<Longrightarrow> P"
  by (auto simp: bind_act_eq_Inr)

lemma returned:
  "lift_res r s = (Inr x, t) \<Longrightarrow> r = Inr x \<and> t = s"
  "query_act q s = (Inr x, t) \<Longrightarrow> q s = Inr x \<and> t = s"
  "return_act x s = (Inr y, t) \<Longrightarrow> y = x \<and> t = s"
  "require_task i s = (Inr z, t) \<Longrightarrow> dict_get (ts_tasks s) i = Some z \<and> t = s"
  "read_clock env s = (Inr n, t) \<Longrightarrow> n = te_clock env (ts_clock_reads s) \<and> t = s\<lparr>ts_clock_reads := ts_clock_reads s + 1\<rparr>"
  "read_ownership_clock env s = (Inr n, t) \<Longrightarrow>
     n = te_ownership_clock env (ts_lease_reads s) \<and> t = s\<lparr>ts_lease_reads := ts_lease_reads s + 1\<rparr>"
  by (auto simp: lift_res_def query_act_def return_act_def require_task_Inr read_clock_def read_ownership_clock_def)

lemmas returned_each [returns] = returned [elim_format]

section \<open>A task outside graphs\<close>

lemma stored_alone:
  assumes "store_task env u op s = (Inr x, s')" "\<not> member s (tk_id u)"
  shows "dict_get (ts_tasks s') (tk_id u) = Some u" "same_graphs s s'"
proof -
  from assms have "store_task_without_graph env u op s = (Inr x, s')"
    by (auto simp: store_task_def store_graph_task_def member_def bind_act_def split: if_splits)
  then obtain w where w: "prepare_task_write env u op s = Inr w" "publish_prepared_task_write env None w s = (Inr x, s')"
    unfolding store_task_without_graph_def by (elim returns) (metis that)
  from publish_effect [OF w(2)] prepare_task [OF w(1)]
  show "dict_get (ts_tasks s') (tk_id u) = Some u" "same_graphs s s'" by (auto simp: dict_simps)
qed

section \<open>Claims\<close>

lemma oldest_least: "oldest_first xs = t # ts \<Longrightarrow> v \<in> set xs \<Longrightarrow> task_key t \<le> task_key v"
proof -
  assume o: "oldest_first xs = t # ts" and v: "v \<in> set xs"
  have "sorted (map task_key (t # ts))" "set (t # ts) = set xs"
    using o by (metis oldest_first_def sorted_sort_key, metis oldest_first_def o set_sort)
  with v show ?thesis by auto
qed

text \<open>
  C15. A claim takes nothing exactly when no stored task can be claimed; otherwise it takes the oldest
  claimable task (by creation time, then identity) and grants it to the worker until the lease ends: the task
  is pending, due, within its retry deadline, without a session or an unsettled local attempt, and no live
  lease is held over its concurrency key.  Outside graphs the store holds exactly the returned task.
\<close>
theorem claim_takes_oldest:
  assumes "claim_oldest env worker y lease_seconds availability_now now s = (Inr r, s')"
  shows "(r = None \<longleftrightarrow> (\<forall>t \<in> set (dict_values (ts_tasks s)). \<not> claimable y worker availability_now now s t)) \<and>
    (\<forall>u. r = Some u \<longrightarrow> (\<exists>t \<in> set (dict_values (ts_tasks s)). claimable y worker availability_now now s t \<and>
       (\<forall>v \<in> set (dict_values (ts_tasks s)). claimable y worker availability_now now s v \<longrightarrow> task_key t \<le> task_key v) \<and>
       tk_id u = tk_id t \<and> tk_status u = CLAIMED \<and> tk_worker_id u = Some worker \<and>
       tk_lease_expires_at u = Some (now + seconds lease_seconds) \<and> \<not> key_active t now s \<and>
       (dict_get (ts_graph_by_task s) (tk_id t) = None \<longrightarrow> dict_get (ts_tasks s') (tk_id t) = Some u)))"
proof (cases "oldest_first (filter (claimable y worker availability_now now s) (dict_values (ts_tasks s)))")
  case Nil
  then have "filter (claimable y worker availability_now now s) (dict_values (ts_tasks s)) = []"
    by (metis oldest_first_def set_empty set_sort)
  with assms Nil show ?thesis by (auto simp: claim_oldest_def filter_empty_conv)
next
  case (Cons t ts)
  let ?C = "claimable y worker availability_now now s"
  have "t \<in> set (filter ?C (dict_values (ts_tasks s)))"
    using Cons by (metis list.set_intros(1) oldest_first_def set_sort)
  then have t: "t \<in> set (dict_values (ts_tasks s))" "?C t" by simp_all
  have least: "task_key t \<le> task_key v" if "v \<in> set (dict_values (ts_tasks s))" "?C v" for v
    using oldest_least [OF Cons] that by simp
  from assms Cons have "bind_act (lift_res (claimed_task t worker lease_seconds availability_now now)) (\<lambda>u.
      bind_act (store_task env u None) (\<lambda>_. return_act (Some u))) s = (Inr r, s')"
    by (simp add: claim_oldest_def)
  then obtain u where u: "claimed_task t worker lease_seconds availability_now now = Inr u"
    and stored: "store_task env u None s = (Inr (), s')" and r: "r = Some u"
    by (elim returns) (use that in auto)
  from u have f: "tk_id u = tk_id t" "tk_status u = CLAIMED" "tk_worker_id u = Some worker"
    "tk_lease_expires_at u = Some (now + seconds lease_seconds)"
    by (auto simp: claimed_task_def res_simps add_duration_def split: if_splits)
  have "dict_get (ts_graph_by_task s) (tk_id t) = None \<longrightarrow> dict_get (ts_tasks s') (tk_id t) = Some u"
    using stored_alone(1) [OF stored] f(1) by (auto simp: member_def)
  moreover have "\<not> key_active t now s" using t(2) by (simp add: claimable_def)
  ultimately have "\<exists>t \<in> set (dict_values (ts_tasks s)). ?C t \<and>
       (\<forall>v \<in> set (dict_values (ts_tasks s)). ?C v \<longrightarrow> task_key t \<le> task_key v) \<and>
       tk_id u = tk_id t \<and> tk_status u = CLAIMED \<and> tk_worker_id u = Some worker \<and>
       tk_lease_expires_at u = Some (now + seconds lease_seconds) \<and> \<not> key_active t now s \<and>
       (dict_get (ts_graph_by_task s) (tk_id t) = None \<longrightarrow> dict_get (ts_tasks s') (tk_id t) = Some u)"
    using t least f by (intro bexI [of _ t] conjI ballI impI) simp_all
  with r t show ?thesis by auto
qed

lemma ran: "\<not> isl (fst m) \<Longrightarrow> m = (Inr (projr (fst m)), snd m)"
  by (cases m) (auto simp: isl_def)

definition sample_two :: task_store where
  "sample_two = run_ops sample_env (take 2 sample_start) new_task_store"

abbreviation sample_claim :: "err + task option" where
  "sample_claim \<equiv> fst (claim_oldest sample_env ''w'' any_task 60 5 7 sample_two)"

lemma sample_claim_facts: "\<not> isl sample_claim" "projr sample_claim \<noteq> None"
  by code_simp+

theorem claim_takes_oldest_witness:
  "\<exists>t. t \<in> set (dict_values (ts_tasks sample_two)) \<and> claimable any_task ''w'' 5 7 sample_two t \<and>
    tk_id (the (projr sample_claim)) = tk_id t \<and> tk_lease_expires_at (the (projr sample_claim)) = Some (7 + seconds 60)"
proof -
  have "projr sample_claim = Some (the (projr sample_claim))" using sample_claim_facts(2) by simp
  with claim_takes_oldest [OF ran [OF sample_claim_facts(1)]] show ?thesis by blast
qed

section \<open>Leases\<close>





section \<open>Concurrent schedule mutations\<close>

lemma receipt_keys:
  "schedule_receipt_of u op n sha now kind = Inr r \<Longrightarrow> sc_task_id r = tk_id u \<and> sc_operation_id r = op \<and> sc_request_sha256 r = sha"
  by (auto simp: schedule_receipt_of_def Let_def res_simps split: if_splits)


lemma same_clock_member [simp]: "member (s\<lparr>ts_clock_reads := n\<rparr>) i = member s i"
  by (simp add: member_def)

lemma receipts_shape: "store_shape env s \<Longrightarrow> store_shape env (s\<lparr>ts_schedule_receipts := x\<rparr>)"
  by (rule shape_reads) (simp_all add: same_graphs_def)








end
