(* ===== verification/Store_Retention.thy ===== *)
theory Store_Retention
  imports Store_Runs
begin

text \<open>
  The two coroutines of the store that touch settled tasks: \<open>delete_session_tasks\<close> (\<open>src/cayu/tasks/memory.py\<close>),
  which removes the terminal tasks of a closed session with everything kept under their identities, and
  \<open>scrub_task_failure_text\<close> (with \<open>_failure_scrub.py\<close>), which redacts failure text again.  With them every
  modelled coroutine is a transition, and the refinement and the finality of terminal tasks are stated over
  runs of all of them.
\<close>

section \<open>Deletion\<close>

text \<open>
  The closure claim of the session is an argument: the task identities it retains, if there is one.
  Claims, work attempts and completion documents are not part of the state.
\<close>

definition dict_drop :: "('k \<Rightarrow> bool) \<Rightarrow> ('k, 'v) dict \<Rightarrow> ('k, 'v) dict" where
  "dict_drop gone d = filter (\<lambda>(k, v). \<not> gone k) d"

definition dict_drop_values :: "('v \<Rightarrow> bool) \<Rightarrow> ('k, 'v) dict \<Rightarrow> ('k, 'v) dict" where
  "dict_drop_values gone d = filter (\<lambda>(k, v). \<not> gone v) d"

definition require_graph_deletion_ready :: "string list \<Rightarrow> task_store \<Rightarrow> unit result" where
  "require_graph_deletion_ready ids s =
     raise_if (list_ex (\<lambda>i. case dict_get (ts_graph_by_task s) i of
         None \<Rightarrow> False
       | Some g \<Rightarrow> list_ex (\<lambda>m. dict_get (ts_graph_terminal_members s) m = None)
           (map fst (list_at (ts_graph_members s) g))) ids) TaskGraphConflict"

definition quiescent_terminal :: "task \<Rightarrow> bool" where
  "quiescent_terminal t \<longleftrightarrow> tk_status t \<in> terminal_task_statuses \<and> tk_worker_id t = None \<and> tk_lease_expires_at t = None"

definition drop_topology_entries :: "string list \<Rightarrow> string option \<Rightarrow> task_index \<Rightarrow> task_index" where
  "drop_topology_entries ids scope index = (case scope of
       None \<Rightarrow> index
     | Some sc \<Rightarrow>
         let entries = filter (\<lambda>e. snd e \<notin> set ids) (list_at index sc)
         in if entries = [] then dict_del sc index else dict_put sc entries index)"

definition drop_contracted_entries :: "string list \<Rightarrow> string option \<Rightarrow> (string, string list) dict \<Rightarrow> (string, string list) dict" where
  "drop_contracted_entries ids scope index = (case scope of
       None \<Rightarrow> index
     | Some sc \<Rightarrow> (case dict_get index sc of
           None \<Rightarrow> index
         | Some contracted \<Rightarrow>
             let rest = filter (\<lambda>i. i \<notin> set ids) contracted
             in if rest = [] then dict_del sc index else dict_put sc rest index))"

text \<open>The removal itself, once every check has passed; \<open>ts\<close> are the tasks still stored.\<close>

definition remove_tasks :: "string list \<Rightarrow> task list \<Rightarrow> task_store \<Rightarrow> task_store" where
  "remove_tasks ids ts s =
     (let gone = (\<lambda>i. i \<in> set ids); gone_key = (\<lambda>k. fst k \<in> set ids) in
      s\<lparr>ts_terminalization_receipts := dict_drop gone_key (ts_terminalization_receipts s),
        ts_handoff_receipts := dict_drop gone_key (ts_handoff_receipts s),
        ts_retry_settlements := dict_drop gone_key (ts_retry_settlements s),
        ts_schedule_events := dict_drop gone (ts_schedule_events s),
        ts_schedule_receipts := dict_drop gone_key (ts_schedule_receipts s),
        ts_local_attempts := filter (\<lambda>a. \<not> gone (la_task_id a)) (ts_local_attempts s),
        ts_admissions := dict_drop gone (ts_admissions s),
        ts_session_keys := fold (drop_topology_entries ids) (map tk_session_id ts) (ts_session_keys s),
        ts_parent_keys := fold (drop_topology_entries ids) (map tk_parent_task_id ts) (ts_parent_keys s),
        ts_contracted_sessions := fold (drop_contracted_entries ids) (map tk_session_id ts) (ts_contracted_sessions s),
        ts_tasks := dict_drop gone (ts_tasks s),
        ts_handoff_index := dict_drop_values gone (ts_handoff_index s),
        ts_continuation_claims := dict_drop_values (\<lambda>c. gone (fst c)) (ts_continuation_claims s)\<rparr>)"

definition deletion_checks :: "string \<Rightarrow> string list \<Rightarrow> string list option \<Rightarrow> task_store \<Rightarrow> task list result" where
  "deletion_checks session ids claim s =
     bind_res (require_clean_nonblank session) (\<lambda>session.
     bind_res (raise_if (case claim of None \<Rightarrow> False | Some retained \<Rightarrow> set ids \<noteq> set retained) ValueError) (\<lambda>_.
     bind_res (require_graph_deletion_ready ids s) (\<lambda>_.
       let found = map (dict_get (ts_tasks s)) ids; ts = map the (filter (\<lambda>t. t \<noteq> None) found)
       in bind_res (raise_if (claim = None \<and> None \<in> set found \<or>
              list_ex (\<lambda>t. tk_session_id t \<noteq> Some session) ts) ValueError) (\<lambda>_.
          bind_res (raise_if (\<not> list_all quiescent_terminal ts) ValueError) (\<lambda>_. Inr ts)))))"

definition delete_session_tasks :: "string \<Rightarrow> string list \<Rightarrow> string list option \<Rightarrow> unit store_action" where
  "delete_session_tasks session ids claim =
     bind_act (query_act (deletion_checks session ids claim)) (\<lambda>ts. modify_act (remove_tasks ids ts))"

section \<open>Scrubbing failure text\<close>

text \<open>The redaction is an argument: any function of a text.\<close>

record failure_scrub =
  fs_redact :: "string \<Rightarrow> string"
  fs_scrubbed_at :: datetime
  fs_dry_run :: bool

datatype scrub_skip = LEASED | SESSION_FAILURE | CANCELLATION_RECONCILIATION

record scrub_result =
  sx_task_id :: string
  sx_fields :: "string list"
  sx_masked_values :: nat
  sx_receipts :: nat
  sx_applied :: bool
  sx_skipped_reason :: "scrub_skip option"

definition scrub_record_key :: string where
  "scrub_record_key = ''cayu_scrub''"

definition max_scrub_records :: nat where
  "max_scrub_records = 20"

text \<open>\<open>_scrub_value\<close>, the value and the count apart; what an object records about scrubs stays as it is.\<close>

primrec scrub_value :: "(string \<Rightarrow> string) \<Rightarrow> json \<Rightarrow> json" where
  "scrub_value redact JNull = JNull"
| "scrub_value redact (JBool b) = JBool b"
| "scrub_value redact (JInt n) = JInt n"
| "scrub_value redact (JDec x) = JDec x"
| "scrub_value redact (JNum x) = JNum x"
| "scrub_value redact (JStr text) = JStr (redact text)"
| "scrub_value redact (JList js) = JList (map (scrub_value redact) js)"
| "scrub_value redact (JObj obj) = JObj (fmmap_keys
     (\<lambda>k v. if k = scrub_record_key then (case fmlookup obj k of Some old \<Rightarrow> old | None \<Rightarrow> v) else v)
     (fmmap (scrub_value redact) obj))"

primrec scrub_count :: "(string \<Rightarrow> string) \<Rightarrow> json \<Rightarrow> nat" where
  "scrub_count redact JNull = 0"
| "scrub_count redact (JBool b) = 0"
| "scrub_count redact (JInt n) = 0"
| "scrub_count redact (JDec x) = 0"
| "scrub_count redact (JNum x) = 0"
| "scrub_count redact (JStr text) = (if redact text \<noteq> text then 1 else 0)"
| "scrub_count redact (JList js) = sum_list (map (scrub_count redact) js)"
| "scrub_count redact (JObj obj) = sum_list (map snd (filter (\<lambda>(k, n). k \<noteq> scrub_record_key)
     (sorted_list_of_fmap (fmmap (scrub_count redact) obj))))"

text \<open>\<open>list(prior.get("scrubs", ()))\<close>: a text gives its characters and an object its keys.\<close>

definition prior_scrubs :: "json_object \<Rightarrow> json list result" where
  "prior_scrubs obj = (case fmlookup obj scrub_record_key of
       Some (JObj prior) \<Rightarrow> (case fmlookup prior ''scrubs'' of
           None \<Rightarrow> Inr []
         | Some (JList js) \<Rightarrow> Inr js
         | Some (JStr text) \<Rightarrow> Inr (map (\<lambda>c. JStr [c]) text)
         | Some (JObj keys) \<Rightarrow> Inr (map (\<lambda>(k, v). JStr k) (sorted_list_of_fmap keys))
         | Some _ \<Rightarrow> Inl TypeError)
     | _ \<Rightarrow> Inr [])"

definition last_n :: "nat \<Rightarrow> 'a list \<Rightarrow> 'a list" where
  "last_n n xs = drop (length xs - n) xs"

definition scrub_object :: "failure_scrub \<Rightarrow> json_object \<Rightarrow> (json_object \<times> nat) result" where
  "scrub_object scrub obj =
     (let count = scrub_count (fs_redact scrub) (JObj obj) in
      if count = 0 then Inr (obj, 0)
      else case scrub_value (fs_redact scrub) (JObj obj) of
        JObj scrubbed \<Rightarrow> bind_res (prior_scrubs obj) (\<lambda>prior.
          let new_record = JObj (fmap_of_list [(''scrubbed_at'', JStr (isoformat (fs_scrubbed_at scrub))),
                (''redaction'', JStr ''secret_redactor+credential_shapes''), (''masked_values'', JInt (int count))])
          in Inr (fmupd scrub_record_key (JObj (fmap_of_list
                [(''scrubs'', JList (last_n max_scrub_records (prior @ [new_record])))])) scrubbed, count))
      | _ \<Rightarrow> Inl AssertionError)"

definition scrub_task_failure :: "failure_scrub \<Rightarrow> task \<Rightarrow> (task \<times> string list \<times> nat) result" where
  "scrub_task_failure scrub t =
     bind_res (case tk_error t of None \<Rightarrow> Inr (None, 0)
        | Some e \<Rightarrow> bind_res (scrub_object scrub e) (\<lambda>(e', n). Inr (Some e', n))) (\<lambda>(err, n).
     bind_res (case tk_status_payload t of None \<Rightarrow> Inr (None, 0)
        | Some p \<Rightarrow> (case fmlookup p ''error'' of
            Some (JObj e) \<Rightarrow> bind_res (scrub_object scrub e) (\<lambda>(e', k).
              Inr (Some (if k = 0 then p else fmupd ''error'' (JObj e') p), k))
          | _ \<Rightarrow> Inr (Some p, 0))) (\<lambda>(payload, k).
       Inr (t\<lparr>tk_error := err, tk_status_payload := payload\<rparr>,
         (if n = 0 then [] else [''error'']) @ (if k = 0 then [] else [''status_payload.error'']), n + k)))"

definition scrub_snapshot :: "failure_scrub \<Rightarrow> task \<Rightarrow> task option result" where
  "scrub_snapshot scrub t = bind_res (scrub_task_failure scrub t) (\<lambda>(u, fields, n).
     Inr (if fields = [] then None else Some u))"

definition scrub_skip_reason :: "task \<Rightarrow> scrub_skip option" where
  "scrub_skip_reason t =
     (if tk_worker_id t \<noteq> None then Some LEASED
      else if (case tk_error t of None \<Rightarrow> False | Some e \<Rightarrow> fmlookup e ''runtime_task_failure'' \<noteq> None) then Some SESSION_FAILURE
      else if (case tk_status_payload t of None \<Rightarrow> False | Some p \<Rightarrow> fmlookup p ''cancellation_reconciliation'' \<noteq> None)
      then Some CANCELLATION_RECONCILIATION
      else None)"

text \<open>The copies of a task in the receipts of one kind: their keys with the scrubbed copy, where one changed.\<close>

definition scrubbed_copies :: "failure_scrub \<Rightarrow> string \<Rightarrow> ('r \<Rightarrow> task) \<Rightarrow> (string \<times> string, 'r) dict
    \<Rightarrow> ((string \<times> string) \<times> task) list result" where
  "scrubbed_copies scrub i copy_of d =
     bind_res (traverse_res (\<lambda>(k, r). bind_res (scrub_snapshot scrub (copy_of r)) (\<lambda>u. Inr (k, u)))
       (filter (\<lambda>(k, r). fst k = i) d)) (\<lambda>xs. Inr (map (\<lambda>(k, u). (k, the u)) (filter (\<lambda>(k, u). u \<noteq> None) xs)))"

definition rewrite_copies :: "('r \<Rightarrow> task \<Rightarrow> 'r) \<Rightarrow> ((string \<times> string) \<times> task) list \<Rightarrow> (string \<times> string, 'r) dict
    \<Rightarrow> (string \<times> string, 'r) dict" where
  "rewrite_copies put_copy copies d = map (\<lambda>(k, r). (k, case map_of copies k of None \<Rightarrow> r | Some u \<Rightarrow> put_copy r u)) d"

definition skipped_scrub :: "string \<Rightarrow> scrub_skip \<Rightarrow> scrub_result" where
  "skipped_scrub i reason = \<lparr>sx_task_id = i, sx_fields = [], sx_masked_values = 0, sx_receipts = 0, sx_applied = False,
     sx_skipped_reason = Some reason\<rparr>"

definition scrub_task_failure_text :: "string \<Rightarrow> failure_scrub \<Rightarrow> scrub_result store_action" where
  "scrub_task_failure_text i scrub =
     bind_act (lift_res (require_clean_nonblank i)) (\<lambda>i.
     bind_act (require_task i) (\<lambda>t. case scrub_skip_reason t of
         Some reason \<Rightarrow> lift_res (Inr (skipped_scrub i reason))
       | None \<Rightarrow>
           bind_act (lift_res (scrub_task_failure scrub t)) (\<lambda>(scrubbed, fields, masked).
           bind_act (query_act (\<lambda>s. scrubbed_copies scrub i tr_task (ts_terminalization_receipts s))) (\<lambda>terminalizations.
           bind_act (query_act (\<lambda>s. scrubbed_copies scrub i hr_task (ts_handoff_receipts s))) (\<lambda>handoffs.
           bind_act (query_act (\<lambda>s. scrubbed_copies scrub i sr_task (ts_retry_settlements s))) (\<lambda>settlements.
             let receipts = length terminalizations + length handoffs + length settlements;
                 applied = (\<not> fs_dry_run scrub \<and> (fields \<noteq> [] \<or> receipts \<noteq> 0))
             in bind_act (modify_act (\<lambda>s. if \<not> applied then s else
                  s\<lparr>ts_tasks := dict_put i scrubbed (ts_tasks s),
                    ts_terminalization_receipts := rewrite_copies (\<lambda>r u. r\<lparr>tr_task := u\<rparr>) terminalizations (ts_terminalization_receipts s),
                    ts_handoff_receipts := rewrite_copies (\<lambda>r u. r\<lparr>hr_task := u\<rparr>) handoffs (ts_handoff_receipts s),
                    ts_retry_settlements := rewrite_copies (\<lambda>r u. r\<lparr>sr_task := u\<rparr>) settlements (ts_retry_settlements s)\<rparr>)) (\<lambda>_.
                lift_res (Inr \<lparr>sx_task_id = i, sx_fields = fields, sx_masked_values = masked, sx_receipts = receipts,
                  sx_applied = applied, sx_skipped_reason = None\<rparr>))))))))"

section \<open>Calls\<close>

text \<open>Every modelled coroutine: an operation of the store, a deletion or a scrub.\<close>

datatype store_call =
    Operation store_op
  | Delete string "string list" "string list option"
  | Scrub string failure_scrub

primrec apply_call :: "store_env \<Rightarrow> store_call \<Rightarrow> task_store \<Rightarrow> task_store" where
  "apply_call env (Operation op) s = apply_op env op s"
| "apply_call env (Delete session ids claim) s = snd (delete_session_tasks session ids claim s)"
| "apply_call env (Scrub i scrub) s = snd (scrub_task_failure_text i scrub s)"

definition run_calls :: "store_env \<Rightarrow> store_call list \<Rightarrow> task_store \<Rightarrow> task_store" where
  "run_calls env calls s = fold (apply_call env) calls s"

text \<open>
  What a call may do to the abstract store: the steps of the operations, the removal of terminal tasks no
  worker holds, or new failure text for one task no worker holds.
\<close>

definition failure_text_only :: "task \<Rightarrow> task \<Rightarrow> bool" where
  "failure_text_only t u \<longleftrightarrow> (\<exists>e p. u = t\<lparr>tk_error := e, tk_status_payload := p\<rparr> \<and>
     (e = None \<longleftrightarrow> tk_error t = None) \<and> (p = None \<longleftrightarrow> tk_status_payload t = None))"

definition settled_unowned :: "task \<Rightarrow> bool" where
  "settled_unowned t \<longleftrightarrow> tk_status t \<in> {COMPLETED, FAILED, CANCELLED, DEPENDENCY_SKIPPED} \<and> tk_worker_id t = None \<and>
     tk_lease_expires_at t = None"

inductive store_change :: "store_env \<Rightarrow> task_store \<Rightarrow> task_store \<Rightarrow> bool" for env where
  stepped: "store_step env UNIV s s' \<Longrightarrow> store_change env s s'"
| removed: "ts_tasks s' = dict_drop (\<lambda>i. i \<in> gone) (ts_tasks s) \<Longrightarrow>
    (\<And>i t. i \<in> gone \<Longrightarrow> dict_get (ts_tasks s) i = Some t \<Longrightarrow> settled_unowned t) \<Longrightarrow> same_graphs s s' \<Longrightarrow>
    store_change env s s'"
| rewritten: "dict_get (ts_tasks s) i = Some t \<Longrightarrow> tk_worker_id t = None \<Longrightarrow> failure_text_only t u \<Longrightarrow>
    ts_tasks s' = dict_put i u (ts_tasks s) \<Longrightarrow> same_graphs s s' \<Longrightarrow> store_change env s s'"

section \<open>Effects of the calls\<close>

lemma dict_get_drop [dict_simps, simp]: "dict_get (dict_drop gone d) k = (if gone k then None else dict_get d k)"
  by (induction d) (auto simp: dict_drop_def)

lemma dict_ok_drop [dict_simps]: "dict_ok d \<Longrightarrow> dict_ok (dict_drop gone d)"
  by (simp add: dict_ok_def dict_drop_def distinct_map_filter)

lemma remove_tasks_simps [simp]:
  "ts_tasks (remove_tasks ids ts s) = dict_drop (\<lambda>i. i \<in> set ids) (ts_tasks s)" "same_graphs s (remove_tasks ids ts s)"
  by (simp_all add: remove_tasks_def Let_def same_graphs_def)

lemma deletion_checks_Inr:
  assumes "deletion_checks session ids claim s = Inr ts"
  shows "ts = map the (filter (\<lambda>t. t \<noteq> None) (map (dict_get (ts_tasks s)) ids))"
    "i \<in> set ids \<Longrightarrow> dict_get (ts_tasks s) i = Some t \<Longrightarrow> settled_unowned t \<and> tk_session_id t = Some session"
proof -
  show ts: "ts = map the (filter (\<lambda>t. t \<noteq> None) (map (dict_get (ts_tasks s)) ids))"
    using assms by (auto simp: deletion_checks_def Let_def res_simps)
  assume "i \<in> set ids" "dict_get (ts_tasks s) i = Some t"
  then have "t \<in> set ts" unfolding ts by force
  moreover have "list_all quiescent_terminal ts" "\<not> list_ex (\<lambda>t. tk_session_id t \<noteq> Some session) ts"
    using assms by (auto simp: deletion_checks_def Let_def res_simps)
  ultimately show "settled_unowned t \<and> tk_session_id t = Some session"
    by (auto simp: list_ex_iff list_all_iff quiescent_terminal_def settled_unowned_def terminal_task_statuses_def)
qed

lemma delete_cases:
  obtains (refused) "snd (delete_session_tasks session ids claim s) = s"
  | (deleted) ts where "deletion_checks session ids claim s = Inr ts"
      "delete_session_tasks session ids claim s = (Inr (), remove_tasks ids ts s)"
  by (cases "deletion_checks session ids claim s")
    (auto simp: delete_session_tasks_def bind_act_def query_act_def modify_act_def)

lemma scrub_object_Inr: "scrub_task_failure scrub t = Inr (u, changed, n) \<Longrightarrow> failure_text_only t u"
  unfolding failure_text_only_def
  by (auto simp: scrub_task_failure_def res_simps split: option.splits json.splits)

lemma scrub_cases:
  obtains (unchanged) "snd (scrub_task_failure_text i scrub s) = s"
  | (applied) t u changed n where "dict_get (ts_tasks s) i = Some t" "scrub_skip_reason t = None"
      "scrub_task_failure scrub t = Inr (u, changed, n)" "ts_tasks (snd (scrub_task_failure_text i scrub s)) = dict_put i u (ts_tasks s)"
      "same_graphs s (snd (scrub_task_failure_text i scrub s))"
proof -
  obtain r s' where run: "scrub_task_failure_text i scrub s = (r, s')" by fastforce
  show thesis
  proof (cases "s' = s")
    case True
    with run unchanged show thesis by simp
  next
    case False
    with run have "\<exists>t u changed n. dict_get (ts_tasks s) i = Some t \<and> scrub_skip_reason t = None \<and>
        scrub_task_failure scrub t = Inr (u, changed, n) \<and> ts_tasks s' = dict_put i u (ts_tasks s) \<and> same_graphs s s'"
      unfolding scrub_task_failure_text_def bind_act_def lift_res_def query_act_def require_task_def modify_act_def
      by (auto simp: require_clean_nonblank_Inr Let_def same_graphs_def split: sum.splits option.splits prod.splits if_splits)
    with run applied show thesis by auto
  qed
qed

lemma scrub_skip_worker: "scrub_skip_reason t = None \<Longrightarrow> tk_worker_id t = None"
  by (simp add: scrub_skip_reason_def split: if_splits)

lemma call_change:
  assumes "store_shape env s"
  shows "(store_change env)\<^sup>*\<^sup>* s (apply_call env c s)"
proof (cases c)
  case (Operation op)
  have "(store_step env UNIV)\<^sup>*\<^sup>* s (apply_op env op s)" using assms by (rule op_steps)
  then have "(store_change env)\<^sup>*\<^sup>* s (apply_op env op s)"
    by (rule rtranclp_mono [THEN predicate2D, rotated]) (auto intro: stepped)
  with Operation show ?thesis by simp
next
  case (Delete session ids claim)
  show ?thesis
  proof (cases rule: delete_cases [of session ids claim s])
    case (deleted ts)
    then have "store_change env s (remove_tasks ids ts s)"
      using deletion_checks_Inr(2) [OF deleted(1)] by (intro removed [where gone = "set ids"]) auto
    with Delete deleted(2) show ?thesis by auto
  qed (simp add: Delete)
next
  case (Scrub i scrub)
  show ?thesis
  proof (cases rule: scrub_cases [of i scrub s])
    case (applied t u changed n)
    then have "store_change env s (snd (scrub_task_failure_text i scrub s))"
      by (intro rewritten) (auto intro: scrub_skip_worker scrub_object_Inr)
    with Scrub show ?thesis by auto
  qed (simp add: Scrub)
qed

text \<open>New failure text keeps a task sound and every lease as it is.\<close>

lemma failure_text_keeps:
  assumes "failure_text_only t u"
  shows "tk_id u = tk_id t" "tk_status u = tk_status t" "tk_worker_id u = tk_worker_id t"
    "tk_lease_expires_at u = tk_lease_expires_at t" "tk_session_id u = tk_session_id t" "same_identity t u"
    "task_sound digest u = task_sound digest t" "holds_live_key_lease u now = holds_live_key_lease t now"
    "tk_concurrency_key u = tk_concurrency_key t"
proof -
  from assms obtain e p where u: "u = t\<lparr>tk_error := e, tk_status_payload := p\<rparr>"
    unfolding failure_text_only_def by (elim exE conjE) (rule that)
  show "tk_id u = tk_id t" "tk_status u = tk_status t" "tk_worker_id u = tk_worker_id t"
    "tk_lease_expires_at u = tk_lease_expires_at t" "tk_session_id u = tk_session_id t"
    "tk_concurrency_key u = tk_concurrency_key t"
    unfolding u by simp_all
  show "same_identity t u" by (simp add: u same_identity_def)
  show "holds_live_key_lease u now = holds_live_key_lease t now"
    by (simp add: u holds_live_key_lease_def live_lease_def)
  have "task_texts_ok u = task_texts_ok t" "restart_policy_ok u = restart_policy_ok t"
    "graph_membership_ok u = graph_membership_ok t" "schedule_ok u = schedule_ok t"
    by (simp_all add: u task_texts_ok_def restart_policy_ok_def graph_membership_ok_def schedule_ok_def cong: option.case_cong)
  moreover have "retry_and_contract_ok digest u = retry_and_contract_ok digest t"
    by (simp add: u retry_and_contract_ok_def task_retry_attempt_authority_sha256_def cong: option.case_cong)
  ultimately show "task_sound digest u = task_sound digest t"
    by (simp add: task_sound_def task_valid_def series_detached_def u)
qed

lemma failure_text_refl [simp]: "failure_text_only t t"
  unfolding failure_text_only_def by (rule exI [of _ "tk_error t"], rule exI [of _ "tk_status_payload t"]) simp

lemma failure_text_trans:
  assumes "failure_text_only a b" "failure_text_only b c"
  shows "failure_text_only a c"
proof -
  from assms(1) obtain e p where b: "b = a\<lparr>tk_error := e, tk_status_payload := p\<rparr>" "(e = None) = (tk_error a = None)"
    "(p = None) = (tk_status_payload a = None)" unfolding failure_text_only_def by (elim exE conjE) (rule that)
  from assms(2) obtain e' p' where c: "c = b\<lparr>tk_error := e', tk_status_payload := p'\<rparr>" "(e' = None) = (tk_error b = None)"
    "(p' = None) = (tk_status_payload b = None)" unfolding failure_text_only_def by (elim exE conjE) (rule that)
  from b c show ?thesis unfolding failure_text_only_def by (intro exI [of _ e'] exI [of _ p']) simp
qed

lemma subset_sole:
  assumes "sole_holders env s" "ts_lease_reads s \<le> ts_lease_reads s'"
    "\<And>i u. dict_get (ts_tasks s') i = Some u \<Longrightarrow> \<exists>t. dict_get (ts_tasks s) i = Some t \<and> tk_concurrency_key u = tk_concurrency_key t \<and>
       (\<forall>now. holds_live_key_lease u now = holds_live_key_lease t now)"
  shows "sole_holders env s'"
  unfolding sole_holders_def
proof (intro allI impI)
  fix n i j t u
  assume h: "ts_lease_reads s' \<le> n" "dict_get (ts_tasks s') i = Some t" "dict_get (ts_tasks s') j = Some u"
    "tk_concurrency_key t = tk_concurrency_key u" "holds_live_key_lease t (te_ownership_clock env n)"
    "holds_live_key_lease u (te_ownership_clock env n)"
  obtain t0 where t0: "dict_get (ts_tasks s) i = Some t0" "tk_concurrency_key t = tk_concurrency_key t0"
    "holds_live_key_lease t0 (te_ownership_clock env n)" using assms(3) [OF h(2)] h(5) by blast
  obtain u0 where u0: "dict_get (ts_tasks s) j = Some u0" "tk_concurrency_key u = tk_concurrency_key u0"
    "holds_live_key_lease u0 (te_ownership_clock env n)" using assms(3) [OF h(3)] h(6) by blast
  have "ts_lease_reads s \<le> n" "tk_concurrency_key t0 = tk_concurrency_key u0" using assms(2) h(1,4) t0(2) u0(2) by simp_all
  with assms(1) t0 u0 show "i = j" unfolding sole_holders_def by blast
qed

lemma change_shape:
  assumes "store_change env s s'" "store_shape env s"
  shows "store_shape env s'"
  using assms(1)
proof (cases rule: store_change.cases)
  case stepped
  then show ?thesis using run_shape [OF r_into_rtranclp assms(2)] by blast
next
  case (removed gone)
  have "keyed env s'" using assms(2) by (auto simp: store_shape_def keyed_def removed(1) dict_ok_drop)
  moreover have "linked s'" using assms(2) same_graphs_linked [OF removed(3)] by (simp add: store_shape_def)
  moreover have "sole_holders env s'"
    using assms(2) removed(3) by (intro subset_sole [of env s s']) (auto simp: store_shape_def same_graphs_def removed(1) split: if_splits)
  ultimately show ?thesis using assms(2) by (simp add: store_shape_def)
next
  case (rewritten i t u)
  note keeps = failure_text_keeps [OF rewritten(3)]
  have "keyed env s'"
    using assms(2) rewritten(1) keeps(1,7) by (auto simp: store_shape_def keyed_def rewritten(4) dict_simps split: if_splits)
  moreover have "linked s'" using assms(2) same_graphs_linked [OF rewritten(5)] by (simp add: store_shape_def)
  moreover have "sole_holders env s'"
    using assms(2) rewritten(1,5) keeps(8,9)
    by (intro subset_sole [of env s s']) (auto simp: store_shape_def same_graphs_def rewritten(4) dict_simps split: if_splits)
  ultimately show ?thesis using assms(2) by (simp add: store_shape_def)
qed

lemma changes_shape: "(store_change env)\<^sup>*\<^sup>* s s' \<Longrightarrow> store_shape env s \<Longrightarrow> store_shape env s'"
  by (induction rule: rtranclp_induct) (auto intro: change_shape)

lemma call_shape: "store_shape env s \<Longrightarrow> store_shape env (apply_call env c s)"
  using changes_shape [OF call_change] by blast

interpretation calls: invariant_system "\<lambda>s s'. \<exists>c. s' = apply_call env c s" "store_shape env" for env
  by unfold_locales (auto intro: call_shape)

section \<open>What runs of calls keep\<close>

text \<open>
  What is kept of a stored task \<open>t\<close> while \<open>calls\<close> run: what its creation fixed, and of a terminal task
  everything, but for its failure text if one of the calls scrubs it.
\<close>

definition kept_by :: "store_call list \<Rightarrow> string \<Rightarrow> task \<Rightarrow> task \<Rightarrow> bool" where
  "kept_by calls i t u \<longleftrightarrow> same_identity t u \<and> (tk_status t \<in> terminal_task_statuses \<longrightarrow>
     failure_text_only t u \<and> ((\<forall>scrub. Scrub i scrub \<notin> set calls) \<longrightarrow> u = t))"

lemma kept_by_refl [simp]: "kept_by calls i t t"
  by (simp add: kept_by_def)

lemma kept_by_trans:
  assumes "kept_by calls i t u" "kept_by more_calls i u v"
  shows "kept_by (calls @ more_calls) i t v"
  unfolding kept_by_def
proof (intro conjI impI)
  show "same_identity t v" using assms same_identity_trans unfolding kept_by_def by blast
  assume t: "tk_status t \<in> terminal_task_statuses"
  with assms(1) have tu: "failure_text_only t u" by (simp add: kept_by_def)
  with t assms(2) have uv: "failure_text_only u v" by (simp add: kept_by_def failure_text_keeps(2) [OF tu])
  from tu uv show "failure_text_only t v" by (rule failure_text_trans)
  show "v = t" if "\<forall>scrub. Scrub i scrub \<notin> set (calls @ more_calls)"
    using that t assms failure_text_keeps(2) [OF tu] by (simp add: kept_by_def)
qed

lemma call_effect:
  assumes shape: "store_shape env s" and get: "dict_get (ts_tasks s) i = Some t"
  shows "(\<exists>u. dict_get (ts_tasks (apply_call env c s)) i = Some u \<and> kept_by [c] i t u) \<or>
    (\<exists>session ids claim. c = Delete session ids claim \<and> i \<in> set ids \<and> settled_unowned t \<and> tk_session_id t = Some session)"
proof (cases c)
  case (Operation op)
  note run = op_steps [OF shape, of op]
  from run_identity [OF run get shape] run_terminal [OF run get _ shape] show ?thesis
    by (cases "tk_status t \<in> terminal_task_statuses") (auto simp: Operation kept_by_def)
next
  case (Delete session ids claim)
  show ?thesis
  proof (cases rule: delete_cases [of session ids claim s])
    case (deleted ts)
    show ?thesis
    proof (cases "i \<in> set ids")
      case True
      with deletion_checks_Inr(2) [OF deleted(1) True get] Delete show ?thesis by blast
    next
      case False
      with get deleted(2) Delete show ?thesis by (intro disjI1 exI [of _ t]) simp
    qed
  qed (use get Delete in simp)
next
  case (Scrub j scrub)
  show ?thesis
  proof (cases rule: scrub_cases [of j scrub s])
    case (applied t0 u changed n)
    show ?thesis
    proof (cases "j = i")
      case True
      with applied get have "dict_get (ts_tasks (apply_call env c s)) i = Some u" "failure_text_only t u"
        by (auto simp: Scrub dict_simps intro: scrub_object_Inr)
      with True Scrub show ?thesis by (intro disjI1 exI [of _ u]) (auto simp: kept_by_def failure_text_keeps(6))
    next
      case False
      with applied(4) get Scrub show ?thesis by (intro disjI1 exI [of _ t]) (simp add: dict_simps)
    qed
  qed (use get Scrub in simp)
qed

lemma run_calls_Cons: "run_calls env (c # cs) s = run_calls env cs (apply_call env c s)"
  by (simp add: run_calls_def)

lemma run_calls_append: "run_calls env (xs @ ys) s = run_calls env ys (run_calls env xs s)"
  by (simp add: run_calls_def)

lemma run_calls_shape: "store_shape env s \<Longrightarrow> store_shape env (run_calls env calls s)"
  by (induction calls arbitrary: s) (simp_all add: run_calls_def call_shape)

lemma run_calls_effect:
  assumes "store_shape env s" "dict_get (ts_tasks s) i = Some t"
  shows "(\<exists>u. dict_get (ts_tasks (run_calls env later s)) i = Some u \<and> kept_by later i t u) \<or>
    (\<exists>before session ids claim after u. later = before @ Delete session ids claim # after \<and> i \<in> set ids \<and>
       dict_get (ts_tasks (run_calls env before s)) i = Some u \<and> kept_by before i t u \<and>
       settled_unowned u \<and> tk_session_id u = Some session)"
  using assms
proof (induction later arbitrary: s t)
  case Nil
  then show ?case by (simp add: run_calls_def)
next
  case (Cons c later)
  from call_effect [OF Cons.prems, of c]
  consider u where "dict_get (ts_tasks (apply_call env c s)) i = Some u" "kept_by [c] i t u"
    | session ids claim where "c = Delete session ids claim" "i \<in> set ids" "settled_unowned t" "tk_session_id t = Some session"
    by blast
  then show ?case
  proof cases
    case (1 u)
    from Cons.IH [OF call_shape [OF Cons.prems(1)] 1(1)] show ?thesis
    proof (elim disjE exE conjE)
      fix v assume "dict_get (ts_tasks (run_calls env later (apply_call env c s))) i = Some v" "kept_by later i u v"
      with kept_by_trans [OF 1(2)] show ?thesis by (auto simp: run_calls_Cons)
    next
      fix before session ids claim after v
      assume *: "later = before @ Delete session ids claim # after" "i \<in> set ids"
        "dict_get (ts_tasks (run_calls env before (apply_call env c s))) i = Some v" "kept_by before i u v"
        "settled_unowned v" "tk_session_id v = Some session"
      then have "c # later = (c # before) @ Delete session ids claim # after"
        "dict_get (ts_tasks (run_calls env (c # before) s)) i = Some v" "kept_by (c # before) i t v"
        using kept_by_trans [OF 1(2)] by (simp_all add: run_calls_Cons)
      with * show ?thesis by blast
    qed
  next
    case (2 session ids claim)
    then have "c # later = [] @ Delete session ids claim # later" "dict_get (ts_tasks (run_calls env [] s)) i = Some t"
      using Cons.prems(2) by (simp_all add: run_calls_def)
    with 2 kept_by_refl show ?thesis by blast
  qed
qed

text \<open>After a deletion nothing is kept under the identities it removed.\<close>

lemma deletion_leaves_no_trace:
  assumes "fst (delete_session_tasks session ids claim s) = Inr ()" "i \<in> set ids"
  defines "s' \<equiv> snd (delete_session_tasks session ids claim s)"
  shows "dict_get (ts_tasks s') i = None" "dict_get (ts_terminalization_receipts s') (i, k) = None"
    "dict_get (ts_handoff_receipts s') (i, k) = None" "dict_get (ts_retry_settlements s') (i, k) = None"
    "dict_get (ts_schedule_receipts s') (i, k) = None" "dict_get (ts_schedule_events s') i = None"
    "dict_get (ts_admissions s') i = None" "i \<notin> snd ` set (ts_handoff_index s')"
    "i \<notin> (\<lambda>e. fst (snd e)) ` set (ts_continuation_claims s')" "i \<notin> la_task_id ` set (ts_local_attempts s')"
proof -
  from assms(1) obtain ts where "delete_session_tasks session ids claim s = (Inr (), remove_tasks ids ts s)"
    by (cases "deletion_checks session ids claim s")
      (auto simp: delete_session_tasks_def bind_act_def query_act_def modify_act_def)
  then have s': "s' = remove_tasks ids ts s" by (simp add: s'_def)
  show "dict_get (ts_tasks s') i = None" "dict_get (ts_terminalization_receipts s') (i, k) = None"
    "dict_get (ts_handoff_receipts s') (i, k) = None" "dict_get (ts_retry_settlements s') (i, k) = None"
    "dict_get (ts_schedule_receipts s') (i, k) = None" "dict_get (ts_schedule_events s') i = None"
    "dict_get (ts_admissions s') i = None" "i \<notin> snd ` set (ts_handoff_index s')"
    "i \<notin> (\<lambda>e. fst (snd e)) ` set (ts_continuation_claims s')" "i \<notin> la_task_id ` set (ts_local_attempts s')"
    using assms(2) by (auto simp: s' remove_tasks_def Let_def dict_drop_values_def)
qed

text \<open>
  Scrubbing twice: when the redaction leaves what it produced alone, a scrubbed value has nothing more to
  mask, so a second scrub changes no field.
\<close>

lemma sum_list_zero: "sum_list (map snd (filter P (sorted_list_of_fmap m))) = 0 \<longleftrightarrow>
    (\<forall>k n. fmlookup m k = Some n \<longrightarrow> P (k, n) \<longrightarrow> n = 0)" for m :: "(string, nat) fmap"
proof -
  have "(k, n) \<in> set (sorted_list_of_fmap m) \<longleftrightarrow> fmlookup m k = Some n" for k n
    by (auto simp: sorted_list_of_fmap_def intro: fmdomI)
  then show ?thesis by auto
qed

lemma scrub_count_again:
  assumes "\<And>x. redact (redact x) = redact x"
  shows "scrub_count redact (scrub_value redact j) = 0"
proof (induction j)
  case (JObj obj)
  have "n = 0" if "fmlookup (fmmap (scrub_count redact) (fmmap_keys
      (\<lambda>k v. if k = scrub_record_key then (case fmlookup obj k of Some old \<Rightarrow> old | None \<Rightarrow> v) else v)
      (fmmap (scrub_value redact) obj))) k = Some n" "k \<noteq> scrub_record_key" for k n
    using that JObj [OF fmran'I] by (auto simp: option.map_comp)
  then show ?case unfolding scrub_value.simps scrub_count.simps sum_list_zero by blast
qed (simp_all add: assms)

lemma scrub_count_zero:
  "scrub_count redact (JObj obj) = 0 \<longleftrightarrow>
     (\<forall>k v. fmlookup obj k = Some v \<longrightarrow> k \<noteq> scrub_record_key \<longrightarrow> scrub_count redact v = 0)"
proof -
  let ?counts = "fmmap (scrub_count redact) obj"
  have "scrub_count redact (JObj obj) = 0 \<longleftrightarrow> (\<forall>k n. fmlookup ?counts k = Some n \<longrightarrow> k \<noteq> scrub_record_key \<longrightarrow> n = 0)"
    by (simp only: scrub_count.simps sum_list_zero prod.case)
  also have "\<dots> \<longleftrightarrow> (\<forall>k v. fmlookup obj k = Some v \<longrightarrow> k \<noteq> scrub_record_key \<longrightarrow> scrub_count redact v = 0)"
  proof (intro iffI allI impI)
    fix k v
    assume "\<forall>k n. fmlookup ?counts k = Some n \<longrightarrow> k \<noteq> scrub_record_key \<longrightarrow> n = 0" "fmlookup obj k = Some v" "k \<noteq> scrub_record_key"
    then show "scrub_count redact v = 0" by (elim allE [of _ k] allE [of _ "scrub_count redact v"]) simp
  next
    fix k n
    assume "\<forall>k v. fmlookup obj k = Some v \<longrightarrow> k \<noteq> scrub_record_key \<longrightarrow> scrub_count redact v = 0"
      "fmlookup ?counts k = Some n" "k \<noteq> scrub_record_key"
    then show "n = 0" by (cases "fmlookup obj k") auto
  qed
  finally show ?thesis .
qed

lemma scrub_count_record:
  "scrub_count redact (JObj (fmupd scrub_record_key j obj)) = 0 \<longleftrightarrow> scrub_count redact (JObj obj) = 0"
proof -
  have "fmlookup (fmupd scrub_record_key j obj) k = fmlookup obj k" if "k \<noteq> scrub_record_key" for k using that by simp
  then show ?thesis unfolding scrub_count_zero by metis
qed

lemma scrub_object_again:
  assumes "\<And>x. fs_redact scrub (fs_redact scrub x) = fs_redact scrub x" "scrub_object scrub obj = Inr (obj', n)"
  shows "scrub_object scrub obj' = Inr (obj', 0)"
proof -
  have zero: "scrub_count (fs_redact scrub) (JObj obj') = 0"
  proof (cases "scrub_count (fs_redact scrub) (JObj obj) = 0")
    case True
    with assms(2) show ?thesis by (simp add: scrub_object_def)
  next
    case False
    obtain scrubbed where s: "scrub_value (fs_redact scrub) (JObj obj) = JObj scrubbed" by simp
    have "scrub_count (fs_redact scrub) (JObj scrubbed) = 0" unfolding s [symmetric] by (rule scrub_count_again [OF assms(1)])
    moreover from assms(2) False s obtain j where "obj' = fmupd scrub_record_key j scrubbed"
      by (auto simp: scrub_object_def Let_def res_simps simp del: scrub_value.simps scrub_count.simps)
    ultimately show ?thesis by (simp only: scrub_count_record)
  qed
  then show ?thesis by (simp add: scrub_object_def)
qed

text \<open>
  C6. Every coroutine of the store that is modelled (the constructors of store_call), on any well-formed
  store and whether it returns or raises, is a sequence of abstract changes and keeps the store well formed.
  A change touches only side tables, registers members of a graph, writes one task in a way the store admits
  (a new task that holds no lease, or a change of a task that is not terminal that keeps its identity, passes
  every validator and takes no lease over a key another task holds), removes terminal tasks no worker holds,
  or replaces the failure text of one task no worker holds.  Work attempts, completion documents,
  cancellation reconciliation, session closures and task groups are outside these coroutines.
\<close>
theorem operations_refine_steps:
  assumes "store_shape env s"
  shows "(store_change env)\<^sup>*\<^sup>* s (apply_call env c s) \<and> store_shape env (apply_call env c s)"
  using call_change [OF assms] call_shape [OF assms] by blast

definition sample_scrub :: failure_scrub where
  "sample_scrub = \<lparr>fs_redact = (\<lambda>x. ''***''), fs_scrubbed_at = 0, fs_dry_run = False\<rparr>"

theorem operations_refine_steps_witness:
  "(store_change sample_env)\<^sup>*\<^sup>* sample_store (apply_call sample_env (Operation (Cancel ''b'' None)) sample_store) \<and>
   store_shape sample_env (apply_call sample_env (Operation (Cancel ''b'' None)) sample_store)"
  unfolding sample_store_def by (rule operations_refine_steps [OF reached_shape [OF sample_env_ok]])

text \<open>
  C7. A terminal task is final.  Whatever modelled coroutines follow the state in which a task is stored, it
  keeps what its creation fixed (type, input, metadata, invocation, keys, parent, graph and prerequisites),
  and once it is terminal nothing of it changes but its error and status payload, and those only when one of
  the calls scrubs it.  It disappears only by a deletion that names it, at a moment when it is terminal, no
  worker holds it and it belongs to the session whose tasks are deleted.
\<close>
theorem terminal_tasks_are_final:
  assumes "env_ok env" "dict_get (ts_tasks (run_calls env calls new_task_store)) i = Some t"
  shows "(\<exists>u. dict_get (ts_tasks (run_calls env (calls @ later) new_task_store)) i = Some u \<and> kept_by later i t u) \<or>
    (\<exists>before session ids claim after u. later = before @ Delete session ids claim # after \<and> i \<in> set ids \<and>
       dict_get (ts_tasks (run_calls env (calls @ before) new_task_store)) i = Some u \<and> kept_by before i t u \<and>
       settled_unowned u \<and> tk_session_id u = Some session)"
  using run_calls_effect [OF run_calls_shape [OF new_store_shape [OF assms(1)]] assms(2), of later]
  by (simp add: run_calls_append)

definition sample_calls :: "store_call list" where
  "sample_calls = map Operation (sample_start @ [Cancel ''b'' (Some (fmap_of_list [(''message'', JStr ''key'')]))])"

definition sample_kept :: task_store where
  "sample_kept = run_calls sample_env sample_calls new_task_store"

lemma sample_kept_facts:
  "dict_get (ts_tasks sample_kept) ''b'' \<noteq> None" "tk_status (sample_stored ''b'' sample_kept) = CANCELLED"
  "map_option (\<lambda>e. fmlookup e ''message'')
     (tk_error (sample_stored ''b'' (run_calls sample_env [Scrub ''b'' sample_scrub] sample_kept))) = Some (Some (JStr ''***''))"
  by code_simp+

theorem terminal_tasks_are_final_witness:
  "\<exists>u. dict_get (ts_tasks (run_calls sample_env (sample_calls @ [Scrub ''b'' sample_scrub]) new_task_store)) ''b'' = Some u \<and>
    kept_by [Scrub ''b'' sample_scrub] ''b'' (sample_stored ''b'' sample_kept) u \<and>
    map_option (\<lambda>e. fmlookup e ''message'') (tk_error u) = Some (Some (JStr ''***''))"
proof -
  have get: "dict_get (ts_tasks (run_calls sample_env sample_calls new_task_store)) ''b'' = Some (sample_stored ''b'' sample_kept)"
    using sample_get [OF sample_kept_facts(1)] by (simp add: sample_kept_def)
  have "[Scrub ''b'' sample_scrub] \<noteq> before @ Delete session ids claim # after" for before session ids claim after
    by (cases before) auto
  with terminal_tasks_are_final [OF sample_env_ok get, of "[Scrub ''b'' sample_scrub]"] sample_kept_facts(3)
  show ?thesis by (auto simp: run_calls_append sample_kept_def sample_stored_def split: option.splits)
qed

end
