(* ===== verification/Task_Groups.thy ===== *)
theory Task_Groups
  imports Graph_Creation
begin

text \<open>
  Task groups (\<open>src/cayu/tasks/groups.py\<close>, \<open>_groups.py\<close>): a completion policy over some members of a new
  graph, the decision it reaches from their outcomes, the barrier that waits for the losers to stop, and the
  publication of a graph transition to the group.  Byte limits of documents are not modelled.
\<close>

section \<open>Barriers\<close>

datatype barrier_status = Q_NOT_REQUESTED | Q_WAITING_DECISION | Q_DRAINING | Q_ATTENTION_REQUIRED | Q_QUIESCENT

datatype finalizer_status = F_ABSENT | F_WAITING | F_RELEASED | F_INELIGIBLE | F_SETTLED

definition task_group_max_members :: int where "task_group_max_members = int task_graph_max_nodes"

definition task_group_max_executions :: int where "task_group_max_executions = task_group_max_members * 100"

text \<open>\<open>TaskGroupQuiescencePolicy\<close> is its timeout in seconds.\<close>

definition barrier_policy_valid :: "rat \<Rightarrow> bool" where
  "barrier_policy_valid timeout \<longleftrightarrow> 0 < timeout \<and> timeout \<le> 86400"

record invocation_duty =
  iv_task_id :: string
  iv_session_id :: string
  iv_session_instance_id :: string
  iv_interaction_id :: string
  iv_run_epoch :: int
  iv_profile_fingerprint :: string
  iv_release_record_sha256 :: "string option"
  iv_owner_settled :: bool

definition invocation_duty_valid :: "invocation_duty \<Rightarrow> bool" where
  "invocation_duty_valid i \<longleftrightarrow> is_graph_identifier (iv_task_id i) \<and> durable_clean (iv_session_id i) \<and>
     utf8_bytes (iv_session_id i) \<le> 2048 \<and> is_graph_identifier (iv_session_instance_id i) \<and>
     is_graph_identifier (iv_interaction_id i) \<and> 1 \<le> iv_run_epoch i \<and> iv_run_epoch i \<le> max_portable_json_integer \<and>
     is_sha256_text (iv_profile_fingerprint i) \<and> opt_holds is_sha256_text (iv_release_record_sha256 i) \<and>
     \<not> (iv_release_record_sha256 i \<noteq> None \<and> \<not> iv_owner_settled i)"

record resolution_duty =
  rd_decision_id :: string
  rd_owner_id :: string
  rd_settled_at :: "datetime option"

definition resolution_duty_valid :: "resolution_duty \<Rightarrow> bool" where
  "resolution_duty_valid r \<longleftrightarrow> linked_id_ok (rd_decision_id r) \<and> length (rd_owner_id r) = 32 \<and> list_all hex_char (rd_owner_id r)"

record execution_duty =
  xd_task_id :: string
  xd_worker_id :: "string option"
  xd_started_at :: datetime
  xd_settled_at :: "datetime option"
  xd_invocation :: "invocation_duty option"
  xd_resolution :: "resolution_duty option"

definition unresolved :: "execution_duty \<Rightarrow> bool" where
  "unresolved x \<longleftrightarrow> (case xd_resolution x of None \<Rightarrow> False | Some r \<Rightarrow> rd_settled_at r = None)"

definition execution_duty_valid :: "execution_duty \<Rightarrow> bool" where
  "execution_duty_valid x \<longleftrightarrow> is_graph_identifier (xd_task_id x) \<and> opt_holds (\<lambda>w. require_clean_nonblank w = Inr w) (xd_worker_id x) \<and>
     opt_holds invocation_duty_valid (xd_invocation x) \<and> opt_holds resolution_duty_valid (xd_resolution x) \<and>
     \<not> (xd_settled_at x \<noteq> None \<and> unresolved x)"

record barrier =
  ba_status :: barrier_status
  ba_deadline :: "datetime option"
  ba_loser_task_ids :: "string list"
  ba_unsettled_task_ids :: "string list"
  ba_executions :: "execution_duty list"
  ba_finalizer_status :: finalizer_status

definition barrier_valid :: "barrier \<Rightarrow> bool" where
  "barrier_valid b \<longleftrightarrow> canonical_identifiers (ba_loser_task_ids b) \<and> canonical_identifiers (ba_unsettled_task_ids b) \<and>
     int (length (ba_executions b)) \<le> task_group_max_executions \<and> list_all execution_duty_valid (ba_executions b) \<and>
     set (ba_unsettled_task_ids b) \<subseteq> set (ba_loser_task_ids b) \<and>
     sorted_wrt (<) (map xd_task_id (ba_executions b)) \<and>
     (if ba_status b \<in> {Q_NOT_REQUESTED, Q_WAITING_DECISION}
      then ba_deadline b = None \<and> ba_loser_task_ids b = [] \<and> ba_unsettled_task_ids b = []
      else ba_deadline b \<noteq> None) \<and>
     \<not> (ba_status b = Q_QUIESCENT \<and> ba_unsettled_task_ids b \<noteq> [])"

section \<open>Policies and requests\<close>

datatype policy_kind = ALL_MEMBERS | FIRST_SUCCESS | QUORUM

record group_policy =
  pk_kind :: policy_kind
  pk_k :: "int option"

definition group_policy_valid :: "group_policy \<Rightarrow> bool" where
  "group_policy_valid p \<longleftrightarrow> opt_holds (\<lambda>k. 1 \<le> k \<and> k \<le> task_group_max_members) (pk_k p) \<and>
     (pk_kind p = QUORUM \<longleftrightarrow> pk_k p \<noteq> None)"

definition required_successes :: "group_policy \<Rightarrow> int \<Rightarrow> int" where
  "required_successes p member_count = (case pk_kind p of
       ALL_MEMBERS \<Rightarrow> member_count
     | FIRST_SUCCESS \<Rightarrow> 1
     | QUORUM \<Rightarrow> (case pk_k p of None \<Rightarrow> 0 | Some k \<Rightarrow> k))"

record group_create =
  ggc_group_id :: string
  ggc_graph :: graph_create
  ggc_members :: "string list"
  ggc_policy :: group_policy
  ggc_quiescence :: "rat option"
  ggc_finalizer :: "string option"
  ggc_submitted_sha256 :: "string option"

text \<open>
  The nested function \<open>ancestors\<close>: the nodes reached from \<open>pending\<close>, taken from its end.  A node outside the
  graph is the KeyError of the lookup; every other visited node is new, so the loop ends.
\<close>

function ancestors_from :: "(string, string list) dict \<Rightarrow> string list \<Rightarrow> string list \<Rightarrow> string list result" where
  "ancestors_from deps found pending =
     (if pending = [] then Inr found
      else if last pending \<in> set found then ancestors_from deps found (butlast pending)
      else case dict_get deps (last pending) of
        None \<Rightarrow> Inl KeyError
      | Some ps \<Rightarrow> ancestors_from deps (last pending # found) (butlast pending @ ps))"
  by pat_completeness auto
termination
proof (relation "measures [\<lambda>(deps, found, pending). card (fst ` set deps - set found), \<lambda>(deps, found, pending). length pending]")
  fix deps :: "(string, string list) dict" and found pending ps
  assume new: "last pending \<notin> set found" and ps: "dict_get deps (last pending) = Some ps"
  have "last pending \<in> fst ` set deps - set found" using new map_of_SomeD [OF ps] by force
  then have "card (fst ` set deps - set found - {last pending}) < card (fst ` set deps - set found)"
    by (intro card_Diff1_less) auto
  then have "card (fst ` set deps - set (last pending # found)) < card (fst ` set deps - set found)"
    by (simp only: list.set Diff_insert [of _ _ "set found"])
  then show "((deps, last pending # found, butlast pending @ ps), (deps, found, pending))
    \<in> measures [\<lambda>(deps, found, pending). card (fst ` set deps - set found), \<lambda>(deps, found, pending). length pending]"
    by (intro measures_less) (simp only: prod.case)
next
  fix deps :: "(string, string list) dict" and found pending
  assume "pending \<noteq> []"
  then show "((deps, found, butlast pending), (deps, found, pending))
    \<in> measures [\<lambda>(deps, found, pending). card (fst ` set deps - set found), \<lambda>(deps, found, pending). length pending]"
    by (intro measures_lesseq measures_less) (simp_all only: prod.case length_butlast le_refl, simp)
qed simp

declare ancestors_from.simps [simp del]

definition ancestors_of :: "(string, string list) dict \<Rightarrow> string \<Rightarrow> string list result" where
  "ancestors_of deps i = (case dict_get deps i of None \<Rightarrow> Inl KeyError | Some ps \<Rightarrow> ancestors_from deps [] ps)"

definition finalizer_ok :: "group_create \<Rightarrow> unit result" where
  "finalizer_ok q = (case ggc_finalizer q of
       None \<Rightarrow> Inr ()
     | Some f \<Rightarrow>
         let deps = node_edges (gq_nodes (ggc_graph q))
         in if ggc_quiescence q = None then Inl ValueError
            else if f \<notin> fst ` set deps \<or> f \<in> set (ggc_members q) then Inl ValueError
            else bind_res (ancestors_of deps f) (\<lambda>above.
              if set above \<inter> set (ggc_members q) \<noteq> {} then Inl ValueError
              else bind_res (traverse_res (ancestors_of deps) (ggc_members q)) (\<lambda>sets.
                raise_if (list_ex (\<lambda>as. f \<in> set as) sets) ValueError)))"

text \<open>\<open>copy_task_group_create\<close> builds the request again, so all its validators run.\<close>

definition copy_task_group_create :: "group_create \<Rightarrow> group_create result" where
  "copy_task_group_create q =
     (if \<not> is_graph_identifier (ggc_group_id q) then Inl ValueError
      else bind_res (copy_task_graph_create (ggc_graph q)) (\<lambda>graph.
        let members = sort (ggc_members q); q = q\<lparr>ggc_graph := graph, ggc_members := members\<rparr>
        in if members = [] \<or> int (length members) > task_group_max_members \<or> \<not> distinct members \<or> \<not> list_all is_graph_identifier members
              \<or> \<not> group_policy_valid (ggc_policy q) \<or> \<not> opt_holds barrier_policy_valid (ggc_quiescence q)
              \<or> \<not> opt_holds is_graph_identifier (ggc_finalizer q)
           then Inl ValueError
           else if \<not> set members \<subseteq> node_id ` set (gq_nodes graph) then Inl ValueError
           else if required_successes (ggc_policy q) (int (length members)) > int (length members) then Inl ValueError
           else bind_res (finalizer_ok q) (\<lambda>_.
             if opt_holds is_sha256_text (ggc_submitted_sha256 q) then Inr q else Inl ValueError)))"

definition policy_json :: "group_policy \<Rightarrow> json" where
  "policy_json p = JObj (fmap_of_list
     [(''kind'', JStr (case pk_kind p of ALL_MEMBERS \<Rightarrow> ''all'' | FIRST_SUCCESS \<Rightarrow> ''first_success'' | QUORUM \<Rightarrow> ''quorum'')),
      (''k'', json_opt JInt (pk_k p))])"

definition graph_authority_json :: "graph_create \<Rightarrow> json" where
  "graph_authority_json q = JObj (fmap_of_list
     [(''graph_id'', JStr (gq_graph_id q)), (''nodes'', JList (map node_json (gq_nodes q))),
      (''submitted_request_sha256'', json_opt JStr (gq_submitted_sha256 q)),
      (''parent_invocations'', JList (map parent_snapshot_json (gq_parents q))),
      (''invocation_authorities'', JList (map authority_json (gq_nodes q)))])"

definition task_group_request_sha256 :: "(json \<Rightarrow> string) \<Rightarrow> group_create \<Rightarrow> string result" where
  "task_group_request_sha256 digest q = bind_res (copy_task_group_create q) (\<lambda>q. Inr (digest (JObj (fmap_of_list
     [(''group_id'', JStr (ggc_group_id q)), (''graph'', graph_authority_json (ggc_graph q)),
      (''member_task_ids'', JList (map JStr (ggc_members q))), (''policy'', policy_json (ggc_policy q)),
      (''quiescence'', json_opt (\<lambda>s. JObj (fmap_of_list [(''timeout_seconds'', JNum s)])) (ggc_quiescence q)),
      (''finalizer_task_id'', json_opt JStr (ggc_finalizer q))]))))"

section \<open>Receipts, decisions, snapshots and events\<close>

datatype group_status = GROUP_PENDING | GROUP_SUCCEEDED | GROUP_FAILED

record group_receipt =
  pr_group_id :: string
  pr_graph :: graph_receipt
  pr_members :: "string list"
  pr_policy :: group_policy
  pr_quiescence :: "rat option"
  pr_finalizer :: "string option"
  pr_request_sha256 :: string
  pr_submitted_sha256 :: string

definition group_receipt_valid :: "group_receipt \<Rightarrow> bool" where
  "group_receipt_valid r \<longleftrightarrow> is_graph_identifier (pr_group_id r) \<and> graph_receipt_valid (pr_graph r) \<and>
     pr_members r \<noteq> [] \<and> canonical_identifiers (pr_members r) \<and> group_policy_valid (pr_policy r) \<and>
     opt_holds barrier_policy_valid (pr_quiescence r) \<and> opt_holds is_graph_identifier (pr_finalizer r) \<and>
     is_sha256_text (pr_request_sha256 r) \<and> is_sha256_text (pr_submitted_sha256 r) \<and>
     opt_holds (\<lambda>f. pr_quiescence r \<noteq> None \<and> f \<in> set (gr_task_ids (pr_graph r)) \<and> f \<notin> set (pr_members r)) (pr_finalizer r) \<and>
     set (pr_members r) \<subseteq> set (gr_task_ids (pr_graph r)) \<and>
     required_successes (pr_policy r) (int (length (pr_members r))) \<le> int (length (pr_members r))"

record group_decision =
  de_succeeded :: bool
  de_decided_at :: datetime
  de_successful :: "string list"
  de_unsuccessful :: "string list"
  de_impossible :: bool

text \<open>
  A decision has one of two statuses; its reason is null or \<open>completion_policy_impossible\<close>.
\<close>

definition decision_status :: "group_decision \<Rightarrow> group_status" where
  "decision_status d = (if de_succeeded d then GROUP_SUCCEEDED else GROUP_FAILED)"

definition group_decision_valid :: "group_decision \<Rightarrow> bool" where
  "group_decision_valid d \<longleftrightarrow> canonical_identifiers (de_successful d) \<and> canonical_identifiers (de_unsuccessful d) \<and>
     (\<not> de_succeeded d \<longleftrightarrow> de_impossible d) \<and> set (de_successful d) \<inter> set (de_unsuccessful d) = {}"

record group_snapshot =
  gn_receipt :: group_receipt
  gn_members :: "graph_member list"
  gn_decision :: "group_decision option"
  gn_barrier :: barrier
  gn_last_sequence :: int

definition completed_members :: "graph_member list \<Rightarrow> string list" where
  "completed_members ms = map gm_task_id (filter (\<lambda>m. gm_status m = COMPLETED) ms)"

definition failed_members :: "graph_member list \<Rightarrow> string list" where
  "failed_members ms = map gm_task_id (filter (\<lambda>m. gm_status m \<in> graph_failure_statuses) ms)"

definition policy_satisfied :: "int \<Rightarrow> graph_member list \<Rightarrow> bool" where
  "policy_satisfied required ms \<longleftrightarrow> int (length (completed_members ms)) \<ge> required"

definition policy_impossible :: "int \<Rightarrow> graph_member list \<Rightarrow> bool" where
  "policy_impossible required ms \<longleftrightarrow> int (length ms) - int (length (failed_members ms)) < required"

definition decision_matches :: "int \<Rightarrow> graph_member list \<Rightarrow> group_decision option \<Rightarrow> bool" where
  "decision_matches required ms decision = (case decision of
       None \<Rightarrow> \<not> policy_satisfied required ms \<and> \<not> policy_impossible required ms
     | Some d \<Rightarrow> set (de_successful d) \<subseteq> set (completed_members ms) \<and> set (de_unsuccessful d) \<subseteq> set (failed_members ms) \<and>
         (if de_succeeded d then int (length (de_successful d)) = required
          else int (length ms) - int (length (de_unsuccessful d)) < required))"

definition minimum_sequence :: "graph_member list \<Rightarrow> group_decision option \<Rightarrow> int" where
  "minimum_sequence ms decision = 1 + int (length (completed_members ms) + length (failed_members ms)) + (if decision = None then 0 else 2)"

definition barrier_matches :: "group_receipt \<Rightarrow> group_decision option \<Rightarrow> barrier \<Rightarrow> bool" where
  "barrier_matches r decision b \<longleftrightarrow>
     (pr_quiescence r = None \<longleftrightarrow> ba_status b = Q_NOT_REQUESTED) \<and>
     (pr_finalizer r = None \<longleftrightarrow> ba_finalizer_status b = F_ABSENT) \<and>
     set (ba_loser_task_ids b) \<subseteq> set (pr_members r) \<and>
     \<not> (decision = None \<and> ba_status b \<notin> {Q_NOT_REQUESTED, Q_WAITING_DECISION}) \<and>
     \<not> (ba_finalizer_status b \<in> {F_RELEASED, F_SETTLED} \<and>
        ((case decision of None \<Rightarrow> True | Some d \<Rightarrow> \<not> de_succeeded d) \<or> ba_status b \<noteq> Q_QUIESCENT))"

text \<open>The checks the constructor of a snapshot makes; its parts were checked when they were built.\<close>

definition snapshot_checks :: "group_snapshot \<Rightarrow> bool" where
  "snapshot_checks s \<longleftrightarrow>
     (let r = gn_receipt s; ms = gn_members s; required = required_successes (pr_policy r) (int (length ms));
          least = minimum_sequence ms (gn_decision s)
      in ms \<noteq> [] \<and> int (length ms) \<le> task_group_max_members \<and>
         1 \<le> gn_last_sequence s \<and> gn_last_sequence s \<le> max_portable_json_integer \<and>
         map gm_task_id ms = pr_members r \<and>
         list_all (\<lambda>m. set (gm_prerequisite_task_ids m) \<subseteq> set (gr_task_ids (pr_graph r))) ms \<and>
         decision_matches required ms (gn_decision s) \<and>
         gn_last_sequence s \<ge> least \<and> (pr_quiescence r = None \<longrightarrow> gn_last_sequence s = least) \<and>
         barrier_matches r (gn_decision s) (gn_barrier s))"

definition group_snapshot_valid :: "group_snapshot \<Rightarrow> bool" where
  "group_snapshot_valid s \<longleftrightarrow> group_receipt_valid (gn_receipt s) \<and> list_all graph_member_valid (gn_members s) \<and>
     opt_holds group_decision_valid (gn_decision s) \<and> barrier_valid (gn_barrier s) \<and> snapshot_checks s"

datatype group_event_type =
    GE_CREATED | GE_MEMBER_TERMINAL | GE_POLICY_SATISFIED | GE_POLICY_IMPOSSIBLE | GE_SUCCEEDED | GE_FAILED
  | GE_CANCELLATION_REQUESTED | GE_DRAINING | GE_QUIESCENT | GE_TIMEOUT | GE_RESOLVED
  | GE_FINALIZER_RELEASED | GE_FINALIZER_INELIGIBLE | GE_FINALIZER_SETTLED

record group_event =
  ve_group_id :: string
  ve_sequence :: int
  ve_type :: group_event_type
  ve_occurred_at :: datetime
  ve_task_id :: "string option"
  ve_task_status :: "task_status option"
  ve_decision :: "group_decision option"
  ve_barrier :: "barrier option"

definition group_event_valid :: "group_event \<Rightarrow> bool" where
  "group_event_valid e \<longleftrightarrow> is_graph_identifier (ve_group_id e) \<and> 1 \<le> ve_sequence e \<and> ve_sequence e \<le> max_portable_json_integer \<and>
     opt_holds is_graph_identifier (ve_task_id e) \<and>
     (if ve_type e = GE_CREATED
      then ve_sequence e = 1 \<and> ve_task_id e = None \<and> ve_task_status e = None \<and> ve_decision e = None
      else if ve_type e = GE_MEMBER_TERMINAL
      then ve_sequence e \<noteq> 1 \<and> ve_task_id e \<noteq> None \<and> opt_holds (\<lambda>st. st \<in> terminal_task_statuses) (ve_task_status e) \<and>
        ve_task_status e \<noteq> None \<and> ve_decision e = None
      else if ve_type e \<in> {GE_POLICY_SATISFIED, GE_POLICY_IMPOSSIBLE, GE_SUCCEEDED, GE_FAILED}
      then ve_sequence e \<noteq> 1 \<and> ve_task_id e = None \<and> ve_task_status e = None \<and>
        (case ve_decision e of None \<Rightarrow> False
         | Some d \<Rightarrow> (de_succeeded d \<longleftrightarrow> ve_type e \<in> {GE_SUCCEEDED, GE_POLICY_SATISFIED}) \<and> de_decided_at d = ve_occurred_at e)
      else ve_sequence e \<noteq> 1 \<and> ve_barrier e \<noteq> None \<and> ve_decision e = None)"

definition check_group_event :: "group_event \<Rightarrow> group_event result" where
  "check_group_event e = (if group_event_valid e then Inr e else Inl ValueError)"

definition check_snapshot :: "group_snapshot \<Rightarrow> group_snapshot result" where
  "check_snapshot s = (if snapshot_checks s then Inr s else Inl ValueError)"

section \<open>Admission and replay\<close>

record group_publication =
  gu_snapshot :: group_snapshot
  gu_events :: "group_event list"

definition submitted_or :: "string option \<Rightarrow> string \<Rightarrow> string" where
  "submitted_or submitted digest = (case submitted of None \<Rightarrow> digest | Some x \<Rightarrow> if x = [] then digest else x)"

definition require_group_replay :: "(json \<Rightarrow> string) \<Rightarrow> group_snapshot \<Rightarrow> group_create \<Rightarrow> string option \<Rightarrow> group_receipt result" where
  "require_group_replay digest s q submitted = bind_res (task_group_request_sha256 digest q) (\<lambda>sha.
     let r = gn_receipt s; graph = ggc_graph q; graph_sha = task_graph_request_sha256 digest graph
     in if pr_group_id r \<noteq> ggc_group_id q \<or> gr_graph_id (pr_graph r) \<noteq> gq_graph_id graph \<or> pr_members r \<noteq> ggc_members q
           \<or> pr_policy r \<noteq> ggc_policy q \<or> pr_quiescence r \<noteq> ggc_quiescence q \<or> pr_finalizer r \<noteq> ggc_finalizer q
           \<or> pr_request_sha256 r \<noteq> sha \<or> pr_submitted_sha256 r \<noteq> submitted_or submitted sha
           \<or> gr_request_sha256 (pr_graph r) \<noteq> graph_sha \<or> gr_task_ids (pr_graph r) \<noteq> map node_id (gq_nodes graph)
           \<or> gr_submitted_request_sha256 (pr_graph r) \<noteq> submitted_or (gq_submitted_sha256 graph) graph_sha
        then Inl TaskGroupConflict else Inr r)"

definition admitted_receipt :: "group_create \<Rightarrow> graph_receipt \<Rightarrow> string \<Rightarrow> string option \<Rightarrow> group_receipt" where
  "admitted_receipt q graph sha submitted = \<lparr>pr_group_id = ggc_group_id q, pr_graph = graph, pr_members = ggc_members q,
     pr_policy = ggc_policy q, pr_quiescence = ggc_quiescence q, pr_finalizer = ggc_finalizer q,
     pr_request_sha256 = sha, pr_submitted_sha256 = submitted_or submitted sha\<rparr>"

definition admitted_barrier :: "group_create \<Rightarrow> barrier" where
  "admitted_barrier q = \<lparr>ba_status = (if ggc_quiescence q = None then Q_NOT_REQUESTED else Q_WAITING_DECISION),
     ba_deadline = None, ba_loser_task_ids = [], ba_unsettled_task_ids = [], ba_executions = [],
     ba_finalizer_status = (if ggc_finalizer q = None then F_ABSENT else F_WAITING)\<rparr>"

definition created_event :: "group_receipt \<Rightarrow> group_event" where
  "created_event r = \<lparr>ve_group_id = pr_group_id r, ve_sequence = 1, ve_type = GE_CREATED,
     ve_occurred_at = gr_accepted_at (pr_graph r), ve_task_id = None, ve_task_status = None, ve_decision = None, ve_barrier = None\<rparr>"

definition prepare_group_admission :: "(json \<Rightarrow> string) \<Rightarrow> group_create \<Rightarrow> graph_receipt \<Rightarrow> (string, task) dict
    \<Rightarrow> string option \<Rightarrow> group_publication result" where
  "prepare_group_admission digest q graph tasks submitted =
     (if gr_request_sha256 graph \<noteq> task_graph_request_sha256 digest (ggc_graph q) then Inl TaskGroupConflict
      else bind_res (task_group_request_sha256 digest q) (\<lambda>sha.
        let r = admitted_receipt q graph sha submitted
        in if \<not> group_receipt_valid r then Inl ValueError
           else bind_res (traverse_res (\<lambda>i. case dict_get tasks i of None \<Rightarrow> Inl KeyError | Some t \<Rightarrow> member_from_task t) (pr_members r)) (\<lambda>ms.
             bind_res (check_snapshot \<lparr>gn_receipt = r, gn_members = ms, gn_decision = None, gn_barrier = admitted_barrier q, gn_last_sequence = 1\<rparr>) (\<lambda>s.
             bind_res (check_group_event (created_event r)) (\<lambda>e. Inr \<lparr>gu_snapshot = s, gu_events = [e]\<rparr>)))))"

section \<open>Publication of a graph transition\<close>

definition terminal_event :: "group_snapshot \<Rightarrow> datetime \<Rightarrow> int \<Rightarrow> task \<Rightarrow> group_event" where
  "terminal_event s now k t = \<lparr>ve_group_id = pr_group_id (gn_receipt s), ve_sequence = gn_last_sequence s + k + 1,
     ve_type = GE_MEMBER_TERMINAL, ve_occurred_at = now, ve_task_id = Some (tk_id t), ve_task_status = Some (tk_status t),
     ve_decision = None, ve_barrier = None\<rparr>"

fun publish_members :: "group_snapshot \<Rightarrow> datetime \<Rightarrow> task list \<Rightarrow> (string, graph_member) dict \<Rightarrow> group_event list
    \<Rightarrow> ((string, graph_member) dict \<times> group_event list) result" where
  "publish_members s now [] members events = Inr (members, events)"
| "publish_members s now (t # ts) members events = (case dict_get members (tk_id t) of
       None \<Rightarrow> publish_members s now ts members events
     | Some prior \<Rightarrow> bind_res (member_from_task t) (\<lambda>m.
         if gm_prerequisite_task_ids prior \<noteq> gm_prerequisite_task_ids m then Inl TaskGroupUnavailable
         else if gm_status prior \<in> terminal_task_statuses \<and> prior \<noteq> m then Inl TaskGroupConflict
         else bind_res (if gm_status prior \<notin> terminal_task_statuses \<and> gm_status m \<in> terminal_task_statuses
             then bind_res (check_group_event (terminal_event s now (int (length events)) t)) (\<lambda>e. Inr (events @ [e]))
             else Inr events) (\<lambda>events.
           publish_members s now ts (dict_put (tk_id t) m members) events)))"

definition reached_decision :: "int \<Rightarrow> datetime \<Rightarrow> graph_member list \<Rightarrow> group_decision" where
  "reached_decision required now ms =
     (let succeeded = policy_satisfied required ms
      in \<lparr>de_succeeded = succeeded, de_decided_at = now, de_successful = take (nat required) (completed_members ms),
           de_unsuccessful = failed_members ms, de_impossible = \<not> succeeded\<rparr>)"

definition decision_event :: "group_snapshot \<Rightarrow> datetime \<Rightarrow> int \<Rightarrow> group_decision \<Rightarrow> group_event_type \<Rightarrow> group_event" where
  "decision_event s now k d kind = \<lparr>ve_group_id = pr_group_id (gn_receipt s), ve_sequence = gn_last_sequence s + k + 1,
     ve_type = kind, ve_occurred_at = now, ve_task_id = None, ve_task_status = None, ve_decision = Some d, ve_barrier = None\<rparr>"

definition decide_group :: "group_snapshot \<Rightarrow> datetime \<Rightarrow> graph_member list \<Rightarrow> group_event list
    \<Rightarrow> (group_decision option \<times> group_event list) result" where
  "decide_group s now ms events =
     (let required = required_successes (pr_policy (gn_receipt s)) (int (length ms))
      in if gn_decision s \<noteq> None \<or> \<not> (policy_satisfied required ms \<or> policy_impossible required ms)
         then Inr (gn_decision s, events)
         else
           let d = reached_decision required now ms; k = int (length events)
           in if \<not> group_decision_valid d then Inl ValueError
              else bind_res (traverse_res check_group_event
                  (if de_succeeded d
                   then [decision_event s now k d GE_POLICY_SATISFIED, decision_event s now (k + 1) d GE_SUCCEEDED]
                   else [decision_event s now k d GE_POLICY_IMPOSSIBLE, decision_event s now (k + 1) d GE_FAILED])) (\<lambda>es.
                Inr (Some d, events @ es)))"

definition plan_group_transition :: "group_snapshot \<Rightarrow> datetime \<Rightarrow> task list \<Rightarrow> group_publication result" where
  "plan_group_transition s now tasks =
     bind_res (publish_members s now tasks (map (\<lambda>m. (gm_task_id m, m)) (gn_members s)) []) (\<lambda>(members, events).
     bind_res (decide_group s now (dict_values members) events) (\<lambda>(decision, events).
     bind_res (check_snapshot \<lparr>gn_receipt = gn_receipt s, gn_members = dict_values members, gn_decision = decision,
         gn_barrier = gn_barrier s, gn_last_sequence = gn_last_sequence s + int (length events)\<rparr>) (\<lambda>s'.
       Inr \<lparr>gu_snapshot = s', gu_events = events\<rparr>)))"

end
