(* ===== verification/Group_Barrier.thy ===== *)
theory Group_Barrier
  imports Task_Groups
begin

text \<open>
  The barrier of a task group (\<open>src/cayu/tasks/_group_quiescence.py\<close>, \<open>_group_lineage.py\<close>): the guards of a
  group's mutations, the duties of its executions, and the plan that turns one graph transition into the
  complete write set of the graph and the group.
\<close>

section \<open>Guards and reconciliation\<close>

record barrier_resolution =
  br_group_id :: string
  br_request_sha256 :: string
  br_expected_sequence :: int
  br_idempotency_key :: string

definition barrier_resolution_valid :: "barrier_resolution \<Rightarrow> bool" where
  "barrier_resolution_valid q \<longleftrightarrow> is_graph_identifier (br_group_id q) \<and> is_sha256_text (br_request_sha256 q) \<and>
     1 \<le> br_expected_sequence q \<and> br_expected_sequence q \<le> max_portable_json_integer \<and> is_graph_identifier (br_idempotency_key q)"

definition prepare_resolution :: "(json \<Rightarrow> string) \<Rightarrow> barrier_resolution \<Rightarrow> (barrier_resolution \<times> string) result" where
  "prepare_resolution digest q = (if \<not> barrier_resolution_valid q then Inl ValueError
     else Inr (q, digest (JObj (fmap_of_list
       [(''group_id'', JStr (br_group_id q)), (''request_sha256'', JStr (br_request_sha256 q)),
        (''expected_sequence'', JInt (br_expected_sequence q)), (''idempotency_key'', JStr (br_idempotency_key q))]))))"

definition require_resolution :: "group_snapshot \<Rightarrow> barrier_resolution \<Rightarrow> unit result" where
  "require_resolution s q = raise_if (pr_group_id (gn_receipt s) \<noteq> br_group_id q \<or> pr_request_sha256 (gn_receipt s) \<noteq> br_request_sha256 q
     \<or> gn_last_sequence s \<noteq> br_expected_sequence q \<or> ba_status (gn_barrier s) \<noteq> Q_ATTENTION_REQUIRED) TaskGroupConflict"

definition waiting_finalizer :: "group_snapshot \<Rightarrow> string option" where
  "waiting_finalizer s = (if ba_finalizer_status (gn_barrier s) = F_WAITING then pr_finalizer (gn_receipt s) else None)"

definition reconciliation_is_complete :: "group_snapshot \<Rightarrow> bool" where
  "reconciliation_is_complete s \<longleftrightarrow> gn_decision s \<noteq> None \<and> ba_status (gn_barrier s) = Q_QUIESCENT \<and>
     ba_finalizer_status (gn_barrier s) \<in> {F_ABSENT, F_INELIGIBLE, F_SETTLED} \<and>
     list_all (\<lambda>m. gm_status m \<in> terminal_task_statuses) (gn_members s)"

definition execution_of :: "group_snapshot \<Rightarrow> string \<Rightarrow> execution_duty option" where
  "execution_of s i = find (\<lambda>x. xd_task_id x = i) (ba_executions (gn_barrier s))"

definition retained_execution_settlement_matches :: "group_snapshot \<Rightarrow> string \<times> string \<times> datetime \<Rightarrow> bool result" where
  "retained_execution_settlement_matches s settled = (case settled of (i, worker, started) \<Rightarrow> (case execution_of s i of
       None \<Rightarrow> Inl TaskGroupConflict
     | Some x \<Rightarrow>
         if xd_worker_id x \<noteq> Some worker \<or> xd_started_at x \<noteq> started then Inl TaskGroupConflict
         else Inr (xd_settled_at x \<noteq> None \<and> \<not> unresolved x)))"

definition without_release :: "invocation_duty \<Rightarrow> invocation_duty" where
  "without_release i = i\<lparr>iv_release_record_sha256 := None\<rparr>"

definition retained_invocation_settlement_matches :: "group_snapshot \<Rightarrow> invocation_duty \<Rightarrow> bool result" where
  "retained_invocation_settlement_matches s i = (case execution_of s (iv_task_id i) of
       None \<Rightarrow> Inl TaskGroupConflict
     | Some x \<Rightarrow>
         if xd_worker_id x \<noteq> None then Inr False
         else (case xd_invocation x of
             None \<Rightarrow> Inl TaskGroupConflict
           | Some prior \<Rightarrow>
               if \<not> iv_owner_settled i \<or> without_release prior \<noteq> without_release i
                  \<or> iv_release_record_sha256 i \<notin> {None, iv_release_record_sha256 prior}
               then Inl TaskGroupConflict
               else Inr (xd_settled_at x \<noteq> None \<and> iv_release_record_sha256 prior \<noteq> None \<and> \<not> unresolved x)))"

definition require_group_deletion_ready :: "group_snapshot \<Rightarrow> unit result" where
  "require_group_deletion_ready s = raise_if (pr_quiescence (gn_receipt s) \<noteq> None \<and>
     (ba_status (gn_barrier s) \<noteq> Q_QUIESCENT \<or> list_ex (\<lambda>x. xd_settled_at x = None \<or> unresolved x) (ba_executions (gn_barrier s))))
     TaskGraphConflict"

definition require_group_mutation :: "group_snapshot \<Rightarrow> task \<Rightarrow> task \<Rightarrow> string option \<Rightarrow> unit result" where
  "require_group_mutation s prior proposed origin =
     (let i = (case origin of None \<Rightarrow> tk_id prior | Some r \<Rightarrow> if r = [] then tk_id prior else r)
      in if i \<notin> set (ba_loser_task_ids (gn_barrier s)) then Inr ()
         else if tk_status prior \<in> terminal_task_statuses then Inr ()
         else if tk_status proposed = COMPLETED then Inl TaskGroupConflict
         else raise_if (tk_status proposed \<in> {CLAIMED, RUNNING} \<and>
             (tk_status prior \<notin> {CLAIMED, RUNNING} \<or> tk_worker_id prior \<noteq> tk_worker_id proposed
              \<or> tk_started_at prior \<noteq> tk_started_at proposed \<or> tk_session_instance_id prior \<noteq> tk_session_instance_id proposed))
           TaskGroupConflict)"

text \<open>The dispatch and the settlement of a result resolver, on the execution that owns it.\<close>

definition with_execution :: "execution_duty \<Rightarrow> execution_duty list \<Rightarrow> execution_duty list" where
  "with_execution x xs = map (\<lambda>y. if xd_task_id y = xd_task_id x then x else y) xs"

definition resolved_execution :: "group_snapshot \<Rightarrow> string \<Rightarrow> string \<Rightarrow> string \<Rightarrow> bool \<Rightarrow> datetime \<Rightarrow> execution_duty
    \<Rightarrow> execution_duty option result" where
  "resolved_execution s origin decision owner settled now x =
     (case xd_resolution x of
        None \<Rightarrow>
          if settled then Inr None
          else if origin \<in> set (ba_loser_task_ids (gn_barrier s)) \<or> xd_settled_at x \<noteq> None then Inl TaskGroupConflict
          else Inr (Some (x\<lparr>xd_resolution := Some \<lparr>rd_decision_id = decision, rd_owner_id = owner, rd_settled_at = None\<rparr>\<rparr>))
      | Some prior \<Rightarrow>
          let exact = (rd_decision_id prior = decision \<and> rd_owner_id prior = owner)
          in if settled
             then (if \<not> exact then Inl TaskGroupConflict
                   else Inr (Some (x\<lparr>xd_resolution := Some (prior\<lparr>rd_settled_at := Some (case rd_settled_at prior of None \<Rightarrow> now | Some t \<Rightarrow> t)\<rparr>)\<rparr>)))
             else if origin \<in> set (ba_loser_task_ids (gn_barrier s)) \<or> xd_settled_at x \<noteq> None then Inl TaskGroupConflict
             else if rd_settled_at prior = None then (if exact then Inr None else Inl TaskGroupResultResolutionPending)
             else if exact then Inl TaskGroupConflict
             else Inr (Some (x\<lparr>xd_resolution := Some \<lparr>rd_decision_id = decision, rd_owner_id = owner, rd_settled_at = None\<rparr>\<rparr>)))"

definition observe_result_resolution :: "group_snapshot \<Rightarrow> string \<Rightarrow> string \<Rightarrow> string \<Rightarrow> string \<Rightarrow> bool \<Rightarrow> datetime \<Rightarrow> group_snapshot result" where
  "observe_result_resolution s origin i decision owner settled now =
     (if \<not> resolution_duty_valid \<lparr>rd_decision_id = decision, rd_owner_id = owner, rd_settled_at = None\<rparr> then Inl ValueError
      else if pr_quiescence (gn_receipt s) = None \<or> origin \<notin> set (pr_members (gn_receipt s)) then Inr s
      else case execution_of s i of
        None \<Rightarrow> Inl TaskGroupConflict
      | Some x \<Rightarrow> bind_res (resolved_execution s origin decision owner settled now x) (\<lambda>y. case y of
            None \<Rightarrow> Inr s
          | Some x \<Rightarrow> Inr (s\<lparr>gn_barrier := (gn_barrier s)\<lparr>ba_executions := with_execution x (ba_executions (gn_barrier s))\<rparr>\<rparr>)))"

section \<open>Retry lineage\<close>

text \<open>
  The successors of members, by the index of the store: \<open>roots\<close> maps each to the member it descends from.
\<close>

definition lineage_link_ok :: "(json \<Rightarrow> string) \<Rightarrow> (string, task) dict \<Rightarrow> (string, string) dict \<Rightarrow> string \<Rightarrow> string
    \<Rightarrow> retry_series \<Rightarrow> retry_series \<Rightarrow> bool" where
  "lineage_link_ok digest tasks roots i origin series origin_series =
     (case rs_predecessor_task_id series of
        None \<Rightarrow> False
      | Some p \<Rightarrow> (case dict_get tasks p of
            None \<Rightarrow> False
          | Some predecessor \<Rightarrow> (case tk_retry_series predecessor of
                None \<Rightarrow> False
              | Some previous \<Rightarrow> rs_successor_task_id previous = Some i \<and> rs_attempt series = rs_attempt previous + 1 \<and>
                  rs_series_id series = rs_series_id origin_series \<and> rs_series_id previous = rs_series_id series \<and>
                  rs_causal_budget_id series = rs_causal_budget_id origin_series \<and> rs_policy series = rs_policy origin_series \<and>
                  rs_started_at series = rs_started_at origin_series \<and>
                  i = task_retry_successor_id digest (rs_series_id series) (rs_attempt series) \<and>
                  (p = origin \<or> dict_get roots p = Some origin))))"

definition check_lineage_entry :: "(json \<Rightarrow> string) \<Rightarrow> group_snapshot \<Rightarrow> (string, task) dict \<Rightarrow> (string, string) dict \<Rightarrow> string \<times> string \<Rightarrow> unit result" where
  "check_lineage_entry digest s tasks roots entry = (case entry of (i, origin) \<Rightarrow>
     if origin \<notin> set (pr_members (gn_receipt s)) \<or> i \<in> set (gr_task_ids (pr_graph (gn_receipt s))) then Inl TaskGroupUnavailable
     else case (dict_get tasks i, dict_get tasks origin) of
       (Some t, Some u) \<Rightarrow> bind_res (copy_task digest t) (\<lambda>t. case (tk_retry_series t, tk_retry_series u) of
           (Some series, Some origin_series) \<Rightarrow> raise_if (\<not> lineage_link_ok digest tasks roots i origin series origin_series) TaskGroupUnavailable
         | _ \<Rightarrow> Inl TaskGroupUnavailable)
     | _ \<Rightarrow> Inl TaskGroupUnavailable)"

definition check_successor :: "(string, task) dict \<Rightarrow> (string, string) dict \<Rightarrow> string \<Rightarrow> unit result" where
  "check_successor tasks roots i = (case dict_get tasks i of
       None \<Rightarrow> Inl KeyError
     | Some t \<Rightarrow> (case tk_retry_series t of
           None \<Rightarrow> Inr ()
         | Some series \<Rightarrow> (case rs_successor_task_id series of
               None \<Rightarrow> Inr ()
             | Some next \<Rightarrow> raise_if (dict_get roots next \<noteq> Some (case dict_get roots i of None \<Rightarrow> i | Some r \<Rightarrow> r)) TaskGroupUnavailable)))"

definition validate_lineage :: "(json \<Rightarrow> string) \<Rightarrow> group_snapshot \<Rightarrow> (string, task) dict \<Rightarrow> (string, string) dict \<Rightarrow> unit result" where
  "validate_lineage digest s tasks roots =
     (if int (length roots) > task_group_max_members * 99 then Inl TaskGroupUnavailable
      else bind_res (traverse_res (check_lineage_entry digest s tasks roots) roots) (\<lambda>_.
        bind_res (traverse_res (check_successor tasks roots) (pr_members (gn_receipt s) @ map fst roots)) (\<lambda>_. Inr ())))"

section \<open>Execution duties\<close>

text \<open>\<open>_fresh_resumed_execution\<close>: a resumed member starts a new execution, strictly after its last.\<close>

definition freshly_resumed :: "execution_duty \<Rightarrow> task \<Rightarrow> task \<Rightarrow> task result" where
  "freshly_resumed x prior t =
     (if tk_status prior \<in> held_task_statuses \<and> tk_status t \<in> {PENDING, WAITING_DEPENDENCIES}
      then (if xd_settled_at x = None \<or> (tk_started_at prior \<noteq> None \<and> tk_started_at prior \<noteq> Some (xd_started_at x))
            then Inl TaskGroupConflict else Inr (t\<lparr>tk_started_at := None\<rparr>))
      else case tk_started_at t of
        Some started \<Rightarrow>
          if tk_status t = CLAIMED \<and> tk_started_at prior = None
          then (if xd_settled_at x = None then Inl TaskGroupConflict
                else bind_res (add_duration (xd_started_at x) 1) (\<lambda>after. Inr (t\<lparr>tk_started_at := Some (max started after)\<rparr>)))
          else Inr t
      | None \<Rightarrow> Inr t)"

definition fresh_resumed_execution :: "group_snapshot \<Rightarrow> (string, task) dict \<Rightarrow> task list \<Rightarrow> task list result" where
  "fresh_resumed_execution s current tasks = traverse_res (\<lambda>t.
     case (dict_get current (tk_id t), execution_of s (tk_id t)) of
       (Some prior, Some x) \<Rightarrow> if tk_session_id t = None then freshly_resumed x prior t else Inr t
     | _ \<Rightarrow> Inr t) tasks"

text \<open>The executions that are dispatched: a marker of a claimed or running task.\<close>

definition observed_execution :: "(string, task) dict \<Rightarrow> string \<Rightarrow> (string, execution_duty) dict \<Rightarrow> (string, execution_duty) dict result" where
  "observed_execution tasks i xs = (case dict_get tasks i of
       None \<Rightarrow> Inl KeyError
     | Some t \<Rightarrow> (case tk_started_at t of
           None \<Rightarrow> Inr xs
         | Some started \<Rightarrow>
             let new = \<lparr>xd_task_id = i, xd_worker_id = tk_worker_id t, xd_started_at = started, xd_settled_at = None,
                 xd_invocation = None, xd_resolution = None\<rparr>;
                 put = (if execution_duty_valid new then Inr (dict_put i new xs) else Inl ValueError)
             in if tk_status t \<notin> {CLAIMED, RUNNING} then Inr xs
                else (case dict_get xs i of
                    None \<Rightarrow> put
                  | Some prior \<Rightarrow>
                      if (tk_worker_id t \<noteq> None \<and> xd_worker_id prior \<noteq> tk_worker_id t) \<or> xd_started_at prior \<noteq> started
                      then (if xd_settled_at prior = None then Inl TaskGroupConflict else put)
                      else Inr xs)))"

fun observed_executions :: "(string, task) dict \<Rightarrow> string list \<Rightarrow> (string, execution_duty) dict \<Rightarrow> (string, execution_duty) dict result" where
  "observed_executions tasks [] xs = Inr xs"
| "observed_executions tasks (i # is) xs = bind_res (observed_execution tasks i xs) (observed_executions tasks is)"

definition without_settlement :: "invocation_duty \<Rightarrow> invocation_duty" where
  "without_settlement i = i\<lparr>iv_release_record_sha256 := None, iv_owner_settled := False\<rparr>"

text \<open>The invocation that is kept when \<open>i\<close> is observed over \<open>prior\<close>.\<close>

definition reconciled_invocation :: "execution_duty \<Rightarrow> invocation_duty \<Rightarrow> invocation_duty result" where
  "reconciled_invocation x i = (case xd_invocation x of
       None \<Rightarrow> Inr i
     | Some prior \<Rightarrow>
         if without_settlement prior \<noteq> without_settlement i
         then (if xd_settled_at x = None \<or> iv_release_record_sha256 i \<noteq> None \<or> iv_run_epoch i \<le> iv_run_epoch prior
               then Inl TaskGroupConflict else Inr i)
         else if iv_owner_settled prior \<and> \<not> iv_owner_settled i then Inl TaskGroupConflict
         else if iv_release_record_sha256 prior \<noteq> None
         then (if iv_release_record_sha256 i \<notin> {None, iv_release_record_sha256 prior} then Inl TaskGroupConflict else Inr prior)
         else Inr i)"

definition check_reconciled :: "barrier \<Rightarrow> execution_duty \<Rightarrow> invocation_duty \<Rightarrow> unit result" where
  "check_reconciled b x i =
     (if iv_release_record_sha256 i = None \<and> xd_settled_at x \<noteq> None \<and>
         (xd_invocation x = Some i \<or> iv_task_id i \<in> set (ba_loser_task_ids b))
      then Inl TaskGroupConflict
      else raise_if (case xd_invocation x of None \<Rightarrow> False | Some prior \<Rightarrow>
          iv_release_record_sha256 prior \<noteq> None \<and> prior \<noteq> i \<and> iv_release_record_sha256 i \<noteq> None) TaskGroupConflict)"

definition invoked_execution :: "datetime \<Rightarrow> execution_duty \<Rightarrow> invocation_duty \<Rightarrow> execution_duty" where
  "invoked_execution now x i = x\<lparr>xd_invocation := Some i,
     xd_settled_at := (if iv_release_record_sha256 i \<noteq> None then Some (case xd_settled_at x of None \<Rightarrow> now | Some t \<Rightarrow> t) else None)\<rparr>"

definition observe_invocation :: "barrier \<Rightarrow> datetime \<Rightarrow> (string, task) dict \<Rightarrow> invocation_duty option
    \<Rightarrow> (string, execution_duty) dict \<Rightarrow> (string, execution_duty) dict result" where
  "observe_invocation b now tasks invocation xs = (case invocation of
       None \<Rightarrow> Inr xs
     | Some i \<Rightarrow>
         if \<not> invocation_duty_valid i then Inl ValueError
         else (case (dict_get tasks (iv_task_id i), dict_get xs (iv_task_id i)) of
             (Some t, Some x) \<Rightarrow>
               if tk_session_id t \<noteq> Some (iv_session_id i) \<or> tk_session_instance_id t \<noteq> Some (iv_session_instance_id i)
                  \<or> tk_started_at t \<noteq> Some (xd_started_at x)
               then Inl TaskGroupConflict
               else if xd_worker_id x \<noteq> None \<or> tk_work_contract t \<noteq> None then Inr xs
               else bind_res (reconciled_invocation x i) (\<lambda>i. bind_res (check_reconciled b x i) (\<lambda>_.
                 Inr (dict_put (tk_id t) (invoked_execution now x i) xs)))
           | _ \<Rightarrow> Inl TaskGroupConflict))"

definition settle_execution :: "datetime \<Rightarrow> string list \<Rightarrow> (string \<times> string \<times> datetime) option \<Rightarrow> (string, execution_duty) dict
    \<Rightarrow> (string, execution_duty) dict result" where
  "settle_execution now scope settled xs = (case settled of
       None \<Rightarrow> Inr xs
     | Some (i, worker, started) \<Rightarrow>
         if i \<notin> set scope then Inr xs
         else (case dict_get xs i of
             None \<Rightarrow> Inl TaskGroupConflict
           | Some x \<Rightarrow>
               if xd_worker_id x \<noteq> Some worker \<or> xd_started_at x \<noteq> started then Inl TaskGroupConflict
               else if unresolved x then Inl TaskGroupResultResolutionPending
               else if xd_settled_at x = None then Inr (dict_put i (x\<lparr>xd_settled_at := Some now\<rparr>) xs)
               else Inr xs))"

section \<open>The plan\<close>

record group_context =
  gx_digest :: "json \<Rightarrow> string"
  gx_snapshot :: group_snapshot
  gx_prerequisites :: "(string, string list) dict"
  gx_first_sequence :: int
  gx_now :: datetime
  gx_roots :: "(string, string) dict"
  gx_effects :: "string list"
  gx_resolve :: bool

text \<open>The variables of the function that change while it plans.\<close>

record group_plan =
  gl_snapshot :: group_snapshot
  gl_tasks :: "(string, task) dict"
  gl_graph_events :: "graph_event list"
  gl_settlements :: "retry_settlement list"
  gl_group_events :: "group_event list"
  gl_barrier :: barrier

definition group_executions :: "group_plan \<Rightarrow> (string, execution_duty) dict" where
  "group_executions p = map (\<lambda>x. (xd_task_id x, x)) (ba_executions (gl_barrier p))"

text \<open>The nested function \<open>event\<close>.\<close>

definition barrier_event :: "group_context \<Rightarrow> group_event_type \<Rightarrow> string option \<Rightarrow> group_plan \<Rightarrow> group_plan result" where
  "barrier_event c kind i p = bind_res (check_group_event
       \<lparr>ve_group_id = pr_group_id (gn_receipt (gx_snapshot c)),
        ve_sequence = gn_last_sequence (gx_snapshot c) + int (length (gl_group_events p)) + 1, ve_type = kind,
        ve_occurred_at = gx_now c, ve_task_id = i, ve_task_status = None, ve_decision = None,
        ve_barrier = Some ((gl_barrier p)\<lparr>ba_executions := []\<rparr>)\<rparr>)
     (\<lambda>e. Inr (p\<lparr>gl_group_events := gl_group_events p @ [e]\<rparr>))"

text \<open>The nested function \<open>change\<close>: one more transition of the graph, published to the group as well.\<close>

definition group_graph_context :: "group_context \<Rightarrow> group_plan \<Rightarrow> graph_context" where
  "group_graph_context c p = \<lparr>gc_digest = gx_digest c, gc_graph_id = gr_graph_id (pr_graph (gn_receipt (gx_snapshot c))),
     gc_prerequisites = gx_prerequisites c, gc_first_sequence = gx_first_sequence c + int (length (gl_graph_events p)),
     gc_now = gx_now c, gc_group_waiting_task_id =
       (if ba_finalizer_status (gl_barrier p) = F_WAITING then pr_finalizer (gn_receipt (gx_snapshot c)) else None)\<rparr>"

definition graph_members_of :: "group_context \<Rightarrow> group_plan \<Rightarrow> (string, task) dict result" where
  "graph_members_of c p = traverse_res (\<lambda>i. case dict_get (gl_tasks p) i of None \<Rightarrow> Inl KeyError | Some t \<Rightarrow> Inr (i, t))
     (map fst (gx_prerequisites c))"

definition renumbered :: "group_context \<Rightarrow> int \<Rightarrow> group_event list \<Rightarrow> group_event list" where
  "renumbered c k es = map (\<lambda>(j, e). e\<lparr>ve_sequence := gn_last_sequence (gx_snapshot c) + k + int j + 1\<rparr>) (zip [0..<length es] es)"

definition put_tasks :: "task list \<Rightarrow> (string, task) dict \<Rightarrow> (string, task) dict" where
  "put_tasks ts d = fold (\<lambda>t d. dict_put (tk_id t) t d) ts d"

definition group_change :: "group_context \<Rightarrow> task \<Rightarrow> retry_settlement option \<Rightarrow> group_plan \<Rightarrow> group_plan result" where
  "group_change c t settlement p =
     (let kept = (case settlement of None \<Rightarrow> [] | Some r \<Rightarrow> [r])
      in if dict_get (gx_roots c) (tk_id t) \<noteq> None
         then bind_res (copy_task (gx_digest c) t) (\<lambda>t.
           Inr (p\<lparr>gl_tasks := dict_put (tk_id t) t (gl_tasks p), gl_settlements := gl_settlements p @ kept\<rparr>))
         else bind_res (graph_members_of c p) (\<lambda>current.
           bind_res (plan_graph_transition (group_graph_context c p) current t False) (\<lambda>extra.
           let changed = transition_tasks current extra
           in bind_res (plan_group_transition (gl_snapshot p) (gx_now c) changed) (\<lambda>g.
             Inr (p\<lparr>gl_snapshot := gu_snapshot g, gl_tasks := put_tasks changed (gl_tasks p),
               gl_graph_events := gl_graph_events p @ gp_events extra,
               gl_settlements := gl_settlements p @ gp_settlements extra @ kept,
               gl_group_events := gl_group_events p @ renumbered c (int (length (gl_group_events p))) (gu_events g)\<rparr>)))))"

subsection \<open>Losers\<close>

definition cancelled_loser :: "datetime \<Rightarrow> task \<Rightarrow> task" where
  "cancelled_loser now t = t\<lparr>tk_status := CANCELLED, tk_status_reason := Some ''task_group_decided'', tk_status_payload := None,
     tk_error := Some (error_code ''task_group_decided''), tk_worker_id := None, tk_lease_expires_at := None,
     tk_completed_at := Some now, tk_updated_at := now\<rparr>"

definition change_cancelled :: "group_context \<Rightarrow> task \<Rightarrow> group_plan \<Rightarrow> group_plan result" where
  "change_cancelled c t p = bind_res (copy_task (gx_digest c) (cancelled_loser (gx_now c) t)) (\<lambda>u. group_change c u None p)"

definition change_settled :: "group_context \<Rightarrow> task \<Rightarrow> group_plan \<Rightarrow> group_plan result" where
  "change_settled c t p = bind_res (cancelled_task_retry_settlement (gx_digest c) t (Some (error_code ''task_group_decided'')) (gx_now c))
     (\<lambda>r. group_change c (sr_task r) (Some r) p)"

definition change_stopped :: "group_context \<Rightarrow> task \<Rightarrow> group_plan \<Rightarrow> group_plan result" where
  "change_stopped c t p = (if tk_retry_series t \<noteq> None then change_settled c t p else change_cancelled c t p)"

text \<open>Proof that the ownerless invocation of a loser has stopped, and that a claimed loser never ran or handed over.\<close>

definition invocation_stopped :: "group_context \<Rightarrow> group_plan \<Rightarrow> task \<Rightarrow> string \<Rightarrow> bool" where
  "invocation_stopped c p t i \<longleftrightarrow> tk_worker_id t = None \<and> tk_work_contract t = None \<and> i \<notin> set (gx_effects c) \<and>
     (case dict_get (group_executions p) i of None \<Rightarrow> False
      | Some x \<Rightarrow> xd_worker_id x = None \<and> xd_settled_at x \<noteq> None \<and>
          (case xd_invocation x of None \<Rightarrow> False | Some v \<Rightarrow> iv_release_record_sha256 v \<noteq> None))"

definition claim_stopped :: "group_context \<Rightarrow> group_plan \<Rightarrow> task \<Rightarrow> string \<Rightarrow> bool" where
  "claim_stopped c p t i \<longleftrightarrow> tk_status t = CLAIMED \<and> tk_session_id t = None \<and> i \<notin> set (gx_effects c) \<and>
     (case tk_lease_expires_at t of None \<Rightarrow> False | Some e \<Rightarrow> e \<le> gx_now c) \<and>
     (tk_started_at t = None \<or> (case dict_get (group_executions p) i of None \<Rightarrow> False | Some x \<Rightarrow> xd_settled_at x \<noteq> None))"

definition request_stop :: "group_context \<Rightarrow> task \<Rightarrow> group_plan \<Rightarrow> group_plan result" where
  "request_stop c t p =
     bind_res (if tk_retry_series t \<noteq> None
         then task_retry_cancellation_requested_task (gx_digest c) t (Some (error_code ''task_group_decided'')) (gx_now c)
         else task_cancellation_requested_task (gx_digest c) t (Some (error_code ''task_group_decided'')) (gx_now c))
       (\<lambda>u. group_change c u None p)"

definition stop_loser :: "group_context \<Rightarrow> task \<Rightarrow> group_plan \<Rightarrow> group_plan result" where
  "stop_loser c t p = (if tk_status t \<in> {CLAIMED, RUNNING} then request_stop c t p else change_stopped c t p)"

definition already_requested :: "task \<Rightarrow> bool" where
  "already_requested t \<longleftrightarrow> tk_status_reason t \<in> {Some ''cancellation_requested'', Some ''retry_cancellation_requested''}"

text \<open>An attached invocation without a worker, or verified work in a session, has its own owner that stops it.\<close>

definition owned_elsewhere :: "task \<Rightarrow> bool" where
  "owned_elsewhere t \<longleftrightarrow> tk_status t \<in> {CLAIMED, RUNNING} \<and>
     (tk_worker_id t = None \<or> tk_lease_expires_at t = None \<or> (tk_work_contract t \<noteq> None \<and> tk_session_id t \<noteq> None))"

definition drain_loser :: "group_context \<Rightarrow> bool \<Rightarrow> string \<Rightarrow> group_plan \<Rightarrow> group_plan result" where
  "drain_loser c new i p = (case dict_get (gl_tasks p) i of
       None \<Rightarrow> Inl KeyError
     | Some t \<Rightarrow>
         if tk_status t \<in> terminal_task_statuses then Inr p
         else if invocation_stopped c p t i then change_cancelled c t p
         else if claim_stopped c p t i then change_stopped c t p
         else if already_requested t then Inr p
         else if owned_elsewhere t
         then (if new then barrier_event c GE_CANCELLATION_REQUESTED (Some i) p else Inr p)
         else bind_res (stop_loser c t p) (barrier_event c GE_CANCELLATION_REQUESTED (Some i)))"

fun drain_losers :: "group_context \<Rightarrow> bool \<Rightarrow> string list \<Rightarrow> group_plan \<Rightarrow> group_plan result" where
  "drain_losers c new [] p = Inr p"
| "drain_losers c new (i # is) p = bind_res (drain_loser c new i p) (drain_losers c new is)"

text \<open>A task that may still run: not terminal, or with an execution or an effect that is not settled.\<close>

definition work_unsettled :: "group_context \<Rightarrow> group_plan \<Rightarrow> string \<Rightarrow> bool" where
  "work_unsettled c p i \<longleftrightarrow> (case dict_get (gl_tasks p) i of None \<Rightarrow> True | Some t \<Rightarrow> tk_status t \<notin> terminal_task_statuses) \<or>
     (case dict_get (group_executions p) i of None \<Rightarrow> False | Some x \<Rightarrow> xd_settled_at x = None) \<or> i \<in> set (gx_effects c)"

definition loser_unsettled :: "group_context \<Rightarrow> group_plan \<Rightarrow> string \<Rightarrow> bool" where
  "loser_unsettled c p i \<longleftrightarrow> work_unsettled c p i \<or> list_ex (\<lambda>(child, origin). origin = i \<and> work_unsettled c p child) (gx_roots c)"

subsection \<open>The barrier\<close>

definition losers_of :: "group_receipt \<Rightarrow> group_decision \<Rightarrow> string list" where
  "losers_of r d = filter (\<lambda>i. \<not> de_succeeded d \<or> i \<notin> set (de_successful d)) (pr_members r)"

definition start_draining :: "group_context \<Rightarrow> rat \<Rightarrow> group_decision \<Rightarrow> group_plan \<Rightarrow> group_plan result" where
  "start_draining c timeout d p = (if ba_status (gl_barrier p) \<noteq> Q_WAITING_DECISION then Inr p
     else bind_res (add_duration (de_decided_at d) (timedelta_us timeout)) (\<lambda>deadline.
       Inr (p\<lparr>gl_barrier := (gl_barrier p)\<lparr>ba_status := Q_DRAINING, ba_deadline := Some deadline,
         ba_loser_task_ids := losers_of (gn_receipt (gx_snapshot c)) d\<rparr>\<rparr>)))"

definition losing_work :: "group_context \<Rightarrow> group_plan \<Rightarrow> string list" where
  "losing_work c p = ba_loser_task_ids (gl_barrier p) @
     map fst (filter (\<lambda>(child, origin). origin \<in> set (ba_loser_task_ids (gl_barrier p))) (gx_roots c))"

definition set_status :: "barrier_status \<Rightarrow> group_plan \<Rightarrow> group_plan" where
  "set_status st p = p\<lparr>gl_barrier := (gl_barrier p)\<lparr>ba_status := st\<rparr>\<rparr>"

definition record_unsettled :: "group_context \<Rightarrow> bool \<Rightarrow> group_plan \<Rightarrow> group_plan result" where
  "record_unsettled c new p =
     (let unsettled = filter (loser_unsettled c p) (ba_loser_task_ids (gl_barrier p));
          p' = p\<lparr>gl_barrier := (gl_barrier p)\<lparr>ba_unsettled_task_ids := unsettled\<rparr>\<rparr>
      in if new \<or> ba_unsettled_task_ids (gl_barrier p) \<noteq> unsettled then barrier_event c GE_DRAINING None p' else Inr p')"

definition advance_barrier :: "group_context \<Rightarrow> group_plan \<Rightarrow> group_plan result" where
  "advance_barrier c p =
     (if ba_status (gl_barrier p) \<noteq> Q_DRAINING then Inr p
      else case ba_deadline (gl_barrier p) of
        None \<Rightarrow> Inl AssertionError
      | Some deadline \<Rightarrow>
          if gx_now c \<ge> deadline then barrier_event c GE_TIMEOUT None (set_status Q_ATTENTION_REQUIRED p)
          else if ba_unsettled_task_ids (gl_barrier p) = [] then barrier_event c GE_QUIESCENT None (set_status Q_QUIESCENT p)
          else Inr p)"

definition resolve_barrier :: "group_context \<Rightarrow> group_plan \<Rightarrow> group_plan result" where
  "resolve_barrier c p =
     (if \<not> gx_resolve c then Inr p
      else if ba_status (gl_barrier p) \<noteq> Q_ATTENTION_REQUIRED \<or> ba_unsettled_task_ids (gl_barrier p) \<noteq> [] then Inl TaskGroupConflict
      else bind_res (barrier_event c GE_RESOLVED None (set_status Q_QUIESCENT p)) (barrier_event c GE_QUIESCENT None))"

subsection \<open>The finalizer\<close>

definition set_finalizer :: "finalizer_status \<Rightarrow> group_plan \<Rightarrow> group_plan" where
  "set_finalizer st p = p\<lparr>gl_barrier := (gl_barrier p)\<lparr>ba_finalizer_status := st\<rparr>\<rparr>"

definition cancelled_finalizer :: "datetime \<Rightarrow> task \<Rightarrow> task" where
  "cancelled_finalizer now t = t\<lparr>tk_status := CANCELLED, tk_status_reason := Some ''task_group_failed'',
     tk_error := Some (error_code ''task_group_failed''), tk_completed_at := Some now, tk_updated_at := now\<rparr>"

definition advance_finalizer :: "group_context \<Rightarrow> group_decision \<Rightarrow> string \<Rightarrow> task \<Rightarrow> group_plan \<Rightarrow> group_plan result" where
  "advance_finalizer c d f t p =
     (if ba_finalizer_status (gl_barrier p) \<noteq> F_WAITING then Inr p
      else if \<not> de_succeeded d
      then bind_res (if tk_status t \<in> terminal_task_statuses then Inr (set_finalizer F_INELIGIBLE p)
          else bind_res (copy_task (gx_digest c) (cancelled_finalizer (gx_now c) t)) (\<lambda>u. group_change c u None (set_finalizer F_INELIGIBLE p)))
        (barrier_event c GE_FINALIZER_INELIGIBLE (Some f))
      else if ba_status (gl_barrier p) = Q_QUIESCENT
      then bind_res (if tk_status t = WAITING_GROUP
          then group_change c (t\<lparr>tk_status := PENDING, tk_updated_at := gx_now c\<rparr>) None (set_finalizer F_RELEASED p)
          else Inr (set_finalizer F_RELEASED p))
        (barrier_event c GE_FINALIZER_RELEASED (Some f))
      else Inr p)"

definition settle_finalizer :: "group_context \<Rightarrow> string \<Rightarrow> group_plan \<Rightarrow> group_plan result" where
  "settle_finalizer c f p = (case dict_get (gl_tasks p) f of
       None \<Rightarrow> Inl KeyError
     | Some t \<Rightarrow>
         if ba_finalizer_status (gl_barrier p) = F_RELEASED \<and> tk_status t \<in> terminal_task_statuses
         then barrier_event c GE_FINALIZER_SETTLED (Some f) (set_finalizer F_SETTLED p)
         else Inr p)"

definition plan_finalizer :: "group_context \<Rightarrow> group_decision \<Rightarrow> group_plan \<Rightarrow> group_plan result" where
  "plan_finalizer c d p = (case pr_finalizer (gn_receipt (gx_snapshot c)) of
       None \<Rightarrow> Inr p
     | Some f \<Rightarrow> (case dict_get (gl_tasks p) f of
           None \<Rightarrow> Inl KeyError
         | Some t \<Rightarrow> bind_res (advance_finalizer c d f t p) (settle_finalizer c f)))"

definition plan_barrier :: "group_context \<Rightarrow> rat \<Rightarrow> group_plan \<Rightarrow> group_plan result" where
  "plan_barrier c timeout p = (case gn_decision (gl_snapshot p) of
       None \<Rightarrow> Inr p
     | Some d \<Rightarrow>
         let new = (ba_status (gl_barrier p) = Q_WAITING_DECISION)
         in bind_res (start_draining c timeout d p) (\<lambda>p.
            bind_res (drain_losers c new (losing_work c p) p) (\<lambda>p.
            bind_res (record_unsettled c new p) (\<lambda>p.
            bind_res (advance_barrier c p) (\<lambda>p.
            bind_res (resolve_barrier c p) (plan_finalizer c d))))))"

subsection \<open>The complete write set\<close>

record group_graph_publication =
  gg_tasks :: "task list"
  gg_graph_events :: "graph_event list"
  gg_settlements :: "retry_settlement list"
  gg_snapshot :: group_snapshot
  gg_group_events :: "group_event list"

definition changed_tasks :: "(string, task) dict \<Rightarrow> (string, task) dict \<Rightarrow> task list" where
  "changed_tasks original tasks = concat (map (\<lambda>i. case dict_get tasks i of
       None \<Rightarrow> [] | Some t \<Rightarrow> if dict_get original i = Some t then [] else [t]) (sort (map fst tasks)))"

definition publication_of :: "group_context \<Rightarrow> (string, task) dict \<Rightarrow> group_plan \<Rightarrow> group_graph_publication result" where
  "publication_of c current p = bind_res (check_snapshot \<lparr>gn_receipt = gn_receipt (gl_snapshot p), gn_members = gn_members (gl_snapshot p),
       gn_decision = gn_decision (gl_snapshot p), gn_barrier = gl_barrier p,
       gn_last_sequence = gn_last_sequence (gx_snapshot c) + int (length (gl_group_events p))\<rparr>)
     (\<lambda>s. Inr \<lparr>gg_tasks = changed_tasks current (gl_tasks p), gg_graph_events = gl_graph_events p,
        gg_settlements = gl_settlements p, gg_snapshot = s, gg_group_events = gl_group_events p\<rparr>)"

record graph_transition =
  gt_tasks :: "task list"
  gt_events :: "graph_event list"
  gt_settlements :: "retry_settlement list"

definition initial_plan :: "group_context \<Rightarrow> graph_transition \<Rightarrow> group_publication \<Rightarrow> (string, task) dict \<Rightarrow> (string, execution_duty) dict \<Rightarrow> group_plan" where
  "initial_plan c tr g tasks xs = \<lparr>gl_snapshot = gu_snapshot g, gl_tasks = tasks, gl_graph_events = gt_events tr,
     gl_settlements = gt_settlements tr, gl_group_events = gu_events g,
     gl_barrier = (gn_barrier (gu_snapshot g))\<lparr>ba_executions := map snd (sort_key fst xs)\<rparr>\<rparr>"

definition observe_executions :: "group_context \<Rightarrow> group_publication \<Rightarrow> (string, task) dict \<Rightarrow> (string \<times> string \<times> datetime) option
    \<Rightarrow> invocation_duty option \<Rightarrow> (string, execution_duty) dict result" where
  "observe_executions c g tasks settled invocation =
     (let b = gn_barrier (gu_snapshot g); scope = pr_members (gn_receipt (gx_snapshot c)) @ map fst (gx_roots c)
      in bind_res (validate_lineage (gx_digest c) (gx_snapshot c) tasks (gx_roots c)) (\<lambda>_.
         bind_res (observed_executions tasks scope (map (\<lambda>x. (xd_task_id x, x)) (ba_executions b))) (\<lambda>xs.
         bind_res (observe_invocation b (gx_now c) tasks invocation xs) (settle_execution (gx_now c) scope settled))))"

definition plan_group_graph_transition :: "group_context \<Rightarrow> graph_transition \<Rightarrow> (string, task) dict \<Rightarrow> (string \<times> string \<times> datetime) option
    \<Rightarrow> invocation_duty option \<Rightarrow> group_graph_publication result" where
  "plan_group_graph_transition c tr current settled invocation =
     (case pr_quiescence (gn_receipt (gx_snapshot c)) of
        None \<Rightarrow> bind_res (plan_group_transition (gx_snapshot c) (gx_now c) (gt_tasks tr)) (\<lambda>g.
          if gx_resolve c then Inl TaskGroupConflict
          else Inr \<lparr>gg_tasks = gt_tasks tr, gg_graph_events = gt_events tr, gg_settlements = gt_settlements tr,
            gg_snapshot = gu_snapshot g, gg_group_events = gu_events g\<rparr>)
      | Some timeout \<Rightarrow>
          bind_res (fresh_resumed_execution (gx_snapshot c) current (gt_tasks tr)) (\<lambda>changed.
          bind_res (plan_group_transition (gx_snapshot c) (gx_now c) changed) (\<lambda>g.
          let tasks = put_tasks changed current
          in bind_res (observe_executions c g tasks settled invocation) (\<lambda>xs.
             bind_res (plan_barrier c timeout (initial_plan c tr g tasks xs)) (publication_of c current)))))"

section \<open>Storing a task of a group\<close>

text \<open>
  The planning half of \<open>store_graph_task\<close> (\<open>_memory_graphs.py\<close>) for a graph with a group: \<open>members\<close> are the
  tasks of the graph, \<open>lineage\<close> the retry successors of its members, \<open>successor\<close> one that is stored with the task.
\<close>

definition stored_transition :: "group_context \<Rightarrow> datetime \<Rightarrow> bool \<Rightarrow> (string, task) dict \<Rightarrow> task \<Rightarrow> graph_transition result" where
  "stored_transition c graph_now recorded members t =
     (if dict_get (gx_roots c) (tk_id t) \<noteq> None then Inr \<lparr>gt_tasks = [t], gt_events = [], gt_settlements = []\<rparr>
      else bind_res (plan_graph_transition
          \<lparr>gc_digest = gx_digest c, gc_graph_id = gr_graph_id (pr_graph (gn_receipt (gx_snapshot c))),
           gc_prerequisites = gx_prerequisites c, gc_first_sequence = gx_first_sequence c, gc_now = graph_now,
           gc_group_waiting_task_id = waiting_finalizer (gx_snapshot c)\<rparr> members t recorded) (\<lambda>p.
        Inr \<lparr>gt_tasks = transition_tasks members p, gt_events = gp_events p, gt_settlements = gp_settlements p\<rparr>))"

definition with_successor :: "task option \<Rightarrow> graph_transition \<Rightarrow> graph_transition" where
  "with_successor successor tr = (case successor of None \<Rightarrow> tr | Some u \<Rightarrow> tr\<lparr>gt_tasks := gt_tasks tr @ [u]\<rparr>)"

definition extended_roots :: "group_context \<Rightarrow> task \<Rightarrow> task option \<Rightarrow> (string, string) dict" where
  "extended_roots c t successor = (case successor of
       None \<Rightarrow> gx_roots c
     | Some u \<Rightarrow>
         if pr_quiescence (gn_receipt (gx_snapshot c)) \<noteq> None \<and>
            (tk_id t \<in> set (pr_members (gn_receipt (gx_snapshot c))) \<or> dict_get (gx_roots c) (tk_id t) \<noteq> None)
         then dict_put (tk_id u) (case dict_get (gx_roots c) (tk_id t) of None \<Rightarrow> tk_id t | Some r \<Rightarrow> r) (gx_roots c)
         else gx_roots c)"

definition plan_stored_task :: "group_context \<Rightarrow> datetime \<Rightarrow> bool \<Rightarrow> (string, task) dict \<Rightarrow> (string, task) dict \<Rightarrow> task \<Rightarrow> task option
    \<Rightarrow> (string \<times> string \<times> datetime) option \<Rightarrow> invocation_duty option \<Rightarrow> group_graph_publication result" where
  "plan_stored_task c graph_now recorded members lineage t successor settled invocation =
     (let current = dict_merge members lineage
      in case dict_get current (tk_id t) of
           None \<Rightarrow> Inl TaskGraphConflict
         | Some prior \<Rightarrow>
             bind_res (require_group_mutation (gx_snapshot c) prior t (dict_get (gx_roots c) (tk_id t))) (\<lambda>_.
             bind_res (stored_transition c graph_now recorded members t) (\<lambda>tr.
               plan_group_graph_transition (c\<lparr>gx_roots := extended_roots c t successor\<rparr>) (with_successor successor tr) current settled invocation)))"

end
