(* ===== verification/Group_Decisions.thy ===== *)
theory Group_Decisions
  imports Group_Barrier Graph_Proofs
begin

text \<open>
  The decision of a task group: publishing a graph transition keeps every validator of the group's snapshot,
  decisions are reached exactly when the policy is satisfied or impossible, and they are final.
\<close>

section \<open>Members\<close>

abbreviation member_dict :: "graph_member list \<Rightarrow> (string, graph_member) dict" where
  "member_dict ms \<equiv> map (\<lambda>m. (gm_task_id m, m)) ms"

definition terminal_members :: "graph_member list \<Rightarrow> graph_member list" where
  "terminal_members ms = filter (\<lambda>m. gm_status m \<in> terminal_task_statuses) ms"

lemma terminal_split: "length (completed_members ms) + length (failed_members ms) = length (terminal_members ms)"
  by (induction ms) (auto simp: completed_members_def failed_members_def terminal_members_def
      terminal_task_statuses_def graph_failure_statuses_def)

lemma terminal_members_le: "length (terminal_members ms) \<le> length ms"
  by (simp add: terminal_members_def)

text \<open>What a group keeps of its members when they change: identity, prerequisites and finished members.\<close>

definition member_evolves :: "graph_member \<Rightarrow> graph_member \<Rightarrow> bool" where
  "member_evolves a b \<longleftrightarrow> gm_task_id b = gm_task_id a \<and> gm_prerequisite_task_ids b = gm_prerequisite_task_ids a \<and>
     (gm_status a \<in> terminal_task_statuses \<longrightarrow> b = a) \<and> (b = a \<or> graph_member_valid b)"

lemma member_evolves_refl [simp]: "member_evolves a a" by (simp add: member_evolves_def)

lemma member_evolves_trans: "member_evolves a b \<Longrightarrow> member_evolves b c \<Longrightarrow> member_evolves a c"
  by (auto simp: member_evolves_def)

lemma put_member:
  assumes "distinct (map gm_task_id ms)" "map_of (member_dict ms) i = Some p" "gm_task_id m = i"
  shows "AList.update i m (member_dict ms) = member_dict (map (\<lambda>x. if x = p then m else x) ms)"
  using assms
proof (induction ms)
  case (Cons a ms)
  show ?case
  proof (cases "gm_task_id a = i")
    case True
    with Cons.prems have a: "a = p" by simp
    with Cons.prems(1) have "p \<notin> set ms" by auto
    with a Cons.prems True show ?thesis by (auto simp: map_idI)
  next
    case False
    with Cons.prems have "a \<noteq> p" by (auto dest!: map_of_SomeD)
    with Cons False show ?thesis by simp
  qed
qed simp

lemma member_from_task_facts:
  "member_from_task t = Inr m \<Longrightarrow> gm_task_id m = tk_id t \<and> gm_status m = tk_status t \<and> graph_member_valid m \<and>
     gm_prerequisite_task_ids m = tk_prerequisite_task_ids t"
  by (auto simp: member_from_task_def Let_def split: option.splits if_splits)

lemma replaced_evolves:
  "p \<in> set ms \<Longrightarrow> member_evolves p m \<Longrightarrow> list_all2 member_evolves ms (map (\<lambda>x. if x = p then m else x) ms)"
  by (induction ms) (auto simp: list_all2_refl list.rel_map intro: list.rel_refl)

lemma replaced_terminal:
  assumes "distinct ms" "p \<in> set ms" "gm_status p \<in> terminal_task_statuses \<Longrightarrow> m = p"
  shows "length (terminal_members (map (\<lambda>x. if x = p then m else x) ms)) = length (terminal_members ms) +
    (if gm_status p \<notin> terminal_task_statuses \<and> gm_status m \<in> terminal_task_statuses then 1 else 0)"
  using assms
proof (induction ms)
  case (Cons a ms)
  have same: "p \<notin> set ms \<Longrightarrow> map (\<lambda>x. if x = p then m else x) ms = ms" by (induction ms) auto
  from Cons same show ?case by (cases "a = p") (auto simp: terminal_members_def)
qed simp

definition group_events_numbered :: "group_snapshot \<Rightarrow> group_event list \<Rightarrow> bool" where
  "group_events_numbered s es \<longleftrightarrow> list_all group_event_valid es \<and>
     map ve_sequence es = map (\<lambda>k. gn_last_sequence s + int k + 1) [0..<length es]"

lemma group_events_append:
  "group_events_numbered s es \<Longrightarrow> group_event_valid e \<Longrightarrow> ve_sequence e = gn_last_sequence s + int (length es) + 1 \<Longrightarrow>
    group_events_numbered s (es @ [e])"
  by (simp add: group_events_numbered_def)

text \<open>One task published: the invariant of the loop.\<close>

lemma publish_members_keeps:
  assumes "publish_members s now ts (member_dict ms) es = Inr (d, es')" "distinct (map gm_task_id ms)" "group_events_numbered s es"
  obtains ms' where "d = member_dict ms'" "list_all2 member_evolves ms ms'" "group_events_numbered s es'"
    "length es' + length (terminal_members ms) = length es + length (terminal_members ms')"
  using assms
proof (induction ts arbitrary: ms es thesis)
  case Nil
  then show ?case by (auto intro!: Nil.prems(1) [of ms] list_all2_refl)
next
  case (Cons t ts)
  show ?case
  proof (cases "dict_get (member_dict ms) (tk_id t)")
    case None
    with Cons.prems(2) have "publish_members s now ts (member_dict ms) es = Inr (d, es')" by simp
    from Cons.IH [OF _ this Cons.prems(3,4)] Cons.prems(1) show ?thesis by blast
  next
    case (Some p)
    then have p: "p \<in> set ms" "gm_task_id p = tk_id t" by (auto dest!: map_of_SomeD)
    from Cons.prems(2) Some obtain m es1 where m: "member_from_task t = Inr m"
      and kept: "gm_prerequisite_task_ids p = gm_prerequisite_task_ids m" "gm_status p \<in> terminal_task_statuses \<longrightarrow> p = m"
      and es1: "(if gm_status p \<notin> terminal_task_statuses \<and> gm_status m \<in> terminal_task_statuses
          then bind_res (check_group_event (terminal_event s now (int (length es)) t)) (\<lambda>e. Inr (es @ [e])) else Inr es) = Inr es1"
      and rest: "publish_members s now ts (AList.update (tk_id t) m (member_dict ms)) es1 = Inr (d, es')"
      by (auto simp: res_simps split: if_splits)
    note facts = member_from_task_facts [OF m]
    let ?ms = "map (\<lambda>x. if x = p then m else x) ms"
    have id: "gm_task_id m = tk_id t" using facts by simp
    note put = put_member [OF Cons.prems(3) Some id]
    have evolves: "list_all2 member_evolves ms ?ms"
      by (rule replaced_evolves [OF p(1)]) (use facts kept p in \<open>auto simp: member_evolves_def\<close>)
    have ids: "map gm_task_id ?ms = map gm_task_id ms" using p id by (auto intro: map_cong)
    have d: "distinct ms" using Cons.prems(3) by (simp add: distinct_map)
    have n: "group_events_numbered s es1 \<and> length es1 + length (terminal_members ms) = length es + length (terminal_members ?ms)"
    proof (cases "gm_status p \<notin> terminal_task_statuses \<and> gm_status m \<in> terminal_task_statuses")
      case True
      with es1 obtain e where "check_group_event (terminal_event s now (int (length es)) t) = Inr e" "es1 = es @ [e]"
        by (auto simp: res_simps)
      with True replaced_terminal [OF d p(1), of m] group_events_append [OF Cons.prems(4), of e] show ?thesis
        by (auto simp: check_group_event_def terminal_event_def split: if_splits)
    next
      case False
      with es1 have "es1 = es" by (simp split: if_splits)
      with False replaced_terminal [OF d p(1), of m] kept(2) Cons.prems(4) show ?thesis by auto
    qed
    have distinct: "distinct (map gm_task_id ?ms)" unfolding ids by (rule Cons.prems(3))
    obtain ms' where ms': "d = member_dict ms'"
      "list_all2 member_evolves ?ms ms'" "group_events_numbered s es'"
      "length es' + length (terminal_members ?ms) = length es1 + length (terminal_members ms')"
      by (rule Cons.IH [OF _ rest [unfolded put] distinct conjunct1 [OF n]])
    have "list_all2 member_evolves ms ms'"
      by (rule list_all2_trans [OF _ evolves ms'(2)]) (rule member_evolves_trans)
    from Cons.prems(1) [OF ms'(1) this ms'(3)] ms'(4) n show ?thesis by simp
  qed
qed

text \<open>The loop raises only the two exceptions of the source when its tasks are members.\<close>

lemma publish_members_errors:
  assumes "publish_members s now ts (member_dict ms) es = Inl e" "distinct (map gm_task_id ms)"
    and "\<forall>t \<in> set ts. \<exists>m. member_from_task t = Inr m" "is_graph_identifier (pr_group_id (gn_receipt s))" "1 \<le> gn_last_sequence s"
    and "gn_last_sequence s + int (length es + length ms) - int (length (terminal_members ms)) \<le> max_portable_json_integer"
  shows "e \<in> {TaskGroupUnavailable, TaskGroupConflict}"
  using assms(1-3,6)
proof (induction ts arbitrary: ms es)
  case (Cons t ts)
  show ?case
  proof (cases "dict_get (member_dict ms) (tk_id t)")
    case None
    with Cons.prems Cons.IH [of ms es] show ?thesis by simp
  next
    case (Some p)
    then have p: "p \<in> set ms" "gm_task_id p = tk_id t" by (auto dest!: map_of_SomeD)
    from Cons.prems(3) obtain m where m: "member_from_task t = Inr m" by auto
    note facts = member_from_task_facts [OF m]
    let ?ms = "map (\<lambda>x. if x = p then m else x) ms"
    have id: "gm_task_id m = tk_id t" using facts by simp
    note put = put_member [OF Cons.prems(2) Some id]
    have ids: "map gm_task_id ?ms = map gm_task_id ms" using p id by (auto intro: map_cong)
    have d: "distinct ms" using Cons.prems(2) by (simp add: distinct_map)
    have distinct: "distinct (map gm_task_id ?ms)" unfolding ids by (rule Cons.prems(2))
    let ?ended = "gm_status p \<notin> terminal_task_statuses \<and> gm_status m \<in> terminal_task_statuses"
    consider (refused) "e \<in> {TaskGroupUnavailable, TaskGroupConflict}"
      | (kept) "gm_status p \<in> terminal_task_statuses \<longrightarrow> p = m" "\<not> ?ended"
          "publish_members s now ts (member_dict ?ms) es = Inl e"
      | (invalid) "?ended" "\<not> group_event_valid (terminal_event s now (int (length es)) t)"
      | (ended) "?ended" "publish_members s now ts (member_dict ?ms) (es @ [terminal_event s now (int (length es)) t]) = Inl e"
      using Cons.prems(1) Some m put by (auto simp: check_group_event_def split: if_splits)
    then show ?thesis
    proof cases
      case kept
      have "length (terminal_members ?ms) = length (terminal_members ms)"
        using replaced_terminal [OF d p(1), of m] kept(1,2) by auto
      with Cons.IH [OF kept(3) distinct] Cons.prems(3,4) show ?thesis by simp
    next
      case invalid
      have "length (terminal_members ms) < length ms"
        unfolding terminal_members_def using p(1) invalid(1) by (intro length_filter_less) auto
      then have "group_event_valid (terminal_event s now (int (length es)) t)"
        using Cons.prems(4) assms(4,5) facts invalid(1)
        by (auto simp: group_event_valid_def terminal_event_def opt_holds_def graph_member_valid_def)
      with invalid(2) show ?thesis ..
    next
      case ended
      have "length (terminal_members ?ms) = Suc (length (terminal_members ms))"
        using replaced_terminal [OF d p(1), of m] ended(1) by auto
      with Cons.IH [OF ended(2) distinct] Cons.prems(3,4) show ?thesis by simp
    qed
  qed
qed simp

section \<open>Decisions\<close>

lemma completed_evolves: "list_all2 member_evolves ms ms' \<Longrightarrow> set (completed_members ms) \<subseteq> set (completed_members ms')"
  by (induction rule: list_all2_induct) (auto simp: completed_members_def member_evolves_def terminal_task_statuses_def)

lemma failed_evolves: "list_all2 member_evolves ms ms' \<Longrightarrow> set (failed_members ms) \<subseteq> set (failed_members ms')"
  by (induction rule: list_all2_induct)
    (auto simp: failed_members_def member_evolves_def terminal_task_statuses_def graph_failure_statuses_def)

lemma evolves_ids: "list_all2 member_evolves ms ms' \<Longrightarrow> map gm_task_id ms' = map gm_task_id ms"
  by (induction rule: list_all2_induct) (auto simp: member_evolves_def)

lemma evolves_valid: "list_all2 member_evolves ms ms' \<Longrightarrow> list_all graph_member_valid ms \<Longrightarrow> list_all graph_member_valid ms'"
  by (induction rule: list_all2_induct) (auto simp: member_evolves_def)

lemma evolves_prerequisites:
  "list_all2 member_evolves ms ms' \<Longrightarrow> list_all (\<lambda>m. P (gm_prerequisite_task_ids m)) ms \<Longrightarrow>
    list_all (\<lambda>m. P (gm_prerequisite_task_ids m)) ms'"
  by (induction rule: list_all2_induct) (auto simp: member_evolves_def)

lemma canonical_filter: "canonical_identifiers (map f ms) \<Longrightarrow> canonical_identifiers (map f (filter P ms))"
  by (auto simp: canonical_identifiers_def list_all_iff sorted_wrt_map intro: sorted_wrt_filter order_trans [OF length_filter_le])

lemma canonical_take: "canonical_identifiers xs \<Longrightarrow> canonical_identifiers (take n xs)"
  by (auto simp: canonical_identifiers_def list_all_iff dest: in_set_takeD intro: sorted_wrt_take)

lemma reached_valid:
  assumes "canonical_identifiers (map gm_task_id ms)"
  shows "group_decision_valid (reached_decision required now ms)"
proof -
  have "distinct (map gm_task_id ms)" using assms by (auto simp: canonical_identifiers_def strict_sorted_iff)
  then have "set (completed_members ms) \<inter> set (failed_members ms) = {}"
    by (induction ms) (auto simp: completed_members_def failed_members_def graph_failure_statuses_def)
  with assms show ?thesis
    by (auto simp: group_decision_valid_def reached_decision_def completed_members_def failed_members_def Let_def
        intro!: canonical_take canonical_filter dest!: in_set_takeD)
qed

lemma reached_matches:
  assumes "policy_satisfied required ms \<or> policy_impossible required ms" "0 \<le> required"
  shows "decision_matches required ms (Some (reached_decision required now ms))"
  using assms by (auto simp: decision_matches_def reached_decision_def Let_def policy_satisfied_def policy_impossible_def dest: in_set_takeD)

lemma required_positive: "group_policy_valid p \<Longrightarrow> 0 < n \<Longrightarrow> 1 \<le> required_successes p n"
  by (auto simp: required_successes_def group_policy_valid_def opt_holds_def split: policy_kind.split option.split)

abbreviation required_of :: "group_snapshot \<Rightarrow> graph_member list \<Rightarrow> int" where
  "required_of s ms \<equiv> required_successes (pr_policy (gn_receipt s)) (int (length ms))"

lemma decide_cases:
  assumes "decide_group s now ms es = Inr (decision, es')"
  obtains (kept) "decision = gn_decision s" "es' = es"
      "gn_decision s \<noteq> None \<or> \<not> (policy_satisfied (required_of s ms) ms \<or> policy_impossible (required_of s ms) ms)"
  | (reached) "gn_decision s = None" "policy_satisfied (required_of s ms) ms \<or> policy_impossible (required_of s ms) ms"
      "decision = Some (reached_decision (required_of s ms) now ms)" "length es' = length es + 2"
      "group_decision_valid (reached_decision (required_of s ms) now ms)"
      "group_events_numbered s es \<Longrightarrow> group_events_numbered s es'"
proof (cases "gn_decision s \<noteq> None \<or> \<not> (policy_satisfied (required_of s ms) ms \<or> policy_impossible (required_of s ms) ms)")
  case True
  with assms kept show thesis by (auto simp: decide_group_def Let_def)
next
  case False
  let ?d = "reached_decision (required_of s ms) now ms"
  from False assms obtain e f where "check_group_event e = Inr e" "check_group_event f = Inr f" "es' = es @ [e, f]"
    "ve_sequence e = gn_last_sequence s + int (length es) + 1" "ve_sequence f = gn_last_sequence s + int (length es) + 2"
    "decision = Some ?d" "group_decision_valid ?d"
    by (auto simp: decide_group_def Let_def res_simps check_group_event_def decision_event_def split: if_splits)
  with False reached show thesis
    by (auto simp: group_events_numbered_def check_group_event_def split: if_splits)
qed

lemma decide_errors:
  assumes "decide_group s now ms es = Inl e" "canonical_identifiers (map gm_task_id ms)" "is_graph_identifier (pr_group_id (gn_receipt s))"
    "1 \<le> gn_last_sequence s" "gn_last_sequence s + int (length es) + 2 \<le> max_portable_json_integer"
  shows False
proof -
  let ?d = "reached_decision (required_of s ms) now ms"
  have valid: "group_decision_valid ?d" by (rule reached_valid [OF assms(2)])
  have "group_event_valid (decision_event s now k ?d kind)"
    if "k \<in> {int (length es), int (length es) + 1}" "kind \<in> (if de_succeeded ?d then {GE_POLICY_SATISFIED, GE_SUCCEEDED} else {GE_POLICY_IMPOSSIBLE, GE_FAILED})"
    for k kind
    using that assms(3-5)
    by (auto simp: group_event_valid_def decision_event_def opt_holds_def reached_decision_def Let_def split: if_splits)
  with valid assms(1) show False
    by (auto simp: decide_group_def Let_def res_simps check_group_event_def split: if_splits)
qed

lemma terminal_evolves: "list_all2 member_evolves ms ms' \<Longrightarrow> length (terminal_members ms) \<le> length (terminal_members ms')"
  by (induction rule: list_all2_induct) (auto simp: terminal_members_def member_evolves_def)

text \<open>The snapshot after a publication passes every check of its constructor.\<close>

lemma published_checks:
  assumes s: "group_snapshot_valid s" and ms: "list_all2 member_evolves (gn_members s) ms"
    and n: "length es + length (terminal_members (gn_members s)) = length (terminal_members ms)"
    and d: "decide_group s now ms es = Inr (decision, es')" and last: "gn_last_sequence s + int (length es') \<le> max_portable_json_integer"
  shows "snapshot_checks \<lparr>gn_receipt = gn_receipt s, gn_members = ms, gn_decision = decision, gn_barrier = gn_barrier s,
    gn_last_sequence = gn_last_sequence s + int (length es')\<rparr>"
proof -
  have len: "length ms = length (gn_members s)" by (rule list_all2_lengthD [OF ms, symmetric])
  let ?required = "required_of s ms"
  have before: "decision_matches ?required (gn_members s) (gn_decision s)" "gn_last_sequence s \<ge> minimum_sequence (gn_members s) (gn_decision s)"
    "pr_quiescence (gn_receipt s) = None \<longrightarrow> gn_last_sequence s = minimum_sequence (gn_members s) (gn_decision s)"
    "barrier_matches (gn_receipt s) (gn_decision s) (gn_barrier s)" "1 \<le> gn_last_sequence s"
    "map gm_task_id (gn_members s) = pr_members (gn_receipt s)" "gn_members s \<noteq> []" "int (length (gn_members s)) \<le> task_group_max_members"
    "list_all (\<lambda>m. set (gm_prerequisite_task_ids m) \<subseteq> set (gr_task_ids (pr_graph (gn_receipt s)))) (gn_members s)"
    "group_policy_valid (pr_policy (gn_receipt s))"
    using s len by (simp_all add: group_snapshot_valid_def snapshot_checks_def group_receipt_valid_def Let_def)
  have "1 \<le> ?required" using before(7,10) len by (intro required_positive) auto
  from d have "decision_matches ?required ms decision \<and> barrier_matches (gn_receipt s) decision (gn_barrier s) \<and>
    gn_last_sequence s + int (length es') - minimum_sequence ms decision = gn_last_sequence s - minimum_sequence (gn_members s) (gn_decision s)"
  proof (cases rule: decide_cases)
    case kept
    have "decision_matches ?required ms (gn_decision s)"
      using kept(3) before(1) completed_evolves [OF ms] failed_evolves [OF ms] len
      by (auto simp: decision_matches_def split: option.splits)
    with kept(1,2) before(4) n show ?thesis by (simp add: minimum_sequence_def terminal_split)
  next
    case reached
    from reached_matches [OF reached(2)] \<open>1 \<le> ?required\<close>
    have "decision_matches ?required ms decision" unfolding reached(3) by simp
    moreover have "barrier_matches (gn_receipt s) decision (gn_barrier s)"
      using before(4) reached(1,3) by (auto simp: barrier_matches_def)
    ultimately show ?thesis using reached(1,3,4) n by (simp add: minimum_sequence_def terminal_split)
  qed
  with before len last evolves_ids [OF ms] evolves_prerequisites [OF ms before(9)] show ?thesis
    by (auto simp: snapshot_checks_def Let_def)
qed

lemma publication_cases:
  assumes s: "group_snapshot_valid s" and run: "plan_group_transition s now ts = Inr g"
  obtains ms es where "gn_members (gu_snapshot g) = ms" "list_all2 member_evolves (gn_members s) ms" "group_events_numbered s es"
    "length es + length (terminal_members (gn_members s)) = length (terminal_members ms)"
    "decide_group s now ms es = Inr (gn_decision (gu_snapshot g), gu_events g)"
    "gn_receipt (gu_snapshot g) = gn_receipt s" "gn_barrier (gu_snapshot g) = gn_barrier s"
    "gn_last_sequence (gu_snapshot g) = gn_last_sequence s + int (length (gu_events g))" "snapshot_checks (gu_snapshot g)"
proof -
  have distinct: "distinct (map gm_task_id (gn_members s))"
    using s by (auto simp: group_snapshot_valid_def snapshot_checks_def Let_def group_receipt_valid_def canonical_identifiers_def strict_sorted_iff)
  have none: "group_events_numbered s []" by (simp add: group_events_numbered_def)
  from run obtain d es decision es' where p: "publish_members s now ts (member_dict (gn_members s)) [] = Inr (d, es)"
    and de: "decide_group s now (dict_values d) es = Inr (decision, es')"
    and g: "snapshot_checks (gu_snapshot g)" "gu_snapshot g = \<lparr>gn_receipt = gn_receipt s, gn_members = dict_values d, gn_decision = decision,
      gn_barrier = gn_barrier s, gn_last_sequence = gn_last_sequence s + int (length es')\<rparr>" "gu_events g = es'"
    by (auto simp: plan_group_transition_def res_simps check_snapshot_def split: if_splits)
  from p distinct none obtain ms where ms: "d = member_dict ms" "list_all2 member_evolves (gn_members s) ms" "group_events_numbered s es"
    "length es + length (terminal_members (gn_members s)) = length ([] :: group_event list) + length (terminal_members ms)"
    by (rule publish_members_keeps)
  have "dict_values d = ms" by (simp add: ms(1) dict_values_def comp_def)
  with that [of ms es] ms de g show thesis by simp
qed

lemma publication_valid:
  assumes s: "group_snapshot_valid s" and run: "plan_group_transition s now ts = Inr g"
  shows "group_snapshot_valid (gu_snapshot g) \<and> group_events_numbered s (gu_events g)"
  using s run
proof (cases rule: publication_cases)
  case (1 ms es)
  from 1(5) have "opt_holds group_decision_valid (gn_decision (gu_snapshot g)) \<and> group_events_numbered s (gu_events g)"
    by (cases rule: decide_cases) (use s 1(3) in \<open>auto simp: group_snapshot_valid_def opt_holds_def\<close>)
  moreover have "list_all graph_member_valid ms" using evolves_valid [OF 1(2)] s by (simp add: group_snapshot_valid_def)
  ultimately show ?thesis using s 1 by (simp add: group_snapshot_valid_def)
qed

section \<open>What a group promises\<close>

text \<open>
  C14. A publication never contradicts itself: on a valid snapshot, with tasks that are members of a graph and
  room for the sequence numbers, planning a transition either raises one of the two exceptions for foreign or
  stale evidence, or yields a snapshot that passes every validator again, with events numbered from the cursor
  without gap; no constructor of a decision, an event or a snapshot can fail on the way.
\<close>
theorem group_publication_consistent:
  assumes s: "group_snapshot_valid s" and ts: "\<forall>t \<in> set ts. \<exists>m. member_from_task t = Inr m"
    and room: "gn_last_sequence s + int (length (gn_members s)) + 2 \<le> max_portable_json_integer"
  shows "case plan_group_transition s now ts of
      Inl e \<Rightarrow> e \<in> {TaskGroupUnavailable, TaskGroupConflict}
    | Inr g \<Rightarrow> group_snapshot_valid (gu_snapshot g) \<and> list_all group_event_valid (gu_events g) \<and>
        map ve_sequence (gu_events g) = map (\<lambda>k. gn_last_sequence s + int k + 1) [0..<length (gu_events g)] \<and>
        gn_last_sequence (gu_snapshot g) = gn_last_sequence s + int (length (gu_events g))"
proof (cases "plan_group_transition s now ts")
  case (Inr g)
  from s Inr show ?thesis
    by (cases rule: publication_cases)
      (use Inr publication_valid [OF s Inr] in \<open>simp add: group_events_numbered_def\<close>)
next
  case (Inl e)
  have facts: "canonical_identifiers (map gm_task_id (gn_members s))" "is_graph_identifier (pr_group_id (gn_receipt s))" "1 \<le> gn_last_sequence s"
    using s by (auto simp: group_snapshot_valid_def snapshot_checks_def Let_def group_receipt_valid_def)
  have distinct: "distinct (map gm_task_id (gn_members s))" using facts(1) by (auto simp: canonical_identifiers_def strict_sorted_iff)
  have none: "group_events_numbered s []" by (simp add: group_events_numbered_def)
  show ?thesis
  proof (cases "publish_members s now ts (member_dict (gn_members s)) []")
    case (Inl e')
    with \<open>plan_group_transition s now ts = Inl e\<close> have "e = e'" by (simp add: plan_group_transition_def)
    with publish_members_errors [OF Inl distinct ts facts(2,3)] room terminal_members_le [of "gn_members s"] \<open>plan_group_transition s now ts = Inl e\<close>
    show ?thesis by simp
  next
    case (Inr r)
    then obtain d es where r: "publish_members s now ts (member_dict (gn_members s)) [] = Inr (d, es)" by (cases r) auto
    from r distinct none obtain ms where ms: "d = member_dict ms" "list_all2 member_evolves (gn_members s) ms" "group_events_numbered s es"
      "length es + length (terminal_members (gn_members s)) = length ([] :: group_event list) + length (terminal_members ms)"
      by (rule publish_members_keeps)
    have len: "length ms = length (gn_members s)" by (rule list_all2_lengthD [OF ms(2), symmetric])
    have few: "length es \<le> length (gn_members s)" using ms(4) terminal_members_le [of ms] len by simp
    have vals: "dict_values d = ms" by (simp add: ms(1) dict_values_def comp_def)
    show ?thesis
    proof (cases "decide_group s now ms es")
      case (Inl e')
      have False by (rule decide_errors [OF Inl _ facts(2,3)]) (use facts(1) evolves_ids [OF ms(2)] few room in simp_all)
      then show ?thesis ..
    next
      case (Inr q)
      then obtain decision es' where q: "decide_group s now ms es = Inr (decision, es')" by (cases q) auto
      then have "length es' \<le> length es + 2" by (cases rule: decide_cases) simp_all
      with few room have "gn_last_sequence s + int (length es') \<le> max_portable_json_integer" by simp
      from published_checks [OF s ms(2) _ q this] ms(4) q r vals \<open>plan_group_transition s now ts = Inl e\<close>
      show ?thesis by (simp add: plan_group_transition_def check_snapshot_def)
    qed
  qed
qed

lemma card_members:
  assumes "distinct (map gm_task_id ms)"
  shows "card (gm_task_id ` {m \<in> set ms. P m}) = length (filter P ms)"
proof -
  have "distinct (map gm_task_id (filter P ms))" using assms by (rule distinct_map_filter)
  then have "card (set (map gm_task_id (filter P ms))) = length (filter P ms)" by (simp only: distinct_card length_map)
  then show ?thesis by simp
qed

text \<open>Any number of publications, one after the other.\<close>

fun publish_all :: "group_snapshot \<Rightarrow> (datetime \<times> task list) list \<Rightarrow> group_snapshot result" where
  "publish_all s [] = Inr s"
| "publish_all s ((now, ts) # rest) = bind_res (plan_group_transition s now ts) (\<lambda>g. publish_all (gu_snapshot g) rest)"

lemma publish_all_keeps:
  "group_snapshot_valid s \<Longrightarrow> publish_all s steps = Inr s' \<Longrightarrow> group_snapshot_valid s' \<and> gn_receipt s' = gn_receipt s \<and>
    list_all2 member_evolves (gn_members s) (gn_members s') \<and> (gn_decision s \<noteq> None \<longrightarrow> gn_decision s' = gn_decision s)"
proof (induction s steps rule: publish_all.induct)
  case (1 s)
  then show ?case by (simp add: list_all2_refl)
next
  case (2 s now ts rest)
  from "2.prems"(2) obtain g where g: "plan_group_transition s now ts = Inr g" and rest: "publish_all (gu_snapshot g) rest = Inr s'"
    by (auto simp: res_simps)
  note later = "2.IH" [OF g conjunct1 [OF publication_valid [OF "2.prems"(1) g]] rest]
  from "2.prems"(1) g show ?case
  proof (cases rule: publication_cases)
    case (1 ms es)
    from 1(5) have "gn_decision s \<noteq> None \<longrightarrow> gn_decision (gu_snapshot g) = gn_decision s" by (cases rule: decide_cases) auto
    moreover have "list_all2 member_evolves (gn_members s) (gn_members s')"
      using later 1(1,2) by (auto intro: list_all2_trans [of member_evolves member_evolves, OF member_evolves_trans])
    ultimately show ?thesis using later 1(6) by auto
  qed
qed

text \<open>
  C9. The decision of a group is exact and final.  After any number of publications: an earlier decision
  stands; a group that succeeded names exactly as many members as its policy requires, all completed; a group
  that failed can no longer reach that number, whatever its unfinished members do; and a group without a
  decision has fewer completed members than required, but still enough members that have not failed.
\<close>
theorem group_decision_exact:
  assumes s: "group_snapshot_valid s" and run: "publish_all s steps = Inr s'"
  shows "(gn_decision s \<noteq> None \<longrightarrow> gn_decision s' = gn_decision s) \<and>
    (let required = required_successes (pr_policy (gn_receipt s)) (int (length (pr_members (gn_receipt s))));
         completed = gm_task_id ` {m \<in> set (gn_members s'). gm_status m = COMPLETED};
         possible = gm_task_id ` {m \<in> set (gn_members s'). gm_status m \<notin> graph_failure_statuses}
     in case gn_decision s' of
          None \<Rightarrow> int (card completed) < required \<and> required \<le> int (card possible)
        | Some d \<Rightarrow> if de_succeeded d then set (de_successful d) \<subseteq> completed \<and> int (card (set (de_successful d))) = required
                    else int (card possible) < required)"
proof -
  note kept = publish_all_keeps [OF s run]
  let ?ms = "gn_members s'"
  let ?required = "required_successes (pr_policy (gn_receipt s)) (int (length (pr_members (gn_receipt s))))"
  from kept have ids: "map gm_task_id ?ms = pr_members (gn_receipt s)" "canonical_identifiers (map gm_task_id ?ms)"
    "opt_holds group_decision_valid (gn_decision s')" "decision_matches (required_of s' ?ms) ?ms (gn_decision s')"
    by (auto simp: group_snapshot_valid_def snapshot_checks_def Let_def group_receipt_valid_def)
  then have distinct: "distinct (map gm_task_id ?ms)" by (auto simp: canonical_identifiers_def strict_sorted_iff)
  have "length ?ms = length (pr_members (gn_receipt s))" using ids(1) by (metis length_map)
  with kept ids(4) have matches: "decision_matches ?required ?ms (gn_decision s')" by simp
  have cards: "card (gm_task_id ` {m \<in> set ?ms. gm_status m = COMPLETED}) = length (completed_members ?ms)"
    "card (gm_task_id ` {m \<in> set ?ms. gm_status m \<notin> graph_failure_statuses}) + length (failed_members ?ms) = length ?ms"
    using sum_length_filter_compl [of "\<lambda>m. gm_status m \<in> graph_failure_statuses" ?ms]
    by (simp_all only: card_members [OF distinct] completed_members_def failed_members_def length_map add.commute)
  have named: "set (completed_members ?ms) = gm_task_id ` {m \<in> set ?ms. gm_status m = COMPLETED}" by (auto simp: completed_members_def)
  show ?thesis
  proof (cases "gn_decision s'")
    case None
    with matches cards kept show ?thesis
      by (auto simp: decision_matches_def policy_satisfied_def policy_impossible_def Let_def)
  next
    case (Some d)
    with ids(3) have d: "distinct (de_successful d)" "distinct (de_unsuccessful d)"
      by (auto simp: opt_holds_def group_decision_valid_def canonical_identifiers_def strict_sorted_iff)
    show ?thesis
    proof (cases "de_succeeded d")
      case True
      with Some matches d(1) named kept show ?thesis by (auto simp: decision_matches_def Let_def distinct_card)
    next
      case False
      with Some matches have "set (de_unsuccessful d) \<subseteq> set (failed_members ?ms)"
        "int (length ?ms) - int (length (de_unsuccessful d)) < ?required" by (auto simp: decision_matches_def)
      moreover from this(1) have "length (de_unsuccessful d) \<le> length (failed_members ?ms)"
        using d(2) by (metis card_length card_mono distinct_card finite_set le_trans)
      ultimately have "int (card (gm_task_id ` {m \<in> set ?ms. gm_status m \<notin> graph_failure_statuses})) < ?required" using cards(2) by linarith
      with Some False kept show ?thesis by (auto simp: Let_def)
    qed
  qed
qed

section \<open>Sample group\<close>

text \<open>Two members \<open>a\<close> and \<open>b\<close> that race for the first success; \<open>c\<close> is the finalizer.\<close>

definition sample_receipt :: group_receipt where
  "sample_receipt = \<lparr>pr_group_id = ''k'', pr_graph = \<lparr>gr_graph_id = ''g'', gr_request_sha256 = replicate 64 CHR ''0'',
       gr_submitted_request_sha256 = replicate 64 CHR ''0'', gr_task_ids = [''a'', ''b'', ''c''], gr_accepted_at = 0\<rparr>,
     pr_members = [''a'', ''b''], pr_policy = \<lparr>pk_kind = FIRST_SUCCESS, pk_k = None\<rparr>, pr_quiescence = Some 60,
     pr_finalizer = Some ''c'', pr_request_sha256 = replicate 64 CHR ''0'', pr_submitted_sha256 = replicate 64 CHR ''0''\<rparr>"

definition sample_member :: "string \<Rightarrow> task_status \<Rightarrow> graph_member" where
  "sample_member i st = \<lparr>gm_task_id = i, gm_prerequisite_task_ids = [], gm_status = st, gm_failed_prerequisite_task_ids = []\<rparr>"

definition sample_group :: group_snapshot where
  "sample_group = \<lparr>gn_receipt = sample_receipt, gn_members = [sample_member ''a'' RUNNING, sample_member ''b'' RUNNING],
     gn_decision = None, gn_barrier = \<lparr>ba_status = Q_WAITING_DECISION, ba_deadline = None, ba_loser_task_ids = [],
       ba_unsettled_task_ids = [], ba_executions = [], ba_finalizer_status = F_WAITING\<rparr>, gn_last_sequence = 1\<rparr>"

lemma sample_group_valid: "group_snapshot_valid sample_group"
proof -
  have "barrier_valid (gn_barrier sample_group)"
    by (simp add: barrier_valid_def sample_group_def canonical_identifiers_def task_group_max_executions_def task_group_max_members_def)
  moreover have "group_receipt_valid sample_receipt" by code_simp
  moreover have "list_all graph_member_valid (gn_members sample_group)" by code_simp
  moreover have "snapshot_checks sample_group" by code_simp
  ultimately show ?thesis by (simp add: group_snapshot_valid_def sample_group_def opt_holds_def)
qed

lemma sample_members: "\<forall>t \<in> set [sample_node ''a'' COMPLETED []]. \<exists>m. member_from_task t = Inr m"
proof -
  have "member_from_task (sample_node ''a'' COMPLETED []) = Inr (sample_member ''a'' COMPLETED)" by code_simp
  then show ?thesis by simp
qed

theorem group_publication_consistent_witness:
  "case plan_group_transition sample_group 9 [sample_node ''a'' COMPLETED []] of
     Inl e \<Rightarrow> False
   | Inr g \<Rightarrow> group_snapshot_valid (gu_snapshot g) \<and> map ve_sequence (gu_events g) = [2, 3, 4]"
proof -
  have room: "gn_last_sequence sample_group + int (length (gn_members sample_group)) + 2 \<le> max_portable_json_integer" by code_simp
  have ran: "case plan_group_transition sample_group 9 [sample_node ''a'' COMPLETED []] of
      Inl e \<Rightarrow> False | Inr g \<Rightarrow> map ve_sequence (gu_events g) = [2, 3, 4]" by code_simp
  from group_publication_consistent [OF sample_group_valid sample_members room, of 9] ran
  show ?thesis by (auto split: sum.splits)
qed

definition sample_race :: "(datetime \<times> task list) list" where
  "sample_race = [(9, [sample_node ''b'' FAILED []]), (11, [sample_node ''a'' COMPLETED []])]"

definition sample_won :: group_snapshot where
  "sample_won = (case publish_all sample_group sample_race of Inr s \<Rightarrow> s | Inl _ \<Rightarrow> sample_group)"

theorem group_decision_exact_witness:
  "case gn_decision sample_won of None \<Rightarrow> False
   | Some d \<Rightarrow> de_succeeded d \<and> de_decided_at d = 11 \<and> set (de_successful d) \<subseteq> {''a''} \<and> card (set (de_successful d)) = 1"
proof -
  have "case publish_all sample_group sample_race of Inr _ \<Rightarrow> True | Inl _ \<Rightarrow> False" by code_simp
  then have ran: "publish_all sample_group sample_race = Inr sample_won" unfolding sample_won_def by (simp split: sum.splits)
  have won: "case gn_decision sample_won of None \<Rightarrow> False | Some d \<Rightarrow> de_succeeded d \<and> de_decided_at d = 11"
    "gn_members sample_won = [sample_member ''a'' COMPLETED, sample_member ''b'' FAILED]" by code_simp+
  have one: "required_successes (pr_policy (gn_receipt sample_group)) (int (length (pr_members (gn_receipt sample_group)))) = 1" by code_simp
  have only: "gm_task_id ` {m \<in> set (gn_members sample_won). gm_status m = COMPLETED} \<subseteq> {''a''}"
    unfolding won(2) by (auto simp: sample_member_def)
  from won(1) obtain d where d: "gn_decision sample_won = Some d" "de_succeeded d" "de_decided_at d = 11" by (auto split: option.splits)
  from group_decision_exact [OF sample_group_valid ran] one d(1,2)
  have "set (de_successful d) \<subseteq> gm_task_id ` {m \<in> set (gn_members sample_won). gm_status m = COMPLETED} \<and> card (set (de_successful d)) = 1"
    by (simp add: Let_def)
  with subset_trans [OF _ only] d show ?thesis by simp
qed

end
