(* ===== verification/Group_Safety.thy ===== *)
theory Group_Safety
  imports Group_Decisions Outcome_Steps
begin

text \<open>
  What the barrier of a task group promises: it is quiescent only when all losing work has stopped, and work
  that lost is never completed or started again.
\<close>

section \<open>Tasks under one change of the graph\<close>

definition ids_ok :: "(string, task) dict \<Rightarrow> bool" where
  "ids_ok T \<longleftrightarrow> (\<forall>i t. dict_get T i = Some t \<longrightarrow> tk_id t = i)"

lemma ids_ok_put: "ids_ok T \<Longrightarrow> tk_id t = i \<Longrightarrow> ids_ok (dict_put i t T)"
  by (auto simp: ids_ok_def dict_get_put)

lemma visit_ids:
  assumes "visit_member c i p = Inr (p', changed)" "ids_ok (gp_tasks p)"
  shows "ids_ok (gp_tasks p')"
  using assms(1)
proof (cases rule: visit_member_cases)
  case (2 t)
  then obtain u where u: "gp_tasks p' = dict_put i u (gp_tasks p)"
    "\<exists>settled. skip_settlement c t (failed_deps (gp_tasks p) (deps_of c i)) = Inr settled \<and>
      u = skipped_task t (failed_deps (gp_tasks p) (deps_of c i)) (gc_now c) settled"
    by (elim skip_member_cases)
  then have "tk_id u = tk_id t" using skipped_task_facts(1) by blast
  also have "tk_id t = i" using assms(2) 2(1) by (simp add: ids_ok_def)
  finally show ?thesis using u(1) assms(2) by (simp add: ids_ok_put)
next
  case (3 t)
  then have "tk_id t = i" using assms(2) by (simp add: ids_ok_def)
  with 3(6) assms(2) show ?thesis by (elim release_member_cases) (simp add: ids_ok_put)
qed (use assms(2) in simp)

lemma sweep_ids: "sweep_members c is p = Inr (p', changed) \<Longrightarrow> ids_ok (gp_tasks p) \<Longrightarrow> ids_ok (gp_tasks p')"
proof (induction "is" arbitrary: p changed)
  case (Cons i "is")
  then obtain q a b where v: "visit_member c i p = Inr (q, a)" and s: "sweep_members c is q = Inr (p', b)"
    by (auto simp: res_simps)
  from Cons.IH [OF s visit_ids [OF v Cons.prems(2)]] show ?case .
qed simp

lemma settle_ids: "settle_members c p = Inr p' \<Longrightarrow> ids_ok (gp_tasks p) \<Longrightarrow> ids_ok (gp_tasks p')"
proof (induction c p rule: settle_members.induct)
  case (1 c p)
  from "1.prems"(1) obtain q changed where q: "sweep_members c (sort (map fst (gp_tasks p))) p = Inr (q, changed)"
    and r: "(if changed then settle_members c q else Inr q) = Inr p'"
    by (auto simp: settle_members.simps [of c p] res_simps)
  have "ids_ok (gp_tasks q)" using q "1.prems"(2) by (rule sweep_ids)
  with "1.IH" [OF q refl] r show ?case by (cases changed) simp_all
qed

text \<open>
  How the tasks of a group may change from one instant of a plan to a later one: a finished task stays as it
  is, and no task starts to execute or completes.
\<close>

definition winds_down :: "(string, task) dict \<Rightarrow> (string, task) dict \<Rightarrow> bool" where
  "winds_down A B \<longleftrightarrow> ids_ok B \<and> (\<forall>j a. dict_get A j = Some a \<longrightarrow> (\<exists>b. dict_get B j = Some b \<and>
     (tk_status a \<in> terminal_task_statuses \<longrightarrow> b = a) \<and> (tk_status b \<in> executing_statuses \<longrightarrow> tk_status b = tk_status a)))"

lemma winds_down_refl: "ids_ok A \<Longrightarrow> winds_down A A" by (simp add: winds_down_def)

lemma winds_down_trans: "winds_down A B \<Longrightarrow> winds_down B C \<Longrightarrow> winds_down A C"
  unfolding winds_down_def by metis

lemma winds_down_put:
  assumes "ids_ok A" "dict_get A i = Some a" "tk_id u = i" "tk_status a \<notin> terminal_task_statuses \<or> u = a"
    and "tk_status u \<notin> executing_statuses \<or> tk_status u = tk_status a"
  shows "winds_down A (dict_put i u A)"
  unfolding winds_down_def
proof (intro conjI allI impI)
  show "ids_ok (dict_put i u A)" using assms(1,3) by (rule ids_ok_put)
  fix j b assume "dict_get A j = Some b"
  then show "\<exists>b'. dict_get (dict_put i u A) j = Some b' \<and> (tk_status b \<in> terminal_task_statuses \<longrightarrow> b' = b) \<and>
      (tk_status b' \<in> executing_statuses \<longrightarrow> tk_status b' = tk_status b)"
  proof (cases "j = i")
    case True
    with \<open>dict_get A j = Some b\<close> assms(2) have "a = b" by simp
    moreover have "dict_get (dict_put i u A) j = Some u" using True by (simp only: dict_get_put simp_thms if_True)
    ultimately show ?thesis using assms(4,5) by blast
  next
    case False
    then have "dict_get (dict_put i u A) j = dict_get A j" by (simp only: dict_get_put if_False)
    with \<open>dict_get A j = Some b\<close> show ?thesis by simp
  qed
qed

lemma proposed_status:
  assumes "check_proposed c current proposed = Inr (prior, u)" "tk_status u \<in> executing_statuses"
  shows "tk_status u = tk_status proposed"
proof -
  from assms(1) obtain v where "group_adjusted c proposed = Inr v"
    "copy_task (gc_digest c) (waiting_unless_ready (deps_completed current (deps_of c (tk_id v))) v) = Inr u"
    unfolding check_proposed_def by (simp only: Let_def res_simps(1) split: if_split_asm option.split_asm) blast+
  with assms(2) show ?thesis
    by (auto simp: copy_task_Inr waiting_unless_ready_def group_adjusted_def executing_statuses_def split: if_splits)
qed

lemma graph_winds_down:
  assumes plan: "plan_graph_transition c current t recorded = Inr p" and ids: "ids_ok current"
    and a: "dict_get current (tk_id t) = Some a" and t: "tk_status t \<notin> executing_statuses \<or> tk_status t = tk_status a"
  shows "winds_down current (gp_tasks p)"
  using plan
proof (cases rule: plan_cases)
  case (1 prior u q)
  note u = check_proposed_cases [OF 1(1)]
  have prior: "prior = a" using u(1,7) a by simp
  have first: "winds_down current (dict_put (tk_id u) u current)"
    by (rule winds_down_put [OF ids u(1) refl u(2)]) (use t proposed_status [OF 1(1)] prior in metis)
  have prp: "propagated c (gp_tasks q) (gp_tasks p)" using settle_members_settles [OF 1(3) propagated_refl] ..
  have "ids_ok (gp_tasks p)" using settle_ids [OF 1(3)] first unfolding 1(2) by (simp add: winds_down_def)
  moreover have "\<exists>b. dict_get (gp_tasks p) j = Some b \<and> (tk_status a \<in> terminal_task_statuses \<longrightarrow> b = a) \<and>
      (tk_status b \<in> executing_statuses \<longrightarrow> tk_status b = tk_status a)" if "dict_get (gp_tasks q) j = Some a" for j a
  proof -
    note got = that
    have "map fst (gp_tasks p) = map fst (gp_tasks q)" using prp by (simp add: propagated_def)
    then obtain b where b: "dict_get (gp_tasks p) j = Some b" using dict_get_keys [OF sym got] by blast
    from prp b show ?thesis
    proof (cases rule: propagated_lookup)
      case (1 t0)
      with got b show ?thesis by simp
    next
      case (2 t0)
      with got b show ?thesis
        by (auto simp: propagated_task_def released_status_def executing_statuses_def split: if_splits)
    qed
  qed
  ultimately have "winds_down (gp_tasks q) (gp_tasks p)" unfolding winds_down_def by blast
  with first 1(2) show ?thesis by (auto intro: winds_down_trans)
qed

lemma plan_keys:
  assumes "plan_graph_transition c current t recorded = Inr p"
  shows "map fst (gp_tasks p) = map fst current"
  using assms
proof (cases rule: plan_cases)
  case (1 prior u q)
  have "dict_get current (tk_id u) = Some prior" by (rule check_proposed_cases [OF 1(1)])
  then have "map fst (gp_tasks q) = map fst current" unfolding 1(2) by (force simp: update_keys dest: map_of_SomeD)
  with settle_members_settles [OF 1(3) propagated_refl] show ?thesis by (simp add: propagated_def)
qed

text \<open>Reading a task after a list of changed tasks was put.\<close>

lemma put_tasks_get:
  "dict_get (put_tasks ts d) i = (case find (\<lambda>t. tk_id t = i) (rev ts) of None \<Rightarrow> dict_get d i | Some t \<Rightarrow> Some t)"
proof (induction ts rule: rev_induct)
  case (snoc t ts)
  then show ?case by (simp add: put_tasks_def dict_get_put)
qed (simp add: put_tasks_def)

lemma put_changed:
  assumes "ids_ok T"
    and mem: "\<And>t. t \<in> set ts \<Longrightarrow> \<exists>i. dict_get T i = Some t"
    and all: "\<And>i t. dict_get T i = Some t \<Longrightarrow> dict_get d i \<noteq> Some t \<Longrightarrow> t \<in> set ts"
    and T: "dict_get T i = Some t"
  shows "dict_get (put_tasks ts d) i = Some t"
proof (cases "find (\<lambda>t. tk_id t = i) (rev ts)")
  case None
  then have "t \<notin> set ts" using T assms(1) by (auto simp: find_None_iff ids_ok_def)
  with all [OF T] None show ?thesis by (auto simp: put_tasks_get)
next
  case (Some u)
  then have u: "u \<in> set ts" "tk_id u = i" by (auto simp: find_Some_iff rev_nth)
  from mem [OF u(1)] assms(1) u(2) T have "u = t" by (auto simp: ids_ok_def)
  with Some show ?thesis by (simp add: put_tasks_get)
qed

lemma transition_tasks_set:
  "t \<in> set (transition_tasks current p) \<longleftrightarrow> (\<exists>i. dict_get (gp_tasks p) i = Some t \<and> dict_get current i \<noteq> Some t)"
proof -
  have "dict_get (gp_tasks p) i = Some t \<Longrightarrow> i \<in> set (map fst (gp_tasks p))" for i by (force dest: map_of_SomeD)
  then show ?thesis by (fastforce simp: transition_tasks_def split: option.splits if_splits)
qed

lemma changed_tasks_set:
  "t \<in> set (changed_tasks original T) \<longleftrightarrow> (\<exists>i. dict_get T i = Some t \<and> dict_get original i \<noteq> Some t)"
proof -
  have "dict_get T i = Some t \<Longrightarrow> i \<in> set (map fst T)" for i by (force dest: map_of_SomeD)
  then show ?thesis by (fastforce simp: changed_tasks_def split: option.splits if_splits)
qed

lemma put_tasks_ids: "ids_ok d \<Longrightarrow> ids_ok (put_tasks ts d)"
  by (induction ts rule: rev_induct) (auto simp: put_tasks_def intro: ids_ok_put)

section \<open>Tasks under one change of the group\<close>

lemma members_lookup:
  assumes "graph_members_of c p = Inr current"
  shows "dict_get current i = (if i \<in> fst ` set (gx_prerequisites c) then dict_get (gl_tasks p) i else None)"
proof -
  have "traverse_res (\<lambda>i. case dict_get (gl_tasks p) i of None \<Rightarrow> Inl KeyError | Some t \<Rightarrow> Inr (i, t)) is = Inr cur \<Longrightarrow>
      dict_get cur i = (if i \<in> set is then dict_get (gl_tasks p) i else None)" for "is" cur
    by (induction "is" arbitrary: cur) (auto simp: res_simps split: option.splits)
  from this [OF assms [unfolded graph_members_of_def]] show ?thesis by simp
qed

lemma group_change_winds:
  assumes run: "group_change c u settlement p = Inr q" and ids: "ids_ok (gl_tasks p)"
    and a: "dict_get (gl_tasks p) (tk_id u) = Some a" "tk_status a \<notin> terminal_task_statuses"
    and u: "tk_status u \<notin> executing_statuses \<or> tk_status u = tk_status a"
  shows "winds_down (gl_tasks p) (gl_tasks q) \<and> gl_barrier q = gl_barrier p"
proof (cases "dict_get (gx_roots c) (tk_id u) \<noteq> None")
  case True
  with run have "gl_tasks q = dict_put (tk_id u) u (gl_tasks p)" "gl_barrier q = gl_barrier p"
    by (auto simp: group_change_def Let_def res_simps)
  with winds_down_put [OF ids a(1) refl disjI1 [OF a(2)] u] show ?thesis by simp
next
  case False
  with run obtain current extra g where current: "graph_members_of c p = Inr current"
    and extra: "plan_graph_transition (group_graph_context c p) current u False = Inr extra"
    and q: "gl_tasks q = put_tasks (transition_tasks current extra) (gl_tasks p)" "gl_barrier q = gl_barrier p"
    by (auto simp: group_change_def Let_def res_simps)
  note lookup = members_lookup [OF current]
  have in_p: "dict_get current j = Some t \<Longrightarrow> dict_get (gl_tasks p) j = Some t" for j t by (simp add: lookup split: if_splits)
  have "ids_ok current" using ids in_p unfolding ids_ok_def by blast
  from extra obtain prior v where "check_proposed (group_graph_context c p) current u = Inr (prior, v)" by (rule plan_cases)
  then have "dict_get current (tk_id u) = Some prior" using check_proposed_cases(1,7) by metis
  then have "dict_get current (tk_id u) = Some a" using in_p a(1) by fastforce
  note winds = graph_winds_down [OF extra \<open>ids_ok current\<close> this u]
  have kept: "dict_get (gl_tasks q) j = Some t" if "dict_get (gp_tasks extra) j = Some t" for j t
    unfolding q(1)
  proof (rule put_changed)
    show "ids_ok (gp_tasks extra)" using winds by (simp add: winds_down_def)
  qed (use that in_p in \<open>auto simp: transition_tasks_set\<close>)
  have other: "dict_get (gl_tasks q) j = dict_get (gl_tasks p) j" if "dict_get (gp_tasks extra) j = None" for j
  proof -
    have "find (\<lambda>t. tk_id t = j) (rev (transition_tasks current extra)) = None"
      using that winds by (auto simp: find_None_iff transition_tasks_set winds_down_def ids_ok_def)
    then show ?thesis by (simp add: q(1) put_tasks_get)
  qed
  have "ids_ok (gl_tasks q)" unfolding q(1) by (rule put_tasks_ids [OF ids])
  moreover have "\<exists>b. dict_get (gl_tasks q) j = Some b \<and> (tk_status t \<in> terminal_task_statuses \<longrightarrow> b = t) \<and>
      (tk_status b \<in> executing_statuses \<longrightarrow> tk_status b = tk_status t)" if t: "dict_get (gl_tasks p) j = Some t" for j t
  proof (cases "dict_get current j")
    case None
    show ?thesis
    proof (cases "dict_get (gp_tasks extra) j")
      case None
      with other t show ?thesis by simp
    next
      case (Some b)
      have "map fst (gp_tasks extra) = map fst current" using extra by (rule plan_keys)
      from dict_get_keys [OF this Some] None show ?thesis by simp
    qed
  next
    case (Some x)
    with in_p t have "x = t" by fastforce
    with Some winds kept show ?thesis by (auto simp: winds_down_def) blast
  qed
  ultimately show ?thesis using q(2) unfolding winds_down_def by blast
qed

section \<open>The barrier\<close>

lemma barrier_event_keeps:
  "barrier_event c kind i p = Inr q \<Longrightarrow> gl_tasks q = gl_tasks p \<and> gl_barrier q = gl_barrier p \<and> gl_snapshot q = gl_snapshot p"
  by (auto simp: barrier_event_def res_simps)

text \<open>A stage that only winds tasks down.\<close>

definition quiet_stage :: "group_plan \<Rightarrow> group_plan \<Rightarrow> bool" where
  "quiet_stage p q \<longleftrightarrow> winds_down (gl_tasks p) (gl_tasks q) \<and> gl_barrier q = gl_barrier p"

lemma quiet_refl: "ids_ok (gl_tasks p) \<Longrightarrow> quiet_stage p p" by (simp add: quiet_stage_def winds_down_refl)

lemma quiet_trans: "quiet_stage p q \<Longrightarrow> quiet_stage q r \<Longrightarrow> quiet_stage p r"
  by (auto simp: quiet_stage_def intro: winds_down_trans)

lemma quiet_event: "quiet_stage p q \<Longrightarrow> barrier_event c kind i q = Inr r \<Longrightarrow> quiet_stage p r"
  using barrier_event_keeps by (fastforce simp: quiet_stage_def)

lemma cancelled_settlement_task:
  assumes "cancelled_task_retry_settlement d t error now = Inr r"
  shows "tk_id (sr_task r) = tk_id t" "tk_status (sr_task r) = CANCELLED"
proof -
  from assms have *: "runtime_task_retry_terminal_settlement d t ''cancellation'' ATTEMPT_CANCELLED SERIES_CANCELLED
      CANCELLED (case error of None \<Rightarrow> error_code ''cancelled'' | Some e \<Rightarrow> e) now 0 0 = Inr r"
    by (auto simp: cancelled_task_retry_settlement_def split: if_splits)
  show "tk_id (sr_task r) = tk_id t" by (rule runtime_settlement_task [OF *])
  from * show "tk_status (sr_task r) = CANCELLED"
    by (auto simp: runtime_task_retry_terminal_settlement_def res_simps Let_def check_settlement_def split: option.splits if_splits prod.splits)
qed

lemma changed_loser:
  assumes "group_change c u settlement p = Inr q" "ids_ok (gl_tasks p)" "dict_get (gl_tasks p) i = Some t"
    and "tk_status t \<notin> terminal_task_statuses" "tk_id u = tk_id t" "tk_status u = CANCELLED \<or> tk_status u = PENDING \<or> tk_status u = tk_status t"
  shows "quiet_stage p q"
proof -
  have "tk_id t = i" using assms(2,3) by (simp add: ids_ok_def)
  with assms group_change_winds [OF assms(1,2), of t] show ?thesis by (auto simp: quiet_stage_def executing_statuses_def)
qed

lemma cancelled_quiet:
  assumes "change_cancelled c t p = Inr q" "ids_ok (gl_tasks p)" "dict_get (gl_tasks p) i = Some t" "tk_status t \<notin> terminal_task_statuses"
  shows "quiet_stage p q"
proof -
  from assms(1) have "group_change c (cancelled_loser (gx_now c) t) None p = Inr q"
    unfolding change_cancelled_def bind_res_eq_Inr copy_task_Inr by blast
  then show ?thesis by (rule changed_loser [OF _ assms(2-4)]) (simp_all add: cancelled_loser_def)
qed

lemma stopped_loser:
  assumes "change_stopped c t p = Inr q" "ids_ok (gl_tasks p)" "dict_get (gl_tasks p) i = Some t" "tk_status t \<notin> terminal_task_statuses"
  shows "quiet_stage p q"
proof (cases "tk_retry_series t \<noteq> None")
  case True
  with assms(1) have "change_settled c t p = Inr q" by (simp add: change_stopped_def)
  then obtain r where r: "cancelled_task_retry_settlement (gx_digest c) t (Some (error_code ''task_group_decided'')) (gx_now c) = Inr r"
    "group_change c (sr_task r) (Some r) p = Inr q" unfolding change_settled_def bind_res_eq_Inr by blast
  show ?thesis by (rule changed_loser [OF r(2) assms(2-4)]) (simp_all add: cancelled_settlement_task [OF r(1)])
next
  case False
  with assms(1) have "change_cancelled c t p = Inr q" by (simp add: change_stopped_def)
  then show ?thesis by (rule cancelled_quiet [OF _ assms(2-4)])
qed

lemma requested_loser:
  assumes "request_stop c t p = Inr q" "ids_ok (gl_tasks p)" "dict_get (gl_tasks p) i = Some t" "tk_status t \<notin> terminal_task_statuses"
  shows "quiet_stage p q"
proof -
  from assms(1) obtain u where u: "drained t u" and run: "group_change c u None p = Inr q"
    by (auto simp: request_stop_def res_simps split: if_splits dest: cancellation_drains retry_cancellation_drains)
  from u have "tk_id u = tk_id t" "tk_status u = tk_status t" by (auto simp: drained_def)
  with changed_loser [OF run assms(2,3,4)] show ?thesis by simp
qed

lemma stop_loser_quiet:
  assumes "stop_loser c t p = Inr q" "ids_ok (gl_tasks p)" "dict_get (gl_tasks p) i = Some t" "tk_status t \<notin> terminal_task_statuses"
  shows "quiet_stage p q"
proof (cases "tk_status t \<in> {CLAIMED, RUNNING}")
  case True
  with assms(1) have "request_stop c t p = Inr q" unfolding stop_loser_def by (simp only: if_True)
  then show ?thesis by (rule requested_loser [OF _ assms(2-4)])
next
  case False
  with assms(1) have "change_stopped c t p = Inr q" unfolding stop_loser_def by (simp only: if_False)
  then show ?thesis by (rule stopped_loser [OF _ assms(2-4)])
qed

lemma drain_loser_quiet:
  assumes "drain_loser c new i p = Inr q" "ids_ok (gl_tasks p)"
  shows "quiet_stage p q"
proof -
  note same = quiet_refl [OF assms(2)]
  from assms(1) obtain t where t: "dict_get (gl_tasks p) i = Some t" by (auto simp: drain_loser_def split: option.splits)
  note run = assms(1) [unfolded drain_loser_def t option.case]
  consider (ended) "tk_status t \<in> terminal_task_statuses"
    | (invocation) "tk_status t \<notin> terminal_task_statuses" "invocation_stopped c p t i"
    | (claim) "tk_status t \<notin> terminal_task_statuses" "\<not> invocation_stopped c p t i" "claim_stopped c p t i"
    | (requested) "tk_status t \<notin> terminal_task_statuses" "\<not> invocation_stopped c p t i" "\<not> claim_stopped c p t i" "already_requested t"
    | (owned) "tk_status t \<notin> terminal_task_statuses" "\<not> invocation_stopped c p t i" "\<not> claim_stopped c p t i" "\<not> already_requested t"
        "owned_elsewhere t"
    | (stop) "tk_status t \<notin> terminal_task_statuses" "\<not> invocation_stopped c p t i" "\<not> claim_stopped c p t i" "\<not> already_requested t"
        "\<not> owned_elsewhere t"
    by blast
  then show ?thesis
  proof cases
    case ended
    with run same show ?thesis by simp
  next
    case invocation
    with run have "change_cancelled c t p = Inr q" by simp
    then show ?thesis by (rule cancelled_quiet [OF _ assms(2) t invocation(1)])
  next
    case claim
    with run have "change_stopped c t p = Inr q" by simp
    then show ?thesis by (rule stopped_loser [OF _ assms(2) t claim(1)])
  next
    case requested
    with run same show ?thesis by simp
  next
    case owned
    with run have "(if new then barrier_event c GE_CANCELLATION_REQUESTED (Some i) p else Inr p) = Inr q" by simp
    with same quiet_event [OF same] show ?thesis by (cases new) simp_all
  next
    case stop
    with run obtain r where "stop_loser c t p = Inr r" "barrier_event c GE_CANCELLATION_REQUESTED (Some i) r = Inr q"
      by (auto simp: bind_res_eq_Inr)
    with stop_loser_quiet [OF _ assms(2) t stop(1)] show ?thesis by (blast intro: quiet_event)
  qed
qed

lemma drain_losers_quiet: "drain_losers c new is p = Inr q \<Longrightarrow> ids_ok (gl_tasks p) \<Longrightarrow> quiet_stage p q"
proof (induction "is" arbitrary: p)
  case (Cons i "is")
  then obtain r where r: "drain_loser c new i p = Inr r" "drain_losers c new is r = Inr q" by (auto simp: res_simps)
  note first = drain_loser_quiet [OF r(1) Cons.prems(2)]
  then have "ids_ok (gl_tasks r)" by (simp add: quiet_stage_def winds_down_def)
  from quiet_trans [OF first Cons.IH [OF r(2) this]] show ?case .
qed (simp add: quiet_refl)

text \<open>A later stage of the barrier: it keeps duties and losers, and is quiescent only if nothing was unsettled.\<close>

definition barrier_frame :: "group_plan \<Rightarrow> group_plan \<Rightarrow> bool" where
  "barrier_frame p q \<longleftrightarrow> winds_down (gl_tasks p) (gl_tasks q) \<and>
     ba_executions (gl_barrier q) = ba_executions (gl_barrier p) \<and> ba_loser_task_ids (gl_barrier q) = ba_loser_task_ids (gl_barrier p) \<and>
     ba_unsettled_task_ids (gl_barrier q) = ba_unsettled_task_ids (gl_barrier p) \<and>
     (ba_status (gl_barrier q) = Q_QUIESCENT \<longrightarrow> ba_status (gl_barrier p) = Q_QUIESCENT \<or> ba_unsettled_task_ids (gl_barrier p) = [])"

lemma frame_trans: "barrier_frame p q \<Longrightarrow> barrier_frame q r \<Longrightarrow> barrier_frame p r"
  by (auto simp: barrier_frame_def intro: winds_down_trans)

lemma frame_ids: "barrier_frame p q \<Longrightarrow> ids_ok (gl_tasks q)" by (simp add: barrier_frame_def winds_down_def)

lemma frame_event: "barrier_frame p q \<Longrightarrow> barrier_event c kind i q = Inr r \<Longrightarrow> barrier_frame p r"
  using barrier_event_keeps by (fastforce simp: barrier_frame_def)

lemma quiet_frame: "quiet_stage p q \<Longrightarrow> barrier_frame p q" by (simp add: quiet_stage_def barrier_frame_def)

lemma advance_frame:
  assumes "advance_barrier c p = Inr q" "ids_ok (gl_tasks p)"
  shows "barrier_frame p q"
proof -
  have same: "barrier_frame p p" using assms(2) by (simp add: barrier_frame_def winds_down_refl)
  have status: "barrier_frame p (set_status st p)" if "st = Q_QUIESCENT \<longrightarrow> ba_unsettled_task_ids (gl_barrier p) = []" for st
    using same that by (auto simp: barrier_frame_def set_status_def)
  have "p = q \<or> barrier_event c GE_TIMEOUT None (set_status Q_ATTENTION_REQUIRED p) = Inr q \<or>
      ba_unsettled_task_ids (gl_barrier p) = [] \<and> barrier_event c GE_QUIESCENT None (set_status Q_QUIESCENT p) = Inr q"
    using assms(1) unfolding advance_barrier_def by (simp split: if_split_asm option.split_asm)
  then show ?thesis
  proof (elim disjE conjE)
    assume "barrier_event c GE_TIMEOUT None (set_status Q_ATTENTION_REQUIRED p) = Inr q"
    with status [of Q_ATTENTION_REQUIRED] show ?thesis by (simp add: frame_event)
  next
    assume "ba_unsettled_task_ids (gl_barrier p) = []" "barrier_event c GE_QUIESCENT None (set_status Q_QUIESCENT p) = Inr q"
    with status [of Q_QUIESCENT] show ?thesis by (simp add: frame_event)
  qed (use same in simp)
qed

lemma resolve_frame:
  assumes "resolve_barrier c p = Inr q" "ids_ok (gl_tasks p)"
  shows "barrier_frame p q"
proof -
  have same: "barrier_frame p p" using assms(2) by (simp add: barrier_frame_def winds_down_refl)
  consider "q = p" | r where "ba_unsettled_task_ids (gl_barrier p) = []" "barrier_event c GE_RESOLVED None (set_status Q_QUIESCENT p) = Inr r"
    "barrier_event c GE_QUIESCENT None r = Inr q"
    using assms(1) unfolding resolve_barrier_def by (auto simp: bind_res_eq_Inr split: if_splits)
  then show ?thesis
  proof cases
    case 2
    have "barrier_frame p (set_status Q_QUIESCENT p)" using same 2(1) by (simp add: barrier_frame_def set_status_def)
    from frame_event [OF frame_event [OF this 2(2)] 2(3)] show ?thesis .
  qed (use same in simp)
qed

lemma finalizer_frame:
  assumes "ids_ok (gl_tasks p)"
  shows "barrier_frame p (set_finalizer st p)"
  using assms by (simp add: barrier_frame_def set_finalizer_def winds_down_refl)

lemma finalizer_change:
  assumes "group_change c u None (set_finalizer st p) = Inr q" "ids_ok (gl_tasks p)" "dict_get (gl_tasks p) f = Some t"
    and "tk_status t \<notin> terminal_task_statuses" "tk_id u = tk_id t" "tk_status u = CANCELLED \<or> tk_status u = PENDING \<or> tk_status u = tk_status t"
  shows "barrier_frame p q"
proof -
  have "gl_tasks (set_finalizer st p) = gl_tasks p" by (simp add: set_finalizer_def)
  then have "quiet_stage (set_finalizer st p) q" using assms by (intro changed_loser [OF assms(1) _ _ assms(4-6)]) simp_all
  from frame_trans [OF finalizer_frame [OF assms(2)] quiet_frame [OF this]] show ?thesis .
qed

lemma advance_finalizer_frame:
  assumes "advance_finalizer c d f t p = Inr q" "ids_ok (gl_tasks p)" "dict_get (gl_tasks p) f = Some t"
  shows "barrier_frame p q"
proof -
  have same: "barrier_frame p p" using assms(2) by (simp add: barrier_frame_def winds_down_refl)
  have ended: "barrier_frame p q" if "barrier_event c kind (Some f) (set_finalizer st p) = Inr q" for kind st
    using finalizer_frame [OF assms(2)] that by (rule frame_event)
  have changed: "barrier_frame p q" if "group_change c u None (set_finalizer st p) = Inr r" "barrier_event c kind (Some f) r = Inr q"
    "tk_status t \<notin> terminal_task_statuses" "tk_id u = tk_id t" "tk_status u = CANCELLED \<or> tk_status u = PENDING \<or> tk_status u = tk_status t"
    for u st kind r
    using finalizer_change [OF that(1) assms(2,3) that(3-5)] that(2) by (rule frame_event)
  show ?thesis
  proof (cases "ba_finalizer_status (gl_barrier p) = F_WAITING \<and> (\<not> de_succeeded d \<or> ba_status (gl_barrier p) = Q_QUIESCENT)")
    case False
    with assms(1) same show ?thesis unfolding advance_finalizer_def by (simp split: if_split_asm)
  next
    case waiting: True
    show ?thesis
    proof (cases "de_succeeded d")
      case False
      note run = assms(1) [unfolded advance_finalizer_def]
      show ?thesis
      proof (cases "tk_status t \<in> terminal_task_statuses")
        case True
        with run waiting False show ?thesis by (simp add: ended)
      next
        case live: False
        with run waiting False obtain r where "group_change c (cancelled_finalizer (gx_now c) t) None (set_finalizer F_INELIGIBLE p) = Inr r"
          "barrier_event c GE_FINALIZER_INELIGIBLE (Some f) r = Inr q" by (simp add: bind_res_eq_Inr copy_task_Inr) blast
        then show ?thesis by (rule changed [OF _ _ live]) (simp_all add: cancelled_finalizer_def)
      qed
    next
      case True
      note run = assms(1) [unfolded advance_finalizer_def]
      show ?thesis
      proof (cases "tk_status t = WAITING_GROUP")
        case False
        with run waiting True show ?thesis by (simp add: ended)
      next
        case parked: True
        with run waiting True obtain r where "group_change c (t\<lparr>tk_status := PENDING, tk_updated_at := gx_now c\<rparr>) None (set_finalizer F_RELEASED p) = Inr r"
          "barrier_event c GE_FINALIZER_RELEASED (Some f) r = Inr q" by (simp add: bind_res_eq_Inr) blast
        then show ?thesis by (rule changed) (simp_all add: parked terminal_task_statuses_def)
      qed
    qed
  qed
qed

lemma plan_finalizer_frame:
  assumes "plan_finalizer c d p = Inr q" "ids_ok (gl_tasks p)"
  shows "barrier_frame p q"
proof (cases "pr_finalizer (gn_receipt (gx_snapshot c))")
  case None
  with assms show ?thesis by (simp add: plan_finalizer_def barrier_frame_def winds_down_refl)
next
  case (Some f)
  with assms(1) obtain t r where t: "dict_get (gl_tasks p) f = Some t" "advance_finalizer c d f t p = Inr r" "settle_finalizer c f r = Inr q"
    by (auto simp: plan_finalizer_def bind_res_eq_Inr split: option.splits)
  note first = advance_finalizer_frame [OF t(2) assms(2) t(1)]
  have "barrier_frame r q"
  proof -
    note same = frame_ids [OF first]
    from t(3) have "r = q \<or> barrier_event c GE_FINALIZER_SETTLED (Some f) (set_finalizer F_SETTLED r) = Inr q"
      unfolding settle_finalizer_def by (simp split: option.split_asm if_split_asm)
    then show ?thesis
    proof
      assume "barrier_event c GE_FINALIZER_SETTLED (Some f) (set_finalizer F_SETTLED r) = Inr q"
      with finalizer_frame [OF same] show ?thesis by (rule frame_event)
    qed (use same in \<open>simp add: barrier_frame_def winds_down_refl\<close>)
  qed
  with first show ?thesis by (rule frame_trans)
qed

lemma work_unsettled_later:
  assumes "winds_down (gl_tasks p) (gl_tasks q)" "ba_executions (gl_barrier q) = ba_executions (gl_barrier p)" "work_unsettled c q j"
  shows "work_unsettled c p j"
  using assms by (fastforce simp: work_unsettled_def winds_down_def group_executions_def split: option.splits)

text \<open>The whole barrier: tasks wind down, and a barrier that becomes quiescent has no unsettled loser.\<close>

lemma plan_barrier_settles:
  assumes run: "plan_barrier c timeout p = Inr q" and ids: "ids_ok (gl_tasks p)"
  shows "winds_down (gl_tasks p) (gl_tasks q) \<and>
    (ba_status (gl_barrier p) \<noteq> Q_QUIESCENT \<longrightarrow> ba_status (gl_barrier q) = Q_QUIESCENT \<longrightarrow> (\<forall>i \<in> set (ba_loser_task_ids (gl_barrier q)). \<not> loser_unsettled c q i))"
proof (cases "gn_decision (gl_snapshot p)")
  case None
  with run ids show ?thesis by (simp add: plan_barrier_def winds_down_refl)
next
  case (Some d)
  let ?new = "ba_status (gl_barrier p) = Q_WAITING_DECISION"
  from run Some obtain p1 p2 p3 p4 p5 where p1: "start_draining c timeout d p = Inr p1"
    and p2: "drain_losers c ?new (losing_work c p1) p1 = Inr p2" and p3: "record_unsettled c ?new p2 = Inr p3"
    and p4: "advance_barrier c p3 = Inr p4" and p5: "resolve_barrier c p4 = Inr p5" and q: "plan_finalizer c d p5 = Inr q"
    by (auto simp: plan_barrier_def Let_def bind_res_eq_Inr)
  have one: "gl_tasks p1 = gl_tasks p" "ba_status (gl_barrier p) \<noteq> Q_QUIESCENT \<Longrightarrow> ba_status (gl_barrier p1) \<noteq> Q_QUIESCENT"
    using p1 by (auto simp: start_draining_def bind_res_eq_Inr split: if_splits)
  have two: "quiet_stage p1 p2" by (rule drain_losers_quiet [OF p2]) (simp add: one ids)
  have three: "gl_tasks p3 = gl_tasks p2" "ba_status (gl_barrier p3) = ba_status (gl_barrier p2)"
    "ba_executions (gl_barrier p3) = ba_executions (gl_barrier p2)" "ba_loser_task_ids (gl_barrier p3) = ba_loser_task_ids (gl_barrier p2)"
    "ba_unsettled_task_ids (gl_barrier p3) = filter (loser_unsettled c p2) (ba_loser_task_ids (gl_barrier p2))"
    using p3 by (auto simp: record_unsettled_def Let_def split: if_splits dest!: barrier_event_keeps)
  have ids2: "ids_ok (gl_tasks p2)" using two by (simp add: quiet_stage_def winds_down_def)
  have four: "barrier_frame p3 p4" by (rule advance_frame [OF p4]) (simp add: three ids2)
  have five: "barrier_frame p4 p5" by (rule resolve_frame [OF p5 frame_ids [OF four]])
  have last: "barrier_frame p3 q" using frame_trans [OF frame_trans [OF four five] plan_finalizer_frame [OF q frame_ids [OF five]]] .
  have "winds_down (gl_tasks p) (gl_tasks q)"
    using two last one(1) three by (auto simp: quiet_stage_def barrier_frame_def intro: winds_down_trans)
  moreover have "\<not> loser_unsettled c q i" if before: "ba_status (gl_barrier p) \<noteq> Q_QUIESCENT" and quiescent: "ba_status (gl_barrier q) = Q_QUIESCENT" and i: "i \<in> set (ba_loser_task_ids (gl_barrier q))" for i
  proof -
    have "ba_status (gl_barrier p3) \<noteq> Q_QUIESCENT" using one(2) [OF before] two three by (simp add: quiet_stage_def)
    with last quiescent have "ba_unsettled_task_ids (gl_barrier p3) = []" by (simp add: barrier_frame_def)
    with three(5) have "filter (loser_unsettled c p2) (ba_loser_task_ids (gl_barrier p2)) = []" by simp
    moreover have "i \<in> set (ba_loser_task_ids (gl_barrier p2))" using i last three(4) by (simp add: barrier_frame_def)
    ultimately have settled: "\<not> loser_unsettled c p2 i" by (simp add: filter_empty_conv)
    have later: "work_unsettled c q j \<Longrightarrow> work_unsettled c p2 j" for j
      by (rule work_unsettled_later [of p2 q]) (use last three in \<open>simp_all add: barrier_frame_def\<close>)
    show ?thesis
    proof
      assume "loser_unsettled c q i"
      with later have "loser_unsettled c p2 i" by (auto simp: loser_unsettled_def list_ex_iff)
      with settled show False ..
    qed
  qed
  ultimately show ?thesis by blast
qed

section \<open>What the barrier promises\<close>

text \<open>A plan that was published, by its stages.\<close>

lemma published_barrier: "plan_group_transition s now ts = Inr g \<Longrightarrow> gn_barrier (gu_snapshot g) = gn_barrier s"
  by (auto simp: plan_group_transition_def res_simps check_snapshot_def split: if_splits)

lemma group_plan_cases:
  assumes "plan_group_graph_transition c tr current settled invocation = Inr r"
  obtains (outcome) g where "pr_quiescence (gn_receipt (gx_snapshot c)) = None" "plan_group_transition (gx_snapshot c) (gx_now c) (gt_tasks tr) = Inr g"
      "gg_snapshot r = gu_snapshot g" "gg_tasks r = gt_tasks tr"
  | (barrier) timeout changed g xs q where "pr_quiescence (gn_receipt (gx_snapshot c)) = Some timeout"
      "fresh_resumed_execution (gx_snapshot c) current (gt_tasks tr) = Inr changed"
      "plan_group_transition (gx_snapshot c) (gx_now c) changed = Inr g"
      "plan_barrier c timeout (initial_plan c tr g (put_tasks changed current) xs) = Inr q"
      "gn_barrier (gg_snapshot r) = gl_barrier q" "gg_tasks r = changed_tasks current (gl_tasks q)"
proof (cases "pr_quiescence (gn_receipt (gx_snapshot c))")
  case None
  with assms outcome show thesis by (auto simp: plan_group_graph_transition_def bind_res_eq_Inr split: if_splits)
next
  case (Some timeout)
  with assms barrier show thesis
    by (auto simp: plan_group_graph_transition_def bind_res_eq_Inr publication_of_def check_snapshot_def Let_def split: if_splits)
qed

lemma initial_barrier: "gl_tasks (initial_plan c tr g tasks xs) = tasks" "ba_status (gl_barrier (initial_plan c tr g tasks xs)) = ba_status (gn_barrier (gu_snapshot g))"
  by (simp_all add: initial_plan_def)

lemma changed_lookup:
  assumes "ids_ok T" "dict_get T j = Some t"
  shows "dict_get (put_tasks (changed_tasks current T) current) j = Some t"
  by (rule put_changed [OF assms(1) _ _ assms(2)]) (auto simp: changed_tasks_set)

lemma execution_lookup: "find (\<lambda>x. xd_task_id x = j) xs = map_of (map (\<lambda>x. (xd_task_id x, x)) xs) j"
  by (induction xs) auto

text \<open>
  C8. A group becomes quiescent only when its losing work has stopped.  When a plan moves the barrier to
  quiescent, then for every loser and every retry attempt that descends from one: its task is terminal once
  the plan is stored, no effect of it is unsettled, and every execution retained for it has been settled; so
  neither an expired lease nor the deadline of the barrier ever counts as proof that work stopped.
\<close>
theorem quiescent_group_is_settled:
  assumes run: "plan_group_graph_transition c tr current settled invocation = Inr r" and ids: "ids_ok current"
    and before: "ba_status (gn_barrier (gx_snapshot c)) \<noteq> Q_QUIESCENT" and after: "ba_status (gn_barrier (gg_snapshot r)) = Q_QUIESCENT"
    and loser: "i \<in> set (ba_loser_task_ids (gn_barrier (gg_snapshot r)))" "j = i \<or> (j, i) \<in> set (gx_roots c)"
  shows "(\<exists>t. dict_get (put_tasks (gg_tasks r) current) j = Some t \<and> tk_status t \<in> terminal_task_statuses) \<and>
    j \<notin> set (gx_effects c) \<and> (\<forall>x. execution_of (gg_snapshot r) j = Some x \<longrightarrow> xd_settled_at x \<noteq> None)"
  using run
proof (cases rule: group_plan_cases)
  case (outcome g)
  with published_barrier before after show ?thesis by simp
next
  case (barrier timeout changed g xs q)
  note settles = plan_barrier_settles [OF barrier(4), unfolded initial_barrier]
  have start: "ids_ok (put_tasks changed current)" by (rule put_tasks_ids [OF ids])
  have "ba_status (gn_barrier (gu_snapshot g)) \<noteq> Q_QUIESCENT" using before published_barrier [OF barrier(3)] by simp
  with settles [OF start] have q: "winds_down (put_tasks changed current) (gl_tasks q)" "\<not> loser_unsettled c q i"
    using after loser(1) barrier(5) by auto
  then have "\<not> work_unsettled c q j" using loser(2) by (auto simp: loser_unsettled_def list_ex_iff)
  then have work: "\<exists>t. dict_get (gl_tasks q) j = Some t \<and> tk_status t \<in> terminal_task_statuses" "j \<notin> set (gx_effects c)"
    "\<forall>x. dict_get (group_executions q) j = Some x \<longrightarrow> xd_settled_at x \<noteq> None"
    by (auto simp: work_unsettled_def split: option.splits)
  have "ids_ok (gl_tasks q)" using q(1) by (simp add: winds_down_def)
  with work(1) barrier(6) have "\<exists>t. dict_get (put_tasks (gg_tasks r) current) j = Some t \<and> tk_status t \<in> terminal_task_statuses"
    using changed_lookup by metis
  with work(2,3) show ?thesis by (simp add: execution_of_def execution_lookup group_executions_def barrier(5))
qed

section \<open>Fenced work\<close>

lemma no_empty_identifier: "\<not> is_graph_identifier []" by code_simp

lemma planned_status:
  assumes plan: "plan_graph_transition c current t recorded = Inr p" and b: "dict_get (gp_tasks p) j = Some b"
    and exec: "tk_status b \<in> executing_statuses"
  shows "\<exists>a. dict_get current j = Some a \<and> tk_status b = tk_status (if j = tk_id t then t else a)"
  using plan
proof (cases rule: plan_cases)
  case (1 prior u q)
  note u = check_proposed_cases [OF 1(1)]
  have "propagated c (gp_tasks q) (gp_tasks p)" using settle_members_settles [OF 1(3) propagated_refl] ..
  from this b obtain a where a: "dict_get (gp_tasks q) j = Some a" "tk_status b = tk_status a"
  proof (cases rule: propagated_lookup)
    case (2 t0)
    with exec that show ?thesis
      by (auto simp: propagated_task_def released_status_def executing_statuses_def split: if_splits)
  qed (use that in simp)
  show ?thesis
  proof (cases "j = tk_id t")
    case True
    with a(1) 1(2) u(7) have "a = u" by (simp add: dict_get_put)
    with a(2) exec proposed_status [OF 1(1)] True u(1,7) show ?thesis by simp
  next
    case False
    with a 1(2) u(7) show ?thesis by (simp add: dict_get_put)
  qed
qed

lemma planned_ids:
  assumes "plan_graph_transition c current t recorded = Inr p" "ids_ok current"
  shows "ids_ok (gp_tasks p)"
  using assms(1)
proof (cases rule: plan_cases)
  case (1 prior u q)
  have "ids_ok (gp_tasks q)" unfolding 1(2) using assms(2) by (simp add: ids_ok_put)
  with settle_ids [OF 1(3)] show ?thesis .
qed

text \<open>The tasks of a transition against what was stored: what may run or complete, and by whose request.\<close>

lemma stored_status:
  assumes tr: "stored_transition c graph_now recorded members t = Inr tr" and ids: "ids_ok members"
    and u: "u \<in> set (gt_tasks tr)" and exec: "tk_status u \<in> executing_statuses"
  shows "tk_id u = tk_id t \<and> tk_status u = tk_status t \<or> (\<exists>a. dict_get members (tk_id u) = Some a \<and> tk_status u = tk_status a)"
proof (cases "dict_get (gx_roots c) (tk_id t) \<noteq> None")
  case True
  with tr u have "u = t" by (auto simp: stored_transition_def)
  then show ?thesis by simp
next
  case False
  with tr obtain g p where p: "plan_graph_transition g members t recorded = Inr p" "gt_tasks tr = transition_tasks members p"
    by (auto simp: stored_transition_def bind_res_eq_Inr)
  from u p(2) obtain j where j: "dict_get (gp_tasks p) j = Some u" by (auto simp: transition_tasks_set)
  have "tk_id u = j" using planned_ids [OF p(1) ids] j by (simp add: ids_ok_def)
  with planned_status [OF p(1) j exec] show ?thesis by (cases "j = tk_id t") auto
qed

lemma resumed_status:
  assumes "fresh_resumed_execution s current ts = Inr us"
  shows "list_all2 (\<lambda>t u. tk_id u = tk_id t \<and> tk_status u = tk_status t) ts us"
  using assms unfolding fresh_resumed_execution_def traverse_res_Inr
  by (rule list_all2_mono) (auto simp: freshly_resumed_def bind_res_eq_Inr split: option.splits if_splits)

lemma all2_source: "list_all2 P xs ys \<Longrightarrow> y \<in> set ys \<Longrightarrow> \<exists>x \<in> set xs. P x y"
  by (induction rule: list_all2_induct) auto

text \<open>The member a task descends from: itself, unless the store's index names another.\<close>

definition origin_of :: "group_context \<Rightarrow> string \<Rightarrow> string" where
  "origin_of c i = (case dict_get (gx_roots c) i of None \<Rightarrow> i | Some r \<Rightarrow> r)"

text \<open>The status a fenced task may have after \<open>st\<close>: it never completes, and runs only if it ran.\<close>

definition fenced_status :: "task_status \<Rightarrow> task_status \<Rightarrow> bool" where
  "fenced_status st st' \<longleftrightarrow> st' \<noteq> COMPLETED \<and> (st' \<in> {CLAIMED, RUNNING} \<longrightarrow> st \<in> {CLAIMED, RUNNING})"

lemma fenced_same: "st \<notin> terminal_task_statuses \<Longrightarrow> fenced_status st st"
  by (auto simp: fenced_status_def terminal_task_statuses_def)

lemma fenced_idle: "st' \<notin> executing_statuses \<Longrightarrow> fenced_status st st'"
  by (auto simp: fenced_status_def executing_statuses_def)

lemma fenced_proposal:
  assumes "require_group_mutation s a t origin = Inr ()" "tk_status a \<notin> terminal_task_statuses"
    and "(case origin of None \<Rightarrow> tk_id a | Some r \<Rightarrow> if r = [] then tk_id a else r) \<in> set (ba_loser_task_ids (gn_barrier s))"
  shows "fenced_status (tk_status a) (tk_status t)"
  using assms by (auto simp: require_group_mutation_def Let_def raise_if_def fenced_status_def split: if_splits)

text \<open>
  C13. Work that lost is fenced.  When any task of the graph is stored, a loser of the group that has not
  finished, or a retry attempt that descends from one, is not completed by it, directly or by what follows
  from the plan, and is not claimed or running afterwards unless it was before.
\<close>
theorem fenced_work_never_completes:
  assumes run: "plan_stored_task c graph_now recorded members lineage t successor settled invocation = Inr r"
    and s: "group_snapshot_valid (gx_snapshot c)"
    and ids: "ids_ok members" "ids_ok (dict_merge members lineage)"
    and apart: "\<forall>j a. dict_get members j = Some a \<longrightarrow> dict_get (dict_merge members lineage) j = Some a"
    and new: "\<forall>u. successor = Some u \<longrightarrow> dict_get (dict_merge members lineage) (tk_id u) = None"
    and loser: "origin_of c i \<in> set (ba_loser_task_ids (gn_barrier (gx_snapshot c)))"
    and a: "dict_get (dict_merge members lineage) i = Some a" "tk_status a \<notin> terminal_task_statuses"
    and b: "dict_get (put_tasks (gg_tasks r) (dict_merge members lineage)) i = Some b"
  shows "fenced_status (tk_status a) (tk_status b)"
proof -
  let ?current = "dict_merge members lineage" and ?c = "c\<lparr>gx_roots := extended_roots c t successor\<rparr>"
  from run obtain prior tr where prior: "dict_get ?current (tk_id t) = Some prior"
    and guard: "require_group_mutation (gx_snapshot c) prior t (dict_get (gx_roots c) (tk_id t)) = Inr ()"
    and tr: "stored_transition c graph_now recorded members t = Inr tr"
    and plan: "plan_group_graph_transition ?c (with_successor successor tr) ?current settled invocation = Inr r"
    by (auto simp: plan_stored_task_def Let_def bind_res_eq_Inr split: option.splits)
  have named: "\<forall>l \<in> set (ba_loser_task_ids (gn_barrier (gx_snapshot c))). l \<noteq> []"
    using s no_empty_identifier by (auto simp: group_snapshot_valid_def barrier_valid_def canonical_identifiers_def list_all_iff)
  have direct: "fenced_status (tk_status a) (tk_status u)" if u: "u \<in> set (gt_tasks tr)" "tk_id u = i" for u
  proof (cases "tk_status u \<in> executing_statuses")
    case True
    from stored_status [OF tr ids(1) u(1) True] show ?thesis
    proof
      assume t: "tk_id u = tk_id t \<and> tk_status u = tk_status t"
      with u(2) prior a(1) have same: "prior = a" "tk_id t = i" by auto
      have "tk_id a = i" using ids(2) a(1) by (simp add: ids_ok_def)
      with fenced_proposal [OF guard [unfolded same] a(2)] loser named t show ?thesis
        by (auto simp: origin_of_def split: option.splits if_splits)
    next
      assume "\<exists>x. dict_get members (tk_id u) = Some x \<and> tk_status u = tk_status x"
      then obtain x where "dict_get members i = Some x" "tk_status u = tk_status x" using u(2) by blast
      moreover from this(1) apart a(1) have "x = a" by fastforce
      ultimately show ?thesis using fenced_same [OF a(2)] by simp
    qed
  qed (rule fenced_idle)
  have stored: "fenced_status (tk_status a) (tk_status u)" if u: "u \<in> set (gt_tasks (with_successor successor tr))" "tk_id u = i" for u
  proof -
    have "u \<in> set (gt_tasks tr)" using u new a(1) by (cases successor) (auto simp: with_successor_def)
    then show ?thesis using u(2) by (rule direct)
  qed
  from plan show ?thesis
  proof (cases rule: group_plan_cases)
    case (outcome g)
    with s loser show ?thesis by (auto simp: group_snapshot_valid_def snapshot_checks_def barrier_matches_def barrier_valid_def Let_def)
  next
    case (barrier timeout changed g xs q)
    let ?start = "put_tasks changed ?current"
    have winds: "winds_down ?start (gl_tasks q)"
      using plan_barrier_settles [OF barrier(4)] put_tasks_ids [OF ids(2)] by (simp add: initial_barrier)
    obtain x where x: "dict_get ?start i = Some x" "fenced_status (tk_status a) (tk_status x)"
    proof (cases "find (\<lambda>t. tk_id t = i) (rev changed)")
      case None
      with a that [of a] fenced_same [OF a(2)] show ?thesis by (simp add: put_tasks_get)
    next
      case (Some x)
      then have "x \<in> set changed" "tk_id x = i" by (auto simp: find_Some_iff rev_nth)
      then obtain u where "u \<in> set (gt_tasks (with_successor successor tr))" "tk_id x = tk_id u" "tk_status x = tk_status u"
        using all2_source [OF resumed_status [OF barrier(2)]] by blast
      with Some that [of x] stored [of u] \<open>tk_id x = i\<close> show ?thesis by (simp add: put_tasks_get)
    qed
    from winds x(1) obtain y where y: "dict_get (gl_tasks q) i = Some y" "tk_status y \<in> executing_statuses \<longrightarrow> tk_status y = tk_status x"
      by (auto simp: winds_down_def)
    have "ids_ok (gl_tasks q)" using winds by (simp add: winds_down_def)
    from changed_lookup [OF this y(1)] b barrier(6) have "b = y" by simp
    with y(2) x(2) fenced_idle show ?thesis by (cases "tk_status y \<in> executing_statuses") auto
  qed
qed

section \<open>Sample runs\<close>

text \<open>The group of \<open>Group_Decisions\<close>: first \<open>a\<close> wins while \<open>b\<close> is pending; then a late failure of \<open>b\<close>.\<close>

definition sample_tasks :: "task_status \<Rightarrow> task_status \<Rightarrow> (string, task) dict" where
  "sample_tasks sa sb = [(''a'', sample_node ''a'' sa []), (''b'', sample_node ''b'' sb []), (''c'', sample_node ''c'' WAITING_GROUP [])]"

definition sample_racing :: group_snapshot where
  "sample_racing = sample_group\<lparr>gn_members := [sample_member ''a'' RUNNING, sample_member ''b'' PENDING]\<rparr>"

definition sample_group_context :: "group_snapshot \<Rightarrow> group_context" where
  "sample_group_context s = \<lparr>gx_digest = zero_digest, gx_snapshot = s, gx_prerequisites = [(''a'', []), (''b'', []), (''c'', [])],
     gx_first_sequence = 5, gx_now = 9, gx_roots = [], gx_effects = [], gx_resolve = False\<rparr>"

definition sample_win :: "group_graph_publication result" where
  "sample_win = plan_group_graph_transition (sample_group_context sample_racing)
     \<lparr>gt_tasks = [sample_node ''a'' COMPLETED []], gt_events = [], gt_settlements = []\<rparr> (sample_tasks RUNNING PENDING) None None"

definition sample_decided :: group_snapshot where
  "sample_decided = sample_group\<lparr>gn_members := [sample_member ''a'' COMPLETED, sample_member ''b'' RUNNING],
     gn_decision := Some \<lparr>de_succeeded = True, de_decided_at = 5, de_successful = [''a''], de_unsuccessful = [], de_impossible = False\<rparr>,
     gn_barrier := \<lparr>ba_status = Q_DRAINING, ba_deadline = Some 60000005, ba_loser_task_ids = [''b''], ba_unsettled_task_ids = [''b''],
       ba_executions = [], ba_finalizer_status = F_WAITING\<rparr>, gn_last_sequence := 6\<rparr>"

definition sample_late :: "group_graph_publication result" where
  "sample_late = plan_stored_task (sample_group_context sample_decided) 9 False (sample_tasks COMPLETED RUNNING) []
     (sample_node ''b'' FAILED []) None None None"

lemma sample_ids: "ids_ok (sample_tasks sa sb)"
  by (auto simp: ids_ok_def sample_tasks_def sample_node_def sample_event_task_def)

lemma sample_win_ran:
  "case sample_win of Inl e \<Rightarrow> False
   | Inr r \<Rightarrow> ba_status (gn_barrier (gg_snapshot r)) = Q_QUIESCENT \<and> ba_loser_task_ids (gn_barrier (gg_snapshot r)) = [''b'']"
  by code_simp

lemma sample_late_ran: "case sample_late of Inl e \<Rightarrow> False | Inr r \<Rightarrow> dict_get (put_tasks (gg_tasks r) (sample_tasks COMPLETED RUNNING)) ''b'' \<noteq> None"
  by code_simp

theorem quiescent_group_is_settled_witness:
  "case sample_win of Inl e \<Rightarrow> False
   | Inr r \<Rightarrow> (case dict_get (put_tasks (gg_tasks r) (sample_tasks RUNNING PENDING)) ''b'' of
       None \<Rightarrow> False | Some t \<Rightarrow> tk_status t \<in> terminal_task_statuses)"
proof -
  from sample_win_ran obtain r where ran: "sample_win = Inr r" and after: "ba_status (gn_barrier (gg_snapshot r)) = Q_QUIESCENT"
    and losers: "ba_loser_task_ids (gn_barrier (gg_snapshot r)) = [''b'']" by (auto split: sum.splits)
  have before: "ba_status (gn_barrier (gx_snapshot (sample_group_context sample_racing))) \<noteq> Q_QUIESCENT"
    by (simp add: sample_group_context_def sample_racing_def sample_group_def)
  have b: "''b'' \<in> set (ba_loser_task_ids (gn_barrier (gg_snapshot r)))" by (simp add: losers)
  from quiescent_group_is_settled [OF ran [unfolded sample_win_def] sample_ids before after b disjI1 [OF refl]]
  show ?thesis unfolding ran by (auto split: option.splits)
qed

lemma sample_decided_valid: "group_snapshot_valid sample_decided" by code_simp

theorem fenced_work_never_completes_witness:
  "case sample_late of Inl e \<Rightarrow> False
   | Inr r \<Rightarrow> (case dict_get (put_tasks (gg_tasks r) (sample_tasks COMPLETED RUNNING)) ''b'' of
       None \<Rightarrow> False | Some t \<Rightarrow> fenced_status RUNNING (tk_status t))"
proof -
  let ?c = "sample_group_context sample_decided" and ?T = "sample_tasks COMPLETED RUNNING"
  from sample_late_ran obtain r b where ran: "sample_late = Inr r" and b: "dict_get (put_tasks (gg_tasks r) ?T) ''b'' = Some b"
    by (auto split: sum.splits)
  have merged: "dict_merge ?T [] = ?T" by (simp add: dict_merge_def)
  have s: "group_snapshot_valid (gx_snapshot ?c)" using sample_decided_valid by (simp add: sample_group_context_def)
  have apart: "\<forall>j a. dict_get ?T j = Some a \<longrightarrow> dict_get (dict_merge ?T []) j = Some a" by (simp add: merged)
  have new: "\<forall>u. (None :: task option) = Some u \<longrightarrow> dict_get (dict_merge ?T []) (tk_id u) = None" by simp
  have loser: "origin_of ?c ''b'' \<in> set (ba_loser_task_ids (gn_barrier (gx_snapshot ?c)))"
    by (simp add: origin_of_def sample_group_context_def sample_decided_def)
  have a: "dict_get (dict_merge ?T []) ''b'' = Some (sample_node ''b'' RUNNING [])" unfolding merged by (simp add: sample_tasks_def)
  have st: "tk_status (sample_node ''b'' RUNNING []) = RUNNING" by (simp add: sample_node_def sample_event_task_def)
  then have live: "tk_status (sample_node ''b'' RUNNING []) \<notin> terminal_task_statuses" by (simp add: terminal_task_statuses_def)
  have b': "dict_get (put_tasks (gg_tasks r) (dict_merge ?T [])) ''b'' = Some b" using b by (simp add: merged)
  have ids': "ids_ok (dict_merge ?T [])" by (simp add: merged sample_ids)
  from fenced_work_never_completes [OF ran [unfolded sample_late_def] s sample_ids ids' apart new loser a live b'] st b
  show ?thesis unfolding ran by simp
qed

end
