(* ===== verification/Spec2Isabelle.thy ===== *)
theory Spec2Isabelle
  imports Ledger_Settlement Retry_Series Store_Contracts Store_Retention Group_Safety
begin

text \<open>
  Verification of the cost and task core of cayu, a Python framework that runs durable agents.  Paths
  below are relative to \<open>src/cayu/\<close> of the repository.

  \<^bold>\<open>The program.\<close>  A runtime makes model calls and runs tools for sessions.  Two components decide
  what it may do.  The \<^emph>\<open>budget ledger\<close> (\<open>budgets/base.py\<close>) reserves money before a model call and settles
  the reservation afterwards; it measures spend against the limits of an application in all-time, rolling or
  calendar windows, computes worst-case amounts from a price book (\<open>budgets/pricing.py\<close>) and billing
  identities (\<open>budgets/billing.py\<close>), and keeps an outbox of settlements to publish.  The \<^emph>\<open>task store\<close>
  (\<open>tasks/\<close>) keeps durable units of work: each has a status, an optional schedule, a retry series with its
  own budget, and may belong to a graph of dependencies; the store accounts the attempts made for one event
  under a retry key.  Members of a graph may form a \<^emph>\<open>group\<close> (\<open>tasks/groups.py\<close>) whose policy (all, any, k of
  them) is decided once; the losers are then stopped behind a barrier before a finalizer may run.

  \<^bold>\<open>Theories.\<close>
  \<^item> \<open>Cayu_Prelude\<close>: exceptions, results and state actions that may raise, dictionaries in insertion order,
    durable JSON, text checks, instants, \<open>bisect\<close>, and two locales for transition systems (an invariant kept
    by every step; a property no step undoes).  Components interpret the locales on their own steps.
  \<^item> \<open>Budget_Window\<close>: \<open>BudgetWindow\<close>, its storage keys and parser, calendar arithmetic and window bounds.
  \<^item> \<open>Billing\<close>: pricing contexts, billing identities, and the check that a completion matches its request.
  \<^item> \<open>Price_Book\<close>: price tiers, schedules, match rules, resolution of a price and the cost of a usage.
  \<^item> \<open>Budget_Limits\<close>: limits, reservations by token bound or fixed amount, and the reserved amount.
  \<^item> \<open>Budget_Records\<close>: reservation, reconciliation and settlement records with their validators.
  \<^item> \<open>Budget_Ledger\<close>: the state of \<open>InMemoryBudgetLedger\<close> and every public coroutine as an action.
  \<^item> \<open>Ledger_Samples\<close>: a concrete ledger for the witnesses.
  \<^item> \<open>Ledger_Invariant\<close>, \<open>Ledger_Spending\<close>, \<open>Ledger_Settlement\<close>: the step relation of the ledger and its proofs.
  \<^item> \<open>Task_Records\<close>: the task snapshot of \<open>tasks/records.py\<close> with all its validators, schedules
    (\<open>tasks/scheduling.py\<close>) and their phases, retry policies and series, and the attempt authority digest.
  \<^item> \<open>Task_Retry\<close>: settlement of attempts, successors, receipts and runtime settlements of \<open>tasks/retry.py\<close>.
  \<^item> \<open>Retry_Budget\<close>: the state machine of one retry key (\<open>tasks/retry_budgets.py\<close>) and its proofs.
  \<^item> \<open>Retry_Series\<close>: proofs about backoff, successors, receipts and chains of attempts.
  \<^item> \<open>Task_Graphs\<close>: cycle check, events, members, snapshots and the planning of graph transitions
    (\<open>tasks/graphs.py\<close>, \<open>tasks/_graphs.py\<close>).
  \<^item> \<open>Graph_Proofs\<close>: proofs about graphs, with a sample graph.
  \<^item> \<open>Task_Lifecycle\<close>, \<open>Task_Authority\<close>: the guards every operation of the store calls: transitions, leases,
    session attachment, schedule mutations (\<open>tasks/_lifecycle.py\<close>, \<open>tasks/_scheduling.py\<close>); terminalization
    requests and receipts, cancellation, interrupted handoffs and restarts (\<open>tasks/terminalization.py\<close>,
    \<open>tasks/_cancellation.py\<close>, \<open>tasks/handoff.py\<close>, \<open>tasks/restart.py\<close>).
  \<^item> \<open>Task_Store\<close>: the state of \<open>InMemoryTaskStore\<close> (\<open>tasks/memory.py\<close>): tasks, indices, receipts, schedule log,
    graphs and retry keys; and how one task is written (\<open>_store_task\<close>, \<open>_publish_prepared_task_write\<close>) with the
    graph transaction of \<open>tasks/_memory_graphs.py\<close>.
  \<^item> \<open>Task_Claims\<close>, \<open>Task_Outcomes\<close>, \<open>Task_Handoffs\<close>, \<open>Task_Mutations\<close>: the public coroutines of the store:
    claims, heartbeats, releases, reclaims, starts and restarts; completion, failure, cancellation and
    terminalization; hand-over of interrupted tasks; holds, settlements of attempts and schedule mutations.
  \<^item> \<open>Task_Creation\<close>, \<open>Graph_Creation\<close>: creation of single and running tasks (\<open>tasks/creation.py\<close>) and of graphs
    (\<open>tasks/_graph_admission.py\<close>), with replay of requests already admitted.
  \<^item> \<open>Store_Steps\<close>: what one write of the store may do (\<open>write_allowed\<close>, \<open>store_step\<close>) and the well-formedness of a
    store: \<open>keyed\<close> (stored under the own identity), \<open>linked\<close> (graph members and their contexts agree) and
    \<open>sole_holders\<close> (one live lease per concurrency key), kept by every step.
  \<^item> \<open>Store_Writes\<close>, \<open>Store_Operations\<close>, \<open>Claim_Steps\<close>, \<open>Outcome_Steps\<close>, \<open>Mutation_Steps\<close>, \<open>Creation_Steps\<close>: the
    refinement of the steps by the writes and by each group of coroutines.
  \<^item> \<open>Store_Runs\<close>: the store as a machine over all its operations, and what holds after any run.
  \<^item> \<open>Store_Contracts\<close>: what claims, heartbeats and reschedules promise their callers.
  \<^item> \<open>Task_Groups\<close>: requests, receipts, decisions, events and snapshots of groups with their validators
    (\<open>tasks/groups.py\<close>), admission and replay, and the election planner \<open>plan_group_transition\<close> (\<open>tasks/_groups.py\<close>).
  \<^item> \<open>Group_Barrier\<close>: the barrier of \<open>tasks/_group_quiescence.py\<close>: retained executions, invocations and result
    resolutions, fencing of losers, the lineage check (\<open>tasks/_group_lineage.py\<close>), and the planner of the complete
    write set.  The planner's local variables are the record \<open>group_plan\<close>, its arguments \<open>group_context\<close>; its
    nested functions \<open>event\<close> and \<open>change\<close> are \<open>barrier_event\<close> and \<open>group_change\<close>.
  \<^item> \<open>Group_Decisions\<close>, \<open>Group_Safety\<close>: the proofs about decisions and about losing work.

  \<^bold>\<open>Correspondence.\<close>  A Python class is a record with the class's fields under a prefix (\<open>rec_\<close>, \<open>tk_\<close>, ...);
  its pydantic validators are one predicate named \<open>..._valid\<close>; a function keeps its name without leading
  underscores.  A function that may raise returns \<open>err + 'a\<close>, one constructor of \<open>err\<close> per exception class;
  messages are not modelled.  A coroutine that holds its object's lock is an atomic action on the state record,
  and an exception half way keeps the mutations made so far.  The clock is an argument (\<open>now\<close>, \<open>series_now\<close>):
  each call reads it once.  The task store reads two injected clocks, one for availability and one for the
  ownership of leases, as functions from the number of readings made so far.  Decimals are exact rationals and floating point numbers are rationals; instants are
  microseconds since the epoch with the range of \<open>datetime\<close>, and leaving it is the source's OverflowError.
  Text is a list of code points below 256.  Dictionaries that are iterated keep their order; JSON objects,
  which are only compared and hashed, are finite maps.

  \<^bold>\<open>Parameters.\<close>  SHA-256 over canonical JSON is the function \<open>digest\<close>; where the receipts of settlements
  need it, its results are assumed to be 64 hexadecimal characters, and \<open>zero_digest\<close> shows that this can hold.
  Nothing assumes it injective.  The IANA zone database is the argument \<open>zones\<close>.  Fresh identifiers are arguments.
  The clocks of the store are the fields of \<open>store_env\<close>; \<open>env_ok\<close> states that the ownership clock does not go
  back and that digests are 64 hexadecimal characters, and \<open>sample_env\<close> is such an environment.  The lease
  authority a runtime installs around a coroutine (\<open>runtime/_task_lease_authority.py\<close>) is an argument.

  \<^bold>\<open>What the lemmas show.\<close>  Ledger: every reachable ledger is well formed; measured usage never exceeds a
  ceiling while actual costs stay within reservations; batches are all or nothing; settlements are exact,
  idempotent and frozen; the outbox can be paged without gaps; expired reservations are reaped; a null
  execution profile can never be settled.  Prices: tiers, schedules and matches are unique and the reserved
  amount covers the cost of any covered usage.  Retries: the backoff in closed form, receipts always validate,
  successors and chains of them stay within the policy, a retry key stays within its budget and is final once
  closed, and a succeeded event blocks the settlement of its other attempts.  Graphs: the cycle check decides
  acyclicity, propagation computes the closure of failures, plans keep graphs consistent and terminal members
  final, and an unfinished graph always has a member that can run.  Task store: every operation, returning or
  raising, is a sequence of abstract steps; hence stored tasks always pass the validators of \<open>Task\<close>, are never
  removed, keep their identity and are final once terminal, and no two tasks with one concurrency key hold live
  leases; a claim takes the oldest claimable task, a heartbeat needs the live lease, and schedule mutations are
  ordered by revision and replayed by operation.  Groups: a publication fails only for foreign or stale
  evidence and otherwise passes every validator; the decision is exact for its policy and never changes; a
  barrier becomes quiescent only when all losing work is terminal and its executions and effects are settled;
  losing work is never completed nor started again by any stored task of the graph.

  \<^bold>\<open>Loops and termination.\<close>  No fuel is used.  The peeling loop of the cycle check ends because every round
  removes a node; the propagation loop ends because every change lowers the sum of the members' ranks
  (waiting 2, other unfinished 1, finished 0); the backoff loop counts attempts down; the search for the
  ancestors of a finalizer ends because it visits each node once.

  \<^bold>\<open>Not modelled.\<close>  Size limits of durable JSON documents and of decimals' digits; event provenance marks;
  effective-limit identity digests; work contracts beyond their presence.  Of the task store: task groups (the
  store theories model a store without groups, and the planning half of storing a task of a group is
  \<open>plan_stored_task\<close>, on its own; the coroutines that create, reconcile and list groups and the maintenance loop
  of \<open>tasks/_group_maintenance.py\<close> are left out), work attempts and completion verification, session closure,
  retention and deletion, reconciliation of drained cancellations, access scopes (a request is made by the
  unscoped caller), declared operations, and listings other than those named above.  The catalogue of models and
  the bundled price data; budget checks against recorded usage, run limits and usage aggregates.  The storage
  backends repeat the in-memory store in SQL; servers, providers, tools, sessions and the runtime engine are
  asynchronous orchestration or clients of external systems.
\<close>

end
